(* ===== verification/Prelude.thy ===== *)
theory Prelude
  imports Main "HOL-Library.Word" "HOL-Library.Monad_Syntax"
begin

unbundle bit_operations_syntax

text \<open>
  Vocabulary shared by all components: the machine integer types of \<open>types.h\<close>, checked array
  accesses, counted loops and the fact collections used by the proofs.

  A C expression with no defined result (an index outside its array, a null dereference, a
  division by zero, a loop that never ends) is \<open>None\<close>; a C result, error returns such as \<open>-1\<close>
  included, is a value under \<open>Some\<close>.
\<close>

section \<open>Integer types of types.h\<close>

type_synonym u8 = "8 word"
type_synonym u16 = "16 word"
type_synonym u32 = "32 word"

text \<open>Byte-addressed memory, reached through 32-bit pointers.\<close>

type_synonym mem = "u32 \<Rightarrow> u8"

named_theorems access_simps \<open>when a checked access succeeds and what it returns\<close>
named_theorems frame_simps \<open>what an operation leaves alone\<close>
named_theorems inv_intros \<open>an operation preserves a component invariant\<close>

section \<open>Checked array accesses\<close>

definition aget :: "'a list \<Rightarrow> int \<Rightarrow> 'a option" where
  "aget xs i = (if 0 \<le> i \<and> i < int (length xs) then Some (xs ! nat i) else None)"

definition aset :: "'a list \<Rightarrow> int \<Rightarrow> 'a \<Rightarrow> 'a list option" where
  "aset xs i x = (if 0 \<le> i \<and> i < int (length xs) then Some (xs[nat i := x]) else None)"

lemma aget_in [access_simps]: "0 \<le> i \<Longrightarrow> i < int (length xs) \<Longrightarrow> aget xs i = Some (xs ! nat i)"
  by (simp add: aget_def)

lemma aset_in [access_simps]:
  "0 \<le> i \<Longrightarrow> i < int (length xs) \<Longrightarrow> aset xs i x = Some (xs[nat i := x])"
  by (simp add: aset_def)

lemma aget_eq_Some:
  "aget xs i = Some x \<longleftrightarrow> 0 \<le> i \<and> i < int (length xs) \<and> x = xs ! nat i"
  by (auto simp: aget_def)

lemma aset_eq_Some:
  "aset xs i x = Some ys \<longleftrightarrow> 0 \<le> i \<and> i < int (length xs) \<and> ys = xs[nat i := x]"
  by (auto simp: aset_def)

lemma aget_eq_None: "aget xs i = None \<longleftrightarrow> i < 0 \<or> int (length xs) \<le> i"
  by (auto simp: aget_def)

lemma aset_eq_None: "aset xs i x = None \<longleftrightarrow> i < 0 \<or> int (length xs) \<le> i"
  by (auto simp: aset_def)

section \<open>Counted loops\<close>

text \<open>\<open>for_range a b body s\<close> is \<open>for (i = a; i < b; i++) s = body(i, s)\<close>.\<close>

definition for_range :: "nat \<Rightarrow> nat \<Rightarrow> (nat \<Rightarrow> 's \<Rightarrow> 's) \<Rightarrow> 's \<Rightarrow> 's" where
  "for_range a b body s = fold body [a..<b] s"

lemma for_range_empty [simp]: "b \<le> a \<Longrightarrow> for_range a b body s = s"
  by (simp add: for_range_def)

lemma for_range_Suc: "a \<le> b \<Longrightarrow> for_range a (Suc b) body s = body b (for_range a b body s)"
  by (simp add: for_range_def)

lemma for_range_inv:
  assumes "P a s" "a \<le> b"
    and "\<And>i s. a \<le> i \<Longrightarrow> i < b \<Longrightarrow> P i s \<Longrightarrow> P (Suc i) (body i s)"
  shows "P b (for_range a b body s)"
  using assms(2,3)
proof (induction b rule: dec_induct)
  case base
  then show ?case using assms(1) by simp
next
  case (step n)
  then show ?case by (simp add: for_range_Suc)
qed

text \<open>The same loop with a body that may be undefined, and the two array loops the kernel writes out
  everywhere.\<close>

definition for_opt :: "nat \<Rightarrow> nat \<Rightarrow> (nat \<Rightarrow> 's \<Rightarrow> 's option) \<Rightarrow> 's \<Rightarrow> 's option" where
  "for_opt a b body s = fold (\<lambda>i so. Option.bind so (body i)) [a..<b] (Some s)"

definition array_fill :: "nat \<Rightarrow> 'a \<Rightarrow> 'a list \<Rightarrow> 'a list option" where
  "array_fill n v xs = for_opt 0 n (\<lambda>i xs. aset xs (int i) v) xs"

definition array_copy :: "nat \<Rightarrow> 'a list \<Rightarrow> 'a list \<Rightarrow> 'a list option" where
  "array_copy n src dst = for_opt 0 n (\<lambda>i dst. do { x \<leftarrow> aget src (int i); aset dst (int i) x }) dst"

lemma for_opt_empty [simp]: "b \<le> a \<Longrightarrow> for_opt a b body s = Some s"
  by (simp add: for_opt_def)

lemma for_opt_Suc: "a \<le> b \<Longrightarrow> for_opt a (Suc b) body s = do { s \<leftarrow> for_opt a b body s; body b s }"
  by (simp add: for_opt_def)

lemma for_opt_inv:
  assumes "P a s" "a \<le> b"
    and "\<And>i s. a \<le> i \<Longrightarrow> i < b \<Longrightarrow> P i s \<Longrightarrow> \<exists>s'. body i s = Some s' \<and> P (Suc i) s'"
  shows "\<exists>s'. for_opt a b body s = Some s' \<and> P b s'"
  using assms(2,3)
proof (induction b rule: dec_induct)
  case base
  then show ?case using assms(1) by simp
next
  case (step n)
  then obtain s' where "for_opt a n body s = Some s'" "P n s'" by auto
  moreover from step.prems [OF step.hyps(1) _ this(2)] obtain s'' where "body n s' = Some s''" "P (Suc n) s''"
    by auto
  ultimately show ?case using step.hyps by (simp add: for_opt_Suc)
qed

lemma take_Suc_update: "n < length xs \<Longrightarrow> take (Suc n) (xs[n := x]) = take n xs @ [x]"
  by (simp add: take_Suc_conv_app_nth)

lemma array_copy_eq:
  "n \<le> length src \<Longrightarrow> n \<le> length dst \<Longrightarrow> array_copy n src dst = Some (take n src @ drop n dst)"
proof (induction n)
  case 0
  then show ?case by (simp add: array_copy_def)
next
  case (Suc n)
  then have "array_copy (Suc n) src dst = aset (take n src @ drop n dst) (int n) (src ! n)"
    by (simp add: array_copy_def for_opt_Suc aget_in)
  also have "\<dots> = Some (take (Suc n) src @ drop (Suc n) dst)"
    using Suc.prems by (simp add: aset_in take_Suc_conv_app_nth list_update_append Cons_nth_drop_Suc [symmetric]
        min_def)
  finally show ?case .
qed

lemma array_fill_eq:
  "n \<le> length xs \<Longrightarrow> array_fill n v xs = Some (replicate n v @ drop n xs)"
proof (induction n)
  case 0
  then show ?case by (simp add: array_fill_def)
next
  case (Suc n)
  then have "array_fill (Suc n) v xs = aset (replicate n v @ drop n xs) (int n) v"
    by (simp add: array_fill_def for_opt_Suc)
  also have "\<dots> = Some (replicate (Suc n) v @ drop (Suc n) xs)"
    using Suc.prems by (simp add: aset_in list_update_append Cons_nth_drop_Suc [symmetric] replicate_append_same)
  finally show ?case .
qed

section \<open>Waiting for an interrupt\<close>

text \<open>\<open>while (!p);\<close> ends when an interrupt handler has made \<open>p\<close> true. \<open>irqs\<close> are the handlers that run
  while the loop spins, in order; \<open>None\<close> means that it still spins after all of them.\<close>

fun wait_until :: "('s \<Rightarrow> bool) \<Rightarrow> ('s \<Rightarrow> 's) list \<Rightarrow> 's \<Rightarrow> 's option" where
  "wait_until p [] s = (if p s then Some s else None)"
| "wait_until p (h # hs) s = (if p s then Some s else wait_until p hs (h s))"

lemma wait_until_now: "p s \<Longrightarrow> wait_until p irqs s = Some s"
  by (cases irqs) auto

lemma wait_until_stuck:
  "\<not> p s \<Longrightarrow> (\<And>h t. h \<in> set irqs \<Longrightarrow> \<not> p t \<Longrightarrow> \<not> p (h t)) \<Longrightarrow> wait_until p irqs s = None"
  by (induction irqs arbitrary: s) auto

lemma wait_until_woken:
  "\<not> p s \<Longrightarrow> (\<And>h t. h \<in> set before \<Longrightarrow> \<not> p t \<Longrightarrow> \<not> p (h t)) \<Longrightarrow> (\<And>t. p (wake t)) \<Longrightarrow>
   wait_until p (before @ wake # rest) s = Some (wake (fold (\<lambda>h. h) before s))"
  by (induction before arbitrary: s) (simp_all add: wait_until_now)

lemma wait_until_inv:
  "wait_until p irqs s = Some s' \<Longrightarrow> P s \<Longrightarrow> (\<And>h t. h \<in> set irqs \<Longrightarrow> P t \<Longrightarrow> P (h t)) \<Longrightarrow> P s' \<and> p s'"
  by (induction irqs arbitrary: s) (auto split: if_splits)

section \<open>Searching an array\<close>

text \<open>The first index of a list that satisfies a predicate, or its length: the shape of
  \<open>for (i = 0; i < n; i++) if (p) break;\<close>.\<close>

fun first_index :: "('a \<Rightarrow> bool) \<Rightarrow> 'a list \<Rightarrow> nat" where
  "first_index p [] = 0"
| "first_index p (x # xs) = (if p x then 0 else Suc (first_index p xs))"

lemma first_index_le: "first_index p xs \<le> length xs"
  by (induction xs) auto

lemma first_index_less: "first_index p xs < length xs \<longleftrightarrow> (\<exists>x\<in>set xs. p x)"
  by (induction xs) auto

lemma first_index_nth: "first_index p xs < length xs \<Longrightarrow> p (xs ! first_index p xs)"
  by (induction xs) (auto split: if_splits)

lemma first_index_before: "i < first_index p xs \<Longrightarrow> \<not> p (xs ! i)"
proof (induction xs arbitrary: i)
  case Nil
  then show ?case by simp
next
  case (Cons x xs)
  then show ?case by (cases i) (auto split: if_splits)
qed

lemma first_index_eqI:
  "i \<le> length xs \<Longrightarrow> (\<And>j. j < i \<Longrightarrow> \<not> p (xs ! j)) \<Longrightarrow> (i < length xs \<Longrightarrow> p (xs ! i)) \<Longrightarrow>
   first_index p xs = i"
  by (metis first_index_before first_index_le first_index_nth linorder_neqE_nat order_le_less
      order_less_le_trans)

section \<open>Addresses\<close>

lemma of_nat_u32_inj:
  "i < 4294967296 \<Longrightarrow> j < 4294967296 \<Longrightarrow> (of_nat i = (of_nat j :: u32)) = (i = j)"
proof -
  assume a: "i < 4294967296" "j < 4294967296"
  have "unat (of_nat i :: u32) = i" "unat (of_nat j :: u32) = j"
    using a by (simp_all add: unat_of_nat)
  then show ?thesis by metis
qed

end
