(* ===== verification/Buffers.thy ===== *)
theory Buffers
  imports Prelude
begin

text \<open>
  Byte buffers. The kernel's C code writes bytes through \<open>char *\<close> into two kinds of objects: fixed
  arrays (\<open>uint8_t arg[1024]\<close>, \<open>char conv_buf[64]\<close>) and memory it only has an address for
  (\<open>void *buf\<close> of a system call). Both provide the interface \<open>byte_store\<close>: an indexed read and an
  indexed write that fail outside the object. The string routines, the number printer and the file
  reader are stated for any provider, and their lemmas are proved once in the locale.
\<close>

section \<open>The two providers\<close>

definition arr_get :: "u8 list \<Rightarrow> nat \<Rightarrow> u8 option" where
  "arr_get xs i = (if i < length xs then Some (xs ! i) else None)"

definition arr_put :: "u8 list \<Rightarrow> nat \<Rightarrow> u8 \<Rightarrow> u8 list option" where
  "arr_put xs i x = (if i < length xs then Some (xs[i := x]) else None)"

text \<open>An address \<open>a\<close>: indices are 32-bit, so the object is the whole address space seen from \<open>a\<close>.\<close>

definition mem_get :: "u32 \<Rightarrow> mem \<Rightarrow> nat \<Rightarrow> u8 option" where
  "mem_get a m i = (if i < 4294967296 then Some (m (a + of_nat i)) else None)"

definition mem_put :: "u32 \<Rightarrow> mem \<Rightarrow> nat \<Rightarrow> u8 \<Rightarrow> mem option" where
  "mem_put a m i x = (if i < 4294967296 then Some (m(a + of_nat i := x)) else None)"

section \<open>The interface\<close>

text \<open>Storing a list of bytes from index \<open>i\<close> on, in ascending order.\<close>

fun put_list :: "('b \<Rightarrow> nat \<Rightarrow> u8 \<Rightarrow> 'b option) \<Rightarrow> 'b \<Rightarrow> nat \<Rightarrow> u8 list \<Rightarrow> 'b option" where
  "put_list put b i [] = Some b"
| "put_list put b i (x # xs) = do { b' \<leftarrow> put b i x; put_list put b' (Suc i) xs }"

lemma put_list_append:
  "put_list put b i (xs @ ys) = do { b' \<leftarrow> put_list put b i xs; put_list put b' (i + length xs) ys }"
  by (induction xs arbitrary: b i) (auto split: Option.bind_split)

lemma put_list_snoc:
  "put_list put b i (xs @ [y]) = do { b' \<leftarrow> put_list put b i xs; put b' (i + length xs) y }"
  by (simp add: put_list_append split: Option.bind_split)

locale byte_store =
  fixes get :: "'b \<Rightarrow> nat \<Rightarrow> u8 option"
    and put :: "'b \<Rightarrow> nat \<Rightarrow> u8 \<Rightarrow> 'b option"
  assumes put_None_iff: "put b i x = None \<longleftrightarrow> get b i = None"
    and get_put: "put b i x = Some b' \<Longrightarrow> get b' j = (if j = i then Some x else get b j)"
begin

lemma put_Some: "get b i = Some y \<Longrightarrow> \<exists>b'. put b i x = Some b'"
  using put_None_iff [of b i x] by (cases "put b i x") auto

lemma put_extent: "put b i x = Some b' \<Longrightarrow> get b' j = None \<longleftrightarrow> get b j = None"
  using get_put [of b i x b' j] put_None_iff [of b i x] by (cases "j = i") auto

lemma put_list_get:
  "put_list put b i xs = Some b' \<Longrightarrow>
   get b' j = (if i \<le> j \<and> j < i + length xs then Some (xs ! (j - i)) else get b j)"
proof (induction xs arbitrary: b i)
  case Nil
  then show ?case by auto
next
  case (Cons x xs)
  then obtain c where c: "put b i x = Some c" "put_list put c (Suc i) xs = Some b'"
    by (auto split: Option.bind_splits)
  show ?case
    using Cons.IH [OF c(2)] get_put [OF c(1), of j]
    by (auto simp: nth_Cons' Suc_diff_le dest: Suc_leI)
qed

lemma put_list_defined:
  "(\<And>k. k < length xs \<Longrightarrow> get b (i + k) \<noteq> None) \<Longrightarrow> \<exists>b'. put_list put b i xs = Some b'"
proof (induction xs arbitrary: b i)
  case Nil
  then show ?case by simp
next
  case (Cons x xs)
  from Cons.prems [of 0] obtain c where c: "put b i x = Some c"
    using put_Some by fastforce
  have "get c (Suc i + k) \<noteq> None" if "k < length xs" for k
    using Cons.prems [of "Suc k"] that put_extent [OF c] by auto
  from Cons.IH [OF this] c show ?case by auto
qed

lemma put_list_undefined:
  "k < length xs \<Longrightarrow> get b (i + k) = None \<Longrightarrow> put_list put b i xs = None"
proof (induction xs arbitrary: b i k)
  case Nil
  then show ?case by simp
next
  case (Cons x xs)
  show ?case
  proof (cases "put b i x")
    case None
    then show ?thesis by simp
  next
    case (Some c)
    then have "k \<noteq> 0" using Cons.prems put_None_iff [of b i x] by (cases k) auto
    then obtain k' where k: "k = Suc k'" by (cases k) auto
    have "get c (Suc i + k') = None" using Cons.prems k put_extent [OF Some] by auto
    with Cons.IH [of k' c "Suc i"] Cons.prems k Some show ?thesis by auto
  qed
qed

text \<open>A run of stores succeeds exactly when every index it touches lies in the object.\<close>

lemma put_list_Some_iff:
  "(\<exists>b'. put_list put b i xs = Some b') \<longleftrightarrow> (\<forall>k<length xs. get b (i + k) \<noteq> None)"
  using put_list_defined put_list_undefined by (metis option.distinct(1))

end

interpretation arr: byte_store arr_get arr_put
  by unfold_locales (auto simp: arr_get_def arr_put_def split: if_splits)

interpretation pmem: byte_store "mem_get a" "mem_put a" for a
  by unfold_locales (auto simp: mem_get_def mem_put_def of_nat_u32_inj split: if_splits)

lemma arr_put_list_eq:
  "i + length xs \<le> length ys \<Longrightarrow>
   put_list arr_put ys i xs = Some (take i ys @ xs @ drop (i + length xs) ys)"
proof (induction xs arbitrary: ys i)
  case Nil
  then show ?case by simp
next
  case (Cons x xs)
  then have "put_list arr_put (ys[i := x]) (Suc i) xs
      = Some (take (Suc i) (ys[i := x]) @ xs @ drop (Suc i + length xs) (ys[i := x]))"
    by (intro Cons.IH) simp
  moreover have "arr_put ys i x = Some (ys[i := x])"
    using Cons.prems by (simp add: arr_put_def)
  ultimately show ?case using Cons.prems by (simp add: take_Suc_conv_app_nth)
qed

lemma mem_put_list_eq:
  "i + length xs \<le> 4294967296 \<Longrightarrow>
   \<exists>m'. put_list (mem_put a) m i xs = Some m'"
  by (rule pmem.put_list_defined) (simp add: mem_get_def)

lemma arr_put_length: "arr_put xs i x = Some ys \<Longrightarrow> length ys = length xs"
  by (auto simp: arr_put_def split: if_splits)

lemma put_list_arr_length: "put_list arr_put xs i ys = Some zs \<Longrightarrow> length zs = length xs"
  by (induction ys arbitrary: xs i) (auto split: Option.bind_splits dest: arr_put_length)

section \<open>C strings\<close>

text \<open>A \<open>const char *\<close> that is only read: the byte at each index, or nothing outside the object.\<close>

type_synonym cstr = "nat \<Rightarrow> u8 option"

text \<open>\<open>s\<close> holds the characters \<open>xs\<close> followed by the terminating NUL.\<close>

definition is_cstr :: "cstr \<Rightarrow> u8 list \<Rightarrow> bool" where
  "is_cstr s xs \<longleftrightarrow> (\<forall>i<length xs. s i = Some (xs ! i)) \<and> s (length xs) = Some 0 \<and> 0 \<notin> set xs"

lemma is_cstrD:
  "is_cstr s xs \<Longrightarrow> i < length xs \<Longrightarrow> s i = Some (xs ! i)"
  "is_cstr s xs \<Longrightarrow> s (length xs) = Some 0"
  "is_cstr s xs \<Longrightarrow> i < length xs \<Longrightarrow> xs ! i \<noteq> 0"
  by (auto simp: is_cstr_def in_set_conv_nth)

lemma is_cstr_length_le:
  assumes "is_cstr s xs" "is_cstr s ys"
  shows "length xs \<le> length ys"
proof (rule ccontr)
  assume "\<not> length xs \<le> length ys"
  then have l: "length ys < length xs" by simp
  have "s (length ys) = Some (xs ! length ys)" by (rule is_cstrD(1) [OF assms(1) l])
  moreover have "s (length ys) = Some 0" by (rule is_cstrD(2) [OF assms(2)])
  ultimately show False using is_cstrD(3) [OF assms(1) l] by simp
qed

lemma is_cstr_unique:
  assumes "is_cstr s xs" "is_cstr s ys"
  shows "xs = ys"
proof (rule nth_equalityI)
  show len: "length xs = length ys"
    using is_cstr_length_le assms by (blast intro: order_antisym)
  show "xs ! i = ys ! i" if "i < length xs" for i
    using is_cstrD(1) [OF assms(1) that] is_cstrD(1) [OF assms(2), of i] that len by simp
qed

lemma is_cstr_arr:
  "0 \<in> set xs \<Longrightarrow> is_cstr (arr_get xs) (takeWhile (\<lambda>c. c \<noteq> 0) xs)"
proof -
  assume z: "0 \<in> set xs"
  let ?p = "takeWhile (\<lambda>c. c \<noteq> 0) xs"
  let ?d = "dropWhile (\<lambda>c. c \<noteq> 0) xs"
  have "?d \<noteq> []"
    using z by simp
  moreover have "length ?p + length ?d = length xs"
    by (metis length_append takeWhile_dropWhile_id)
  ultimately have l: "length ?p < length xs"
    by (metis length_greater_0_conv less_add_same_cancel1)
  then have "xs ! length ?p = 0" using nth_length_takeWhile by fastforce
  with l show ?thesis
    by (auto simp: is_cstr_def arr_get_def takeWhile_nth dest: set_takeWhileD)
qed

lemma is_cstr_append_arr: "0 \<notin> set xs \<Longrightarrow> is_cstr (arr_get (xs @ 0 # ys)) xs"
  by (auto simp: is_cstr_def arr_get_def nth_append)

end
