(* ===== verification/CLib.thy ===== *)
theory CLib
  imports Buffers
begin

text \<open>
  The string functions of \<open>lib.c\<close>: \<open>strlen\<close>, \<open>strcpy\<close>, \<open>strncpy\<close>, \<open>strncmp\<close>, \<open>strrev\<close>, \<open>itoa\<close>.
  Sources are \<open>cstr\<close> readers; destinations are any \<open>byte_store\<close>. A source and a destination are
  different objects, as at every call in the kernel. The loops are partial functions: \<open>None\<close> means
  that the loop leaves its object or never ends.
\<close>

section \<open>Definitions\<close>

partial_function (option) strlen_loop :: "cstr \<Rightarrow> nat \<Rightarrow> nat option" where
  [code]: "strlen_loop s len = do {
     c \<leftarrow> s len;
     if c \<noteq> 0 then strlen_loop s (Suc len) else Some len }"

definition strlen :: "cstr \<Rightarrow> nat option" where
  "strlen s = strlen_loop s 0"

partial_function (option) strcpy_loop ::
  "('b \<Rightarrow> nat \<Rightarrow> u8 \<Rightarrow> 'b option) \<Rightarrow> 'b \<Rightarrow> cstr \<Rightarrow> nat \<Rightarrow> ('b \<times> nat) option" where
  [code]: "strcpy_loop put dest src i = do {
     c \<leftarrow> src i;
     if c \<noteq> 0 then do { dest \<leftarrow> put dest i c; strcpy_loop put dest src (Suc i) }
     else Some (dest, i) }"

definition strcpy :: "('b \<Rightarrow> nat \<Rightarrow> u8 \<Rightarrow> 'b option) \<Rightarrow> 'b \<Rightarrow> cstr \<Rightarrow> 'b option" where
  "strcpy put dest src = do { (dest, i) \<leftarrow> strcpy_loop put dest src 0; put dest i 0 }"

text \<open>The copying loop of \<open>strncpy\<close> reads \<open>src[i]\<close> before it compares \<open>i\<close> with \<open>n\<close>.\<close>

partial_function (option) strncpy_copy ::
  "('b \<Rightarrow> nat \<Rightarrow> u8 \<Rightarrow> 'b option) \<Rightarrow> 'b \<Rightarrow> cstr \<Rightarrow> nat \<Rightarrow> nat \<Rightarrow> ('b \<times> nat) option" where
  [code]: "strncpy_copy put dest src i n = do {
     c \<leftarrow> src i;
     if c \<noteq> 0 \<and> i < n then do { dest \<leftarrow> put dest i c; strncpy_copy put dest src (Suc i) n }
     else Some (dest, i) }"

function strncpy_pad :: "('b \<Rightarrow> nat \<Rightarrow> u8 \<Rightarrow> 'b option) \<Rightarrow> 'b \<Rightarrow> nat \<Rightarrow> nat \<Rightarrow> 'b option" where
  "strncpy_pad put dest i n =
     (if i < n then do { dest \<leftarrow> put dest i 0; strncpy_pad put dest (Suc i) n } else Some dest)"
  by pat_completeness auto
termination
  by (relation "measure (\<lambda>(put, dest, i, n). n - i)") auto

declare strncpy_pad.simps [simp del]

definition strncpy :: "('b \<Rightarrow> nat \<Rightarrow> u8 \<Rightarrow> 'b option) \<Rightarrow> 'b \<Rightarrow> cstr \<Rightarrow> nat \<Rightarrow> 'b option" where
  "strncpy put dest src n = do {
     (dest, i) \<leftarrow> strncpy_copy put dest src 0 n;
     strncpy_pad put dest i n }"

text \<open>\<open>int8_t\<close> is a signed \<open>char\<close>, so the difference that is returned is one of signed bytes.\<close>

function strncmp_loop :: "cstr \<Rightarrow> cstr \<Rightarrow> nat \<Rightarrow> nat \<Rightarrow> int option" where
  "strncmp_loop s1 s2 i n =
     (if i < n then do {
        c1 \<leftarrow> s1 i; c2 \<leftarrow> s2 i;
        if c1 \<noteq> c2 \<or> c1 = 0 then Some (sint c1 - sint c2) else strncmp_loop s1 s2 (Suc i) n }
      else Some 0)"
  by pat_completeness auto
termination
  by (relation "measure (\<lambda>(s1, s2, i, n). n - i)") auto

declare strncmp_loop.simps [simp del]

definition strncmp :: "cstr \<Rightarrow> cstr \<Rightarrow> nat \<Rightarrow> int option" where
  "strncmp s1 s2 n = strncmp_loop s1 s2 0 n"

function strrev_loop ::
  "('b \<Rightarrow> nat \<Rightarrow> u8 option) \<Rightarrow> ('b \<Rightarrow> nat \<Rightarrow> u8 \<Rightarrow> 'b option) \<Rightarrow> 'b \<Rightarrow> int \<Rightarrow> int \<Rightarrow> 'b option" where
  "strrev_loop get put s beg end' =
     (if beg < end' then do {
        tmp \<leftarrow> get s (nat end');
        c \<leftarrow> get s (nat beg);
        s \<leftarrow> put s (nat end') c;
        s \<leftarrow> put s (nat beg) tmp;
        strrev_loop get put s (beg + 1) (end' - 1) }
      else Some s)"
  by pat_completeness auto
termination
  by (relation "measure (\<lambda>(get, put, s, beg, end'). nat (end' - beg))") auto

declare strrev_loop.simps [simp del]

definition strrev ::
  "('b \<Rightarrow> nat \<Rightarrow> u8 option) \<Rightarrow> ('b \<Rightarrow> nat \<Rightarrow> u8 \<Rightarrow> 'b option) \<Rightarrow> 'b \<Rightarrow> 'b option" where
  "strrev get put s = do { n \<leftarrow> strlen (get s); strrev_loop get put s 0 (int n - 1) }"

text \<open>The digits, with the terminating NUL of the string literal.\<close>

definition itoa_lookup :: "u8 list" where
  "itoa_lookup = map of_nat ([48..<58] @ [65..<91]) @ [0]"

text \<open>\<open>newval\<close> is unsigned, so \<open>radix\<close> is converted to unsigned in \<open>%\<close> and \<open>/\<close>.\<close>

partial_function (option) itoa_loop ::
  "('b \<Rightarrow> nat \<Rightarrow> u8 \<Rightarrow> 'b option) \<Rightarrow> u32 \<Rightarrow> 'b \<Rightarrow> nat \<Rightarrow> u32 \<Rightarrow> ('b \<times> nat) option" where
  [code]: "itoa_loop put newval buf newbuf radix =
     (if newval > 0 then
        (if radix = 0 then None
         else do {
           c \<leftarrow> arr_get itoa_lookup (unat (newval mod radix));
           buf \<leftarrow> put buf newbuf c;
           itoa_loop put (newval div radix) buf (Suc newbuf) radix })
      else Some (buf, newbuf))"

definition itoa ::
  "('b \<Rightarrow> nat \<Rightarrow> u8 option) \<Rightarrow> ('b \<Rightarrow> nat \<Rightarrow> u8 \<Rightarrow> 'b option) \<Rightarrow> u32 \<Rightarrow> 'b \<Rightarrow> u32 \<Rightarrow> 'b option" where
  "itoa get put value buf radix =
     (if value = 0 then do { buf \<leftarrow> put buf 0 48; put buf 1 0 }
      else do {
        (buf, n) \<leftarrow> itoa_loop put value buf 0 radix;
        buf \<leftarrow> put buf n 0;
        strrev get put buf })"

section \<open>strlen\<close>

lemma strlen_loop_cstr:
  "is_cstr s xs \<Longrightarrow> i \<le> length xs \<Longrightarrow> strlen_loop s i = Some (length xs)"
proof (induction "length xs - i" arbitrary: i)
  case 0
  then have "s i = Some 0" using is_cstrD(2) by simp
  then show ?case using 0 by (simp add: strlen_loop.simps [of s i])
next
  case (Suc k)
  then have "i < length xs" by simp
  with Suc show ?case by (simp add: strlen_loop.simps [of s i] is_cstrD)
qed

lemma strlen_cstr [access_simps]: "is_cstr s xs \<Longrightarrow> strlen s = Some (length xs)"
  by (simp add: strlen_def strlen_loop_cstr)

lemma strlen_loop_SomeD:
  "strlen_loop s i = Some n \<Longrightarrow> i \<le> n \<and> s n = Some 0 \<and> (\<forall>j. i \<le> j \<and> j < n \<longrightarrow> (\<exists>c. s j = Some c \<and> c \<noteq> 0))"
proof (induction rule: strlen_loop.raw_induct [rotated, consumes 1, case_names step])
  case (step rec s len r)
  from step(2) obtain c where c: "s len = Some c" by (auto split: Option.bind_splits)
  show ?case
  proof (cases "c = 0")
    case True
    then show ?thesis using step(2) c by auto
  next
    case False
    then have "rec s (Suc len) = Some r" using step(2) c by simp
    from step(1) [OF this] have r: "Suc len \<le> r" "s r = Some 0"
      and ne: "\<And>j. Suc len \<le> j \<Longrightarrow> j < r \<Longrightarrow> \<exists>c. s j = Some c \<and> c \<noteq> 0" by auto
    have "\<exists>c. s j = Some c \<and> c \<noteq> 0" if "len \<le> j" "j < r" for j
      using that ne [of j] c False by (cases "j = len") auto
    with r show ?thesis by auto
  qed
qed

lemma strlen_Some_iff: "strlen s = Some n \<longleftrightarrow> (\<exists>xs. is_cstr s xs \<and> length xs = n)"
proof
  assume "strlen s = Some n"
  then have n: "s n = Some 0" "\<And>j. j < n \<Longrightarrow> \<exists>c. s j = Some c \<and> c \<noteq> 0"
    using strlen_loop_SomeD [of s 0 n] by (auto simp: strlen_def)
  define xs where "xs = map (\<lambda>i. the (s i)) [0..<n]"
  have "is_cstr s xs"
    unfolding is_cstr_def xs_def using n by (force simp: in_set_conv_nth)
  then show "\<exists>xs. is_cstr s xs \<and> length xs = n" by (auto simp: xs_def)
qed (auto simp: strlen_cstr)

section \<open>strcpy and strncpy\<close>

lemma strcpy_loop_eq:
  "is_cstr src xs \<Longrightarrow> i \<le> length xs \<Longrightarrow>
   strcpy_loop put dest src i
     = map_option (\<lambda>d. (d, length xs)) (put_list put dest i (drop i xs))"
proof (induction "length xs - i" arbitrary: i dest)
  case 0
  then have "src i = Some 0" using is_cstrD(2) by simp
  then show ?case using 0 by (simp add: strcpy_loop.simps [of put dest src i])
next
  case (Suc k)
  then have i: "i < length xs" by simp
  have IH: "strcpy_loop put d src (Suc i)
      = map_option (\<lambda>d. (d, length xs)) (put_list put d (Suc i) (drop (Suc i) xs))" for d
    using Suc i by (intro Suc.hyps(1)) auto
  show ?case
    using i Suc.prems is_cstrD(1,3) [OF Suc.prems(1) i]
    by (simp add: strcpy_loop.simps [of put dest src i] IH Cons_nth_drop_Suc [symmetric] split: Option.bind_split)
qed

lemma strcpy_eq: "is_cstr src xs \<Longrightarrow> strcpy put dest src = put_list put dest 0 (xs @ [0])"
  by (simp add: strcpy_def strcpy_loop_eq put_list_snoc map_option_case split: option.splits)

lemma strncpy_copy_eq:
  "is_cstr src xs \<Longrightarrow> i \<le> min n (length xs) \<Longrightarrow>
   strncpy_copy put dest src i n
     = map_option (\<lambda>d. (d, min n (length xs))) (put_list put dest i (drop i (take n xs)))"
proof (induction "min n (length xs) - i" arbitrary: i dest)
  case 0
  then have "i = n \<or> src i = Some 0" using is_cstrD(2) by (auto simp: min_def split: if_splits)
  moreover have "\<exists>c. src i = Some c"
    using 0 is_cstrD(1,2) [OF 0(2)] by (cases "i = length xs") auto
  ultimately show ?case
    using 0 by (auto simp: strncpy_copy.simps [of put dest src i n])
next
  case (Suc k)
  then have i: "i < length xs" "i < n" by auto
  have IH: "strncpy_copy put d src (Suc i) n
      = map_option (\<lambda>d. (d, min n (length xs))) (put_list put d (Suc i) (drop (Suc i) (take n xs)))" for d
    using Suc i by (intro Suc.hyps(1)) auto
  have "drop i (take n xs) = xs ! i # drop (Suc i) (take n xs)"
    using i Cons_nth_drop_Suc [of i "take n xs"] by simp
  then show ?case
    using i Suc.prems is_cstrD(1,3) [OF Suc.prems(1) i(1)]
    by (simp add: strncpy_copy.simps [of put dest src i n] IH split: Option.bind_split)
qed

lemma strncpy_pad_eq: "strncpy_pad put dest i n = put_list put dest i (replicate (n - i) 0)"
proof (induction put dest i n rule: strncpy_pad.induct)
  case (1 put dest i n)
  show ?case
  proof (cases "i < n")
    case True
    then have "n - i = Suc (n - Suc i)" by simp
    then show ?thesis using 1 True
      by (simp add: strncpy_pad.simps [of put dest i n] split: Option.bind_split)
  qed (simp add: strncpy_pad.simps [of put dest i n])
qed

lemma strncpy_eq:
  "is_cstr src xs \<Longrightarrow>
   strncpy put dest src n = put_list put dest 0 (take n xs @ replicate (n - length xs) 0)"
  by (simp add: strncpy_def strncpy_copy_eq strncpy_pad_eq put_list_append map_option_case min_def
      split: option.splits)

context byte_store
begin

lemma strcpy_ok:
  assumes "is_cstr src xs" "\<And>i. i \<le> length xs \<Longrightarrow> get dest i \<noteq> None"
  obtains d where "strcpy put dest src = Some d" "is_cstr (get d) xs"
    "\<And>j. length xs < j \<Longrightarrow> get d j = get dest j"
proof -
  obtain d where d: "put_list put dest 0 (xs @ [0]) = Some d"
    using put_list_defined [of "xs @ [0]" dest 0] assms(2) by auto
  have "is_cstr (get d) xs"
    using put_list_get [OF d] assms(1) by (simp add: is_cstr_def nth_append)
  moreover have "strcpy put dest src = Some d"
    using d by (simp add: strcpy_eq [OF assms(1)])
  moreover have "get d j = get dest j" if "length xs < j" for j
    using put_list_get [OF d] that by simp
  ultimately show thesis using that by blast
qed

end

section \<open>strncmp\<close>

lemma sint_u8_eq [simp]: "sint (a::u8) = sint b \<longleftrightarrow> a = b"
  by (auto intro: signed_word_eqI)

lemma sint_u8_eq_0 [simp]: "sint (a::u8) = 0 \<longleftrightarrow> a = 0"
  using sint_u8_eq [of a 0] by simp

lemma is_cstr_read: "is_cstr s xs \<Longrightarrow> i \<le> length xs \<Longrightarrow> s i = Some ((xs @ [0]) ! i)"
  by (cases "i = length xs") (auto simp: is_cstr_def nth_append)

lemma is_cstr_read_zero: "is_cstr s xs \<Longrightarrow> i \<le> length xs \<Longrightarrow> (xs @ [0]) ! i = 0 \<longleftrightarrow> i = length xs"
  by (auto simp: is_cstr_def nth_append in_set_conv_nth split: if_splits)

lemma strncmp_loop_spec:
  assumes "is_cstr s1 xs" "is_cstr s2 ys" "i \<le> length xs" "i \<le> length ys"
  shows "\<exists>r. strncmp_loop s1 s2 i n = Some r \<and>
     (r = 0 \<longleftrightarrow> take (n - i) (drop i xs) = take (n - i) (drop i ys))"
  using assms(3,4)
proof (induction "n - i" arbitrary: i)
  case 0
  then show ?case by (simp add: strncmp_loop.simps [of s1 s2 i n])
next
  case (Suc k)
  then have i: "i < n" by simp
  let ?a = "(xs @ [0]) ! i" and ?b = "(ys @ [0]) ! i"
  have rd: "s1 i = Some ?a" "s2 i = Some ?b" "?a = 0 \<longleftrightarrow> i = length xs" "?b = 0 \<longleftrightarrow> i = length ys"
    using assms(1,2) Suc.prems by (auto simp: is_cstr_read is_cstr_read_zero)
  show ?case
  proof (cases "?a = ?b \<and> ?a \<noteq> 0")
    case True
    then have l: "i < length xs" "i < length ys" "xs ! i = ys ! i"
      using rd Suc.prems by (auto simp: nth_append)
    then have "take (n - i) (drop i xs) = xs ! i # take (n - Suc i) (drop (Suc i) xs)"
      "take (n - i) (drop i ys) = xs ! i # take (n - Suc i) (drop (Suc i) ys)"
      using i by (simp_all add: Cons_nth_drop_Suc [symmetric] take_Cons' Suc_diff_Suc)
    moreover have "?a = ?b" "?b \<noteq> 0" using True by auto
    ultimately show ?thesis using Suc.hyps(1) [of "Suc i"] Suc.hyps(2) l i rd(1,2)
      by (simp add: strncmp_loop.simps [of s1 s2 i n])
  next
    case False
    have "?a = ?b \<longleftrightarrow> take (n - i) (drop i xs) = take (n - i) (drop i ys)"
      using False rd(3,4) Suc.prems i
      by (cases "i = length xs"; cases "i = length ys")
        (auto simp: Cons_nth_drop_Suc [symmetric] nth_append take_Cons' split: if_splits)
    with False rd(1,2) i show ?thesis
      by (auto simp: strncmp_loop.simps [of s1 s2 i n])
  qed
qed

lemma strncmp_spec:
  assumes "is_cstr s1 xs" "is_cstr s2 ys"
  obtains r where "strncmp s1 s2 n = Some r" "r = 0 \<longleftrightarrow> take n xs = take n ys"
  using strncmp_loop_spec [OF assms, of 0 n] by (auto simp: strncmp_def)

section \<open>strrev\<close>

context byte_store
begin

lemma strrev_loop_spec:
  assumes "0 \<le> beg" "\<And>k. beg \<le> int k \<Longrightarrow> int k \<le> end' \<Longrightarrow> get b k \<noteq> None"
  shows "\<exists>b'. strrev_loop get put b beg end' = Some b' \<and>
    (\<forall>k. get b' k = (if beg \<le> int k \<and> int k \<le> end' then get b (nat (beg + end' - int k)) else get b k))"
  using assms
proof (induction "nat (end' - beg)" arbitrary: b beg end' rule: less_induct)
  case less
  show ?case
  proof (cases "beg < end'")
    case False
    have "get b k = (if beg \<le> int k \<and> int k \<le> end' then get b (nat (beg + end' - int k)) else get b k)" for k
    proof (cases "beg \<le> int k \<and> int k \<le> end'")
      case True
      then have "nat (beg + end' - int k) = k" using False less.prems(1) by linarith
      then show ?thesis by simp
    qed auto
    then show ?thesis using False
      by (intro exI [of _ b] conjI allI) (simp add: strrev_loop.simps [of get put b beg end'])
  next
    case True
    obtain x y where xy: "get b (nat end') = Some x" "get b (nat beg) = Some y"
      using less.prems(2) [of "nat end'"] less.prems(2) [of "nat beg"] less.prems(1) True by auto
    obtain c where c: "put b (nat end') y = Some c" using put_Some [OF xy(1)] by blast
    have c_get: "get c k = (if k = nat end' then Some y else get b k)" for k
      by (rule get_put [OF c])
    obtain d where d: "put c (nat beg) x = Some d"
      using put_Some [of c "nat beg"] c_get [of "nat beg"] xy(2) by (cases "nat beg = nat end'") auto
    have d_get: "get d k = (if k = nat beg then Some x else if k = nat end' then Some y else get b k)" for k
      using get_put [OF d, of k] c_get [of k] by simp
    have "get d k \<noteq> None" if "beg + 1 \<le> int k" "int k \<le> end' - 1" for k
      using less.prems(2) [of k] that d_get [of k] by auto
    then obtain b' where b': "strrev_loop get put d (beg + 1) (end' - 1) = Some b'"
      "\<And>k. get b' k = (if beg + 1 \<le> int k \<and> int k \<le> end' - 1
          then get d (nat (beg + end' - int k)) else get d k)"
      using less.hyps [of "end' - 1" "beg + 1" d] True less.prems(1) by auto
    have "get b' k = (if beg \<le> int k \<and> int k \<le> end' then get b (nat (beg + end' - int k)) else get b k)" for k
    proof (cases "int k = beg \<or> int k = end'")
      case True
      then show ?thesis using b'(2) [of k] d_get [of k] xy \<open>beg < end'\<close> less.prems(1) by auto
    next
      case False
      moreover have "nat (beg + end' - int k) \<noteq> nat beg" "nat (beg + end' - int k) \<noteq> nat end'"
        if "beg + 1 \<le> int k" "int k \<le> end' - 1"
        using that less.prems(1) by auto
      ultimately show ?thesis
        using b'(2) [of k] d_get [of k] d_get [of "nat (beg + end' - int k)"] less.prems(1)
          \<open>beg < end'\<close> by auto
    qed
    with b'(1) show ?thesis
      using True xy c d by (simp add: strrev_loop.simps [of get put b beg end'])
  qed
qed

lemma strrev_ok:
  assumes "is_cstr (get b) xs"
  obtains b' where "strrev get put b = Some b'" "is_cstr (get b') (rev xs)"
    "\<And>j. length xs < j \<Longrightarrow> get b' j = get b j"
proof -
  have "get b k \<noteq> None" if "int k \<le> int (length xs) - 1" for k
    using is_cstrD(1) [OF assms, of k] that by simp
  then obtain b' where b': "strrev_loop get put b 0 (int (length xs) - 1) = Some b'"
    "\<And>k. get b' k = (if 0 \<le> int k \<and> int k \<le> int (length xs) - 1
      then get b (nat (0 + (int (length xs) - 1) - int k)) else get b k)"
    using strrev_loop_spec [of 0 "int (length xs) - 1" b] by auto
  have "get b' i = Some (rev xs ! i)" if "i < length xs" for i
  proof -
    have "nat (int (length xs) - 1 - int i) = length xs - Suc i" using that by simp
    then show ?thesis using b'(2) [of i] that is_cstrD(1) [OF assms, of "length xs - Suc i"]
      by (simp add: rev_nth)
  qed
  then have "is_cstr (get b') (rev xs)"
    using assms b'(2) [of "length xs"] by (simp add: is_cstr_def)
  moreover have "strrev get put b = Some b'"
    using b'(1) strlen_cstr [OF assms] by (simp add: strrev_def)
  moreover have "get b' j = get b j" if "length xs < j" for j
    using b'(2) [of j] that by simp
  ultimately show thesis using that by blast
qed

end

section \<open>itoa\<close>

text \<open>Specification: the digits of a number, least significant first, its text, and the number a text
  stands for.\<close>

fun digits_lsb :: "nat \<Rightarrow> nat \<Rightarrow> nat list" where
  "digits_lsb r n = (if n = 0 \<or> r < 2 then [] else n mod r # digits_lsb r (n div r))"

declare digits_lsb.simps [simp del]

lemma digits_lsb_0 [simp]: "digits_lsb r 0 = []"
  by (simp add: digits_lsb.simps)

definition number_text :: "nat \<Rightarrow> nat \<Rightarrow> u8 list" where
  "number_text r n =
     (if n = 0 then [48] else map (\<lambda>d. itoa_lookup ! d) (rev (digits_lsb r n)))"

definition digit_value :: "u8 \<Rightarrow> nat" where
  "digit_value c = (if c < 65 then unat c - 48 else unat c - 55)"

definition text_value :: "nat \<Rightarrow> u8 list \<Rightarrow> nat" where
  "text_value r cs = foldl (\<lambda>acc c. acc * r + digit_value c) 0 cs"

lemma length_itoa_lookup [simp]: "length itoa_lookup = 37"
  by (simp add: itoa_lookup_def)

lemma itoa_lookup_digits: "list_all (\<lambda>d. itoa_lookup ! d \<noteq> 0 \<and> digit_value (itoa_lookup ! d) = d) [0..<36]"
  by code_simp

lemma itoa_lookup_digit:
  assumes "d < 36"
  shows "itoa_lookup ! d \<noteq> 0" "digit_value (itoa_lookup ! d) = d"
  using itoa_lookup_digits assms unfolding list_all_iff by auto

lemma digits_lsb_less: "d \<in> set (digits_lsb r n) \<Longrightarrow> d < r"
proof (induction r n rule: digits_lsb.induct)
  case (1 r n)
  then show ?case
    by (cases "n = 0 \<or> r < 2") (auto simp: digits_lsb.simps [of r n])
qed

lemma foldr_digits_lsb: "2 \<le> r \<Longrightarrow> foldr (\<lambda>d acc. acc * r + d) (digits_lsb r n) 0 = n"
proof (induction r n rule: digits_lsb.induct)
  case (1 r n)
  then show ?case
    by (cases "n = 0") (auto simp: digits_lsb.simps [of r n])
qed

lemma text_value_number_text:
  assumes "2 \<le> r" "r \<le> 36"
  shows "text_value r (number_text r n) = n"
proof (cases "n = 0")
  case True
  then show ?thesis by (simp add: number_text_def text_value_def digit_value_def)
next
  case False
  have "foldr (\<lambda>d acc. acc * r + digit_value (itoa_lookup ! d)) ds 0 = foldr (\<lambda>d acc. acc * r + d) ds 0"
    if "\<forall>d\<in>set ds. d < 36" for ds
    using that by (induction ds) (auto simp: itoa_lookup_digit)
  moreover have "\<forall>d\<in>set (digits_lsb r n). d < 36"
    using digits_lsb_less assms(2) by fastforce
  ultimately show ?thesis
    using False foldr_digits_lsb [OF assms(1), of n]
    by (simp add: number_text_def text_value_def foldl_map rev_map foldl_conv_foldr foldr_map comp_def)
qed

lemma number_text_no_NUL: "2 \<le> r \<Longrightarrow> r \<le> 36 \<Longrightarrow> 0 \<notin> set (number_text r n)"
proof
  assume r: "2 \<le> r" "r \<le> 36" "0 \<in> set (number_text r n)"
  then obtain d where "d \<in> set (digits_lsb r n)" "itoa_lookup ! d = 0"
    by (auto simp: number_text_def split: if_splits)
  then show False using itoa_lookup_digit(1) [of d] digits_lsb_less [of d r n] r by simp
qed

lemma length_digits_lsb: "2 \<le> r \<Longrightarrow> n < 2 ^ k \<Longrightarrow> length (digits_lsb r n) \<le> k"
proof (induction r n arbitrary: k rule: digits_lsb.induct)
  case (1 r n)
  show ?case
  proof (cases "n = 0")
    case True
    then show ?thesis by (simp add: digits_lsb.simps [of r n])
  next
    case False
    then obtain j where k: "k = Suc j" using 1(3) by (cases k) auto
    have "n div r \<le> n div 2" using 1(2) by (simp add: div_le_mono2)
    also have "n div 2 < 2 ^ j" using 1(3) k by (simp add: less_mult_imp_div_less mult.commute)
    finally have "length (digits_lsb r (n div r)) \<le> j" using 1 False by simp
    then show ?thesis using False 1(2) k by (simp add: digits_lsb.simps [of r n])
  qed
qed

lemma length_number_text: "2 \<le> r \<Longrightarrow> length (number_text r (unat (v::u32))) \<le> 32"
proof -
  assume r: "2 \<le> r"
  have "unat v < 2 ^ LENGTH(32)" by (rule unsigned_less)
  then have "length (digits_lsb r (unat v)) \<le> 32"
    using length_digits_lsb [OF r, of "unat v" 32] by simp
  then show ?thesis by (simp add: number_text_def)
qed

lemma itoa_loop_eq:
  assumes "2 \<le> r" "r \<le> 36"
  shows "itoa_loop put v b n (of_nat r) =
    map_option (\<lambda>b. (b, n + length (digits_lsb r (unat v))))
      (put_list put b n (map (\<lambda>d. itoa_lookup ! d) (digits_lsb r (unat v))))"
proof (induction "unat v" arbitrary: v b n rule: less_induct)
  case less
  show ?case
  proof (cases "v = 0")
    case True
    then show ?thesis by (simp add: itoa_loop.simps [of put 0 b n])
  next
    case False
    have r: "unat (of_nat r :: u32) = r" "(of_nat r :: u32) \<noteq> 0"
      using assms by (simp_all add: unat_of_nat unat_eq_zero [symmetric])
    have v: "unat v > 0" "v > 0" using False by (simp_all add: unat_gt_0 word_gt_0)
    have mod: "unat (v mod of_nat r) = unat v mod r" and div: "unat (v div of_nat r) = unat v div r"
      by (simp_all add: unat_mod unat_div r(1))
    have ds: "digits_lsb r (unat v) = unat v mod r # digits_lsb r (unat v div r)"
      using v assms by (simp add: digits_lsb.simps [of r "unat v"])
    have "unat v mod r < r" using assms by simp
    then have "unat v mod r < 37" using assms by linarith
    then have lk: "arr_get itoa_lookup (unat v mod r) = Some (itoa_lookup ! (unat v mod r))"
      by (simp add: arr_get_def)
    have IH: "itoa_loop put (v div of_nat r) c (Suc n) (of_nat r) =
        map_option (\<lambda>b. (b, Suc n + length (digits_lsb r (unat v div r))))
          (put_list put c (Suc n) (map (\<lambda>d. itoa_lookup ! d) (digits_lsb r (unat v div r))))" for c
      using less [of "v div of_nat r" c "Suc n"] v assms by (simp add: div)
    show ?thesis
      using v r lk by (simp add: itoa_loop.simps [of put v b n] IH ds mod split: Option.bind_split)
  qed
qed

context byte_store
begin

lemma itoa_ok:
  assumes r: "2 \<le> r" "r \<le> 36"
    and room: "\<And>i. i \<le> 32 \<Longrightarrow> get b i \<noteq> None"
  obtains b' where "itoa get put v b (of_nat r) = Some b'" "is_cstr (get b') (number_text r (unat v))"
    "\<And>j. 32 < j \<Longrightarrow> get b' j = get b j"
proof (cases "v = 0")
  case True
  have "\<exists>c. put_list put b 0 [48, 0] = Some c"
    by (rule put_list_defined) (simp add: room)
  then obtain c where c: "put_list put b 0 [48, 0] = Some c" by blast
  have "is_cstr (get c) [48]" using put_list_get [OF c] by (simp add: is_cstr_def)
  moreover have "get c j = get b j" if "32 < j" for j using put_list_get [OF c, of j] that by simp
  moreover have "itoa get put v b (of_nat r) = Some c"
    using True c by (simp add: itoa_def split: Option.bind_splits)
  ultimately show thesis using True that by (simp add: number_text_def)
next
  case False
  let ?ds = "map (\<lambda>d. itoa_lookup ! d) (digits_lsb r (unat v))"
  have nt: "number_text r (unat v) = rev ?ds"
    using False by (simp add: number_text_def rev_map unat_eq_zero)
  have len: "length ?ds \<le> 32" using length_number_text [OF r(1), of v] nt by simp
  obtain c where c: "put_list put b 0 (?ds @ [0]) = Some c"
    using put_list_defined [of "?ds @ [0]" b 0] len room by auto
  have "0 \<notin> set ?ds" using number_text_no_NUL [OF r, of "unat v"] nt by (metis set_rev)
  then have "is_cstr (get c) ?ds" using put_list_get [OF c] by (simp add: is_cstr_def nth_append)
  then obtain b' where b': "strrev get put c = Some b'" "is_cstr (get b') (rev ?ds)"
    "\<And>j. length ?ds < j \<Longrightarrow> get b' j = get c j"
    using strrev_ok by blast
  have "itoa get put v b (of_nat r) = Some b'"
    using False c b'(1) by (auto simp: itoa_def itoa_loop_eq [OF r] put_list_snoc split: Option.bind_splits)
  moreover have "get b' j = get b j" if "32 < j" for j
    using that len b'(3) [of j] put_list_get [OF c, of j] by simp
  ultimately show thesis using that b'(2) nt by simp
qed

end

section \<open>Results for the kernel's buffers\<close>

text \<open>C33. \<open>itoa\<close> into an array of at least 33 bytes succeeds for every value and every radix from 2 to 36;
  the array then holds a string that reads back as the value, and its bytes past index 32 are
  untouched.\<close>

theorem itoa_reads_back:
  assumes "2 \<le> r" "r \<le> 36" "33 \<le> length b"
  shows "\<exists>b' t. itoa arr_get arr_put v b (of_nat r) = Some b' \<and> is_cstr (arr_get b') t
    \<and> text_value r t = unat v \<and> (\<forall>j>32. arr_get b' j = arr_get b j)"
proof -
  obtain b' where "itoa arr_get arr_put v b (of_nat r) = Some b'"
    "is_cstr (arr_get b') (number_text r (unat v))" "\<And>j. 32 < j \<Longrightarrow> arr_get b' j = arr_get b j"
    using arr.itoa_ok [OF assms(1,2), of b v] assms(3) by (auto simp: arr_get_def)
  then show ?thesis using text_value_number_text [OF assms(1,2), of "unat v"] by blast
qed

theorem itoa_reads_back_witness:
  "\<exists>b' t. itoa arr_get arr_put 0xBEEF (replicate 64 0) (of_nat 16) = Some b' \<and> is_cstr (arr_get b') t
    \<and> text_value 16 t = unat (0xBEEF :: u32) \<and> (\<forall>j>32. arr_get b' j = arr_get (replicate 64 0) j)"
  by (rule itoa_reads_back) simp_all

text \<open>Between strings, \<open>strcpy\<close> copies the string and its NUL and leaves the rest of an array that has
  room for both; \<open>strncmp\<close> returns 0 exactly when the first \<open>n\<close> characters agree.\<close>

theorem strcpy_strncmp_strings:
  assumes "is_cstr src xs" "length xs < length dest" "is_cstr other ys"
  shows "\<exists>d r. strcpy arr_put dest src = Some d \<and> is_cstr (arr_get d) xs
    \<and> (\<forall>j>length xs. arr_get d j = arr_get dest j)
    \<and> strncmp (arr_get d) other n = Some r \<and> (r = 0 \<longleftrightarrow> take n xs = take n ys)"
proof -
  obtain d where d: "strcpy arr_put dest src = Some d" "is_cstr (arr_get d) xs"
    "\<And>j. length xs < j \<Longrightarrow> arr_get d j = arr_get dest j"
    using arr.strcpy_ok [OF assms(1), of dest] assms(2) by (auto simp: arr_get_def)
  obtain r where "strncmp (arr_get d) other n = Some r" "r = 0 \<longleftrightarrow> take n xs = take n ys"
    using strncmp_spec [OF d(2) assms(3)] .
  with d show ?thesis by blast
qed

theorem strcpy_strncmp_strings_witness:
  "\<exists>d r. strcpy arr_put (replicate 8 1) (arr_get [104, 105, 0]) = Some d \<and> is_cstr (arr_get d) [104, 105]
    \<and> (\<forall>j>length ([104, 105] :: u8 list). arr_get d j = arr_get (replicate 8 1) j)
    \<and> strncmp (arr_get d) (arr_get [104, 0]) 1 = Some r
    \<and> (r = 0 \<longleftrightarrow> take 1 [104, 105] = take 1 [104 :: u8])"
  by (rule strcpy_strncmp_strings)
    (simp_all add: is_cstr_append_arr [of "[104, 105]" "[]", simplified]
      is_cstr_append_arr [of "[104]" "[]", simplified])

end
