(* ===== verification/CMem.thy ===== *)
theory CMem
  imports Prelude
begin

text \<open>
  The memory routines of \<open>lib.c\<close>, which are inline assembly: \<open>memset\<close>, \<open>memset_word\<close>,
  \<open>memset_dword\<close>, \<open>memcpy\<close>, \<open>memmove\<close>. They are modelled over 32-bit registers and a flat byte
  memory, loop by loop, with the direction flag DF of EFLAGS where string instructions use it.
  \<open>rep stos\<close> and \<open>rep movs\<close> follow the Intel manual: with DF clear the pointers grow, with DF set
  they shrink, by the operand size per iteration, \<open>ecx\<close> times.
\<close>

section \<open>String instructions\<close>

text \<open>\<open>stosb/stosw/stosl\<close>: the low \<open>k\<close> bytes of \<open>eax\<close>, little-endian, at \<open>edi\<close>.\<close>

definition store_le :: "nat \<Rightarrow> u32 \<Rightarrow> u32 \<Rightarrow> mem \<Rightarrow> mem" where
  "store_le k v a m = fold (\<lambda>i m. m(a + of_nat i := ucast (drop_bit (8 * i) v))) [0..<k] m"

fun rep_stos :: "nat \<Rightarrow> nat \<Rightarrow> u32 \<Rightarrow> u32 \<Rightarrow> mem \<Rightarrow> u32 \<times> mem" where
  "rep_stos k 0 eax edi m = (edi, m)"
| "rep_stos k (Suc n) eax edi m = rep_stos k n eax (edi + of_nat k) (store_le k eax edi m)"

text \<open>One \<open>movs\<close> of \<open>k\<close> bytes reads all of them before it writes.\<close>

definition move_le :: "nat \<Rightarrow> u32 \<Rightarrow> u32 \<Rightarrow> mem \<Rightarrow> mem" where
  "move_le k src dst m = fold (\<lambda>i m'. m'(dst + of_nat i := m (src + of_nat i))) [0..<k] m"

fun rep_movs :: "bool \<Rightarrow> nat \<Rightarrow> nat \<Rightarrow> u32 \<Rightarrow> u32 \<Rightarrow> mem \<Rightarrow> u32 \<times> u32 \<times> mem" where
  "rep_movs df k 0 esi edi m = (esi, edi, m)"
| "rep_movs df k (Suc n) esi edi m =
     (if df then rep_movs df k n (esi - of_nat k) (edi - of_nat k) (move_le k esi edi m)
      else rep_movs df k n (esi + of_nat k) (edi + of_nat k) (move_le k esi edi m))"

section \<open>memset\<close>

text \<open>\<open>.memset_top\<close>: single bytes until \<open>ecx\<close> is 0 or \<open>edi\<close> is a multiple of 4; the result is
  \<open>(edi, ecx, memory)\<close>.\<close>

function memset_top :: "u8 \<Rightarrow> u32 \<Rightarrow> u32 \<Rightarrow> mem \<Rightarrow> u32 \<times> u32 \<times> mem" where
  "memset_top al edi ecx m =
     (if ecx = 0 then (edi, ecx, m)
      else if edi AND 3 = 0 then (edi, ecx, m)
      else memset_top al (edi + 1) (ecx - 1) (m(edi := al)))"
  by pat_completeness auto
termination
  by (relation "measure (\<lambda>(al, edi, ecx, m). unat ecx)") (auto simp: unat_minus_one unat_gt_0)

declare memset_top.simps [simp del]

fun memset_bottom :: "u8 \<Rightarrow> u32 \<Rightarrow> nat \<Rightarrow> mem \<Rightarrow> mem" where
  "memset_bottom al edi 0 m = m"
| "memset_bottom al edi (Suc edx) m = memset_bottom al (edi + 1) edx (m(edi := al))"

text \<open>The value loaded into \<open>eax\<close>: \<open>c << 24 | c << 16 | c << 8 | c\<close> after \<open>c &= 0xFF\<close>.\<close>

definition memset_eax :: "u32 \<Rightarrow> u32" where
  "memset_eax c = (let c = c AND 0xFF in push_bit 24 c OR push_bit 16 c OR push_bit 8 c OR c)"

definition memset :: "u32 \<Rightarrow> u32 \<Rightarrow> u32 \<Rightarrow> mem \<Rightarrow> mem" where
  "memset s c n m =
     (let eax = memset_eax c; al = ucast eax;
          (edi, ecx, m) = memset_top al s n m
      in if ecx = 0 then m
         else let (edi, m) = rep_stos 4 (unat (drop_bit 2 ecx)) eax edi m
              in memset_bottom al edi (unat (ecx AND 3)) m)"

definition memset_word :: "u32 \<Rightarrow> u32 \<Rightarrow> u32 \<Rightarrow> mem \<Rightarrow> mem" where
  "memset_word s c n m = snd (rep_stos 2 (unat n) c s m)"

definition memset_dword :: "u32 \<Rightarrow> u32 \<Rightarrow> u32 \<Rightarrow> mem \<Rightarrow> mem" where
  "memset_dword s c n m = snd (rep_stos 4 (unat n) c s m)"

section \<open>memcpy and memmove\<close>

function memcpy_top :: "u32 \<Rightarrow> u32 \<Rightarrow> u32 \<Rightarrow> mem \<Rightarrow> u32 \<times> u32 \<times> u32 \<times> mem" where
  "memcpy_top esi edi ecx m =
     (if ecx = 0 then (esi, edi, ecx, m)
      else if edi AND 3 = 0 then (esi, edi, ecx, m)
      else memcpy_top (esi + 1) (edi + 1) (ecx - 1) (m(edi := m esi)))"
  by pat_completeness auto
termination
  by (relation "measure (\<lambda>(esi, edi, ecx, m). unat ecx)") (auto simp: unat_minus_one unat_gt_0)

declare memcpy_top.simps [simp del]

fun memcpy_bottom :: "u32 \<Rightarrow> u32 \<Rightarrow> nat \<Rightarrow> mem \<Rightarrow> mem" where
  "memcpy_bottom esi edi 0 m = m"
| "memcpy_bottom esi edi (Suc edx) m = memcpy_bottom (esi + 1) (edi + 1) edx (m(edi := m esi))"

definition memcpy :: "u32 \<Rightarrow> u32 \<Rightarrow> u32 \<Rightarrow> mem \<Rightarrow> mem" where
  "memcpy dest src n m =
     (let (esi, edi, ecx, m) = memcpy_top src dest n m
      in if ecx = 0 then m
         else let (esi, edi, m) = rep_movs False 4 (unat (drop_bit 2 ecx)) esi edi m
              in memcpy_bottom esi edi (unat (ecx AND 3)) m)"

text \<open>\<open>memmove\<close> sets DF when it copies downwards and does not clear it again: the second component
  is DF on return.\<close>

definition memmove :: "u32 \<Rightarrow> u32 \<Rightarrow> u32 \<Rightarrow> mem \<Rightarrow> mem \<times> bool" where
  "memmove dest src n m =
     (if dest \<le> src
      then (snd (snd (rep_movs False 1 (unat n) src dest m)), False)
      else (snd (snd (rep_movs True 1 (unat n) (src + n - 1) (dest + n - 1) m)), True))"

section \<open>Specification: a block of bytes stored at an address\<close>

definition blit :: "u32 \<Rightarrow> nat \<Rightarrow> (nat \<Rightarrow> u8) \<Rightarrow> mem \<Rightarrow> mem" where
  "blit dst n f m = (\<lambda>a. if unat (a - dst) < n then f (unat (a - dst)) else m a)"

lemma unat_sub_u32:
  "unat (a - b :: u32) = (if unat b \<le> unat a then unat a - unat b else 4294967296 + unat a - unat b)"
  using unat_sub_if' [of a b] by (simp add: word_less_nat_alt split: if_splits)

lemma unat_lt_u32: "unat (a::u32) < 4294967296"
proof -
  have "unat a < 2 ^ LENGTH(32)" by (rule unsigned_less)
  then show ?thesis by simp
qed

lemma unat_of_nat_u32 [simp]: "k < 4294967296 \<Longrightarrow> unat (of_nat k :: u32) = k"
  by (simp add: unat_of_nat)

lemma of_nat_unat_u32 [simp]: "of_nat (unat (w::u32)) = w"
  by (metis of_nat_unat ucast_id)

lemma blit_0 [simp]: "blit dst 0 f m = m"
  by (simp add: blit_def)

lemma blit_1: "m(dst := v) = blit dst 1 (\<lambda>i. v) m"
  by (auto simp: blit_def unat_eq_zero)

lemma blit_blit:
  assumes "a + b \<le> 4294967296"
  shows "blit (dst + of_nat a) b (\<lambda>i. f (a + i)) (blit dst a f m) = blit dst (a + b) f m"
proof
  fix x :: u32
  show "blit (dst + of_nat a) b (\<lambda>i. f (a + i)) (blit dst a f m) x = blit dst (a + b) f m x"
  proof (cases "a = 4294967296")
    case True
    then show ?thesis using assms by (simp add: blit_def)
  next
    case False
    let ?d = "unat (x - dst)"
    have a: "a < 4294967296" using assms False by simp
    have "x - (dst + of_nat a) = (x - dst) - of_nat a" by simp
    then have "unat (x - (dst + of_nat a)) = (if a \<le> ?d then ?d - a else 4294967296 + ?d - a)"
      using a by (simp only: unat_sub_u32 [of "x - dst" "of_nat a"] unat_of_nat_u32)
    then show ?thesis using assms a by (auto simp: blit_def)
  qed
qed

lemma blit_cong: "(\<And>i. i < n \<Longrightarrow> f i = g i) \<Longrightarrow> blit dst n f m = blit dst n g m"
  by (auto simp: blit_def)

lemma blit_outside: "n \<le> unat (a - dst) \<Longrightarrow> blit dst n f m a = m a"
  by (simp add: blit_def)

lemma blit_snoc: "k < 4294967296 \<Longrightarrow> (blit dst k f m)(dst + of_nat k := f k) = blit dst (Suc k) f m"
  using blit_blit [of k 1 dst f m] blit_cong [of 1 "\<lambda>i. f k" "\<lambda>i. f (k + i)"]
  by (simp add: blit_1)

lemma blit_Cons: "k < 4294967296 \<Longrightarrow> blit (dst + 1) k (\<lambda>i. f (Suc i)) (m(dst := f 0)) = blit dst (Suc k) f m"
  using blit_blit [of 1 k dst f m] blit_cong [of 1 "\<lambda>i. f 0" f] by (simp add: blit_1)

lemma fold_blit:
  "k \<le> 4294967296 \<Longrightarrow> fold (\<lambda>i m. m(dst + of_nat i := f i)) [0..<k] m = blit dst k f m"
proof (induction k)
  case (Suc k)
  have "fold g [0..<Suc k] m = g k (fold g [0..<k] m)" for g :: "nat \<Rightarrow> mem \<Rightarrow> mem" by simp
  moreover have "fold (\<lambda>i m. m(dst + of_nat i := f i)) [0..<k] m = blit dst k f m"
    by (rule Suc.IH) (use Suc.prems in simp)
  ultimately show ?case using blit_snoc [of k dst f m] Suc.prems by (simp only:)
qed simp

lemma store_le_blit: "k \<le> 4 \<Longrightarrow> store_le k v a m = blit a k (\<lambda>i. ucast (drop_bit (8 * i) v)) m"
  unfolding store_le_def by (rule fold_blit) simp

lemma move_le_blit: "k \<le> 4 \<Longrightarrow> move_le k src dst m = blit dst k (\<lambda>i. m (src + of_nat i)) m"
  unfolding move_le_def by (rule fold_blit) simp

section \<open>memset fills\<close>

lemma memset_top_blit:
  "\<exists>k\<le>unat n. memset_top al s n m = (s + of_nat k, n - of_nat k, blit s k (\<lambda>i. al) m)"
proof (induction al s n m rule: memset_top.induct)
  case (1 al edi ecx m)
  show ?case
  proof (cases "ecx = 0 \<or> edi AND 3 = 0")
    case True
    then show ?thesis by (intro exI [of _ 0]) (auto simp: memset_top.simps [of al edi ecx m])
  next
    case False
    then obtain k where k: "k \<le> unat (ecx - 1)"
      "memset_top al (edi + 1) (ecx - 1) (m(edi := al))
        = (edi + 1 + of_nat k, ecx - 1 - of_nat k, blit (edi + 1) k (\<lambda>i. al) (m(edi := al)))"
      using 1 by blast
    have "unat (ecx - 1) = unat ecx - 1" using False by (simp add: unat_minus_one)
    moreover have "0 < unat ecx" using False by (simp add: unat_gt_0)
    ultimately have "Suc k \<le> unat ecx" using k(1) by linarith
    moreover have "blit (edi + 1) k (\<lambda>i. al) (m(edi := al)) = blit edi (Suc k) (\<lambda>i. al) m"
      using blit_Cons [of k edi "\<lambda>i. al" m] \<open>Suc k \<le> unat ecx\<close> unat_lt_u32 [of ecx] by simp
    ultimately show ?thesis
      using k False by (intro exI [of _ "Suc k"]) (simp add: memset_top.simps [of al edi ecx m])
  qed
qed

lemma rep_stos_blit:
  assumes "k = 1 \<or> k = 2 \<or> k = 4" "k * n \<le> 4294967296"
  shows "rep_stos k n v s m
    = (s + of_nat (k * n), blit s (k * n) (\<lambda>i. ucast (drop_bit (8 * (i mod k)) v)) m)"
  using assms(2)
proof (induction n arbitrary: s m)
  case (Suc n)
  let ?f = "\<lambda>i. ucast (drop_bit (8 * (i mod k)) v)"
  have "store_le k v s m = blit s k ?f m"
    using assms(1) by (auto simp: store_le_blit intro!: blit_cong)
  moreover have "blit (s + of_nat k) (k * n) ?f (blit s k ?f m) = blit s (k * Suc n) ?f m"
    using blit_blit [of k "k * n" s ?f m] Suc.prems by simp
  ultimately show ?case using Suc by (simp add: algebra_simps)
qed simp

lemma memset_bottom_blit:
  "k \<le> 4294967296 \<Longrightarrow> memset_bottom al s k m = blit s k (\<lambda>i. al) m"
proof (induction k arbitrary: s m)
  case (Suc k)
  then show ?case using blit_Cons [of k s "\<lambda>i. al" m] by simp
qed simp

lemma and_255_u32: "(c::u32) AND 0xFF = take_bit 8 c"
  by (simp add: take_bit_eq_mask mask_eq_exp_minus_1)

lemma byte_of_memset_eax:
  "j < 4 \<Longrightarrow> (ucast (drop_bit (8 * j) (memset_eax c)) :: u8) = ucast c"
proof -
  assume "j < 4"
  then consider "j = 0" | "j = 1" | "j = 2" | "j = 3" by linarith
  then show ?thesis
    by cases (rule bit_word_eqI; auto simp: memset_eax_def Let_def and_255_u32 bit_simps)+
qed

text \<open>The three parts together: whatever the alignment of \<open>s\<close>, the \<open>n\<close> bytes from \<open>s\<close> are filled.\<close>

lemma u32_split4: "unat (n::u32) = 4 * unat (drop_bit 2 n) + unat (n AND 3)"
proof -
  have "n AND 3 = take_bit 2 n"
    by (simp add: take_bit_eq_mask mask_eq_exp_minus_1)
  then show ?thesis
    using mult_div_mod_eq [of 4 "unat n"]
    by (simp add: unsigned_drop_bit_eq drop_bit_eq_div unsigned_take_bit_eq take_bit_eq_mod
      unat_div unat_mod)
qed

lemma memset_fills: "memset s c n m = blit s (unat n) (\<lambda>i. ucast c) m"
proof -
  let ?al = "ucast (memset_eax c) :: u8"
  have al: "?al = ucast c" using byte_of_memset_eax [of 0 c] by simp
  obtain k where k: "k \<le> unat n"
    "memset_top ?al s n m = (s + of_nat k, n - of_nat k, blit s k (\<lambda>i. ?al) m)"
    using memset_top_blit by blast
  let ?r = "n - of_nat k"
  let ?q = "unat (drop_bit 2 ?r)"
  have r: "unat ?r = unat n - k"
    using k(1) unat_lt_u32 [of n] by (simp add: unat_sub_u32)
  have split: "unat ?r = 4 * ?q + unat (?r AND 3)" by (rule u32_split4)
  have len: "k + 4 * ?q + unat (?r AND 3) = unat n" using r split k(1) by simp
  have q: "4 * ?q \<le> 4294967296" "k + 4 * ?q \<le> 4294967296" using len unat_lt_u32 [of n] by simp_all
  have b: "blit (s + of_nat k) (4 * ?q) (\<lambda>i. ucast (drop_bit (8 * (i mod 4)) (memset_eax c))) m'
     = blit (s + of_nat k) (4 * ?q) (\<lambda>i. ucast c) m'" for m'
    by (rule blit_cong) (simp add: byte_of_memset_eax)
  show ?thesis
  proof (cases "?r = 0")
    case True
    then have "k = unat n" using r k(1) by simp
    then show ?thesis using True k(2) al by (simp add: memset_def Let_def)
  next
    case False
    have "memset s c n m = blit (s + of_nat k + of_nat (4 * ?q)) (unat (?r AND 3)) (\<lambda>i. ucast c)
      (blit (s + of_nat k) (4 * ?q) (\<lambda>i. ucast c) (blit s k (\<lambda>i. ucast c) m))"
      using False k(2) al q(1) unat_lt_u32 [of "?r AND 3"] b
      by (simp add: memset_def Let_def rep_stos_blit memset_bottom_blit)
    also have "\<dots> = blit s (unat n) (\<lambda>i. ucast c) m"
      using blit_blit [of k "4 * ?q" s "\<lambda>i. ucast c" m] blit_blit [of "k + 4 * ?q" "unat (?r AND 3)" s "\<lambda>i. ucast c" m]
        q(2) len unat_lt_u32 [of n] by (simp add: add.assoc)
    finally show ?thesis .
  qed
qed

section \<open>memcpy copies disjoint blocks\<close>

text \<open>The specification of a copy: every byte of the destination gets the byte the source held before
  the call. Two blocks of \<open>n\<close> bytes are disjoint when no source byte lies in the destination.\<close>

definition block_copy :: "u32 \<Rightarrow> u32 \<Rightarrow> nat \<Rightarrow> mem \<Rightarrow> mem" where
  "block_copy dst src n m = blit dst n (\<lambda>i. m (src + of_nat i)) m"

definition disjoint_blocks :: "u32 \<Rightarrow> u32 \<Rightarrow> nat \<Rightarrow> bool" where
  "disjoint_blocks dst src n \<longleftrightarrow> (\<forall>i<n. n \<le> unat (src + of_nat i - dst))"

lemma block_copy_0 [simp]: "block_copy dst src 0 m = m"
  by (simp add: block_copy_def)

lemma disjoint_blocks_advance:
  "disjoint_blocks dst src n \<Longrightarrow> k \<le> n \<Longrightarrow>
   disjoint_blocks (dst + of_nat w) (src + of_nat w) k"
  unfolding disjoint_blocks_def
proof (intro allI impI)
  fix i
  assume a: "\<forall>i<n. n \<le> unat (src + of_nat i - dst)" "k \<le> n" "i < k"
  have eq: "src + of_nat w + of_nat i - (dst + of_nat w) = src + of_nat i - dst" by simp
  have "i < n" using a by simp
  with a(1) have le: "n \<le> unat (src + of_nat i - dst)" by blast
  show "k \<le> unat (src + of_nat w + of_nat i - (dst + of_nat w))"
    unfolding eq by (rule order_trans [OF a(2) le])
qed

lemma block_copy_step:
  assumes d: "disjoint_blocks dst src n" and n: "w + k \<le> n" "n < 4294967296"
  shows "block_copy (dst + of_nat w) (src + of_nat w) k (block_copy dst src w m)
    = block_copy dst src (w + k) m"
proof -
  let ?f = "\<lambda>i. m (src + of_nat i)"
  have "block_copy dst src w m (src + of_nat w + of_nat i) = ?f (w + i)" if "i < k" for i
  proof -
    have "w + i < n" using that n(1) by simp
    with d have "n \<le> unat (src + of_nat (w + i) - dst)" unfolding disjoint_blocks_def by blast
    then show ?thesis using n(1) by (simp add: block_copy_def blit_outside add.assoc)
  qed
  then have "block_copy (dst + of_nat w) (src + of_nat w) k (block_copy dst src w m)
      = blit (dst + of_nat w) k (\<lambda>i. ?f (w + i)) (block_copy dst src w m)"
    unfolding block_copy_def [of "dst + of_nat w"] by (rule blit_cong)
  also have "\<dots> = blit (dst + of_nat w) k (\<lambda>i. ?f (w + i)) (blit dst w ?f m)"
    by (simp only: block_copy_def)
  also have "\<dots> = blit dst (w + k) ?f m" by (rule blit_blit) (use n in simp)
  finally show ?thesis by (simp add: block_copy_def)
qed

lemma block_copy_1: "m(dst := m src) = block_copy dst src 1 m"
  by (simp add: block_copy_def blit_1) (rule blit_cong, simp)

lemma memcpy_top_copy:
  "disjoint_blocks edi esi (unat ecx) \<Longrightarrow>
   \<exists>k\<le>unat ecx. memcpy_top esi edi ecx m
     = (esi + of_nat k, edi + of_nat k, ecx - of_nat k, block_copy edi esi k m)"
proof (induction esi edi ecx m rule: memcpy_top.induct)
  case (1 esi edi ecx m)
  show ?case
  proof (cases "ecx = 0 \<or> edi AND 3 = 0")
    case True
    then show ?thesis by (intro exI [of _ 0]) (auto simp: memcpy_top.simps [of esi edi ecx m])
  next
    case False
    have pos: "0 < unat ecx" using False by (simp add: unat_gt_0)
    have u: "unat (ecx - 1) = unat ecx - 1" using False by (simp add: unat_minus_one)
    have "disjoint_blocks (edi + 1) (esi + 1) (unat (ecx - 1))"
      using disjoint_blocks_advance [OF "1.prems", of "unat (ecx - 1)" 1] u by simp
    then obtain k where k: "k \<le> unat (ecx - 1)"
      "memcpy_top (esi + 1) (edi + 1) (ecx - 1) (m(edi := m esi))
        = (esi + 1 + of_nat k, edi + 1 + of_nat k, ecx - 1 - of_nat k,
           block_copy (edi + 1) (esi + 1) k (m(edi := m esi)))"
      using "1.IH" False by blast
    have "Suc k \<le> unat ecx" using k(1) u pos by linarith
    moreover have "block_copy (edi + 1) (esi + 1) k (m(edi := m esi)) = block_copy edi esi (Suc k) m"
      using block_copy_step [OF "1.prems", of 1 k m] calculation unat_lt_u32 [of ecx]
      by (simp add: block_copy_1)
    ultimately show ?thesis
      using k False by (intro exI [of _ "Suc k"]) (simp add: memcpy_top.simps [of esi edi ecx m])
  qed
qed

lemma rep_movs_copy:
  assumes "w \<le> 4" "w * n < 4294967296" "disjoint_blocks edi esi (w * n)"
  shows "rep_movs False w n esi edi m
    = (esi + of_nat (w * n), edi + of_nat (w * n), block_copy edi esi (w * n) m)"
  using assms(2,3)
proof (induction n arbitrary: esi edi m)
  case (Suc n)
  have "move_le w esi edi m = block_copy edi esi w m"
    using assms(1) by (simp add: move_le_blit block_copy_def)
  moreover have "disjoint_blocks (edi + of_nat w) (esi + of_nat w) (w * n)"
    using disjoint_blocks_advance [OF Suc.prems(2), of "w * n" w] by simp
  moreover have "block_copy (edi + of_nat w) (esi + of_nat w) (w * n) (block_copy edi esi w m)
      = block_copy edi esi (w * Suc n) m"
    using block_copy_step [OF Suc.prems(2), of w "w * n" m] Suc.prems(1) by simp
  ultimately show ?case using Suc by (simp add: algebra_simps)
qed simp

lemma memcpy_bottom_copy:
  "n < 4294967296 \<Longrightarrow> disjoint_blocks edi esi n \<Longrightarrow>
   memcpy_bottom esi edi n m = block_copy edi esi n m"
proof (induction n arbitrary: esi edi m)
  case (Suc n)
  have "disjoint_blocks (edi + 1) (esi + 1) n"
    using disjoint_blocks_advance [OF Suc.prems(2), of n 1] by simp
  then show ?case
    using Suc block_copy_step [OF Suc.prems(2), of 1 n m] by (simp add: block_copy_1)
qed simp

lemma memcpy_copies:
  assumes d: "disjoint_blocks dest src (unat n)"
  shows "memcpy dest src n m = block_copy dest src (unat n) m"
proof -
  obtain k where k: "k \<le> unat n" "memcpy_top src dest n m
      = (src + of_nat k, dest + of_nat k, n - of_nat k, block_copy dest src k m)"
    using memcpy_top_copy [OF d] by blast
  let ?r = "n - of_nat k"
  let ?q = "unat (drop_bit 2 ?r)"
  have r: "unat ?r = unat n - k" using k(1) unat_lt_u32 [of n] by (simp add: unat_sub_u32)
  have len: "k + (4 * ?q + unat (?r AND 3)) = unat n" using r u32_split4 [of ?r] k(1) by simp
  have len': "k + 4 * ?q + unat (?r AND 3) = unat n" using len by simp
  have q: "4 * ?q < 4294967296" using len unat_lt_u32 [of n] by simp
  have d1: "disjoint_blocks (dest + of_nat k) (src + of_nat k) (4 * ?q)"
    by (rule disjoint_blocks_advance [OF d]) (use len in simp)
  have d2: "disjoint_blocks (dest + of_nat (k + 4 * ?q)) (src + of_nat (k + 4 * ?q)) (unat (?r AND 3))"
    by (rule disjoint_blocks_advance [OF d]) (use len in simp)
  show ?thesis
  proof (cases "?r = 0")
    case True
    then show ?thesis using r k by (simp add: memcpy_def Let_def)
  next
    case False
    have "memcpy dest src n m
        = memcpy_bottom (src + of_nat (k + 4 * ?q)) (dest + of_nat (k + 4 * ?q)) (unat (?r AND 3))
            (block_copy (dest + of_nat k) (src + of_nat k) (4 * ?q) (block_copy dest src k m))"
      using False k(2) by (simp add: memcpy_def Let_def rep_movs_copy [OF _ q d1] add.assoc)
    also have "\<dots> = block_copy dest src (unat n) m"
      using block_copy_step [OF d, of k "4 * ?q" m] len len' unat_lt_u32 [of n]
        block_copy_step [OF d, of "k + 4 * ?q" "unat (?r AND 3)" m]
      by (simp only: memcpy_bottom_copy [OF unat_lt_u32 d2] flip: of_nat_add add.assoc)
    finally show ?thesis .
  qed
qed

section \<open>memmove copies overlapping blocks\<close>

lemma rep_movs_up:
  assumes "unat dst \<le> unat src" "unat src + n \<le> 4294967296"
  shows "j + k \<le> n \<Longrightarrow>
    snd (snd (rep_movs False 1 k (src + of_nat j) (dst + of_nat j) (block_copy dst src j m)))
      = block_copy dst src (j + k) m"
proof (induction k arbitrary: j)
  case (Suc k)
  have j: "j < 4294967296" "j < n" using Suc.prems assms(2) by simp_all
  have "unat (src + of_nat j - dst) = unat src - unat dst + j"
  proof -
    have "unat (src + of_nat j) = unat src + j"
      using j assms(2) by (simp add: unat_word_ariths)
    then show ?thesis using assms(1) by (simp add: unat_sub_u32)
  qed
  then have "block_copy dst src j m (src + of_nat j) = m (src + of_nat j)"
    by (simp add: block_copy_def blit_outside)
  then have "move_le 1 (src + of_nat j) (dst + of_nat j) (block_copy dst src j m) = block_copy dst src (Suc j) m"
    using blit_snoc [OF j(1), of dst "\<lambda>i. m (src + of_nat i)" m]
    by (simp add: move_le_def block_copy_def)
  then show ?case using Suc.IH [of "Suc j"] Suc.prems by (simp add: add_ac)
qed simp

text \<open>Copying downwards: after the bytes from index \<open>j\<close> on have been moved.\<close>

definition copied_from :: "u32 \<Rightarrow> u32 \<Rightarrow> nat \<Rightarrow> nat \<Rightarrow> mem \<Rightarrow> mem" where
  "copied_from dst src n j m =
     (\<lambda>a. if j \<le> unat (a - dst) \<and> unat (a - dst) < n then m (src + (a - dst)) else m a)"

lemma copied_from_0: "copied_from dst src n 0 m = block_copy dst src n m"
  by (rule ext) (simp add: copied_from_def block_copy_def blit_def)

lemma copied_from_all: "n \<le> j \<Longrightarrow> copied_from dst src n j m = m"
  by (rule ext) (auto simp: copied_from_def)

lemma copied_from_step:
  assumes "unat src < unat dst" "unat dst + n \<le> 4294967296" "j < n"
  shows "move_le 1 (src + of_nat j) (dst + of_nat j) (copied_from dst src n (Suc j) m)
    = copied_from dst src n j m"
proof
  fix a
  have j: "unat (of_nat j :: u32) = j" using assms by simp
  have "\<not> (Suc j \<le> unat (src + of_nat j - dst) \<and> unat (src + of_nat j - dst) < n)"
  proof -
    have "unat (src + of_nat j) = unat src + j" using assms by (simp add: unat_word_ariths)
    then show ?thesis using assms by (auto simp: unat_sub_u32)
  qed
  moreover have "a = dst + of_nat j \<longleftrightarrow> unat (a - dst) = j"
    using j of_nat_unat_u32 [of "a - dst"] by (auto simp: algebra_simps)
  moreover have "a - dst = of_nat j" if "unat (a - dst) = j"
    using that of_nat_unat_u32 [of "a - dst"] by simp
  ultimately show "move_le 1 (src + of_nat j) (dst + of_nat j) (copied_from dst src n (Suc j) m) a
      = copied_from dst src n j m a"
    using assms(3) by (auto simp: move_le_def copied_from_def)
qed

lemma rep_movs_down:
  assumes "unat src < unat dst" "unat dst + n \<le> 4294967296"
  shows "j \<le> n \<Longrightarrow>
    snd (snd (rep_movs True 1 j (src + of_nat j - 1) (dst + of_nat j - 1) (copied_from dst src n j m)))
      = copied_from dst src n 0 m"
proof (induction j)
  case (Suc j)
  have "src + of_nat (Suc j) - 1 = src + of_nat j" "dst + of_nat (Suc j) - 1 = dst + of_nat j" by simp_all
  then show ?case using Suc copied_from_step [OF assms, of j m] by simp
qed simp

lemma memmove_copies:
  assumes "unat dest + unat n \<le> 4294967296" "unat src + unat n \<le> 4294967296"
  shows "memmove dest src n m = (block_copy dest src (unat n) m, src < dest)"
proof (cases "dest \<le> src")
  case True
  then show ?thesis
    using rep_movs_up [of dest src "unat n" 0 "unat n" m] assms
    by (auto simp: memmove_def word_le_nat_alt word_less_nat_alt)
next
  case False
  then have "unat src < unat dest" by (simp add: word_le_nat_alt)
  then show ?thesis
    using rep_movs_down [of src dest "unat n" "unat n" m] assms False
    by (auto simp: memmove_def copied_from_0 copied_from_all)
qed

section \<open>The block operations, byte by byte\<close>

text \<open>\<open>memset\<close>, which stores bytes up to an aligned address, then words, then bytes again, sets exactly
  the \<open>n\<close> bytes from \<open>s\<close> on (wrapping at 4 GB) to the low byte of \<open>c\<close>, for every length and alignment.\<close>

theorem memset_bytes:
  "memset s c n m a = (if unat (a - s) < unat n then ucast c else m a)"
  by (simp add: memset_fills blit_def)

text \<open>\<open>memcpy\<close> copies \<open>n\<close> bytes between blocks of which no source byte lies in the destination, and
  changes nothing else, for every length and alignment.\<close>

theorem memcpy_bytes:
  assumes "disjoint_blocks dest src (unat n)"
  shows "memcpy dest src n m a = (if unat (a - dest) < unat n then m (src + (a - dest)) else m a)"
  by (simp add: memcpy_copies [OF assms] block_copy_def blit_def)

theorem memcpy_bytes_witness:
  "memcpy 0xB8000 0xB9000 4096 (\<lambda>a. ucast a) 0xB8005
    = (if unat (0xB8005 - 0xB8000 :: u32) < unat (4096 :: u32) then ucast (0xB9000 + (0xB8005 - 0xB8000) :: u32)
       else ucast (0xB8005 :: u32))"
proof (rule memcpy_bytes)
  show "disjoint_blocks 0xB8000 0xB9000 (unat (4096 :: u32))"
    unfolding disjoint_blocks_def
  proof (intro allI impI)
    fix i :: nat
    assume "i < unat (4096 :: u32)"
    then have i: "i < 4096" by simp
    have "0xB9000 + of_nat i - 0xB8000 = (of_nat (4096 + i) :: u32)" by simp
    then have "unat (0xB9000 + of_nat i - 0xB8000 :: u32) = 4096 + i"
      using i by (simp only: unat_of_nat_u32)
    then show "unat (4096 :: u32) \<le> unat (0xB9000 + of_nat i - 0xB8000 :: u32)" by simp
  qed
qed

text \<open>\<open>memmove\<close> copies correctly between overlapping blocks too, as long as neither block wraps around
  the address space; when it has to copy downwards it returns with the direction flag set.\<close>

theorem memmove_bytes:
  assumes "unat dest + unat n \<le> 4294967296" "unat src + unat n \<le> 4294967296"
  shows "fst (memmove dest src n m) a = (if unat (a - dest) < unat n then m (src + (a - dest)) else m a)
    \<and> snd (memmove dest src n m) = (src < dest)"
  by (simp add: memmove_copies [OF assms] block_copy_def blit_def)

theorem memmove_bytes_witness:
  "fst (memmove 0x1001 0x1000 8 (\<lambda>a. ucast a)) 0x1003
    = (if unat (0x1003 - 0x1001 :: u32) < unat (8 :: u32) then ucast (0x1000 + (0x1003 - 0x1001) :: u32)
       else ucast (0x1003 :: u32))
    \<and> snd (memmove 0x1001 0x1000 8 (\<lambda>a. ucast a)) = ((0x1000 :: u32) < 0x1001)"
  by (rule memmove_bytes) simp_all

end
