(* ===== verification/Machine.thy ===== *)
theory Machine
  imports Prelude
begin

text \<open>
  The processor as the C code sees it through \<open>lib.h\<close>: port input and output and the interrupt flag.
  The devices behind the ports are not part of the program. They are the field \<open>device\<close>, any function
  from the I/O history so far to the byte the next \<open>inb\<close> reads; every port access is recorded in
  \<open>history\<close>, oldest first.
\<close>

datatype io_event =
    Out8 u16 u8     \<comment> \<open>port, byte\<close>
  | Out16 u16 u16   \<comment> \<open>port, word\<close>
  | In8 u16 u8      \<comment> \<open>port, byte that was read\<close>

record machine =
  history :: "io_event list"
  device :: "io_event list \<Rightarrow> u16 \<Rightarrow> u8"
  intr_flag :: bool

section \<open>Port access and interrupt flag (lib.h)\<close>

definition inb :: "u16 \<Rightarrow> 'z machine_scheme \<Rightarrow> u8 \<times> 'z machine_scheme" where
  "inb port s =
     (let val = device s (history s) port in (val, s\<lparr>history := history s @ [In8 port val]\<rparr>))"

text \<open>The macro's argument order is data first, port second.\<close>

definition outb :: "u8 \<Rightarrow> u16 \<Rightarrow> 'z machine_scheme \<Rightarrow> 'z machine_scheme" where
  "outb data port s = s\<lparr>history := history s @ [Out8 port data]\<rparr>"

text \<open>\<open>OUTW\<close> takes the port first.\<close>

definition OUTW :: "u16 \<Rightarrow> u16 \<Rightarrow> 'z machine_scheme \<Rightarrow> 'z machine_scheme" where
  "OUTW port val s = s\<lparr>history := history s @ [Out16 port val]\<rparr>"

definition REP_OUTSB :: "u16 \<Rightarrow> u8 list \<Rightarrow> 'z machine_scheme \<Rightarrow> 'z machine_scheme" where
  "REP_OUTSB port source s = fold (\<lambda>b. outb b port) source s"

definition REP_OUTSW :: "u16 \<Rightarrow> u16 list \<Rightarrow> 'z machine_scheme \<Rightarrow> 'z machine_scheme" where
  "REP_OUTSW port source s = fold (\<lambda>w. OUTW port w) source s"

definition cli :: "'z machine_scheme \<Rightarrow> 'z machine_scheme" where
  "cli s = s\<lparr>intr_flag := False\<rparr>"

definition sti :: "'z machine_scheme \<Rightarrow> 'z machine_scheme" where
  "sti s = s\<lparr>intr_flag := True\<rparr>"

text \<open>The wider accesses, which the C files do not use. \<open>lib.h\<close> describes them as accesses to consecutive ports, in
  little-endian order.\<close>

definition inw :: "u16 \<Rightarrow> 'z machine_scheme \<Rightarrow> u32 \<times> 'z machine_scheme" where
  "inw port s =
     (let (lo, s) = inb port s; (hi, s) = inb (port + 1) s in (ucast lo OR push_bit 8 (ucast hi), s))"

definition inl :: "u16 \<Rightarrow> 'z machine_scheme \<Rightarrow> u32 \<times> 'z machine_scheme" where
  "inl port s =
     (let (lo, s) = inw port s; (hi, s) = inw (port + 2) s in (lo OR push_bit 16 hi, s))"

definition outw :: "u16 \<Rightarrow> u16 \<Rightarrow> 'z machine_scheme \<Rightarrow> 'z machine_scheme" where
  "outw data port s = OUTW port data s"

definition outl :: "u32 \<Rightarrow> u16 \<Rightarrow> 'z machine_scheme \<Rightarrow> 'z machine_scheme" where
  "outl data port s = OUTW (port + 2) (ucast (drop_bit 16 data)) (OUTW port (ucast data) s)"

text \<open>The flags register; its bit 9 is the interrupt flag, the other bits are \<open>rest\<close>.\<close>

definition cli_and_save :: "u32 \<Rightarrow> 'z machine_scheme \<Rightarrow> u32 \<times> 'z machine_scheme" where
  "cli_and_save rest s = (if intr_flag s then set_bit 9 rest else unset_bit 9 rest, cli s)"

definition restore_flags :: "u32 \<Rightarrow> 'z machine_scheme \<Rightarrow> 'z machine_scheme" where
  "restore_flags flags s = s\<lparr>intr_flag := bit flags 9\<rparr>"

lemma restore_saved_flags:
  "\<not> intr_flag (snd (cli_and_save rest s))" "restore_flags (fst (cli_and_save rest s)) (snd (cli_and_save rest s)) = s"
  by (simp_all add: cli_and_save_def restore_flags_def cli_def bit_simps)

text \<open>Little-endian 32-bit load through a pointer.\<close>

definition load32 :: "mem \<Rightarrow> u32 \<Rightarrow> u32" where
  "load32 m a = ucast (m a) OR push_bit 8 (ucast (m (a + 1)))
     OR push_bit 16 (ucast (m (a + 2))) OR push_bit 24 (ucast (m (a + 3)))"

lemmas io_defs = inb_def outb_def OUTW_def cli_def sti_def Let_def

lemma fst_inb [simp]: "fst (inb port s) = device s (history s) port"
  by (simp add: inb_def Let_def)

lemma history_io [simp]:
  "history (outb d p s) = history s @ [Out8 p d]"
  "history (OUTW p w s) = history s @ [Out16 p w]"
  "history (snd (inb p s)) = history s @ [In8 p (device s (history s) p)]"
  "history (cli s) = history s" "history (sti s) = history s"
  by (simp_all add: io_defs)

lemma device_io [simp]:
  "device (outb d p s) = device s" "device (OUTW p w s) = device s"
  "device (snd (inb p s)) = device s" "device (cli s) = device s" "device (sti s) = device s"
  by (simp_all add: io_defs)

lemma intr_flag_io [simp]:
  "intr_flag (outb d p s) = intr_flag s" "intr_flag (OUTW p w s) = intr_flag s"
  "intr_flag (snd (inb p s)) = intr_flag s" "\<not> intr_flag (cli s)" "intr_flag (sti s)"
  by (simp_all add: io_defs)

lemma more_io [simp]:
  "machine.more (outb d p s) = machine.more s" "machine.more (OUTW p w s) = machine.more s"
  "machine.more (snd (inb p s)) = machine.more s" "machine.more (cli s) = machine.more s"
  "machine.more (sti s) = machine.more s"
  by (simp_all add: io_defs)

end
