(* ===== verification/Pic.thy ===== *)
theory Pic
  imports Machine
begin

text \<open>
  \<open>i8259.c\<close>: the two cascaded 8259 interrupt controllers. The state is the pair of cached masks; the
  operations program the controllers and mask, unmask and acknowledge interrupt lines. The
  abstract view is a small 8259 that follows the initialisation command words and keeps the
  interrupt mask register; a device conforms when reads of the data ports return that register.
\<close>

record pic = machine +
  master_mask :: u8
  slave_mask :: u8

section \<open>Operations\<close>

abbreviation "MASTER_8259_PORT \<equiv> (0x20 :: u16)"
abbreviation "SLAVE_8259_PORT \<equiv> (0xA0 :: u16)"
abbreviation "EOI \<equiv> (0x60 :: u32)"

text \<open>The mask \<open>1 << irq_num\<close> is an \<open>int\<close> that is stored in a \<open>uint8_t\<close>; only its low byte survives.\<close>

definition enable_irq :: "u32 \<Rightarrow> 'z pic_scheme \<Rightarrow> 'z pic_scheme" where
  "enable_irq irq_num s =
     (if irq_num < 8 then
        let port = MASTER_8259_PORT + 1;
            (v, s) = inb port s;
            value = v AND NOT (ucast (push_bit (unat irq_num) (1 :: u32)));
            s = s\<lparr>master_mask := value\<rparr>
        in outb value port s
      else
        let port = SLAVE_8259_PORT + 1;
            irq_num = irq_num - 8;
            (v, s) = inb port s;
            value = v AND NOT (ucast (push_bit (unat irq_num) (1 :: u32)));
            s = s\<lparr>slave_mask := value\<rparr>
        in outb value port s)"

definition disable_irq :: "u32 \<Rightarrow> 'z pic_scheme \<Rightarrow> 'z pic_scheme" where
  "disable_irq irq_num s =
     (if irq_num < 8 then
        let port = MASTER_8259_PORT + 1;
            (v, s) = inb port s;
            value = v OR ucast (push_bit (unat irq_num) (1 :: u32));
            s = s\<lparr>master_mask := value\<rparr>
        in outb value port s
      else
        let port = SLAVE_8259_PORT + 1;
            irq_num = irq_num - 8;
            (v, s) = inb port s;
            value = v OR ucast (push_bit (unat irq_num) (1 :: u32));
            s = s\<lparr>slave_mask := value\<rparr>
        in outb value port s)"

definition send_eoi :: "u32 \<Rightarrow> 'z pic_scheme \<Rightarrow> 'z pic_scheme" where
  "send_eoi irq_num s =
     (let s = cli s;
          s = (if irq_num \<ge> 8 then
                 let irq_num = irq_num - 8;
                     s = outb (ucast (2 OR EOI)) MASTER_8259_PORT s
                 in outb (ucast (irq_num OR EOI)) SLAVE_8259_PORT s
               else outb (ucast (irq_num OR EOI)) MASTER_8259_PORT s)
      in sti s)"

text \<open>\<open>cli_and_save\<close> and \<open>restore_flags\<close> bracket the sequence, and \<open>sti\<close> follows them.\<close>

definition i8259_init :: "'z pic_scheme \<Rightarrow> 'z pic_scheme" where
  "i8259_init s =
     (let flags = intr_flag s;
          s = cli s;
          s = s\<lparr>master_mask := 0xFF, slave_mask := 0xFF\<rparr>;
          cashed_master = master_mask s;
          cashed_slave = slave_mask s;
          s = outb (master_mask s) (MASTER_8259_PORT + 1) s;
          s = outb (slave_mask s) (SLAVE_8259_PORT + 1) s;
          s = outb 0x11 MASTER_8259_PORT s;
          s = outb 0x20 (MASTER_8259_PORT + 1) s;
          s = outb 0x04 (MASTER_8259_PORT + 1) s;
          s = outb 0x01 (MASTER_8259_PORT + 1) s;
          s = outb 0x11 SLAVE_8259_PORT s;
          s = outb 0x28 (SLAVE_8259_PORT + 1) s;
          s = outb 0x02 (SLAVE_8259_PORT + 1) s;
          s = outb 0x01 (SLAVE_8259_PORT + 1) s;
          s = outb cashed_master (MASTER_8259_PORT + 1) s;
          s = outb cashed_slave (SLAVE_8259_PORT + 1) s;
          s = enable_irq 2 s;
          s = s\<lparr>intr_flag := flags\<rparr>
      in sti s)"

section \<open>Abstract view: an 8259\<close>

text \<open>The initialisation words a controller still waits for.\<close>

datatype icw = ICW2 | ICW3 | ICW4

record pic8259 =
  imr :: u8              \<comment> \<open>interrupt mask register\<close>
  base_vector :: u8      \<comment> \<open>vector of line 0\<close>
  pending :: "icw list"

definition write_command :: "u8 \<Rightarrow> pic8259 \<Rightarrow> pic8259" where
  "write_command v c =
     (if bit v 4 then
        c\<lparr>imr := 0, pending := ICW2 # (if bit v 1 then [] else [ICW3]) @ (if bit v 0 then [ICW4] else [])\<rparr>
      else c)"

definition write_data :: "u8 \<Rightarrow> pic8259 \<Rightarrow> pic8259" where
  "write_data v c =
     (case pending c of
        [] \<Rightarrow> c\<lparr>imr := v\<rparr>
      | ICW2 # ps \<Rightarrow> c\<lparr>base_vector := v AND 0xF8, pending := ps\<rparr>
      | _ # ps \<Rightarrow> c\<lparr>pending := ps\<rparr>)"

fun pic_event :: "u16 \<Rightarrow> io_event \<Rightarrow> pic8259 \<Rightarrow> pic8259" where
  "pic_event base (Out8 port v) c =
     (if port = base then write_command v c
      else if port = base + 1 then write_data v c else c)"
| "pic_event base (Out16 port v) c = c"
| "pic_event base (In8 port v) c = c"

text \<open>The controller at \<open>base\<close> after a history, from an arbitrary power-on state.\<close>

definition pic_after :: "pic8259 \<Rightarrow> u16 \<Rightarrow> io_event list \<Rightarrow> pic8259" where
  "pic_after c0 base h = fold (pic_event base) h c0"

definition pic_device :: "pic8259 \<Rightarrow> pic8259 \<Rightarrow> (io_event list \<Rightarrow> u16 \<Rightarrow> u8) \<Rightarrow> bool" where
  "pic_device m0 s0 dev \<longleftrightarrow>
     (\<forall>h. dev h 0x21 = imr (pic_after m0 0x20 h) \<and> dev h 0xA1 = imr (pic_after s0 0xA0 h))"

text \<open>Line \<open>n\<close> of the pair (0 to 7 on the master, 8 to 15 on the slave) is unmasked.\<close>

definition irq_enabled :: "pic8259 \<Rightarrow> pic8259 \<Rightarrow> io_event list \<Rightarrow> nat \<Rightarrow> bool" where
  "irq_enabled m0 s0 h n =
     (if n < 8 then \<not> bit (imr (pic_after m0 0x20 h)) n
      else \<not> bit (imr (pic_after s0 0xA0 h)) (n - 8))"

definition pics_ready :: "pic8259 \<Rightarrow> pic8259 \<Rightarrow> io_event list \<Rightarrow> bool" where
  "pics_ready m0 s0 h \<longleftrightarrow> pending (pic_after m0 0x20 h) = [] \<and> pending (pic_after s0 0xA0 h) = []"

section \<open>Lemmas\<close>

lemma pic_after_append [simp]: "pic_after c0 base (h @ es) = fold (pic_event base) es (pic_after c0 base h)"
  by (simp add: pic_after_def)

lemma enable_irq_history:
  "history (enable_irq n s) =
     (let p = (if n < 8 then 0x21 else 0xA1); v = device s (history s) p
      in history s @ [In8 p v,
           Out8 p (v AND NOT (ucast (push_bit (unat (if n < 8 then n else n - 8)) (1 :: u32))))])"
  by (simp add: enable_irq_def Let_def inb_def outb_def)

lemma disable_irq_history:
  "history (disable_irq n s) =
     (let p = (if n < 8 then 0x21 else 0xA1); v = device s (history s) p
      in history s @ [In8 p v,
           Out8 p (v OR ucast (push_bit (unat (if n < 8 then n else n - 8)) (1 :: u32)))])"
  by (simp add: disable_irq_def Let_def inb_def outb_def)

lemma irq_frame [simp]:
  "device (enable_irq n s) = device s" "device (disable_irq n s) = device s"
  "intr_flag (enable_irq n s) = intr_flag s" "intr_flag (disable_irq n s) = intr_flag s"
  "pic.more (enable_irq n s) = pic.more s" "pic.more (disable_irq n s) = pic.more s"
  by (simp_all add: enable_irq_def disable_irq_def Let_def inb_def outb_def)

lemma send_eoi_frame [simp]:
  "device (send_eoi n s) = device s" "intr_flag (send_eoi n s)"
  "pic.more (send_eoi n s) = pic.more s"
  "master_mask (send_eoi n s) = master_mask s" "slave_mask (send_eoi n s) = slave_mask s"
  by (simp_all add: send_eoi_def Let_def io_defs)

lemma bit_irq_mask [simp]:
  "k < 8 \<Longrightarrow> n < 8 \<Longrightarrow> bit (ucast (2 ^ n :: u32) :: u8) k \<longleftrightarrow> k = n"
  by (auto simp: bit_simps)

lemma nat_line [simp]:
  "n < 16 \<Longrightarrow> (of_nat n :: u32) < 8 \<longleftrightarrow> n < 8"
  "n < 16 \<Longrightarrow> unat (of_nat n :: u32) = n"
  "8 \<le> n \<Longrightarrow> n < 16 \<Longrightarrow> unat (of_nat n - 8 :: u32) = n - 8"
proof -
  assume n: "n < 16"
  then show u: "unat (of_nat n :: u32) = n" by (simp add: unat_of_nat)
  show "(of_nat n :: u32) < 8 \<longleftrightarrow> n < 8" by (simp add: word_less_nat_alt u)
next
  assume n: "8 \<le> n" "n < 16"
  then obtain k where "n = 8 + k" by (metis le_Suc_ex)
  then show "unat (of_nat n - 8 :: u32) = n - 8" using n by (simp add: unat_of_nat)
qed

section \<open>Interrupt lines as a set\<close>

text \<open>
  What the drivers rely on: \<open>enable\<close> adds a line to the set of unmasked lines and \<open>disable\<close> removes
  it, and neither touches another line.
\<close>

locale interrupt_lines =
  fixes ok :: "'s \<Rightarrow> bool"
    and lines :: "'s \<Rightarrow> nat set"
    and enable :: "nat \<Rightarrow> 's \<Rightarrow> 's"
    and disable :: "nat \<Rightarrow> 's \<Rightarrow> 's"
  assumes ok_enable: "ok s \<Longrightarrow> n < 16 \<Longrightarrow> ok (enable n s)"
    and ok_disable: "ok s \<Longrightarrow> n < 16 \<Longrightarrow> ok (disable n s)"
    and lines_enable: "ok s \<Longrightarrow> n < 16 \<Longrightarrow> lines (enable n s) = insert n (lines s)"
    and lines_disable: "ok s \<Longrightarrow> n < 16 \<Longrightarrow> lines (disable n s) = lines s - {n}"
begin

text \<open>Masking two lines and unmasking them afterwards leaves both enabled and the rest alone.\<close>

lemma mask_pair:
  assumes "ok s" "a < 16" "b < 16"
  shows "ok (disable b (disable a s)) \<and> lines (disable b (disable a s)) = lines s - {a, b}"
  using assms by (auto simp: ok_disable lines_disable)

lemma unmask_pair:
  assumes "ok s" "a < 16" "b < 16"
  shows "ok (enable b (enable a s)) \<and> lines (enable b (enable a s)) = lines s \<union> {a, b}"
  using assms by (auto simp: ok_enable lines_enable)

lemma enable_idem: "ok s \<Longrightarrow> n < 16 \<Longrightarrow> lines (enable n (enable n s)) = lines (enable n s)"
  by (simp add: ok_enable lines_enable)

lemma disable_enable: "ok s \<Longrightarrow> n < 16 \<Longrightarrow> lines (enable n (disable n s)) = insert n (lines s)"
  by (auto simp: ok_disable lines_enable lines_disable)

end

definition pic_ok :: "pic8259 \<Rightarrow> pic8259 \<Rightarrow> 'z pic_scheme \<Rightarrow> bool" where
  "pic_ok m0 s0 s \<longleftrightarrow> pic_device m0 s0 (device s) \<and> pics_ready m0 s0 (history s)"

definition irq_lines :: "pic8259 \<Rightarrow> pic8259 \<Rightarrow> 'z pic_scheme \<Rightarrow> nat set" where
  "irq_lines m0 s0 s = {n. n < 16 \<and> irq_enabled m0 s0 (history s) n}"

lemma write_data_ready [simp]: "pending c = [] \<Longrightarrow> write_data v c = c\<lparr>imr := v\<rparr>"
  by (simp add: write_data_def)

lemma pic_ok_enable: "pic_ok m0 s0 s \<Longrightarrow> n < 16 \<Longrightarrow> pic_ok m0 s0 (enable_irq (of_nat n) s)"
  by (auto simp: pic_ok_def pics_ready_def enable_irq_history Let_def)

lemma pic_ok_disable: "pic_ok m0 s0 s \<Longrightarrow> n < 16 \<Longrightarrow> pic_ok m0 s0 (disable_irq (of_nat n) s)"
  by (auto simp: pic_ok_def pics_ready_def disable_irq_history Let_def)

lemma irq_enabled_enable:
  assumes "pic_ok m0 s0 s" "n < 16" "k < 16"
  shows "irq_enabled m0 s0 (history (enable_irq (of_nat n) s)) k
     \<longleftrightarrow> k = n \<or> irq_enabled m0 s0 (history s) k"
  using assms
  by (auto simp: pic_ok_def pics_ready_def pic_device_def irq_enabled_def enable_irq_history Let_def
      bit_and_iff bit_not_iff)

lemma irq_enabled_disable:
  assumes "pic_ok m0 s0 s" "n < 16" "k < 16"
  shows "irq_enabled m0 s0 (history (disable_irq (of_nat n) s)) k
     \<longleftrightarrow> k \<noteq> n \<and> irq_enabled m0 s0 (history s) k"
  using assms
  by (auto simp: pic_ok_def pics_ready_def pic_device_def irq_enabled_def disable_irq_history Let_def
      bit_or_iff)

interpretation pic: interrupt_lines "pic_ok m0 s0" "irq_lines m0 s0"
  "\<lambda>n. enable_irq (of_nat n)" "\<lambda>n. disable_irq (of_nat n)" for m0 s0
  by unfold_locales
    (auto simp: pic_ok_enable pic_ok_disable irq_lines_def irq_enabled_enable irq_enabled_disable)

text \<open>On conforming controllers that have been initialised, \<open>enable_irq\<close> and \<open>disable_irq\<close> add and
  remove exactly the line they are given, for all sixteen lines, master and slave.\<close>

theorem irq_lines_updated:
  assumes "pic_ok m0 s0 s" "n < 16"
  shows "irq_lines m0 s0 (enable_irq (of_nat n) s) = insert n (irq_lines m0 s0 s)
    \<and> irq_lines m0 s0 (disable_irq (of_nat n) s) = irq_lines m0 s0 s - {n}"
  using assms by (simp add: pic.lines_enable pic.lines_disable)

section \<open>Initialisation and end of interrupt\<close>

text \<open>A conforming device for witnesses: it answers from the state the history leads to.\<close>

definition pic_bus :: "pic8259 \<Rightarrow> pic8259 \<Rightarrow> io_event list \<Rightarrow> u16 \<Rightarrow> u8" where
  "pic_bus m0 s0 h port =
     (if port = 0x21 then imr (pic_after m0 0x20 h)
      else if port = 0xA1 then imr (pic_after s0 0xA0 h) else 0)"

lemma pic_device_bus: "pic_device m0 s0 (pic_bus m0 s0)"
  by (simp add: pic_device_def pic_bus_def)

definition power_on :: pic8259 where
  "power_on = \<lparr>imr = 0x55, base_vector = 0, pending = []\<rparr>"

definition pic0 :: pic where
  "pic0 = \<lparr>history = [], device = pic_bus power_on power_on, intr_flag = False,
     master_mask = 0, slave_mask = 0\<rparr>"

lemma pic_ok_pic0: "pic_ok power_on power_on pic0"
  by (simp add: pic_ok_def pic0_def pic_device_bus pics_ready_def pic_after_def power_on_def)

theorem irq_lines_updated_witness:
  "irq_lines power_on power_on (enable_irq (of_nat 12) pic0)
     = insert 12 (irq_lines power_on power_on pic0)
   \<and> irq_lines power_on power_on (disable_irq (of_nat 12) pic0)
     = irq_lines power_on power_on pic0 - {12}"
  by (rule irq_lines_updated [OF pic_ok_pic0]) simp

lemma write_data_icw [simp]:
  "pending c = ICW2 # ps \<Longrightarrow> write_data v c = c\<lparr>base_vector := v AND 0xF8, pending := ps\<rparr>"
  "pending c = ICW3 # ps \<Longrightarrow> write_data v c = c\<lparr>pending := ps\<rparr>"
  "pending c = ICW4 # ps \<Longrightarrow> write_data v c = c\<lparr>pending := ps\<rparr>"
  by (simp_all add: write_data_def)

lemma write_icw1: "write_command 0x11 c = c\<lparr>imr := 0, pending := [ICW2, ICW3, ICW4]\<rparr>"
  by (simp add: write_command_def)

text \<open>C32. \<open>i8259_init\<close> takes two conforming controllers from any state in which they await no
  initialisation word to: vectors from 0x20 and 0x28, every line masked except the cascade line 2,
  no initialisation word outstanding, interrupts enabled.\<close>

theorem i8259_init_ready:
  assumes "pic_ok m0 s0 s"
  shows "pic_ok m0 s0 (i8259_init s) \<and> irq_lines m0 s0 (i8259_init s) = {2}
    \<and> base_vector (pic_after m0 0x20 (history (i8259_init s))) = 0x20
    \<and> base_vector (pic_after s0 0xA0 (history (i8259_init s))) = 0x28
    \<and> intr_flag (i8259_init s)"
proof -
  define es where "es = [Out8 0x21 0xFF, Out8 0xA1 0xFF, Out8 0x20 0x11, Out8 0x21 0x20, Out8 0x21 0x04,
    Out8 0x21 0x01, Out8 0xA0 0x11, Out8 0xA1 0x28, Out8 0xA1 0x02, Out8 0xA1 0x01,
    Out8 0x21 0xFF, Out8 0xA1 0xFF]"
  have rdy: "pending (pic_after m0 0x20 (history s)) = []" "pending (pic_after s0 0xA0 (history s)) = []"
    and dev: "pic_device m0 s0 (device s)"
    using assms by (simp_all add: pic_ok_def pics_ready_def)
  have m: "pic_after m0 0x20 (history s @ es)
      = (pic_after m0 0x20 (history s))\<lparr>imr := 0xFF, base_vector := 0x20, pending := []\<rparr>"
    using rdy by (simp add: es_def write_icw1)
  have sl: "pic_after s0 0xA0 (history s @ es)
      = (pic_after s0 0xA0 (history s))\<lparr>imr := 0xFF, base_vector := 0x28, pending := []\<rparr>"
    using rdy by (simp add: es_def write_icw1)
  have v: "device s (history s @ es) 0x21 = 0xFF" using dev m by (simp add: pic_device_def del: pic_after_append)
  have h: "history (i8259_init s) = (history s @ es) @ [In8 0x21 0xFF, Out8 0x21 0xFB]"
    using v by (simp add: i8259_init_def es_def Let_def inb_def outb_def enable_irq_def cli_def sti_def)
  have d: "device (i8259_init s) = device s" "intr_flag (i8259_init s)"
    by (simp_all add: i8259_init_def Let_def inb_def outb_def enable_irq_def cli_def sti_def)
  have m': "pic_after m0 0x20 (history (i8259_init s))
      = (pic_after m0 0x20 (history s))\<lparr>imr := 0xFB, base_vector := 0x20, pending := []\<rparr>"
    unfolding h by (subst pic_after_append) (simp add: m del: pic_after_append)
  have sl': "pic_after s0 0xA0 (history (i8259_init s))
      = (pic_after s0 0xA0 (history s))\<lparr>imr := 0xFF, base_vector := 0x28, pending := []\<rparr>"
    unfolding h by (subst pic_after_append) (simp add: sl del: pic_after_append)
  have "list_all (\<lambda>n. (bit (0xFB :: u8) n \<longleftrightarrow> n \<noteq> 2) \<and> bit (0xFF :: u8) n) [0..<8]"
    by (simp add: upt_rec)
  then have bits: "bit (0xFB :: u8) n \<longleftrightarrow> n \<noteq> 2" "bit (0xFF :: u8) n" if "n < 8" for n
    using that by (auto simp: list_all_iff)
  show ?thesis
    using dev by (simp add: d pic_ok_def pics_ready_def irq_lines_def irq_enabled_def m' sl')
      (use bits in \<open>auto\<close>)
qed

theorem i8259_init_ready_witness:
  "pic_ok power_on power_on (i8259_init pic0) \<and> irq_lines power_on power_on (i8259_init pic0) = {2}
    \<and> base_vector (pic_after power_on 0x20 (history (i8259_init pic0))) = 0x20
    \<and> base_vector (pic_after power_on 0xA0 (history (i8259_init pic0))) = 0x28
    \<and> intr_flag (i8259_init pic0)"
  by (rule i8259_init_ready [OF pic_ok_pic0])

text \<open>The controllers' bookkeeping does not see an end of interrupt: bit 4 of the command is clear.\<close>

lemma send_eoi_history:
  "n < 8 \<Longrightarrow> history (send_eoi (of_nat n) s) = history s @ [Out8 0x20 (0x60 OR of_nat n)]"
  "8 \<le> n \<Longrightarrow> n < 16 \<Longrightarrow>
     history (send_eoi (of_nat n) s) = history s @ [Out8 0x20 0x62, Out8 0xA0 (0x60 OR of_nat (n - 8))]"
proof -
  assume "n < 8"
  then have "n \<in> {0, 1, 2, 3, 4, 5, 6, 7}" by auto
  then show "history (send_eoi (of_nat n) s) = history s @ [Out8 0x20 (0x60 OR of_nat n)]"
    by (auto simp: send_eoi_def Let_def word_le_nat_alt)
next
  assume "8 \<le> n" "n < 16"
  then have "n \<in> {8, 9, 10, 11, 12, 13, 14, 15}" by auto
  then show "history (send_eoi (of_nat n) s)
      = history s @ [Out8 0x20 0x62, Out8 0xA0 (0x60 OR of_nat (n - 8))]"
    by (auto simp: send_eoi_def Let_def)
qed

lemma pic_ok_send_eoi:
  assumes "pic_ok m0 s0 s" "n < 16"
  shows "pic_ok m0 s0 (send_eoi (of_nat n) s)"
    and "irq_lines m0 s0 (send_eoi (of_nat n) s) = irq_lines m0 s0 s"
proof -
  have nb: "write_command (0x60 OR of_nat k) c = c" if "k < 8" for k c
  proof -
    have "k \<in> {0, 1, 2, 3, 4, 5, 6, 7}" using that by auto
    then show ?thesis by (auto simp: write_command_def)
  qed
  have e: "write_command 0x62 c = c" for c by (simp add: write_command_def)
  have a: "pic_after c0 b (history (send_eoi (of_nat n) s)) = pic_after c0 b (history s)"
    if "b = 0x20 \<or> b = 0xA0" for c0 b
    using that assms(2) nb [of n] nb [of "n - 8"]
    by (cases "n < 8") (auto simp: send_eoi_history e)
  show "pic_ok m0 s0 (send_eoi (of_nat n) s)"
    using assms(1) by (simp add: pic_ok_def pics_ready_def a)
  show "irq_lines m0 s0 (send_eoi (of_nat n) s) = irq_lines m0 s0 s"
    by (simp add: irq_lines_def irq_enabled_def a)
qed

end
