(* ===== verification/Sound.thy ===== *)
theory Sound
  imports Pic
begin

text \<open>
  \<open>sound.c\<close>: the PC speaker. The state is the tone \<open>sound_freq\<close>; \<open>beep\<close> raises it and \<open>beep_init\<close> lowers it,
  each wrapping round, and \<open>play_sound\<close> programs the timer with the divisor. The lemmas show that the
  tone stays where the division is defined and the divisor fits the two bytes that are written.
\<close>

record sound = pic +
  sound_freq :: u32

definition play_sound :: "u32 \<Rightarrow> 'z sound_scheme \<Rightarrow> 'z sound_scheme option" where
  "play_sound nFrequence s =
     (if nFrequence = 0 then None
      else
        let Div = 1193180 div nFrequence;
            s = outb 0xb6 0x43 s;
            s = outb (ucast (Div AND 0xFF)) 0x42 s;
            s = outb (ucast (drop_bit 8 Div)) 0x42 s;
            (tmp, s) = inb 0x61 s
        in Some (if tmp \<noteq> tmp OR 3 then outb (tmp OR 3) 0x61 s else s))"

definition nosound :: "'z sound_scheme \<Rightarrow> 'z sound_scheme" where
  "nosound s =
     (let s = cli s;
          (v, s) = inb 0x61 s;
          tmp = v AND 0xFC
      in sti (outb tmp 0x61 s))"

definition beep :: "'z sound_scheme \<Rightarrow> 'z sound_scheme option" where
  "beep s =
     (let s = (if sound_freq s > 1100 then s\<lparr>sound_freq := 200\<rparr> else s);
          s = s\<lparr>sound_freq := sound_freq s + 40\<rparr>
      in play_sound (sound_freq s) s)"

definition beep_init :: "'z sound_scheme \<Rightarrow> 'z sound_scheme option" where
  "beep_init s =
     (let s = (if sound_freq s < 200 then s\<lparr>sound_freq := 1200\<rparr> else s);
          s = s\<lparr>sound_freq := sound_freq s - 100\<rparr>
      in play_sound (sound_freq s) s)"

section \<open>Frames\<close>

lemma sound_io [simp]:
  "sound_freq (outb d p s) = sound_freq s" "sound_freq (snd (inb p s)) = sound_freq s"
  "sound_freq (cli s) = sound_freq s" "sound_freq (sti s) = sound_freq s"
  "pic.more (outb d p s) = pic.more s" "pic.more (snd (inb p s)) = pic.more s"
  "pic.more (cli s) = pic.more s" "pic.more (sti s) = pic.more s"
  "sound.more (outb d p s) = sound.more s" "sound.more (snd (inb p s)) = sound.more s"
  "sound.more (cli s) = sound.more s" "sound.more (sti s) = sound.more s"
  by (simp_all add: io_defs)

lemma play_sound_frame:
  assumes "play_sound f s = Some s'"
  shows "sound_freq s' = sound_freq s" "sound.more s' = sound.more s" "device s' = device s"
    "intr_flag s' = intr_flag s"
  using assms by (auto simp: play_sound_def Let_def inb_def outb_def split: if_splits)

lemma nosound_frame [simp]:
  "sound_freq (nosound s) = sound_freq s" "sound.more (nosound s) = sound.more s"
  "device (nosound s) = device s" "intr_flag (nosound s)"
  by (simp_all add: nosound_def io_defs)

lemma beep_frame:
  assumes "beep s = Some s'"
  shows "sound.more s' = sound.more s" "device s' = device s" "intr_flag s' = intr_flag s"
  using play_sound_frame [OF assms [unfolded beep_def Let_def]] by simp_all

section \<open>The tone\<close>

definition sound_ok :: "'z sound_scheme \<Rightarrow> bool" where
  "sound_ok s \<longleftrightarrow> 100 \<le> sound_freq s \<and> sound_freq s \<le> 1200"

text \<open>The bytes that reach the timer's data port, low byte first, are the 16-bit divisor \<open>d\<close>.\<close>

definition timer_programmed :: "nat \<Rightarrow> io_event list \<Rightarrow> bool" where
  "timer_programmed d es \<longleftrightarrow>
     (\<exists>lo hi rest. es = [Out8 0x43 0xb6, Out8 0x42 lo, Out8 0x42 hi] @ rest
        \<and> unat lo + 256 * unat hi = d \<and> (\<forall>v. Out8 0x42 v \<notin> set rest))"

lemma divisor_bytes:
  fixes d :: u32
  assumes "unat d < 65536"
  shows "unat (ucast (d AND 0xFF) :: u8) + 256 * unat (ucast (drop_bit 8 d) :: u8) = unat d"
proof -
  have m: "(0xFF :: u32) = mask 8" by (simp add: mask_eq_exp_minus_1)
  have "ucast (d AND 0xFF) = (ucast d :: u8)"
    unfolding m by (rule bit_word_eqI) (auto simp: bit_simps)
  then have lo: "unat (ucast (d AND 0xFF) :: u8) = unat d mod 256"
    by (simp add: unsigned_ucast_eq take_bit_eq_mod)
  have "unat d div 256 < 256" using assms by (simp add: div_less_iff_less_mult)
  then have hi: "unat (ucast (drop_bit 8 d) :: u8) = unat d div 256"
    by (simp add: unsigned_ucast_eq take_bit_eq_mod drop_bit_eq_div unat_div)
  show ?thesis using mod_mult_div_eq [of "unat d" 256] by (simp add: lo hi)
qed

lemma play_sound_programs:
  assumes "100 \<le> f"
  shows "\<exists>s'. play_sound f s = Some s' \<and> sound_freq s' = sound_freq s
    \<and> (\<exists>es. history s' = history s @ es \<and> timer_programmed (1193180 div unat f) es)"
proof -
  define d :: u32 where "d = 1193180 div f"
  have f: "100 \<le> unat f" using assms by (simp add: word_le_nat_alt)
  have d: "unat d = 1193180 div unat f" by (simp add: d_def unat_div)
  also have "\<dots> \<le> 1193180 div 100" using f by (rule div_le_mono2 [rotated]) simp
  finally have "unat d < 65536" by simp
  note bytes = divisor_bytes [OF this]
  show ?thesis
    using f by (auto simp: play_sound_def Let_def inb_def outb_def timer_programmed_def bytes d [symmetric]
        simp flip: d_def)
qed

lemma word_le_range:
  fixes f :: u32
  shows "100 \<le> unat f \<Longrightarrow> unat f \<le> 1100 \<Longrightarrow> 100 \<le> f + 40 \<and> f + 40 \<le> 1200"
    "200 \<le> unat f \<Longrightarrow> unat f \<le> 1200 \<Longrightarrow> 100 \<le> f - 100 \<and> f - 100 \<le> 1200"
  by (auto simp: word_le_nat_alt unat_word_ariths(1) unat_sub_if')

lemma beep_ok:
  assumes "sound_ok s" and "op = beep \<or> op = beep_init"
  shows "\<exists>s' es. op s = Some s' \<and> sound_ok s' \<and> history s' = history s @ es
    \<and> timer_programmed (1193180 div unat (sound_freq s')) es"
proof -
  define s1 where "s1 = (if op = beep
    then (let s = (if sound_freq s > 1100 then s\<lparr>sound_freq := 200\<rparr> else s) in s\<lparr>sound_freq := sound_freq s + 40\<rparr>)
    else (let s = (if sound_freq s < 200 then s\<lparr>sound_freq := 1200\<rparr> else s) in s\<lparr>sound_freq := sound_freq s - 100\<rparr>))"
  have op: "op s = play_sound (sound_freq s1) s1"
    using assms(2) by (auto simp: s1_def beep_def beep_init_def Let_def)
  have h: "history s1 = history s" by (simp add: s1_def Let_def)
  have ok: "100 \<le> sound_freq s1 \<and> sound_freq s1 \<le> 1200"
    using assms(1) word_le_range [of "sound_freq s"]
    by (simp add: s1_def Let_def sound_ok_def word_le_nat_alt word_less_nat_alt)
  obtain s' where "play_sound (sound_freq s1) s1 = Some s'" "sound_freq s' = sound_freq s1"
    "\<exists>es. history s' = history s1 @ es \<and> timer_programmed (1193180 div unat (sound_freq s1)) es"
    using play_sound_programs [of "sound_freq s1" s1] ok by auto
  then show ?thesis using ok by (auto simp: op sound_ok_def h)
qed

text \<open>While the tone lies between 100 and 1200 (it starts at 1200), neither \<open>beep\<close> nor \<open>beep_init\<close>
  divides by zero, both keep it there, and the three port writes leave the timer with the 16-bit
  divisor of the new tone.\<close>

theorem beep_programs_timer:
  assumes "sound_ok s" and "op = beep \<or> op = beep_init"
  shows "\<exists>s' es. op s = Some s' \<and> sound_ok s' \<and> history s' = history s @ es
    \<and> timer_programmed (1193180 div unat (sound_freq s')) es"
  by (rule beep_ok [OF assms])

definition sound0 :: "sound" where
  "sound0 = \<lparr>history = [], device = (\<lambda>_ _. 0), intr_flag = False, master_mask = 0, slave_mask = 0, sound_freq = 1200\<rparr>"

theorem beep_programs_timer_witness:
  "\<exists>s' es. beep sound0 = Some s' \<and> sound_ok s' \<and> history s' = history sound0 @ es
    \<and> timer_programmed (1193180 div unat (sound_freq s')) es"
  by (rule beep_programs_timer) (simp_all add: sound_ok_def sound0_def)

end
