(* ===== verification/Rtc.thy ===== *)
theory Rtc
  imports Sound Complex_Main
begin

text \<open>
  \<open>RTC.c\<close>: the real-time clock driver. The state is the programmed \<open>rate\<close>, the flag \<open>interrupt_bool\<close> that
  the handler raises, and \<open>loading_counter\<close> of \<open>lib.h\<close>. The abstract view is the clock's register file
  behind its index and data ports. The lemmas give the effect of each operation on that register
  file, the exact set of frequencies \<open>RTC_write\<close> accepts, and when \<open>RTC_read\<close> returns.
\<close>

record rtc = sound +
  rate :: u8
  interrupt_bool :: int
  loading_counter :: u32

section \<open>Operations\<close>

abbreviation "NMI_A \<equiv> (0x8A :: u8)"
abbreviation "NMI_B \<equiv> (0x8B :: u8)"
abbreviation "RTC_PORT_INDEX \<equiv> (0x70 :: u16)"
abbreviation "RTC_PORT_DATA \<equiv> (0x71 :: u16)"

definition RTC_set_rate :: "int \<Rightarrow> 'z rtc_scheme \<Rightarrow> 'z rtc_scheme" where
  "RTC_set_rate input s =
     (let s = cli s;
          s = s\<lparr>rate := ucast (word_of_int input AND 0xF :: u32)\<rparr>;
          s = outb NMI_A RTC_PORT_INDEX s;
          (prev, s) = inb RTC_PORT_DATA s;
          s = outb NMI_A RTC_PORT_INDEX s;
          s = outb ((prev AND 0xF0) OR rate s) RTC_PORT_DATA s
      in sti s)"

definition RTC_init :: "'z rtc_scheme \<Rightarrow> 'z rtc_scheme" where
  "RTC_init s =
     (let s = enable_irq 8 s;
          s = cli s;
          s = RTC_set_rate 0x02 s;
          s = outb NMI_B RTC_PORT_INDEX s;
          (prev_b, s) = inb RTC_PORT_DATA s;
          s = outb NMI_B RTC_PORT_INDEX s;
          s = outb (prev_b OR 0x40) RTC_PORT_DATA s
      in sti s)"

definition RTC_interrupt_handler :: "'z rtc_scheme \<Rightarrow> 'z rtc_scheme" where
  "RTC_interrupt_handler s =
     (let s = s\<lparr>loading_counter := loading_counter s + 1\<rparr>;
          s = outb 0x0C RTC_PORT_INDEX s;
          (_, s) = inb RTC_PORT_DATA s;
          s = s\<lparr>interrupt_bool := 1\<rparr>
      in send_eoi 8 s)"

definition RTC_read ::
  "('z rtc_scheme \<Rightarrow> 'z rtc_scheme) list \<Rightarrow> 'z rtc_scheme \<Rightarrow> (int \<times> 'z rtc_scheme) option" where
  "RTC_read irqs s =
     do { let s = sti s;
          let s = disable_irq 0 s;
          let s = disable_irq 1 s;
          let s = s\<lparr>interrupt_bool := 0\<rparr>;
          s \<leftarrow> wait_until (\<lambda>s. interrupt_bool s \<noteq> 0) irqs s;
          let s = enable_irq 0 s;
          let s = enable_irq 1 s;
          Some (0, s) }"

text \<open>The halving loop works on a \<open>double\<close>; halving a 32-bit integer down to 1 is exact there, so \<open>temp\<close> is
  a rational. \<open>temp_t = temp\<close> truncates towards zero. The inner \<open>None\<close> is the early return of \<open>-1\<close>, the
  outer one a loop that does not end.\<close>

definition trunc :: "rat \<Rightarrow> int" where
  "trunc x = (if x < 0 then \<lceil>x\<rceil> else \<lfloor>x\<rfloor>)"

partial_function (option) rate_loop :: "rat \<Rightarrow> int \<Rightarrow> int option option" where
  "rate_loop temp rate_a =
     (if temp = 1 then Some (Some rate_a)
      else if temp \<noteq> of_int (trunc temp) then Some None
      else rate_loop (temp / 2) (rate_a + 1))"

text \<open>\<open>buf\<close> is a user pointer; \<open>(int)frequency != frequency\<close> never holds for an \<open>int\<close>.\<close>

definition RTC_write :: "mem \<Rightarrow> u32 \<Rightarrow> int \<Rightarrow> 'z rtc_scheme \<Rightarrow> (int \<times> 'z rtc_scheme) option" where
  "RTC_write m buf nbytes s =
     (let s = cli s in
      if buf = 0 \<or> nbytes \<noteq> 4 then Some (-1, s)
      else
        let frequency = sint (load32 m buf) in
        if frequency > 1024 \<or> frequency < 0 \<or> frequency = 0 then Some (-1, s)
        else
          do { r \<leftarrow> rate_loop (of_int frequency) 0;
               case r of
                 None \<Rightarrow> Some (-1, s)
               | Some rate_a \<Rightarrow> Some (nbytes, sti (RTC_set_rate (16 - rate_a) s)) })"

definition RTC_close :: "'z rtc_scheme \<Rightarrow> int \<times> 'z rtc_scheme" where
  "RTC_close s = (0, RTC_set_rate 0x02 s)"

definition RTC_open :: "'z rtc_scheme \<Rightarrow> int \<times> 'z rtc_scheme" where
  "RTC_open s = (0, s)"

section \<open>Abstract view: the clock's register file\<close>

record cmos =
  reg_index :: u8
  regs :: "u8 \<Rightarrow> u8"

fun cmos_event :: "io_event \<Rightarrow> cmos \<Rightarrow> cmos" where
  "cmos_event (Out8 port v) c =
     (if port = 0x70 then c\<lparr>reg_index := v AND 0x7F\<rparr>
      else if port = 0x71 then c\<lparr>regs := (regs c)(reg_index c := v)\<rparr> else c)"
| "cmos_event (Out16 port v) c = c"
| "cmos_event (In8 port v) c = c"

definition cmos_after :: "cmos \<Rightarrow> io_event list \<Rightarrow> cmos" where
  "cmos_after c0 h = fold cmos_event h c0"

text \<open>A conforming clock answers a read of the data port with the selected register.\<close>

definition cmos_device :: "cmos \<Rightarrow> (io_event list \<Rightarrow> u16 \<Rightarrow> u8) \<Rightarrow> bool" where
  "cmos_device c0 dev \<longleftrightarrow> (\<forall>h. dev h 0x71 = regs (cmos_after c0 h) (reg_index (cmos_after c0 h)))"

definition clock_regs :: "cmos \<Rightarrow> 'z machine_scheme \<Rightarrow> u8 \<Rightarrow> u8" where
  "clock_regs c0 s = regs (cmos_after c0 (history s))"

text \<open>The periodic interrupt frequency in Hz that a rate in register A selects; 0 turns it off.\<close>

definition periodic_hz :: "u8 \<Rightarrow> nat" where
  "periodic_hz a = (let r = unat (a AND 0x0F) in if r = 0 then 0 else 32768 div 2 ^ (r - 1))"

section \<open>Lemmas\<close>

lemma cmos_after_append [simp]: "cmos_after c0 (h @ es) = fold cmos_event es (cmos_after c0 h)"
  by (simp add: cmos_after_def)

lemma cmos_pic_event [simp]:
  "port \<noteq> 0x70 \<Longrightarrow> port \<noteq> 0x71 \<Longrightarrow> cmos_event (Out8 port v) c = c"
  by simp

lemma rtc_irq_frame [simp]:
  "rate (enable_irq n s) = rate s" "rate (disable_irq n s) = rate s" "rate (send_eoi n s) = rate s"
  "interrupt_bool (enable_irq n s) = interrupt_bool s"
  "interrupt_bool (disable_irq n s) = interrupt_bool s"
  "interrupt_bool (send_eoi n s) = interrupt_bool s"
  "loading_counter (send_eoi n s) = loading_counter s"
  by (simp_all add: enable_irq_def disable_irq_def send_eoi_def Let_def io_defs)

lemma clock_regs_irq [simp]:
  "clock_regs c0 (enable_irq n s) = clock_regs c0 s" "clock_regs c0 (disable_irq n s) = clock_regs c0 s"
  by (simp_all add: clock_regs_def enable_irq_history disable_irq_history Let_def)

lemma RTC_set_rate_history:
  "history (RTC_set_rate input s) =
     (let h = history s @ [Out8 0x70 0x8A]; v = device s h 0x71
      in h @ [In8 0x71 v, Out8 0x70 0x8A,
           Out8 0x71 ((v AND 0xF0) OR ucast (word_of_int input AND 0xF :: u32))])"
  by (simp add: RTC_set_rate_def Let_def io_defs)

lemma RTC_set_rate_frame [simp]:
  "device (RTC_set_rate input s) = device s" "intr_flag (RTC_set_rate input s)"
  "rate (RTC_set_rate input s) = ucast (word_of_int input AND 0xF :: u32)"
  "interrupt_bool (RTC_set_rate input s) = interrupt_bool s"
  "rtc.more (RTC_set_rate input s) = rtc.more s"
  by (simp_all add: RTC_set_rate_def Let_def io_defs)

text \<open>Only register A changes: its low half is the rate, its high half stays.\<close>

lemma clock_regs_set_rate:
  assumes "cmos_device c0 (device s)"
  shows "clock_regs c0 (RTC_set_rate input s) = (clock_regs c0 s)
    (0x0A := (clock_regs c0 s 0x0A AND 0xF0) OR ucast (word_of_int input AND 0xF :: u32))"
  using assms by (simp add: clock_regs_def RTC_set_rate_history Let_def cmos_device_def)

section \<open>RTC_write\<close>

lemma trunc_of_int [simp]: "trunc (of_int n) = n"
  by (simp add: trunc_def)

lemma half_odd_not_int: "odd m \<Longrightarrow> (of_int m :: rat) / 2 \<noteq> of_int n"
proof
  assume "odd m" "(of_int m :: rat) / 2 = of_int n"
  then have "of_int m = (of_int (2 * n) :: rat)" by (simp add: field_simps)
  then have "m = 2 * n" by (simp only: of_int_eq_iff)
  with \<open>odd m\<close> show False by simp
qed

lemma rate_loop_power: "rate_loop (of_int (2 ^ k)) a = Some (Some (a + int k))"
proof (induction k arbitrary: a)
  case 0
  then show ?case by (simp add: rate_loop.simps)
next
  case (Suc k)
  have "(2 :: rat) * 2 ^ k \<noteq> 1"
    by (metis numeral_power_eq_of_int_cancel_iff of_int_1 of_int_eq_iff one_neq_zero
        power_Suc power_eq_1_iff zero_neq_numeral even_zero odd_one dvd_triv_left)
  moreover have "of_int (trunc (2 * 2 ^ k)) = (2 * 2 ^ k :: rat)"
    using trunc_of_int [of "2 * 2 ^ k"] by simp
  ultimately have "rate_loop (of_int (2 ^ Suc k)) a = rate_loop (of_int (2 ^ k)) (a + 1)"
    by (subst rate_loop.simps) simp
  then show ?case using Suc by simp
qed

lemma rate_loop_odd:
  assumes "odd m" "1 < m"
  shows "rate_loop (of_int (2 ^ k * m)) a = Some None"
proof (induction k arbitrary: a)
  case 0
  have "rate_loop (of_int m / 2) (a + 1) = Some None"
    using half_odd_not_int [OF assms(1)] half_odd_not_int [OF assms(1), of 1]
    by (subst rate_loop.simps) simp
  then show ?case using assms(2) by (subst rate_loop.simps) simp
next
  case (Suc k)
  have "(2 ^ Suc k * m) \<noteq> 1" by (metis dvd_mult2 dvd_triv_left odd_one power_Suc)
  then have ne: "of_int (2 ^ Suc k * m) \<noteq> (1 :: rat)" by (metis of_int_1 of_int_eq_iff)
  have "rate_loop (of_int (2 ^ Suc k * m)) a = rate_loop (of_int (2 ^ Suc k * m) / 2) (a + 1)"
    by (subst rate_loop.simps) (simp only: ne trunc_of_int if_False not_False_eq_True simp_thms)
  moreover have "of_int (2 ^ Suc k * m) / 2 = (of_int (2 ^ k * m) :: rat)" by simp
  ultimately show ?case using Suc by simp
qed

lemma odd_part:
  fixes f :: int
  assumes "0 < f"
  obtains k m where "f = 2 ^ k * m" "odd m" "0 < m"
  using assms
proof (induction "nat f" arbitrary: f thesis rule: less_induct)
  case less
  show ?case
  proof (cases "even f")
    case True
    then obtain g where g: "f = 2 * g" by (rule evenE)
    with less.prems have "0 < g" "nat g < nat f" by auto
    from less.hyps [OF this(2) _ this(1)] obtain k m where "g = 2 ^ k * m" "odd m" "0 < m" by blast
    then show thesis using less.prems(1) [of "Suc k" m] g by simp
  next
    case False
    then show thesis using less.prems(1) [of 0 f] less.prems(2) by simp
  qed
qed

text \<open>The halving loop ends for every positive frequency, with the exponent of a power of two or
  with the early return.\<close>

lemma rate_loop_total:
  assumes "0 < f"
  shows "rate_loop (of_int f) 0 = Some (if \<exists>k. f = 2 ^ k then Some (int (THE k. f = 2 ^ k)) else None)"
proof (cases "\<exists>k. f = 2 ^ k")
  case True
  then obtain k where k: "f = 2 ^ k" by blast
  have "(THE k. f = 2 ^ k) = k" using k by (intro the_equality) auto
  with True k show ?thesis using rate_loop_power [of k 0] by simp
next
  case False
  obtain k m where km: "f = 2 ^ k * m" "odd m" "0 < m" using odd_part [OF assms] .
  have "m \<noteq> 1" using False km by auto
  then show ?thesis using rate_loop_odd [of m k 0] km False by simp
qed

lemma low_nibble:
  fixes v c :: u8
  shows "((v AND 0xF0) OR c) AND 0x0F = c AND 0x0F"
  by (simp add: bit.conj_disj_distrib2 and.assoc)

lemma periodic_hz_rate:
  assumes "k \<le> 10"
  shows "periodic_hz ((v AND 0xF0) OR ucast (word_of_int (16 - int k) AND 0xF :: u32))
    = (if k = 0 then 0 else 2 ^ k)"
proof -
  have "k \<in> {0, 1, 2, 3, 4, 5, 6, 7, 8, 9, 10}" using assms by (simp, presburger)
  then show ?thesis unfolding periodic_hz_def low_nibble by (elim insertE emptyE) simp_all
qed

lemma power_of_two_range:
  fixes f :: int
  assumes "f \<le> 1024" "f = 2 ^ k"
  shows "k \<le> 10"
proof (rule ccontr)
  assume "\<not> k \<le> 10"
  then have "(2 :: int) ^ 11 \<le> 2 ^ k" by (intro power_increasing) auto
  with assms show False by simp
qed

text \<open>C30. \<open>RTC_write\<close> with a valid pointer and length accepts exactly the powers of two up to 1024. Then
  it returns the byte count, the clock's register A selects that frequency (for frequency 1 the
  rate wraps to 0, which turns the periodic interrupt off), no other register changes, and
  interrupts are enabled. Otherwise it returns \<open>-1\<close>, leaves the clock alone and leaves interrupts
  disabled. It always terminates.\<close>

theorem RTC_write_spec:
  assumes "cmos_device c0 (device s)" "buf \<noteq> 0"
  shows "\<exists>r s'. RTC_write m buf 4 s = Some (r, s')
    \<and> (let f = sint (load32 m buf) in
        if \<exists>k\<le>10. f = 2 ^ k then
          r = 4 \<and> intr_flag s'
          \<and> int (periodic_hz (clock_regs c0 s' 0x0A)) = (if f = 1 then 0 else f)
          \<and> (\<forall>i. i \<noteq> 0x0A \<longrightarrow> clock_regs c0 s' i = clock_regs c0 s i)
        else r = -1 \<and> \<not> intr_flag s' \<and> clock_regs c0 s' = clock_regs c0 s)"
proof -
  define f where "f = sint (load32 m buf)"
  have cli: "clock_regs c0 (cli s) = clock_regs c0 s" "device (cli s) = device s"
    by (simp_all add: clock_regs_def)
  show ?thesis
  proof (cases "f > 1024 \<or> f \<le> 0")
    case True
    have "\<not> (\<exists>k\<le>10. f = 2 ^ k)"
    proof
      assume "\<exists>k\<le>10. f = 2 ^ k"
      then obtain k :: nat where "k \<le> 10" "f = 2 ^ k" by blast
      then show False using True power_increasing [of k 10 "2 :: int"] by auto
    qed
    then show ?thesis using True assms(2) by (auto simp: RTC_write_def Let_def cli simp flip: f_def)
  next
    case False
    then have pos: "0 < f" by simp
    show ?thesis
    proof (cases "\<exists>k. f = 2 ^ k")
      case True
      then obtain k where k: "f = 2 ^ k" by blast
      then have k10: "k \<le> 10" using power_of_two_range False by auto
      have "RTC_write m buf 4 s = Some (4, sti (RTC_set_rate (16 - int k) (cli s)))"
        using False assms(2) rate_loop_power [of k 0] k
        by (auto simp: RTC_write_def Let_def simp flip: f_def)
      moreover have "clock_regs c0 (sti t) = clock_regs c0 t" for t :: "'a rtc_scheme"
        by (simp add: clock_regs_def)
      moreover have "f = 1 \<longleftrightarrow> k = 0"
        using k power_increasing [of 1 k "2 :: int"] by (cases "k = 0") auto
      ultimately show ?thesis
        using k10 k periodic_hz_rate [OF k10] clock_regs_set_rate [of c0 "cli s"] assms(1)
        by (auto simp: cli simp flip: f_def)
    next
      case none: False
      then show ?thesis
        using False assms(2) rate_loop_total [OF pos]
        by (auto simp: RTC_write_def Let_def cli simp flip: f_def)
    qed
  qed
qed

definition cmos0 :: cmos where
  "cmos0 = \<lparr>reg_index = 0, regs = (\<lambda>i. if i = 0x0A then 0x26 else 0)\<rparr>"

definition rtc_bus :: "io_event list \<Rightarrow> u16 \<Rightarrow> u8" where
  "rtc_bus h port =
     (if port = 0x71 then regs (cmos_after cmos0 h) (reg_index (cmos_after cmos0 h))
      else pic_bus power_on power_on h port)"

definition rtc0 :: rtc where
  "rtc0 = \<lparr>history = [], device = rtc_bus, intr_flag = False, master_mask = 0, slave_mask = 0,
     sound_freq = 1200, rate = 2, interrupt_bool = 0, loading_counter = 0\<rparr>"

lemma cmos_device_rtc0: "cmos_device cmos0 (device rtc0)"
  by (simp add: cmos_device_def rtc0_def rtc_bus_def)

lemma pic_ok_rtc0: "pic_ok power_on power_on rtc0"
  by (simp add: pic_ok_def rtc0_def rtc_bus_def pic_bus_def pic_device_def pics_ready_def pic_after_def
      power_on_def)

definition freq_mem :: mem where
  "freq_mem = (\<lambda>a. if a = 0x1001 then 2 else 0)"

theorem RTC_write_spec_witness:
  "sint (load32 freq_mem 0x1000) = 512 \<and>
   (\<exists>r s'. RTC_write freq_mem 0x1000 4 rtc0 = Some (r, s')
    \<and> (let f = sint (load32 freq_mem 0x1000) in
        if \<exists>k\<le>10. f = 2 ^ k then
          r = 4 \<and> intr_flag s'
          \<and> int (periodic_hz (clock_regs cmos0 s' 0x0A)) = (if f = 1 then 0 else f)
          \<and> (\<forall>i. i \<noteq> 0x0A \<longrightarrow> clock_regs cmos0 s' i = clock_regs cmos0 rtc0 i)
        else r = -1 \<and> \<not> intr_flag s' \<and> clock_regs cmos0 s' = clock_regs cmos0 rtc0))"
  using RTC_write_spec [OF cmos_device_rtc0, of "0x1000" freq_mem]
  by (simp add: load32_def freq_mem_def)

section \<open>RTC_read and the handler\<close>

lemma RTC_interrupt_handler_frame [simp]:
  "interrupt_bool (RTC_interrupt_handler s) = 1" "rate (RTC_interrupt_handler s) = rate s"
  "loading_counter (RTC_interrupt_handler s) = loading_counter s + 1"
  "device (RTC_interrupt_handler s) = device s" "intr_flag (RTC_interrupt_handler s)"
  by (simp_all add: RTC_interrupt_handler_def Let_def io_defs)

lemma pic_ok_extend:
  assumes "pic_ok m0 s0 s" "device s' = device s" "history s' = history s @ es"
    and "\<forall>e\<in>set es. \<forall>v. e \<notin> {Out8 0x20 v, Out8 0x21 v, Out8 0xA0 v, Out8 0xA1 v}"
  shows "pic_ok m0 s0 s' \<and> irq_lines m0 s0 s' = irq_lines m0 s0 s"
proof -
  have "fold (pic_event b) es c = c" if "b = 0x20 \<or> b = 0xA0" for b c
    using assms(4)
  proof (induction es arbitrary: c)
    case (Cons e es)
    then show ?case using that by (cases e) auto
  qed simp
  then show ?thesis
    using assms(1-3) by (simp add: pic_ok_def pics_ready_def irq_lines_def irq_enabled_def)
qed

lemma pic_ok_RTC_handler:
  assumes "pic_ok m0 s0 s"
  shows "pic_ok m0 s0 (RTC_interrupt_handler s)
    \<and> irq_lines m0 s0 (RTC_interrupt_handler s) = irq_lines m0 s0 s"
proof -
  define t where "t = snd (inb 0x71 (outb 0x0C 0x70 (s\<lparr>loading_counter := loading_counter s + 1\<rparr>)))\<lparr>interrupt_bool := 1\<rparr>"
  have "RTC_interrupt_handler s = send_eoi (of_nat 8) t"
    by (simp add: RTC_interrupt_handler_def t_def Let_def split: prod.splits)
  moreover have "pic_ok m0 s0 t \<and> irq_lines m0 s0 t = irq_lines m0 s0 s"
    by (rule pic_ok_extend [OF assms]) (auto simp: t_def io_defs)
  ultimately show ?thesis using pic_ok_send_eoi [of m0 s0 t 8] by simp
qed

lemma rtc_wait_woken:
  assumes "interrupt_bool s = 0"
    and "\<And>h t. h \<in> set before \<Longrightarrow> interrupt_bool t = 0 \<Longrightarrow> interrupt_bool (h t) = 0"
  shows "wait_until (\<lambda>s. interrupt_bool s \<noteq> 0) (before @ RTC_interrupt_handler # rest) s
    = Some (RTC_interrupt_handler (fold (\<lambda>h. h) before s))"
  using assms by (intro wait_until_woken) auto

text \<open>C31. While \<open>RTC_read\<close> waits, the timer and keyboard lines are masked; whatever other handlers run
  meanwhile, it returns 0 after the first clock interrupt and unmasks both lines (also when they
  were masked before). With no clock interrupt it does not return.\<close>

theorem RTC_read_returns:
  fixes s :: "'z rtc_scheme"
  assumes "pic_ok m0 s0 s"
    and other: "\<And>h t. h \<in> set before \<Longrightarrow> interrupt_bool t = 0 \<Longrightarrow> interrupt_bool (h t) = 0"
    and lines: "\<And>h t. h \<in> set before \<Longrightarrow> pic_ok m0 s0 t \<Longrightarrow>
       pic_ok m0 s0 (h t) \<and> irq_lines m0 s0 (h t) = irq_lines m0 s0 t"
  shows "\<exists>s'. RTC_read (before @ RTC_interrupt_handler # rest) s = Some (0, s')
      \<and> irq_lines m0 s0 s' = irq_lines m0 s0 s \<union> {0, 1}
    \<and> RTC_read before s = None"
proof -
  define t where "t = (disable_irq (of_nat 1) (disable_irq (of_nat 0) (sti s)))\<lparr>interrupt_bool := 0\<rparr>"
  define u where "u = RTC_interrupt_handler (fold (\<lambda>h. h) before t)"
  have sti: "pic_ok m0 s0 (sti s) \<and> irq_lines m0 s0 (sti s) = irq_lines m0 s0 s"
    using assms(1) by (simp add: pic_ok_def irq_lines_def)
  have t: "pic_ok m0 s0 t \<and> irq_lines m0 s0 t = irq_lines m0 s0 s - {0, 1}"
    using pic.mask_pair [of m0 s0 "sti s" 0 1] sti by (simp add: t_def pic_ok_def irq_lines_def)
  have "pic_ok m0 s0 (fold (\<lambda>h. h) before x) \<and> irq_lines m0 s0 (fold (\<lambda>h. h) before x) = irq_lines m0 s0 x"
    if "pic_ok m0 s0 x" for x
    using that lines by (induction before arbitrary: x) auto
  then have u: "pic_ok m0 s0 u \<and> irq_lines m0 s0 u = irq_lines m0 s0 s - {0, 1}"
    using t pic_ok_RTC_handler by (metis u_def)
  have "wait_until (\<lambda>s. interrupt_bool s \<noteq> 0) (before @ RTC_interrupt_handler # rest) t = Some u"
      "wait_until (\<lambda>s. interrupt_bool s \<noteq> 0) before t = None"
    using rtc_wait_woken [of t before rest] wait_until_stuck [of "\<lambda>s. interrupt_bool s \<noteq> 0" t before] other
    by (simp_all add: t_def u_def)
  moreover have "irq_lines m0 s0 (enable_irq 1 (enable_irq 0 u)) = irq_lines m0 s0 s \<union> {0, 1}"
    using pic.unmask_pair [of m0 s0 u 0 1] u by auto
  ultimately show ?thesis by (simp add: RTC_read_def t_def)
qed

theorem RTC_read_returns_witness:
  "\<exists>s'. RTC_read ([] @ RTC_interrupt_handler # []) rtc0 = Some (0, s')
      \<and> irq_lines power_on power_on s' = irq_lines power_on power_on rtc0 \<union> {0, 1}
    \<and> RTC_read [] rtc0 = None"
  by (rule RTC_read_returns [OF pic_ok_rtc0]) simp_all

end
