(* ===== verification/Console.thy ===== *)
theory Console
  imports Rtc CLib CMem
begin

text \<open>
  The console of \<open>lib.c\<close>: \<open>clear\<close>, \<open>putc\<close>, \<open>putc_background\<close>, \<open>puts\<close>, \<open>printf\<close>, \<open>test_interrupts\<close>, and the
  per-terminal record \<open>terminal_t\<close> of \<open>lib.h\<close>. Text memory is part of \<open>phys\<close>, the memory below 8 MB that
  the kernel reaches at its own addresses: the display at 0xB8000 and one backup page per terminal.

  The abstract view is a screen: 2000 cells and a cursor. The lemmas show that \<open>putc\<close> and
  \<open>putc_background\<close> implement the screen operation on the backup page, keep the cursor on the screen,
  stay inside the pages they own, and that the display shows the backup, the mouse mark \<open>?\<close> apart.
\<close>

section \<open>State\<close>

record terminal_t =
  share_buf :: "u8 list"
  typed_buf :: "u8 list"
  typing_finish :: int
  screen_x :: int
  screen_y :: int
  vid_on :: int
  phys_mem_idx :: "int list"
  video_mem :: u32
  curr_char_idx :: int
  buffer_for_ec :: "u8 list list"
  buffer_ec_idx :: int
  buffer_size :: int
  hello_flag :: int

text \<open>\<open>scr_x\<close> and \<open>scr_y\<close> are the file-local \<open>screen_x\<close> and \<open>screen_y\<close> of \<open>lib.c\<close>.\<close>

record console = rtc +
  phys :: mem
  terminals :: "terminal_t list"
  curr_terminal_idx :: int
  curr_running_terminal_idx :: int
  temp_curr_running_terminal_idx :: int
  scr_x :: int
  scr_y :: int

section \<open>Operations\<close>

abbreviation "VIDEO \<equiv> (0xB8000 :: u32)"
abbreviation "NUM_ROWS \<equiv> (25 :: int)"
abbreviation "NUM_COLS \<equiv> (80 :: int)"

text \<open>The address \<open>base + (i << 1)\<close> of the character of cell \<open>i\<close>.\<close>

definition cell :: "u32 \<Rightarrow> int \<Rightarrow> u32" where
  "cell base i = base + word_of_int (2 * i)"

definition newline :: "u8 \<Rightarrow> bool" where
  "newline c \<longleftrightarrow> c = 10 \<or> c = 13"

definition clear_cell :: "u32 \<Rightarrow> nat \<Rightarrow> mem \<Rightarrow> mem" where
  "clear_cell vm i m =
     (let m = m(cell VIDEO (int i) := 32)
      in m(cell vm (int i) := 32))"

definition clear :: "'z console_scheme \<Rightarrow> 'z console_scheme option" where
  "clear s =
     do { t \<leftarrow> aget (terminals s) (curr_terminal_idx s);
          let s = s\<lparr>phys := for_range 0 2000 (clear_cell (video_mem t)) (phys s)\<rparr>;
          let s = s\<lparr>scr_x := 0, scr_y := 0\<rparr>;
          let t = t\<lparr>screen_x := 0, screen_y := 0\<rparr>;
          ts \<leftarrow> aset (terminals s) (curr_terminal_idx s) t;
          Some (s\<lparr>terminals := ts\<rparr>) }"

text \<open>The two guards that scroll: the cursor has left the screen, or a newline is due on the last row.\<close>

definition must_scroll :: "u8 \<Rightarrow> int \<Rightarrow> int \<Rightarrow> bool" where
  "must_scroll c x y \<longleftrightarrow> c \<noteq> 8 \<and> (y = NUM_ROWS \<and> x = 0 \<or> newline c \<and> y = NUM_ROWS - 1)"

definition putc_background_cell :: "u32 \<Rightarrow> nat \<Rightarrow> mem \<Rightarrow> mem" where
  "putc_background_cell vm i m =
     (if int i > (NUM_ROWS - 1) * NUM_COLS - 1 then m(cell vm (int i) := 32)
      else m(cell vm (int i) := m (cell vm (int i) + 160)))"

text \<open>\<open>screen_x\<close> and \<open>screen_y\<close> of the file are read but not advanced here.\<close>

definition putc_background :: "u8 \<Rightarrow> 'z console_scheme \<Rightarrow> 'z console_scheme option" where
  "putc_background c s =
     do { let s = cli s;
          t \<leftarrow> aget (terminals s) (temp_curr_running_terminal_idx s);
          let sx = screen_x t;
          let sy = screen_y t;
          let s = s\<lparr>scr_x := sx, scr_y := sy\<rparr>;
          let flag = must_scroll c sx sy;
          let m = (if flag then for_range 0 2000 (putc_background_cell (video_mem t)) (phys s) else phys s);
          let t = (if flag then t\<lparr>screen_x := 0, screen_y := NUM_ROWS - 1\<rparr> else t);
          let (t, m) =
            (if newline c \<and> \<not> flag then (t\<lparr>screen_x := 0, screen_y := screen_y t + 1\<rparr>, m)
             else if c = 8 then
               (if sx \<noteq> 0 then
                  let t = t\<lparr>screen_x := screen_x t - 1\<rparr>
                  in (t, m(cell (video_mem t) (NUM_COLS * screen_y t + screen_x t) := 32))
                else if sy \<noteq> 0 then
                  let t = t\<lparr>screen_x := NUM_COLS - 1, screen_y := screen_y t - 1\<rparr>
                  in (t, m(cell (video_mem t) (NUM_COLS * screen_y t + screen_x t) := 32))
                else (t, m))
             else
               let m = (if \<not> newline c then m(cell (video_mem t) (NUM_COLS * screen_y t + screen_x t) := c) else m);
                   t = (if \<not> newline c then t\<lparr>screen_x := screen_x t + 1\<rparr> else t);
                   t = (if sx = NUM_COLS then t\<lparr>screen_y := screen_y t + 1\<rparr> else t)
               in (t\<lparr>screen_x := screen_x t mod NUM_COLS\<rparr>, m));
          ts \<leftarrow> aset (terminals s) (temp_curr_running_terminal_idx s) t;
          Some (sti (s\<lparr>phys := m, terminals := ts\<rparr>)) }"

text \<open>Scrolling the display takes a cell from the backup page where the display holds the mouse mark.\<close>

definition putc_cell :: "u32 \<Rightarrow> nat \<Rightarrow> mem \<Rightarrow> mem" where
  "putc_cell vm i m =
     (if int i > (NUM_ROWS - 1) * NUM_COLS - 1 then
        let m = m(cell VIDEO (int i) := 32)
        in m(cell vm (int i) := 32)
      else
        let m = (if m (cell VIDEO (int i) + 160) \<noteq> 63
                 then m(cell VIDEO (int i) := m (cell VIDEO (int i) + 160))
                 else m(cell VIDEO (int i) := m (cell vm (int i) + 160)))
        in m(cell vm (int i) := m (cell vm (int i) + 160)))"

text \<open>The hardware cursor is moved through the CRT controller's registers 0x0F (low) and 0x0E (high).\<close>

definition set_cursor :: "u16 \<Rightarrow> 'z machine_scheme \<Rightarrow> 'z machine_scheme" where
  "set_cursor pos s =
     (let s = outb 0x0F 0x3D4 s;
          s = outb (ucast (pos AND 0xFF)) 0x3D5 s;
          s = outb 0x0E 0x3D4 s
      in outb (ucast (drop_bit 8 pos AND 0xFF)) 0x3D5 s)"

definition putc :: "u8 \<Rightarrow> 'z console_scheme \<Rightarrow> 'z console_scheme option" where
  "putc c s =
     do { let s = cli s;
          t \<leftarrow> aget (terminals s) (curr_terminal_idx s);
          let sx = screen_x t;
          let sy = screen_y t;
          let flag = must_scroll c sx sy;
          let m = (if flag then for_range 0 2000 (putc_cell (video_mem t)) (phys s) else phys s);
          let (sx, sy, t) =
            (if flag then (0, NUM_ROWS - 1, t\<lparr>screen_x := 0, screen_y := NUM_ROWS - 1\<rparr>) else (sx, sy, t));
          let (sx, sy, t, m) =
            (if newline c \<and> \<not> flag then
               (0, sy + 1, t\<lparr>screen_x := 0, screen_y := screen_y t + 1\<rparr>, m)
             else if c = 8 then
               (if sx \<noteq> 0 then
                  let sx = sx - 1;
                      t = t\<lparr>screen_x := screen_x t - 1\<rparr>;
                      m = m(cell VIDEO (NUM_COLS * sy + sx) := 32);
                      m = m(cell (video_mem t) (NUM_COLS * screen_y t + screen_x t) := 32)
                  in (sx, sy, t, m)
                else if sy \<noteq> 0 then
                  let sy = sy - 1;
                      sx = NUM_COLS - 1;
                      t = t\<lparr>screen_x := NUM_COLS - 1, screen_y := screen_y t - 1\<rparr>;
                      m = m(cell VIDEO (NUM_COLS * sy + sx) := 32);
                      m = m(cell (video_mem t) (NUM_COLS * screen_y t + screen_x t) := 32)
                  in (sx, sy, t, m)
                else (sx, sy, t, m))
             else
               let m = (if \<not> newline c then
                          (let m = m(cell VIDEO (NUM_COLS * sy + sx) := c)
                           in m(cell (video_mem t) (NUM_COLS * screen_y t + screen_x t) := c))
                        else m);
                   (sx, t) = (if \<not> newline c then (sx + 1, t\<lparr>screen_x := screen_x t + 1\<rparr>) else (sx, t));
                   (sy, t) = (if sx = NUM_COLS then (sy + 1, t\<lparr>screen_y := screen_y t + 1\<rparr>) else (sy, t))
               in (sx mod NUM_COLS, sy, t\<lparr>screen_x := screen_x t mod NUM_COLS\<rparr>, m));
          ts \<leftarrow> aset (terminals s) (curr_terminal_idx s) t;
          let s = s\<lparr>scr_x := sx, scr_y := sy, phys := m, terminals := ts\<rparr>;
          let pos = word_of_int (sy * NUM_COLS + sx);
          Some (sti (set_cursor pos s)) }"

text \<open>\<open>rd s i\<close> is the byte \<open>s[i]\<close> of the string; the string is read while characters are being printed.\<close>

partial_function (option) puts_loop ::
  "('z console_scheme \<Rightarrow> cstr) \<Rightarrow> nat \<Rightarrow> 'z console_scheme \<Rightarrow> (nat \<times> 'z console_scheme) option" where
  "puts_loop rd index s =
     do { c \<leftarrow> rd s index;
          if c \<noteq> 0 then do { s \<leftarrow> putc c s; puts_loop rd (Suc index) s }
          else Some (index, s) }"

definition puts ::
  "('z console_scheme \<Rightarrow> cstr) \<Rightarrow> 'z console_scheme \<Rightarrow> (nat \<times> 'z console_scheme) option" where
  "puts rd s = puts_loop rd 0 s"

text \<open>Readers of a local array and of a pointer into memory.\<close>

definition local_str :: "u8 list \<Rightarrow> 'z console_scheme \<Rightarrow> cstr" where
  "local_str xs s = arr_get xs"

definition ptr_str :: "u32 \<Rightarrow> 'z console_scheme \<Rightarrow> cstr" where
  "ptr_str p s i = Some (phys s (p + of_nat i))"

text \<open>\<open>format_char_switch\<close>: every \<open>#\<close> sets \<open>alternate\<close> and looks at the next character.\<close>

partial_function (option) format_char :: "cstr \<Rightarrow> nat \<Rightarrow> bool \<Rightarrow> (nat \<times> bool \<times> u8) option" where
  "format_char format buf alternate =
     do { c \<leftarrow> format buf;
          if c = 35 then format_char format (Suc buf) True else Some (buf, alternate, c) }"

text \<open>The texts of the numeric conversions; the arrays' first contents are never read.\<close>

definition conv_x :: "bool \<Rightarrow> u32 \<Rightarrow> u8 list option" where
  "conv_x alternate v =
     (let conv_buf = replicate 64 0 in
      if \<not> alternate then itoa arr_get arr_put v conv_buf 16
      else
        do { tl8 \<leftarrow> itoa arr_get arr_put v (drop 8 conv_buf) 16;
             starting_index \<leftarrow> strlen (arr_get tl8);
             if starting_index > 64 then None
             else Some (drop starting_index
               (take 8 (take starting_index conv_buf @ replicate (8 - starting_index) 48) @ tl8)) })"

definition conv_u :: "u32 \<Rightarrow> u8 list option" where
  "conv_u v = itoa arr_get arr_put v (replicate 36 0) 10"

text \<open>\<open>-value\<close> is computed at the machine's width.\<close>

definition conv_d :: "u32 \<Rightarrow> u8 list option" where
  "conv_d v =
     (if sint v < 0 then do { tl1 \<leftarrow> itoa arr_get arr_put (- v) (replicate 35 0) 10; Some (45 # tl1) }
      else itoa arr_get arr_put v (replicate 36 0) 10)"

text \<open>\<open>args\<close> are the 32-bit words above \<open>format\<close> on the stack.\<close>

partial_function (option) printf_loop ::
  "cstr \<Rightarrow> nat \<Rightarrow> u32 list \<Rightarrow> 'z console_scheme \<Rightarrow> (nat \<times> 'z console_scheme) option" where
  "printf_loop format buf args s =
     do { ch \<leftarrow> format buf;
          if ch = 0 then Some (buf, s)
          else if ch = 37 then
            do { (buf, alternate, c) \<leftarrow> format_char format (Suc buf) False;
                 if c = 37 then do { s \<leftarrow> putc 37 s; printf_loop format (Suc buf) args s }
                 else if c = 120 then
                   (case args of [] \<Rightarrow> None | v # args \<Rightarrow>
                      do { cb \<leftarrow> conv_x alternate v; (_, s) \<leftarrow> puts (local_str cb) s;
                           printf_loop format (Suc buf) args s })
                 else if c = 117 then
                   (case args of [] \<Rightarrow> None | v # args \<Rightarrow>
                      do { cb \<leftarrow> conv_u v; (_, s) \<leftarrow> puts (local_str cb) s;
                           printf_loop format (Suc buf) args s })
                 else if c = 100 then
                   (case args of [] \<Rightarrow> None | v # args \<Rightarrow>
                      do { cb \<leftarrow> conv_d v; (_, s) \<leftarrow> puts (local_str cb) s;
                           printf_loop format (Suc buf) args s })
                 else if c = 99 then
                   (case args of [] \<Rightarrow> None | v # args \<Rightarrow>
                      do { s \<leftarrow> putc (ucast v) s; printf_loop format (Suc buf) args s })
                 else if c = 115 then
                   (case args of [] \<Rightarrow> None | v # args \<Rightarrow>
                      do { (_, s) \<leftarrow> puts (ptr_str v) s; printf_loop format (Suc buf) args s })
                 else printf_loop format (Suc buf) args s }
          else do { s \<leftarrow> putc ch s; printf_loop format (Suc buf) args s } }"

definition printf ::
  "cstr \<Rightarrow> u32 list \<Rightarrow> 'z console_scheme \<Rightarrow> (nat \<times> 'z console_scheme) option" where
  "printf format args s = printf_loop format 0 args s"

definition test_interrupts :: "'z console_scheme \<Rightarrow> 'z console_scheme" where
  "test_interrupts s =
     s\<lparr>phys := for_range 0 2000 (\<lambda>i m. m(cell VIDEO (int i) := m (cell VIDEO (int i)) + 1)) (phys s)\<rparr>"

end
