(* ===== verification/Screen.thy ===== *)
theory Screen
  imports Console
begin

text \<open>
  What the console promises: each terminal is a screen of 25 rows of 80 cells with a cursor, \<open>putc\<close>
  is the screen operation \<open>screen_put True\<close> on the displayed terminal and \<open>putc_background\<close> is
  \<open>screen_put False\<close> on a hidden one. The two differ where a row is full: only \<open>putc\<close> goes on to the
  next row. The invariant \<open>console_ok\<close> says that the terminal table is well formed.
\<close>

section \<open>The abstract screen\<close>

record screen =
  cells :: "nat \<Rightarrow> u8"
  col :: nat
  row :: nat

definition scroll_up :: "(nat \<Rightarrow> u8) \<Rightarrow> nat \<Rightarrow> u8" where
  "scroll_up f k = (if k < 1920 then f (k + 80) else if k < 2000 then 32 else 0)"

definition screen_put :: "bool \<Rightarrow> u8 \<Rightarrow> screen \<Rightarrow> screen" where
  "screen_put wrap c S =
     (if c = 8 then
        (if col S \<noteq> 0 then S\<lparr>col := col S - 1, cells := (cells S)(80 * row S + (col S - 1) := 32)\<rparr>
         else if row S \<noteq> 0 then S\<lparr>col := 79, row := row S - 1, cells := (cells S)(80 * (row S - 1) + 79 := 32)\<rparr>
         else S)
      else if newline c then
        (if row S \<ge> 24 then S\<lparr>cells := scroll_up (cells S), col := 0, row := 24\<rparr>
         else S\<lparr>col := 0, row := row S + 1\<rparr>)
      else
        let S = (if row S = 25 then S\<lparr>cells := scroll_up (cells S), row := 24\<rparr> else S);
            S = S\<lparr>cells := (cells S)(80 * row S + col S := c)\<rparr>
        in if col S = 79 then S\<lparr>col := 0, row := row S + (if wrap then 1 else 0)\<rparr>
           else S\<lparr>col := col S + 1\<rparr>)"

text \<open>The cursor is on a cell, or at the start of the row below the last one.\<close>

definition cursor_ok :: "int \<Rightarrow> int \<Rightarrow> bool" where
  "cursor_ok x y \<longleftrightarrow> 0 \<le> x \<and> x < 80 \<and> 0 \<le> y \<and> y \<le> 25 \<and> (y = 25 \<longrightarrow> x = 0)"

section \<open>Text pages\<close>

definition page :: "u32 \<Rightarrow> mem \<Rightarrow> nat \<Rightarrow> u8" where
  "page b m k = (if k < 2000 then m (cell b (int k)) else 0)"

definition text_pages :: "u32 set" where
  "text_pages = {0xB8000, 0xB9000, 0xBA000, 0xBB000}"

lemma cell_of_nat: "cell b (int k) = b + of_nat (2 * k)"
  by (simp add: cell_def)

lemma unat_cell:
  assumes "b \<in> text_pages" "k < 2048"
  shows "unat (cell b (int k)) = unat b + 2 * k"
proof -
  have u: "unat (of_nat (2 * k) :: u32) = 2 * k" using assms(2) by (subst unat_of_nat) simp
  have "unat b \<le> 770048" using assms(1) by (auto simp: text_pages_def)
  then show ?thesis unfolding cell_of_nat unat_word_ariths(1) u using assms(2) by simp
qed

lemma cell_eq_nat:
  assumes "b \<in> text_pages" "b' \<in> text_pages" "k < 2048" "j < 2048"
  shows "cell b (int k) = cell b' (int j) \<longleftrightarrow> b = b' \<and> k = j"
proof
  assume "cell b (int k) = cell b' (int j)"
  then have "unat b + 2 * k = unat b' + 2 * j" using unat_cell assms by metis
  moreover have "unat b \<in> {753664, 757760, 761856, 765952}" "unat b' \<in> {753664, 757760, 761856, 765952}"
    using assms(1,2) by (auto simp: text_pages_def)
  ultimately have "unat b = unat b' \<and> k = j" using assms(3,4) by auto
  then show "b = b' \<and> k = j" by (simp flip: word_unat_eq_iff)
qed simp

lemma cell_eq:
  assumes "b \<in> text_pages" "b' \<in> text_pages" "0 \<le> i" "i < 2048" "0 \<le> j" "j < 2048"
  shows "cell b i = cell b' j \<longleftrightarrow> b = b' \<and> i = j"
  using cell_eq_nat [OF assms(1,2), of "nat i" "nat j"] assms(3-)
  by (simp add: nat_less_iff eq_nat_nat_iff)

lemma cell_add_row: "cell b i + 160 = cell b (i + 80)"
proof -
  have "word_of_int (2 * (i + 80)) = (word_of_int (2 * i) + 160 :: u32)" by (simp add: distrib_left)
  then show ?thesis by (simp add: cell_def)
qed

lemma page_upd [simp]:
  assumes "b \<in> text_pages" "0 \<le> i" "i < 2000"
  shows "page b (m(cell b i := v)) = (page b m)(nat i := v)"
  using assms cell_eq [of b b _ i] by (fastforce simp: page_def)

lemma page_upd_other [simp]:
  assumes "b \<in> text_pages" "b' \<in> text_pages" "b \<noteq> b'" "0 \<le> i" "i < 2000"
  shows "page b (m(cell b' i := v)) = page b m"
  using assms cell_eq [of b b' _ i] by (fastforce simp: page_def)

lemma page_at: "0 \<le> i \<Longrightarrow> i < 2000 \<Longrightarrow> m (cell b i) = page b m (nat i)"
  by (simp add: page_def nat_less_iff)

text \<open>Memory outside the cells of the given pages.\<close>

definition same_but_cells :: "u32 set \<Rightarrow> mem \<Rightarrow> mem \<Rightarrow> bool" where
  "same_but_cells B m m' \<longleftrightarrow> (\<forall>a. (\<forall>b\<in>B. \<forall>k<2000. a \<noteq> cell b (int k)) \<longrightarrow> m' a = m a)"

lemma same_but_cells_refl [simp]: "same_but_cells B m m"
  by (simp add: same_but_cells_def)

lemma same_but_cells_trans:
  "same_but_cells B m m' \<Longrightarrow> same_but_cells B m' m'' \<Longrightarrow> same_but_cells B m m''"
  by (simp add: same_but_cells_def)

lemma same_but_cells_upd:
  assumes "same_but_cells B m m'" "b \<in> B" "0 \<le> i" "i < 2000"
  shows "same_but_cells B m (m'(cell b i := v))"
proof -
  obtain k where "i = int k" "k < 2000" using assms(3,4) by (metis nat_int nonneg_int_cases of_nat_less_numeral_iff)
  then show ?thesis using assms(1,2) by (auto simp: same_but_cells_def)
qed

section \<open>The scrolling loops\<close>

lemma background_scroll:
  assumes b: "b \<in> text_pages"
  shows "(\<forall>b'\<in>text_pages. page b' (for_range 0 2000 (putc_background_cell b) m)
        = (if b' = b then scroll_up (page b m) else page b' m))
    \<and> same_but_cells {b} m (for_range 0 2000 (putc_background_cell b) m)"
proof -
  define I where "I = (\<lambda>i m'. (\<forall>b'\<in>text_pages. page b' m'
      = (if b' = b then (\<lambda>k. if k < i then scroll_up (page b m) k else page b m k) else page b' m))
    \<and> same_but_cells {b} m m')"
  have "I 2000 (for_range 0 2000 (putc_background_cell b) m)"
  proof (rule for_range_inv [where P = I])
    show "I 0 m" by (simp add: I_def)
    fix i :: nat and m'
    assume i: "i < 2000" and I: "I i m'"
    have pb: "page b m' k = (if k < i then scroll_up (page b m) k else page b m k)" for k
      using I b by (simp add: I_def)
    define v where "v = (if i < 1920 then m' (cell b (int i) + 160) else 32)"
    have v: "v = scroll_up (page b m) i"
      using i pb [of "i + 80"] by (auto simp: v_def scroll_up_def cell_add_row page_at nat_add_distrib)
    have step: "putc_background_cell b i m' = m'(cell b (int i) := v)"
      by (auto simp: putc_background_cell_def v_def)
    have "page b' (putc_background_cell b i m')
      = (if b' = b then (\<lambda>k. if k < Suc i then scroll_up (page b m) k else page b m k) else page b' m)"
      if "b' \<in> text_pages" for b'
      using that I b i by (auto simp: step I_def v less_Suc_eq fun_eq_iff)
    moreover have "same_but_cells {b} m (putc_background_cell b i m')"
      unfolding step using I i by (intro same_but_cells_upd) (auto simp: I_def)
    ultimately show "I (Suc i) (putc_background_cell b i m')" by (simp add: I_def)
  qed simp
  moreover have "(\<lambda>k. if k < 2000 then scroll_up (page b m) k else page b m k) = scroll_up (page b m)"
    by (auto simp: scroll_up_def page_def)
  ultimately show ?thesis by (simp add: I_def)
qed

text \<open>What the display holds after a scroll: the mouse mark is replaced by the backup's cell.\<close>

definition scroll_display :: "(nat \<Rightarrow> u8) \<Rightarrow> (nat \<Rightarrow> u8) \<Rightarrow> nat \<Rightarrow> u8" where
  "scroll_display D B k =
     (if k < 1920 then (if D (k + 80) \<noteq> 63 then D (k + 80) else B (k + 80)) else if k < 2000 then 32 else 0)"

lemma display_scroll:
  assumes b: "b \<in> text_pages" and ne: "b \<noteq> VIDEO"
  shows "(\<forall>b'\<in>text_pages. page b' (for_range 0 2000 (putc_cell b) m)
        = (if b' = VIDEO then scroll_display (page VIDEO m) (page b m)
           else if b' = b then scroll_up (page b m) else page b' m))
    \<and> same_but_cells {VIDEO, b} m (for_range 0 2000 (putc_cell b) m)"
proof -
  let ?D = "scroll_display (page VIDEO m) (page b m)" and ?B = "scroll_up (page b m)"
  define I where "I = (\<lambda>i m'. (\<forall>b'\<in>text_pages. page b' m'
      = (if b' = VIDEO then (\<lambda>k. if k < i then ?D k else page VIDEO m k)
         else if b' = b then (\<lambda>k. if k < i then ?B k else page b m k) else page b' m))
    \<and> same_but_cells {VIDEO, b} m m')"
  have V: "VIDEO \<in> text_pages" by (simp add: text_pages_def)
  have "I 2000 (for_range 0 2000 (putc_cell b) m)"
  proof (rule for_range_inv [where P = I])
    show "I 0 m" by (simp add: I_def)
    fix i :: nat and m'
    assume i: "i < 2000" and I: "I i m'"
    have pb: "page b m' k = (if k < i then ?B k else page b m k)"
      and pv: "page VIDEO m' k = (if k < i then ?D k else page VIDEO m k)" for k
      using I b ne V by (simp_all add: I_def)
    have cne: "i < 1920 \<Longrightarrow> cell b (int i + 80) \<noteq> cell VIDEO (int i)"
      using cell_eq [of b VIDEO "int i + 80" "int i"] b ne V i by simp
    have step: "putc_cell b i m' = m'(cell VIDEO (int i) := ?D i, cell b (int i) := ?B i)"
      using i pb [of "i + 80"] pv [of "i + 80"] cne b ne V
      by (auto simp: putc_cell_def scroll_up_def scroll_display_def cell_add_row page_at nat_add_distrib Let_def)
    have "page b' (putc_cell b i m')
      = (if b' = VIDEO then (\<lambda>k. if k < Suc i then ?D k else page VIDEO m k)
         else if b' = b then (\<lambda>k. if k < Suc i then ?B k else page b m k) else page b' m)"
      if "b' \<in> text_pages" for b'
      using that I b ne V i by (auto simp: step I_def less_Suc_eq fun_eq_iff)
    moreover have "same_but_cells {VIDEO, b} m (putc_cell b i m')"
      unfolding step using I i by (intro same_but_cells_upd) (auto simp: I_def)
    ultimately show "I (Suc i) (putc_cell b i m')" by (simp add: I_def)
  qed simp
  moreover have "(\<lambda>k. if k < 2000 then ?B k else page b m k) = ?B"
    "(\<lambda>k. if k < 2000 then ?D k else page VIDEO m k) = ?D"
    by (auto simp: scroll_up_def scroll_display_def page_def)
  ultimately show ?thesis by (simp add: I_def)
qed

section \<open>The terminal table\<close>

definition backup :: "nat \<Rightarrow> u32" where
  "backup i = 0xB9000 + of_nat i * 4096"

definition terminal_ok :: "nat \<Rightarrow> terminal_t \<Rightarrow> bool" where
  "terminal_ok i t \<longleftrightarrow>
     video_mem t = backup i \<and> cursor_ok (screen_x t) (screen_y t)
     \<and> length (share_buf t) = 128 \<and> length (typed_buf t) = 128
     \<and> length (phys_mem_idx t) = 6
     \<and> length (buffer_for_ec t) = 20 \<and> (\<forall>r\<in>set (buffer_for_ec t). length r = 128)"

definition console_ok :: "'z console_scheme \<Rightarrow> bool" where
  "console_ok s \<longleftrightarrow>
     length (terminals s) = 3 \<and> (\<forall>i<3. terminal_ok i (terminals s ! i))
     \<and> curr_terminal_idx s \<in> {0, 1, 2} \<and> curr_running_terminal_idx s \<in> {0, 1, 2}
     \<and> temp_curr_running_terminal_idx s \<in> {0, 1, 2}"

definition screen_of :: "'z console_scheme \<Rightarrow> nat \<Rightarrow> screen" where
  "screen_of s i = (let t = terminals s ! i in
     \<lparr>cells = page (backup i) (phys s), col = nat (screen_x t), row = nat (screen_y t)\<rparr>)"

definition display :: "'z console_scheme \<Rightarrow> nat \<Rightarrow> u8" where
  "display s = page VIDEO (phys s)"

text \<open>The display shows the screen of the selected terminal, except where the mouse mark is.\<close>

definition display_shows :: "'z console_scheme \<Rightarrow> bool" where
  "display_shows s \<longleftrightarrow>
     (\<forall>k<2000. display s k = cells (screen_of s (nat (curr_terminal_idx s))) k \<or> display s k = 63)"

lemma backup_pages [simp]:
  "i < 3 \<Longrightarrow> backup i \<in> text_pages" "VIDEO \<in> text_pages"
  "i < 3 \<Longrightarrow> backup i \<noteq> VIDEO" "i < 3 \<Longrightarrow> VIDEO \<noteq> backup i"
  "i < 3 \<Longrightarrow> j < 3 \<Longrightarrow> backup i = backup j \<longleftrightarrow> i = j"
proof -
  have "n = 0 \<or> n = 1 \<or> n = 2" if "n < 3" for n :: nat using that by auto
  note lt3 = this
  show "i < 3 \<Longrightarrow> backup i \<in> text_pages" "i < 3 \<Longrightarrow> backup i \<noteq> VIDEO" "i < 3 \<Longrightarrow> VIDEO \<noteq> backup i"
    using lt3 [of i] by (auto simp: backup_def text_pages_def)
  show "i < 3 \<Longrightarrow> j < 3 \<Longrightarrow> backup i = backup j \<longleftrightarrow> i = j"
    using lt3 [of i] lt3 [of j] by (auto simp: backup_def)
qed (simp add: text_pages_def)

lemma console_okD:
  assumes "console_ok s"
  shows "length (terminals s) = 3"
    and "nat (curr_terminal_idx s) < 3" "0 \<le> curr_terminal_idx s" "curr_terminal_idx s < 3"
    and "nat (curr_running_terminal_idx s) < 3" "0 \<le> curr_running_terminal_idx s" "curr_running_terminal_idx s < 3"
    and "nat (temp_curr_running_terminal_idx s) < 3" "0 \<le> temp_curr_running_terminal_idx s"
      "temp_curr_running_terminal_idx s < 3"
    and "i < 3 \<Longrightarrow> terminal_ok i (terminals s ! i)"
  using assms by (auto simp: console_ok_def)

text \<open>Replacing one terminal and its page.\<close>

lemma console_ok_update:
  assumes "console_ok s" "i < 3" "terminal_ok i t"
    and "terminals s' = (terminals s)[i := t]" "curr_terminal_idx s' = curr_terminal_idx s"
    "curr_running_terminal_idx s' = curr_running_terminal_idx s"
    "temp_curr_running_terminal_idx s' = temp_curr_running_terminal_idx s"
  shows "console_ok s'"
  using assms by (auto simp: console_ok_def nth_list_update)

text \<open>\<open>s'\<close> is \<open>s\<close> with output on terminal \<open>i\<close>: only its cursor and the cells of the pages \<open>B\<close> may differ.\<close>

definition printed_on :: "nat \<Rightarrow> u32 set \<Rightarrow> 'z console_scheme \<Rightarrow> 'z console_scheme \<Rightarrow> bool" where
  "printed_on i B s s' \<longleftrightarrow>
     (\<exists>x y. terminals s' = (terminals s)[i := (terminals s ! i)\<lparr>screen_x := x, screen_y := y\<rparr>])
     \<and> same_but_cells B (phys s) (phys s')
     \<and> curr_terminal_idx s' = curr_terminal_idx s
     \<and> curr_running_terminal_idx s' = curr_running_terminal_idx s
     \<and> temp_curr_running_terminal_idx s' = temp_curr_running_terminal_idx s
     \<and> console.more s' = console.more s"

lemma cursor_upd_triv [simp]:
  "t\<lparr>screen_x := x, screen_y := screen_y t\<rparr> = t\<lparr>screen_x := x\<rparr>"
  "t\<lparr>screen_x := screen_x t, screen_y := y\<rparr> = t\<lparr>screen_y := y\<rparr>"
  "t\<lparr>screen_x := screen_x t\<rparr> = t" "t\<lparr>screen_y := screen_y t\<rparr> = t"
  by (cases t; simp)+

lemma cursor_upd_comm [simp]:
  "t\<lparr>screen_y := y, screen_x := x\<rparr> = t\<lparr>screen_x := x, screen_y := y\<rparr>"
  by simp

lemma printed_on_refl: "printed_on i B s s"
proof -
  have "terminals s = (terminals s)[i := (terminals s ! i)
      \<lparr>screen_x := screen_x (terminals s ! i), screen_y := screen_y (terminals s ! i)\<rparr>]" by simp
  then show ?thesis unfolding printed_on_def by (metis same_but_cells_refl)
qed

lemma printed_on_trans:
  assumes "printed_on i B s s'" "printed_on i B s' s''" "i < length (terminals s)"
  shows "printed_on i B s s''"
  using assms unfolding printed_on_def
  by (elim conjE exE) (auto intro: same_but_cells_trans intro!: exI)

lemma screen_of_other:
  "i \<noteq> j \<Longrightarrow> terminals s' = (terminals s)[i := t] \<Longrightarrow> page (backup j) (phys s') = page (backup j) (phys s) \<Longrightarrow>
   screen_of s' j = screen_of s j"
  by (simp add: screen_of_def Let_def)

section \<open>putc_background\<close>

lemma cursor_index: "cursor_ok x y \<Longrightarrow> y \<noteq> 25 \<Longrightarrow> 0 \<le> 80 * y + x \<and> 80 * y + x < 2000"
  by (auto simp: cursor_ok_def)

lemma nat_index: "0 \<le> x \<Longrightarrow> 0 \<le> y \<Longrightarrow> nat (80 * y + x) = 80 * nat y + nat x"
  by (simp add: nat_add_distrib nat_mult_distrib)

lemma console_terminal_update:
  assumes "console_ok s" "i < 3" "cursor_ok x y"
  shows "terminal_ok i ((terminals s ! i)\<lparr>screen_x := x, screen_y := y\<rparr>)"
  using console_okD(11) [OF assms(1,2)] assms(3) by (simp add: terminal_ok_def)

text \<open>The cursor and the page after one character, as the code computes them.\<close>

lemma background_effect:
  fixes s :: "'z console_scheme"
  assumes ok: "console_ok s" and i: "i = nat (temp_curr_running_terminal_idx s)"
  defines "t \<equiv> terminals s ! i"
  obtains x y m' where
    "putc_background c s = Some (sti ((cli s)\<lparr>scr_x := screen_x t, scr_y := screen_y t, phys := m',
       terminals := (terminals s)[i := t\<lparr>screen_x := x, screen_y := y\<rparr>]\<rparr>))"
    "cursor_ok x y" "same_but_cells {backup i} (phys s) m'"
    "\<And>b. b \<in> text_pages \<Longrightarrow> b \<noteq> backup i \<Longrightarrow> page b m' = page b (phys s)"
    "\<lparr>cells = page (backup i) m', col = nat x, row = nat y\<rparr> = screen_put False c (screen_of s i)"
proof -
  have i3: "i < 3" and len: "length (terminals s) = 3" and t: "terminal_ok i t"
    and idx: "0 \<le> temp_curr_running_terminal_idx s" "temp_curr_running_terminal_idx s < 3"
    using console_okD [OF ok] by (simp_all add: i t_def)
  have vm: "video_mem t = backup i" and cur: "cursor_ok (screen_x t) (screen_y t)"
    using t by (simp_all add: terminal_ok_def)
  define flag where "flag = must_scroll c (screen_x t) (screen_y t)"
  define m where "m = (if flag then for_range 0 2000 (putc_background_cell (backup i)) (phys s) else phys s)"
  have m: "same_but_cells {backup i} (phys s) m"
    "\<And>b. b \<in> text_pages \<Longrightarrow> b \<noteq> backup i \<Longrightarrow> page b m = page b (phys s)"
    "page (backup i) m = (if flag then scroll_up (page (backup i) (phys s)) else page (backup i) (phys s))"
    using background_scroll [of "backup i" "phys s"] i3 by (auto simp: m_def)
  note base = putc_background_def aget_def aset_def len i [symmetric] i3 idx t_def [symmetric] vm io_defs
  note simps = base flag_def [symmetric]
  note noscroll = base must_scroll_def newline_def
  have S: "screen_of s i = \<lparr>cells = page (backup i) (phys s), col = nat (screen_x t), row = nat (screen_y t)\<rparr>"
    by (simp add: screen_of_def t_def Let_def)
  note cur' = cur [unfolded cursor_ok_def]
  have x80: "screen_x t \<noteq> 80" using cur' by simp
  consider "c = 8" "screen_x t \<noteq> 0" | "c = 8" "screen_x t = 0" "screen_y t \<noteq> 0"
    | "c = 8" "screen_x t = 0" "screen_y t = 0" | "newline c" | "c \<noteq> 8" "\<not> newline c"
    by (auto simp: newline_def)
  then show thesis
  proof cases
    case 1
    then show thesis
      by (intro that [where x = "screen_x t - 1" and y = "screen_y t"
            and m' = "(phys s)(cell (backup i) (80 * screen_y t + (screen_x t - 1)) := 32)"])
        (use cur' i3 in \<open>auto simp: noscroll S cursor_ok_def screen_put_def
          nat_index nat_diff_distrib intro!: same_but_cells_upd\<close>)
  next
    case 2
    then have n: "nat (80 * screen_y t) - Suc 0 = 80 * (nat (screen_y t) - Suc 0) + 79"
      using cur' by (simp add: nat_mult_distrib) arith
    from 2 show thesis
      by (intro that [where x = 79 and y = "screen_y t - 1"
            and m' = "(phys s)(cell (backup i) (80 * (screen_y t - 1) + 79) := 32)"])
        (use cur' i3 n in \<open>auto simp: noscroll S cursor_ok_def screen_put_def
          nat_index nat_diff_distrib intro!: same_but_cells_upd\<close>)
  next
    case 3
    then have t: "t\<lparr>screen_x := 0, screen_y := 0\<rparr> = t"
      using cursor_upd_triv(1) [of t "screen_x t"] by simp
    from 3 show thesis
      by (intro that [where x = 0 and y = 0 and m' = "phys s"])
        (use cur' i3 in \<open>auto simp: noscroll S t cursor_ok_def screen_put_def\<close>)
  next
    case 4
    then have fl: "flag \<longleftrightarrow> 24 \<le> screen_y t" using cur' by (auto simp: flag_def must_scroll_def newline_def)
    from 4 have c: "c \<noteq> 8" by (auto simp: newline_def)
    show thesis
    proof (rule that [where x = 0 and y = "if flag then 24 else screen_y t + 1" and m' = m])
      show "putc_background c s = Some (sti ((cli s)\<lparr>scr_x := screen_x t, scr_y := screen_y t, phys := m,
          terminals := (terminals s)[i := t\<lparr>screen_x := 0, screen_y := if flag then 24 else screen_y t + 1\<rparr>]\<rparr>))"
        using 4 c x80 by (cases flag) (simp_all add: simps m_def)
      show "cursor_ok 0 (if flag then 24 else screen_y t + 1)" using cur' fl by (simp add: cursor_ok_def)
      show "\<lparr>cells = page (backup i) m, col = nat 0, row = nat (if flag then 24 else screen_y t + 1)\<rparr>
          = screen_put False c (screen_of s i)"
        using 4 c m(3) cur' by (auto simp: S screen_put_def fl nat_add_distrib)
    qed (rule m | assumption)+
  next
    case 5
    then have fl: "flag \<longleftrightarrow> screen_y t = 25" using cur' by (auto simp: flag_def must_scroll_def)
    define y where "y = (if flag then 24 else screen_y t)"
    have y: "0 \<le> y" "y \<le> 24" using cur' fl by (auto simp: y_def)
    have r: "0 \<le> 80 * y + screen_x t" "80 * y + screen_x t < 2000" using y cur' by auto
    show thesis
    proof (rule that [where x = "(screen_x t + 1) mod 80" and y = y
          and m' = "m(cell (backup i) (80 * y + screen_x t) := c)"])
      show "putc_background c s = Some (sti ((cli s)\<lparr>scr_x := screen_x t, scr_y := screen_y t,
          phys := m(cell (backup i) (80 * y + screen_x t) := c),
          terminals := (terminals s)[i := t\<lparr>screen_x := (screen_x t + 1) mod 80, screen_y := y\<rparr>]\<rparr>))"
        using 5 x80 cur' fl by (cases flag) (simp_all add: base must_scroll_def m_def y_def)
      show "cursor_ok ((screen_x t + 1) mod 80) y" using y by (simp add: cursor_ok_def)
      show "same_but_cells {backup i} (phys s) (m(cell (backup i) (80 * y + screen_x t) := c))"
        using m(1) r by (intro same_but_cells_upd) auto
      show "page b (m(cell (backup i) (80 * y + screen_x t) := c)) = page b (phys s)"
        if "b \<in> text_pages" "b \<noteq> backup i" for b
        using that m(2) [OF that] r i3 by simp
      show "\<lparr>cells = page (backup i) (m(cell (backup i) (80 * y + screen_x t) := c)),
          col = nat ((screen_x t + 1) mod 80), row = nat y\<rparr> = screen_put False c (screen_of s i)"
        using 5 r y i3 m(3) cur' fl
        by (cases "screen_x t = 79"; cases flag)
          (simp_all add: S screen_put_def Let_def nat_index y_def nat_add_distrib nat_mult_distrib nat_eq_iff)
    qed
  qed
qed

section \<open>putc\<close>

definition shows_page :: "(nat \<Rightarrow> u8) \<Rightarrow> (nat \<Rightarrow> u8) \<Rightarrow> bool" where
  "shows_page D B \<longleftrightarrow> (\<forall>k<2000. D k = B k \<or> D k = 63)"

lemma shows_page_upd: "shows_page D B \<Longrightarrow> shows_page (D(k := c)) (B(k := c))"
  by (simp add: shows_page_def)

lemma shows_page_scroll: "shows_page D B \<Longrightarrow> shows_page (scroll_display D B) (scroll_up B)"
  unfolding shows_page_def scroll_display_def scroll_up_def
  by (intro allI impI) (auto dest: spec [of _ "_ + 80"])

lemma display_shows_eq:
  "display_shows s \<longleftrightarrow> shows_page (display s) (page (backup (nat (curr_terminal_idx s))) (phys s))"
  by (simp add: display_shows_def shows_page_def screen_of_def Let_def)

lemma putc_effect:
  fixes s :: "'z console_scheme"
  assumes ok: "console_ok s" and i: "i = nat (curr_terminal_idx s)"
  defines "t \<equiv> terminals s ! i"
  obtains x y m' where
    "putc c s = Some (sti (set_cursor (word_of_int (y * 80 + x)) ((cli s)\<lparr>scr_x := x, scr_y := y, phys := m',
       terminals := (terminals s)[i := t\<lparr>screen_x := x, screen_y := y\<rparr>]\<rparr>)))"
    "cursor_ok x y" "same_but_cells {VIDEO, backup i} (phys s) m'"
    "\<And>b. b \<in> text_pages \<Longrightarrow> b \<noteq> backup i \<Longrightarrow> b \<noteq> VIDEO \<Longrightarrow> page b m' = page b (phys s)"
    "\<lparr>cells = page (backup i) m', col = nat x, row = nat y\<rparr> = screen_put True c (screen_of s i)"
    "shows_page (page VIDEO (phys s)) (page (backup i) (phys s)) \<Longrightarrow>
     shows_page (page VIDEO m') (page (backup i) m')"
proof -
  have i3: "i < 3" and len: "length (terminals s) = 3" and t: "terminal_ok i t"
    and idx: "0 \<le> curr_terminal_idx s" "curr_terminal_idx s < 3"
    using console_okD [OF ok] by (simp_all add: i t_def)
  have vm: "video_mem t = backup i" and cur: "cursor_ok (screen_x t) (screen_y t)"
    using t by (simp_all add: terminal_ok_def)
  define flag where "flag = must_scroll c (screen_x t) (screen_y t)"
  define m where "m = (if flag then for_range 0 2000 (putc_cell (backup i)) (phys s) else phys s)"
  have m: "same_but_cells {VIDEO, backup i} (phys s) m"
    "\<And>b. b \<in> text_pages \<Longrightarrow> b \<noteq> backup i \<Longrightarrow> b \<noteq> VIDEO \<Longrightarrow> page b m = page b (phys s)"
    "page (backup i) m = (if flag then scroll_up (page (backup i) (phys s)) else page (backup i) (phys s))"
    "shows_page (page VIDEO (phys s)) (page (backup i) (phys s)) \<Longrightarrow> shows_page (page VIDEO m) (page (backup i) m)"
    using display_scroll [of "backup i" "phys s"] i3 by (auto simp: m_def shows_page_scroll)
  note base = putc_def aget_def aset_def len i [symmetric] i3 idx t_def [symmetric] vm io_defs
  note simps = base flag_def [symmetric]
  note noscroll = base must_scroll_def newline_def
  have S: "screen_of s i = \<lparr>cells = page (backup i) (phys s), col = nat (screen_x t), row = nat (screen_y t)\<rparr>"
    by (simp add: screen_of_def t_def Let_def)
  note cur' = cur [unfolded cursor_ok_def]
  have x80: "screen_x t \<noteq> 80" using cur' by simp
  let ?w = "\<lambda>m k v. m(cell VIDEO k := v, cell (backup i) k := v)"
  have w: "same_but_cells {VIDEO, backup i} (phys s) (?w m1 k v)"
    "\<And>b. b \<in> text_pages \<Longrightarrow> b \<noteq> backup i \<Longrightarrow> b \<noteq> VIDEO \<Longrightarrow> page b (?w m1 k v) = page b m1"
    "page (backup i) (?w m1 k v) = (page (backup i) m1)(nat k := v)"
    "shows_page (page VIDEO m1) (page (backup i) m1) \<Longrightarrow>
     shows_page (page VIDEO (?w m1 k v)) (page (backup i) (?w m1 k v))"
    if "0 \<le> k" "k < 2000" "same_but_cells {VIDEO, backup i} (phys s) m1" for m1 k v
    using that i3 by (auto intro!: same_but_cells_upd shows_page_upd)
  consider "c = 8" "screen_x t \<noteq> 0" | "c = 8" "screen_x t = 0" "screen_y t \<noteq> 0"
    | "c = 8" "screen_x t = 0" "screen_y t = 0" | "newline c" | "c \<noteq> 8" "\<not> newline c"
    by (auto simp: newline_def)
  then show thesis
  proof cases
    case 1
    let ?k = "80 * screen_y t + (screen_x t - 1)"
    have k: "0 \<le> ?k" "?k < 2000" using 1 cur' by auto
    note w1 = w [OF k same_but_cells_refl]
    show thesis
    proof (rule that [where x = "screen_x t - 1" and y = "screen_y t" and m' = "?w (phys s) ?k 32"])
      show "\<lparr>cells = page (backup i) (?w (phys s) ?k 32), col = nat (screen_x t - 1), row = nat (screen_y t)\<rparr>
          = screen_put True c (screen_of s i)"
        using 1 cur' unfolding w1(3) by (auto simp: S screen_put_def nat_index nat_diff_distrib)
    qed (use 1 cur' w1 in \<open>auto simp: noscroll cursor_ok_def\<close>)
  next
    case 2
    let ?k = "80 * (screen_y t - 1) + 79"
    have k: "0 \<le> ?k" "?k < 2000" using 2 cur' by auto
    have n: "nat ?k = 80 * (nat (screen_y t) - Suc 0) + 79"
      using 2 cur' by (simp add: nat_mult_distrib nat_diff_distrib) arith
    note w1 = w [OF k same_but_cells_refl]
    show thesis
    proof (rule that [where x = 79 and y = "screen_y t - 1" and m' = "?w (phys s) ?k 32"])
      show "\<lparr>cells = page (backup i) (?w (phys s) ?k 32), col = nat 79, row = nat (screen_y t - 1)\<rparr>
          = screen_put True c (screen_of s i)"
        using 2 cur' unfolding w1(3) n by (auto simp: S screen_put_def nat_diff_distrib)
    qed (use 2 cur' w1 in \<open>auto simp: noscroll cursor_ok_def\<close>)
  next
    case 3
    then have t: "t\<lparr>screen_x := 0, screen_y := 0\<rparr> = t"
      using cursor_upd_triv(1) [of t "screen_x t"] by simp
    from 3 show thesis
      by (intro that [where x = 0 and y = 0 and m' = "phys s"])
        (use cur' i3 in \<open>auto simp: noscroll S t cursor_ok_def screen_put_def\<close>)
  next
    case 4
    then have fl: "flag \<longleftrightarrow> 24 \<le> screen_y t" using cur' by (auto simp: flag_def must_scroll_def newline_def)
    from 4 have c: "c \<noteq> 8" by (auto simp: newline_def)
    let ?y = "if flag then 24 else screen_y t + 1"
    show thesis
    proof (rule that [where x = 0 and y = ?y and m' = m])
      show "putc c s = Some (sti (set_cursor (word_of_int (?y * 80 + 0)) ((cli s)\<lparr>scr_x := 0, scr_y := ?y,
          phys := m, terminals := (terminals s)[i := t\<lparr>screen_x := 0, screen_y := ?y\<rparr>]\<rparr>)))"
        using 4 c x80 by (cases flag) (simp_all add: simps m_def)
      show "cursor_ok 0 ?y" using cur' fl by (simp add: cursor_ok_def)
      show "\<lparr>cells = page (backup i) m, col = nat 0, row = nat ?y\<rparr> = screen_put True c (screen_of s i)"
        using 4 c m(3) cur' by (auto simp: S screen_put_def fl nat_add_distrib)
    qed (rule m | assumption)+
  next
    case 5
    then have fl: "flag \<longleftrightarrow> screen_y t = 25" using cur' by (auto simp: flag_def must_scroll_def)
    define y where "y = (if flag then 24 else screen_y t)"
    have y: "0 \<le> y" "y \<le> 24" using cur' fl by (auto simp: y_def)
    have r: "0 \<le> 80 * y + screen_x t" "80 * y + screen_x t < 2000" using y cur' by auto
    let ?x = "(screen_x t + 1) mod 80" and ?y = "if screen_x t = 79 then y + 1 else y"
    note w1 = w [OF r m(1)]
    show thesis
    proof (rule that [where x = ?x and y = ?y and m' = "?w m (80 * y + screen_x t) c"])
      show "putc c s = Some (sti (set_cursor (word_of_int (?y * 80 + ?x)) ((cli s)\<lparr>scr_x := ?x, scr_y := ?y,
          phys := ?w m (80 * y + screen_x t) c,
          terminals := (terminals s)[i := t\<lparr>screen_x := ?x, screen_y := ?y\<rparr>]\<rparr>)))"
        using 5 x80 cur' fl by (cases flag; cases "screen_x t = 79") (simp_all add: base must_scroll_def m_def y_def)
      show "cursor_ok ?x ?y" using y by (simp add: cursor_ok_def)
      show "\<lparr>cells = page (backup i) (?w m (80 * y + screen_x t) c), col = nat ?x, row = nat ?y\<rparr>
          = screen_put True c (screen_of s i)"
        unfolding w1(3) using 5 r y i3 m(3) cur' fl
        by (cases "screen_x t = 79"; cases flag)
          (simp_all add: S screen_put_def Let_def nat_index y_def nat_add_distrib nat_mult_distrib nat_eq_iff)
    qed (use w1 m in \<open>auto\<close>)
  qed
qed

section \<open>One character\<close>

lemma printed_on_same_but_cells: "printed_on i B s s' \<Longrightarrow> same_but_cells B (phys s) (phys s')"
  by (simp add: printed_on_def)

lemma more_set_cursor [simp]: "machine.more (set_cursor p s) = machine.more s"
  by (simp add: set_cursor_def Let_def)

lemma console_sti_cursor [simp]:
  "phys (set_cursor p s) = phys s" "terminals (set_cursor p s) = terminals s"
  "curr_terminal_idx (set_cursor p s) = curr_terminal_idx s"
  "curr_running_terminal_idx (set_cursor p s) = curr_running_terminal_idx s"
  "temp_curr_running_terminal_idx (set_cursor p s) = temp_curr_running_terminal_idx s"
  "console.more (set_cursor p s) = console.more s"
  "phys (sti s) = phys s" "terminals (sti s) = terminals s"
  "curr_terminal_idx (sti s) = curr_terminal_idx s"
  "curr_running_terminal_idx (sti s) = curr_running_terminal_idx s"
  "temp_curr_running_terminal_idx (sti s) = temp_curr_running_terminal_idx s"
  "console.more (sti s) = console.more s"
  "phys (cli s) = phys s" "terminals (cli s) = terminals s"
  "curr_terminal_idx (cli s) = curr_terminal_idx s"
  "curr_running_terminal_idx (cli s) = curr_running_terminal_idx s"
  "temp_curr_running_terminal_idx (cli s) = temp_curr_running_terminal_idx s"
  "console.more (cli s) = console.more s"
  by (simp_all add: set_cursor_def io_defs)

text \<open>What printing one character on terminal \<open>i\<close> promises; \<open>B\<close> are the pages it may write.\<close>

definition prints :: "bool \<Rightarrow> u32 set \<Rightarrow> nat \<Rightarrow> u8 \<Rightarrow> 'z console_scheme \<Rightarrow> 'z console_scheme \<Rightarrow> bool" where
  "prints wrap B i c s s' \<longleftrightarrow>
     console_ok s' \<and> screen_of s' i = screen_put wrap c (screen_of s i)
     \<and> (\<forall>j<3. j \<noteq> i \<longrightarrow> screen_of s' j = screen_of s j) \<and> printed_on i B s s' \<and> intr_flag s'"

lemma putc_ok:
  assumes "console_ok s"
  shows "\<exists>s'. putc c s = Some s'
    \<and> prints True {0xB8000, backup (nat (curr_terminal_idx s))} (nat (curr_terminal_idx s)) c s s'
    \<and> (display_shows s \<longrightarrow> display_shows s')"
proof -
  define i where "i = nat (curr_terminal_idx s)"
  have i3: "i < 3" and len: "length (terminals s) = 3" using console_okD [OF assms] by (simp_all add: i_def)
  obtain x y m' where e: "putc c s = Some (sti (set_cursor (word_of_int (y * 80 + x)) ((cli s)
       \<lparr>scr_x := x, scr_y := y, phys := m',
         terminals := (terminals s)[i := (terminals s ! i)\<lparr>screen_x := x, screen_y := y\<rparr>]\<rparr>)))"
    and c: "cursor_ok x y" "same_but_cells {VIDEO, backup i} (phys s) m'"
    "\<And>b. b \<in> text_pages \<Longrightarrow> b \<noteq> backup i \<Longrightarrow> b \<noteq> VIDEO \<Longrightarrow> page b m' = page b (phys s)"
    "\<lparr>cells = page (backup i) m', col = nat x, row = nat y\<rparr> = screen_put True c (screen_of s i)"
    "shows_page (page VIDEO (phys s)) (page (backup i) (phys s)) \<Longrightarrow>
     shows_page (page VIDEO m') (page (backup i) m')"
    by (rule putc_effect [OF assms i_def, where c = c], rule that; (assumption | blast))
  define s' where "s' = sti (set_cursor (word_of_int (y * 80 + x)) ((cli s)
       \<lparr>scr_x := x, scr_y := y, phys := m',
         terminals := (terminals s)[i := (terminals s ! i)\<lparr>screen_x := x, screen_y := y\<rparr>]\<rparr>))"
  have "console_ok s'"
    by (rule console_ok_update [OF assms i3 console_terminal_update [OF assms i3 c(1)]]) (simp_all add: s'_def)
  moreover have "screen_of s' i = screen_put True c (screen_of s i)"
    unfolding c(4) [symmetric] using i3 len by (simp add: screen_of_def s'_def Let_def)
  moreover have "screen_of s' j = screen_of s j" if "j < 3" "j \<noteq> i" for j
    using that c(3) [of "backup j"] i3 by (simp add: screen_of_def s'_def Let_def)
  moreover have "printed_on i {VIDEO, backup i} s s'"
    using c(2) by (auto simp: printed_on_def s'_def)
  moreover have "intr_flag s'" by (simp add: s'_def)
  moreover have "display_shows s \<longrightarrow> display_shows s'"
    using c(5) by (simp add: display_shows_eq display_def i_def [symmetric] s'_def)
  moreover note e [folded s'_def]
  ultimately show ?thesis unfolding prints_def i_def [symmetric] by blast
qed

text \<open>A console as \<open>terminal_init\<close> leaves it, on blank memory.\<close>

definition terminal0 :: "nat \<Rightarrow> terminal_t" where
  "terminal0 i = \<lparr>share_buf = replicate 128 0, typed_buf = replicate 128 0, typing_finish = 0,
     screen_x = 0, screen_y = 0, vid_on = 0, phys_mem_idx = replicate 6 (-1), video_mem = backup i,
     curr_char_idx = 0, buffer_for_ec = replicate 20 (replicate 128 0), buffer_ec_idx = 0,
     buffer_size = 0, hello_flag = 0\<rparr>"

definition console0 :: console where
  "console0 = \<lparr>history = [], device = rtc_bus, intr_flag = False, master_mask = 0, slave_mask = 0,
     sound_freq = 1200, rate = 2, interrupt_bool = 0, loading_counter = 0, phys = (\<lambda>_. 32),
     terminals = map terminal0 [0, 1, 2], curr_terminal_idx = 0, curr_running_terminal_idx = 0,
     temp_curr_running_terminal_idx = 1, scr_x = 0, scr_y = 0\<rparr>"

lemma terminal_ok_terminal0 [simp]: "terminal_ok i (terminal0 i)"
  by (simp add: terminal_ok_def terminal0_def cursor_ok_def)

lemma lt3: "i < 3 \<longleftrightarrow> i = 0 \<or> i = 1 \<or> i = (2 :: nat)"
  by auto

lemma console_ok_console0: "console_ok console0"
  by (auto simp: console_ok_def console0_def lt3)

lemma display_shows_console0: "display_shows console0"
  by (simp add: display_shows_def console0_def display_def screen_of_def page_def Let_def)

lemma putc_background_ok:
  assumes "console_ok s"
  shows "\<exists>s'. putc_background c s = Some s'
    \<and> prints False {backup (nat (temp_curr_running_terminal_idx s))}
        (nat (temp_curr_running_terminal_idx s)) c s s'
    \<and> display s' = display s"
proof -
  define i where "i = nat (temp_curr_running_terminal_idx s)"
  have i3: "i < 3" and len: "length (terminals s) = 3" using console_okD [OF assms] by (simp_all add: i_def)
  obtain x y m' where e: "putc_background c s = Some (sti ((cli s)
       \<lparr>scr_x := screen_x (terminals s ! i), scr_y := screen_y (terminals s ! i), phys := m',
         terminals := (terminals s)[i := (terminals s ! i)\<lparr>screen_x := x, screen_y := y\<rparr>]\<rparr>))"
    and c: "cursor_ok x y" "same_but_cells {backup i} (phys s) m'"
    "\<And>b. b \<in> text_pages \<Longrightarrow> b \<noteq> backup i \<Longrightarrow> page b m' = page b (phys s)"
    "\<lparr>cells = page (backup i) m', col = nat x, row = nat y\<rparr> = screen_put False c (screen_of s i)"
    by (rule background_effect [OF assms i_def, where c = c], rule that; (assumption | blast))
  define s' where "s' = sti ((cli s)
       \<lparr>scr_x := screen_x (terminals s ! i), scr_y := screen_y (terminals s ! i), phys := m',
         terminals := (terminals s)[i := (terminals s ! i)\<lparr>screen_x := x, screen_y := y\<rparr>]\<rparr>)"
  have "console_ok s'"
    by (rule console_ok_update [OF assms i3 console_terminal_update [OF assms i3 c(1)]]) (simp_all add: s'_def)
  moreover have "screen_of s' i = screen_put False c (screen_of s i)"
    unfolding c(4) [symmetric] using i3 len by (simp add: screen_of_def s'_def Let_def)
  moreover have "screen_of s' j = screen_of s j" if "j < 3" "j \<noteq> i" for j
    using that c(3) [of "backup j"] i3 by (simp add: screen_of_def s'_def Let_def)
  moreover have "printed_on i {backup i} s s'"
    using c(2) by (auto simp: printed_on_def s'_def)
  moreover have "intr_flag s'" "display s' = display s"
    using c(3) [of VIDEO] i3 by (simp_all add: s'_def display_def)
  moreover note e [folded s'_def]
  ultimately show ?thesis unfolding prints_def i_def [symmetric] by blast
qed

text \<open>C21. On a well-formed console \<open>putc\<close> always succeeds, applies the screen operation to the displayed
  terminal, keeps the other terminals, the console invariant and all memory outside the text cells
  of the display and of that terminal, and enables interrupts. If the display showed the terminal
  up to the mouse mark, it still does.\<close>

theorem putc_refines_screen:
  assumes "console_ok s" and i: "i = nat (curr_terminal_idx s)"
  shows "\<exists>s'. putc c s = Some s' \<and> console_ok s' \<and> intr_flag s'
    \<and> screen_of s' i = screen_put True c (screen_of s i)
    \<and> (\<forall>j<3. j \<noteq> i \<longrightarrow> screen_of s' j = screen_of s j)
    \<and> same_but_cells {0xB8000, backup i} (phys s) (phys s')
    \<and> (display_shows s \<longrightarrow> display_shows s')"
  using putc_ok [OF assms(1), of c] unfolding i prints_def printed_on_def by blast

theorem putc_refines_screen_witness:
  "\<exists>s'. putc 65 console0 = Some s' \<and> console_ok s' \<and> intr_flag s'
    \<and> screen_of s' 0 = screen_put True 65 (screen_of console0 0)
    \<and> (\<forall>j<3. j \<noteq> 0 \<longrightarrow> screen_of s' j = screen_of console0 j)
    \<and> same_but_cells {0xB8000, backup 0} (phys console0) (phys s')
    \<and> (display_shows console0 \<longrightarrow> display_shows s')"
  by (rule putc_refines_screen [OF console_ok_console0]) (simp add: console0_def)

text \<open>C22. \<open>putc_background\<close> does the same for the hidden terminal that runs, without touching the display,
  but a row that is full is not left: the cursor returns to its first column.\<close>

theorem putc_background_refines_screen:
  assumes "console_ok s" and i: "i = nat (temp_curr_running_terminal_idx s)"
  shows "\<exists>s'. putc_background c s = Some s' \<and> console_ok s' \<and> intr_flag s'
    \<and> screen_of s' i = screen_put False c (screen_of s i)
    \<and> (\<forall>j<3. j \<noteq> i \<longrightarrow> screen_of s' j = screen_of s j)
    \<and> same_but_cells {backup i} (phys s) (phys s') \<and> display s' = display s"
  using putc_background_ok [OF assms(1), of c] unfolding i prints_def printed_on_def by blast

theorem putc_background_refines_screen_witness:
  "\<exists>s'. putc_background 65 console0 = Some s' \<and> console_ok s' \<and> intr_flag s'
    \<and> screen_of s' 1 = screen_put False 65 (screen_of console0 1)
    \<and> (\<forall>j<3. j \<noteq> 1 \<longrightarrow> screen_of s' j = screen_of console0 j)
    \<and> same_but_cells {backup 1} (phys console0) (phys s') \<and> display s' = display console0"
  by (rule putc_background_refines_screen [OF console_ok_console0]) (simp add: console0_def)

section \<open>clear\<close>

lemma clear_loop:
  assumes b: "b \<in> text_pages" "b \<noteq> VIDEO"
  shows "(\<forall>b'\<in>text_pages. page b' (for_range 0 2000 (clear_cell b) m)
        = (if b' = VIDEO \<or> b' = b then (\<lambda>k. if k < 2000 then 32 else 0) else page b' m))
    \<and> same_but_cells {VIDEO, b} m (for_range 0 2000 (clear_cell b) m)"
proof -
  define I where "I = (\<lambda>i m'. (\<forall>b'\<in>text_pages. page b' m'
      = (if b' = VIDEO \<or> b' = b then (\<lambda>k. if k < i then 32 else page b' m k) else page b' m))
    \<and> same_but_cells {VIDEO, b} m m')"
  have V: "VIDEO \<in> text_pages" by (simp add: text_pages_def)
  have "I 2000 (for_range 0 2000 (clear_cell b) m)"
  proof (rule for_range_inv [where P = I])
    show "I 0 m" by (auto simp: I_def)
    fix i :: nat and m'
    assume i: "i < 2000" and I: "I i m'"
    have step: "clear_cell b i m' = m'(cell VIDEO (int i) := 32, cell b (int i) := 32)"
      by (simp add: clear_cell_def Let_def)
    have "page b' (clear_cell b i m')
      = (if b' = VIDEO \<or> b' = b then (\<lambda>k. if k < Suc i then 32 else page b' m k) else page b' m)"
      if "b' \<in> text_pages" for b'
      using that I b V i by (auto simp: step I_def less_Suc_eq fun_eq_iff)
    moreover have "same_but_cells {VIDEO, b} m (clear_cell b i m')"
      unfolding step using I i by (intro same_but_cells_upd) (auto simp: I_def)
    ultimately show "I (Suc i) (clear_cell b i m')" by (simp add: I_def)
  qed simp
  moreover have "(\<lambda>k. if k < 2000 then 32 else page b' m k) = (\<lambda>k. if k < 2000 then 32 else 0)" for b'
    by (auto simp: page_def)
  ultimately show ?thesis by (simp add: I_def)
qed

lemma clear_ok:
  assumes "console_ok s" and i: "i = nat (curr_terminal_idx s)"
  shows "\<exists>s'. clear s = Some s' \<and> console_ok s'
    \<and> screen_of s' i = \<lparr>cells = (\<lambda>k. if k < 2000 then 32 else 0), col = 0, row = 0\<rparr>
    \<and> display_shows s' \<and> (\<forall>j<3. j \<noteq> i \<longrightarrow> screen_of s' j = screen_of s j)
    \<and> printed_on i {VIDEO, backup i} s s'"
proof -
  have i3: "i < 3" and len: "length (terminals s) = 3" and idx: "0 \<le> curr_terminal_idx s" "curr_terminal_idx s < 3"
    using console_okD [OF assms(1)] by (simp_all add: i)
  have vm: "video_mem (terminals s ! i) = backup i"
    using console_okD(11) [OF assms(1) i3] by (simp add: terminal_ok_def)
  define m' where "m' = for_range 0 2000 (clear_cell (backup i)) (phys s)"
  define s' where "s' = s\<lparr>phys := m', scr_x := 0, scr_y := 0,
    terminals := (terminals s)[i := (terminals s ! i)\<lparr>screen_x := 0, screen_y := 0\<rparr>]\<rparr>"
  note c = clear_loop [of "backup i" "phys s", folded m'_def]
  have e: "clear s = Some s'"
    using len idx vm by (simp add: clear_def s'_def m'_def aget_def aset_def i [symmetric] i3)
  have "console_ok s'"
    by (rule console_ok_update [OF assms(1) i3 console_terminal_update [OF assms(1) i3, of 0 0]])
      (simp_all add: s'_def cursor_ok_def)
  moreover have "screen_of s' i = \<lparr>cells = (\<lambda>k. if k < 2000 then 32 else 0), col = 0, row = 0\<rparr>"
    using c i3 len by (simp add: screen_of_def s'_def Let_def)
  moreover have "display_shows s'"
    using c i3 by (simp add: display_shows_eq shows_page_def display_def s'_def i [symmetric])
  moreover have "screen_of s' j = screen_of s j" if "j < 3" "j \<noteq> i" for j
    using that c i3 by (simp add: screen_of_def s'_def Let_def)
  moreover have "printed_on i {VIDEO, backup i} s s'"
    using c i3 by (auto simp: printed_on_def s'_def)
  ultimately show ?thesis using e by blast
qed

end
