(* ===== verification/Output.thy ===== *)
theory Output
  imports Screen
begin

text \<open>
  Text output on top of \<open>putc\<close>: the interface \<open>text_output\<close> of a character device that draws on a
  screen, with \<open>putc\<close> and \<open>putc_background\<close> as its providers; \<open>puts\<close> and \<open>printf\<close> print, character by
  character, the text that a pure reading of the format gives.
\<close>

section \<open>The interface\<close>

fun out_all :: "(u8 \<Rightarrow> 's \<Rightarrow> 's option) \<Rightarrow> u8 list \<Rightarrow> 's \<Rightarrow> 's option" where
  "out_all out [] s = Some s"
| "out_all out (c # cs) s = do { s \<leftarrow> out c s; out_all out cs s }"

lemma out_all_append:
  "out_all out (xs @ ys) s = do { s \<leftarrow> out_all out xs s; out_all out ys s }"
  by (induction xs arbitrary: s) (auto split: Option.bind_split)

locale text_output =
  fixes ok :: "'s \<Rightarrow> bool"
    and out :: "u8 \<Rightarrow> 's \<Rightarrow> 's option"
    and screen :: "'s \<Rightarrow> screen"
    and wrap :: bool
    and keeps :: "'s \<Rightarrow> 's \<Rightarrow> bool"
  assumes out_ok: "ok s \<Longrightarrow> \<exists>s'. out c s = Some s' \<and> ok s' \<and> screen s' = screen_put wrap c (screen s) \<and> keeps s s'"
    and keeps_refl: "ok s \<Longrightarrow> keeps s s"
    and keeps_trans: "keeps s s' \<Longrightarrow> keeps s' s'' \<Longrightarrow> keeps s s''"
begin

lemma out_all_ok:
  "ok s \<Longrightarrow> \<exists>s'. out_all out cs s = Some s' \<and> ok s'
     \<and> screen s' = fold (screen_put wrap) cs (screen s) \<and> keeps s s'"
proof (induction cs arbitrary: s)
  case Nil
  then show ?case by (simp add: keeps_refl)
next
  case (Cons c cs)
  obtain s1 where s1: "out c s = Some s1" "ok s1" "screen s1 = screen_put wrap c (screen s)" "keeps s s1"
    using out_ok [OF Cons.prems] by blast
  obtain s2 where "out_all out cs s1 = Some s2" "ok s2"
      "screen s2 = fold (screen_put wrap) cs (screen s1)" "keeps s1 s2"
    using Cons.IH [OF s1(2)] by blast
  then show ?case using s1 keeps_trans by auto
qed

lemma out_all_defined: "ok s \<Longrightarrow> out_all out cs s \<noteq> None"
  using out_all_ok by fastforce

end

section \<open>The two providers\<close>

text \<open>Printing several characters on terminal \<open>i\<close> leaves the other terminals and the rest of memory.\<close>

definition keeps_others :: "u32 set \<Rightarrow> nat \<Rightarrow> 'z console_scheme \<Rightarrow> 'z console_scheme \<Rightarrow> bool" where
  "keeps_others B i s s' \<longleftrightarrow>
     (\<forall>j<3. j \<noteq> i \<longrightarrow> screen_of s' j = screen_of s j) \<and> printed_on i B s s'
     \<and> length (terminals s) = 3 \<and> i < 3"

lemma keeps_others_trans:
  "keeps_others B i s s' \<Longrightarrow> keeps_others B i s' s'' \<Longrightarrow> keeps_others B i s s''"
  unfolding keeps_others_def using printed_on_trans [of i B s s' s''] by metis

definition putc_ready :: "nat \<Rightarrow> 'z console_scheme \<Rightarrow> bool" where
  "putc_ready i s \<longleftrightarrow> console_ok s \<and> display_shows s \<and> nat (curr_terminal_idx s) = i"

definition background_ready :: "nat \<Rightarrow> 'z console_scheme \<Rightarrow> bool" where
  "background_ready i s \<longleftrightarrow> console_ok s \<and> nat (temp_curr_running_terminal_idx s) = i"

interpretation putc: text_output "putc_ready i" putc "\<lambda>s. screen_of s i" True
  "keeps_others {0xB8000, backup i} i" for i
proof
  fix s :: "'a console_scheme" and c
  assume s: "putc_ready i s"
  then have ok: "console_ok s" and i: "nat (curr_terminal_idx s) = i" and d: "display_shows s"
    by (simp_all add: putc_ready_def)
  obtain s' where e: "putc c s = Some s'" and p: "prints True {0xB8000, backup i} i c s s'" and d': "display_shows s'"
    using putc_ok [OF ok, of c] d i by auto
  have "curr_terminal_idx s' = curr_terminal_idx s" using p by (simp add: prints_def printed_on_def)
  then have "putc_ready i s'" using p i d' by (simp add: putc_ready_def prints_def)
  moreover have "keeps_others {0xB8000, backup i} i s s'"
    using p console_okD [OF ok] i by (auto simp: keeps_others_def prints_def)
  ultimately show "\<exists>s'. putc c s = Some s' \<and> putc_ready i s'
      \<and> screen_of s' i = screen_put True c (screen_of s i) \<and> keeps_others {0xB8000, backup i} i s s'"
    using e p by (auto simp: prints_def)
next
  fix s :: "'a console_scheme"
  assume "putc_ready i s"
  then show "keeps_others {0xB8000, backup i} i s s"
    using console_okD [of s] by (auto simp: putc_ready_def keeps_others_def printed_on_refl)
qed (rule keeps_others_trans)

interpretation background: text_output "background_ready i" putc_background "\<lambda>s. screen_of s i" False
  "keeps_others {backup i} i" for i
proof
  fix s :: "'a console_scheme" and c
  assume s: "background_ready i s"
  then have ok: "console_ok s" and i: "nat (temp_curr_running_terminal_idx s) = i"
    by (simp_all add: background_ready_def)
  obtain s' where e: "putc_background c s = Some s'" and p: "prints False {backup i} i c s s'"
    using putc_background_ok [OF ok, of c] i by auto
  have "temp_curr_running_terminal_idx s' = temp_curr_running_terminal_idx s"
    using p by (simp add: prints_def printed_on_def)
  then have "background_ready i s'" using p i by (simp add: background_ready_def prints_def)
  moreover have "keeps_others {backup i} i s s'"
    using p console_okD [OF ok] i by (auto simp: keeps_others_def prints_def)
  ultimately show "\<exists>s'. putc_background c s = Some s' \<and> background_ready i s'
      \<and> screen_of s' i = screen_put False c (screen_of s i) \<and> keeps_others {backup i} i s s'"
    using e p by (auto simp: prints_def)
next
  fix s :: "'a console_scheme"
  assume "background_ready i s"
  then show "keeps_others {backup i} i s s"
    using console_okD [of s] by (auto simp: background_ready_def keeps_others_def printed_on_refl)
qed (rule keeps_others_trans)

section \<open>puts\<close>

lemma puts_loop_local:
  assumes "is_cstr (arr_get xs) cs" "n \<le> length cs"
  shows "puts_loop (local_str xs) n s = map_option (\<lambda>s'. (length cs, s')) (out_all putc (drop n cs) s)"
  using assms(2)
proof (induction "length cs - n" arbitrary: n s)
  case 0
  then have "n = length cs" by simp
  then show ?case using is_cstrD(2) [OF assms(1)] by (simp add: puts_loop.simps local_str_def)
next
  case (Suc k)
  then have n: "n < length cs" by simp
  then have c: "arr_get xs n = Some (cs ! n)" "cs ! n \<noteq> 0" using is_cstrD [OF assms(1)] by simp_all
  have d: "drop n cs = cs ! n # drop (Suc n) cs" using n by (simp add: Cons_nth_drop_Suc)
  show ?case
    using Suc.hyps(1) [of "Suc n"] Suc.hyps(2) n
    by (subst puts_loop.simps) (simp add: c local_str_def d split: Option.bind_split)
qed

lemma puts_local:
  "is_cstr (arr_get xs) cs \<Longrightarrow>
   puts (local_str xs) s = map_option (\<lambda>s'. (length cs, s')) (out_all putc cs s)"
  using puts_loop_local [of xs cs 0] by (simp add: puts_def)

section \<open>printf\<close>

text \<open>The text of a format, read as a string. \<open>None\<close> where the code's behaviour depends on memory or is
  undefined: \<open>%s\<close>, a missing argument, a \<open>%\<close> at the end of the string.\<close>

definition hex_text :: "bool \<Rightarrow> u32 \<Rightarrow> u8 list" where
  "hex_text alternate v =
     (let t = number_text 16 (unat v) in if alternate then replicate (8 - length t) 48 @ t else t)"

definition signed_text :: "u32 \<Rightarrow> u8 list" where
  "signed_text v =
     (if sint v < 0 then 45 # number_text 10 (nat (- sint v)) else number_text 10 (nat (sint v)))"

fun format_text :: "u8 list \<Rightarrow> u32 list \<Rightarrow> u8 list option"
  and directive_text :: "bool \<Rightarrow> u8 list \<Rightarrow> u32 list \<Rightarrow> u8 list option" where
  "format_text [] args = Some []"
| "format_text (c # cs) args =
     (if c = 37 then directive_text False cs args
      else map_option (\<lambda>t. c # t) (format_text cs args))"
| "directive_text alternate [] args = None"
| "directive_text alternate (c # cs) args =
     (if c = 35 then directive_text True cs args
      else if c = 37 then map_option (\<lambda>t. 37 # t) (format_text cs args)
      else if c = 115 then None
      else if c = 120 \<or> c = 117 \<or> c = 100 \<or> c = 99 then
        (case args of [] \<Rightarrow> None
         | v # args \<Rightarrow> map_option (\<lambda>t.
             (if c = 120 then hex_text alternate v
              else if c = 117 then number_text 10 (unat v)
              else if c = 100 then signed_text v else [ucast v]) @ t) (format_text cs args))
      else format_text cs args)"

lemma length_digits_radix: "n < r ^ k \<Longrightarrow> length (digits_lsb r n) \<le> k"
proof (induction k arbitrary: n)
  case 0
  then show ?case by simp
next
  case (Suc k)
  have "n div r < r ^ k" if "2 \<le> r" using Suc.prems that by (simp add: less_mult_imp_div_less mult.commute)
  then show ?case using Suc.IH [of "n div r"] by (cases "n = 0 \<or> r < 2") (auto simp: digits_lsb.simps [of r n])
qed

lemma length_hex: "length (number_text 16 (unat (v :: u32))) \<le> 8"
proof -
  have "unat v < 2 ^ LENGTH(32)" by (rule unsigned_less)
  then have "length (digits_lsb 16 (unat v)) \<le> 8" using length_digits_radix [of "unat v" 16 8] by simp
  then show ?thesis by (simp add: number_text_def)
qed

lemma unat_of_sint: "unat (word_of_int k :: u32) = nat k" if "0 \<le> k" "k \<le> 2 ^ 31"
  using that by (simp add: unat_eq_nat_uint uint_word_of_int)

lemma unat_sint: "0 \<le> sint (v :: u32) \<Longrightarrow> unat v = nat (sint v)"
  using unat_of_sint [of "sint v"] sint_lt [of v] by simp

lemma unat_minus_sint: "sint (v :: u32) < 0 \<Longrightarrow> unat (- v) = nat (- sint v)"
proof -
  assume "sint v < 0"
  moreover have "- v = word_of_int (- sint v)" by simp
  ultimately show ?thesis using unat_of_sint [of "- sint v"] sint_ge [of v] by simp
qed

lemma hex_text_length: "length (hex_text True v) = 8"
  using length_hex [of v] by (simp add: hex_text_def Let_def)

lemma conv_u_ok: "\<exists>cb. conv_u v = Some cb \<and> is_cstr (arr_get cb) (number_text 10 (unat v))"
proof -
  obtain b where "itoa arr_get arr_put v (replicate 36 0) (of_nat 10) = Some b"
    "is_cstr (arr_get b) (number_text 10 (unat v))"
    by (rule arr.itoa_ok [of 10 "replicate 36 0" v]) (auto simp: arr_get_def)
  then show ?thesis by (simp add: conv_u_def)
qed

lemma is_cstr_arr_Cons: "is_cstr (arr_get b) cs \<Longrightarrow> c \<noteq> 0 \<Longrightarrow> is_cstr (arr_get (c # b)) (c # cs)"
  by (auto simp: is_cstr_def arr_get_def nth_Cons split: nat.splits if_splits)

lemma conv_d_ok: "\<exists>cb. conv_d v = Some cb \<and> is_cstr (arr_get cb) (signed_text v)"
proof (cases "sint v < 0")
  case True
  have u: "unat (- v) = nat (- sint v)" by (rule unat_minus_sint [OF True])
  obtain b where "itoa arr_get arr_put (- v) (replicate 35 0) (of_nat 10) = Some b"
    "is_cstr (arr_get b) (number_text 10 (unat (- v)))"
    by (rule arr.itoa_ok [of 10 "replicate 35 0" "- v"]) (auto simp: arr_get_def)
  then show ?thesis using True by (auto simp: conv_d_def signed_text_def u is_cstr_arr_Cons)
next
  case False
  have u: "unat v = nat (sint v)" using False by (intro unat_sint) simp
  obtain b where "itoa arr_get arr_put v (replicate 36 0) (of_nat 10) = Some b"
    "is_cstr (arr_get b) (number_text 10 (unat v))"
    by (rule arr.itoa_ok [of 10 "replicate 36 0" v]) (auto simp: arr_get_def)
  then show ?thesis using False by (simp add: conv_d_def signed_text_def u)
qed

lemma conv_x_ok: "\<exists>cb. conv_x alternate v = Some cb \<and> is_cstr (arr_get cb) (hex_text alternate v)"
proof (cases alternate)
  case False
  obtain b where "itoa arr_get arr_put v (replicate 64 0) (of_nat 16) = Some b"
    "is_cstr (arr_get b) (number_text 16 (unat v))"
    by (rule arr.itoa_ok [of 16 "replicate 64 0" v]) (auto simp: arr_get_def)
  then show ?thesis using False by (simp add: conv_x_def hex_text_def Let_def)
next
  case True
  let ?t = "number_text 16 (unat v)"
  obtain b where b: "itoa arr_get arr_put v (replicate 56 0) (of_nat 16) = Some b" "is_cstr (arr_get b) ?t"
    by (rule arr.itoa_ok [of 16 "replicate 56 0" v]) (auto simp: arr_get_def)
  have l: "length ?t \<le> 8" by (rule length_hex)
  have "conv_x alternate v = Some (replicate (8 - length ?t) 48 @ b)"
    using True b l by (simp add: conv_x_def strlen_cstr [OF b(2)])
  moreover have "is_cstr (arr_get (replicate n 48 @ b)) (replicate n 48 @ ?t)" for n
    by (induction n) (simp_all add: b(2) is_cstr_arr_Cons)
  ultimately show ?thesis using True by (simp add: hex_text_def Let_def)
qed

text \<open>The branch of \<open>printf_loop\<close> behind a \<open>%\<close>.\<close>

definition printf_directive ::
  "cstr \<Rightarrow> u32 list \<Rightarrow> 'z console_scheme \<Rightarrow> nat \<times> bool \<times> u8 \<Rightarrow> (nat \<times> 'z console_scheme) option" where
  "printf_directive format args s = (\<lambda>(buf, alternate, c).
     if c = 37 then do { s \<leftarrow> putc 37 s; printf_loop format (Suc buf) args s }
     else if c = 120 then
       (case args of [] \<Rightarrow> None | v # args \<Rightarrow>
          do { cb \<leftarrow> conv_x alternate v; (_, s) \<leftarrow> puts (local_str cb) s;
               printf_loop format (Suc buf) args s })
     else if c = 117 then
       (case args of [] \<Rightarrow> None | v # args \<Rightarrow>
          do { cb \<leftarrow> conv_u v; (_, s) \<leftarrow> puts (local_str cb) s;
               printf_loop format (Suc buf) args s })
     else if c = 100 then
       (case args of [] \<Rightarrow> None | v # args \<Rightarrow>
          do { cb \<leftarrow> conv_d v; (_, s) \<leftarrow> puts (local_str cb) s;
               printf_loop format (Suc buf) args s })
     else if c = 99 then
       (case args of [] \<Rightarrow> None | v # args \<Rightarrow>
          do { s \<leftarrow> putc (ucast v) s; printf_loop format (Suc buf) args s })
     else if c = 115 then
       (case args of [] \<Rightarrow> None | v # args \<Rightarrow>
          do { (_, s) \<leftarrow> puts (ptr_str v) s; printf_loop format (Suc buf) args s })
     else printf_loop format (Suc buf) args s)"

lemma printf_loop_percent:
  "format i = Some 37 \<Longrightarrow>
   printf_loop format i args s = do { d \<leftarrow> format_char format (Suc i) False; printf_directive format args s d }"
  by (subst printf_loop.simps) (simp add: printf_directive_def)

lemma printf_loop_plain:
  "format i = Some c \<Longrightarrow> c \<noteq> 0 \<Longrightarrow> c \<noteq> 37 \<Longrightarrow>
   printf_loop format i args s = do { s \<leftarrow> putc c s; printf_loop format (Suc i) args s }"
  by (subst printf_loop.simps) simp

lemma printf_loop_end: "format i = Some 0 \<Longrightarrow> printf_loop format i args s = Some (i, s)"
  by (subst printf_loop.simps) simp

lemma drop_Suc_tail: "drop i xs = y # ys \<Longrightarrow> drop (Suc i) xs = ys \<and> i < length xs \<and> xs ! i = y"
  by (metis drop_Suc drop_eq_Nil2 leI list.distinct(1) list.sel(1,3) hd_drop_conv_nth tl_drop)

lemma printf_loop_text:
  fixes s :: "'z console_scheme"
  assumes fmt: "is_cstr format cs0"
  shows "format_text cs args = Some tx \<Longrightarrow> i \<le> length cs0 \<Longrightarrow> drop i cs0 = cs \<Longrightarrow>
      printf_loop format i args s = map_option (Pair (length cs0)) (out_all putc tx s)"
    and "directive_text alt ds args' = Some tx \<Longrightarrow> i \<le> length cs0 \<Longrightarrow> drop i cs0 = ds \<Longrightarrow>
      do { d \<leftarrow> format_char format i alt; printf_directive format args' s d }
        = map_option (Pair (length cs0)) (out_all putc tx s)"
proof (induction cs args and alt ds args' arbitrary: i s tx and i s tx rule: format_text_directive_text.induct)
  case (1 args)
  then have "i = length cs0" by simp
  then show ?case using 1 is_cstrD(2) [OF fmt] by (simp add: printf_loop_end)
next
  case (2 c cs args)
  note d = drop_Suc_tail [OF 2(5)]
  have f: "format i = Some c" "c \<noteq> 0" using d is_cstrD [OF fmt] by auto
  show ?case
  proof (cases "c = 37")
    case True
    then show ?thesis using 2(1) [OF True, of tx "Suc i" s] 2(3) d f by (simp add: printf_loop_percent)
  next
    case False
    then obtain t where t: "format_text cs args = Some t" "tx = c # t" using 2(3) by auto
    then show ?thesis using 2(2) [OF False t(1), of "Suc i"] d f False
      by (simp add: printf_loop_plain split: Option.bind_split)
  qed
next
  case (3 alt args)
  then show ?case by simp
next
  case (4 alt c cs args)
  note d = drop_Suc_tail [OF 4(7)]
  have f: "format i = Some c" using d is_cstrD [OF fmt] by auto
  show ?case
  proof (cases "c = 35")
    case True
    then show ?thesis
      using 4(1) [OF True, of tx "Suc i" s] 4(5) d f by (simp add: format_char.simps [of format i])
  next
    case False
    then have fc: "format_char format i alt = Some (i, alt, c)" using f by (simp add: format_char.simps)
    have nxt: "Suc i \<le> length cs0" "drop (Suc i) cs0 = cs" using d by auto
    consider "c = 37" | "c \<noteq> 37" "c = 120 \<or> c = 117 \<or> c = 100 \<or> c = 99"
      | "c \<noteq> 37" "\<not> (c = 120 \<or> c = 117 \<or> c = 100 \<or> c = 99)" by blast
    then show ?thesis
    proof cases
      case 1
      then obtain t where t: "format_text cs args = Some t" "tx = 37 # t" using 4(5) by auto
      show ?thesis
        using 4(2) [OF False 1 t(1) nxt] 1 t by (simp add: fc printf_directive_def split: Option.bind_split)
    next
      case 2
      then have 115: "c \<noteq> 115" by auto
      obtain v as t where a: "args = v # as" and t: "format_text cs as = Some t"
        and tx: "tx = (if c = 120 then hex_text alt v else if c = 117 then number_text 10 (unat v)
              else if c = 100 then signed_text v else [ucast v]) @ t"
        using 4(5) False 2 115 by (auto split: list.splits)
      note ih = 4(3) [OF False 2(1) 115 2(2) a t nxt]
      obtain cx cu cd where conv: "conv_x alt v = Some cx" "is_cstr (arr_get cx) (hex_text alt v)"
        "conv_u v = Some cu" "is_cstr (arr_get cu) (number_text 10 (unat v))"
        "conv_d v = Some cd" "is_cstr (arr_get cd) (signed_text v)"
        using conv_x_ok conv_u_ok conv_d_ok by metis
      show ?thesis
        using 2 ih by (elim disjE) (simp_all add: fc a tx printf_directive_def conv(1,3,5) puts_local [OF conv(2)]
            puts_local [OF conv(4)] puts_local [OF conv(6)] out_all_append
            split: Option.bind_split)
    next
      case 3
      then have 115: "c \<noteq> 115" using 4(5) False by auto
      then show ?thesis
        using 4(4) [OF False 3(1) 115 3(2) _ nxt] 4(5) False 3 by (simp add: fc printf_directive_def)
    qed
  qed
qed

text \<open>C28. For a format that is a string and whose directives have their arguments (\<open>%s\<close> apart), \<open>printf\<close> on a
  displayed terminal succeeds, returns the length of the format, and draws exactly the text of the
  format: decimal, signed and hexadecimal numbers in full, \<open>%#x\<close> padded to eight digits.\<close>

theorem printf_prints_text:
  assumes "is_cstr format cs" "format_text cs args = Some tx" "putc_ready i s"
  shows "\<exists>s'. printf format args s = Some (length cs, s') \<and> putc_ready i s'
    \<and> screen_of s' i = fold (screen_put True) tx (screen_of s i)
    \<and> keeps_others {0xB8000, backup i} i s s'"
proof -
  obtain s' where "out_all putc tx s = Some s'" "putc_ready i s'"
    "screen_of s' i = fold (screen_put True) tx (screen_of s i)" "keeps_others {0xB8000, backup i} i s s'"
    using putc.out_all_ok [OF assms(3)] by blast
  then show ?thesis
    using printf_loop_text(1) [OF assms(1,2), of 0 s] by (simp add: printf_def)
qed

theorem printf_prints_text_witness:
  "format_text [110, 61, 37, 100] [- 5] = Some [110, 61, 45, 53] \<and>
   (\<exists>s'. printf (arr_get [110, 61, 37, 100, 0]) [- 5] console0
       = Some (length ([110, 61, 37, 100] :: u8 list), s') \<and> putc_ready 0 s'
    \<and> screen_of s' 0 = fold (screen_put True) [110, 61, 45, 53] (screen_of console0 0)
    \<and> keeps_others {0xB8000, backup 0} 0 console0 s')"
proof
  show t: "format_text [110, 61, 37, 100] [- 5] = Some [110, 61, 45, 53]"
    by (simp add: signed_text_def number_text_def digits_lsb.simps itoa_lookup_def upt_rec)
  show "\<exists>s'. printf (arr_get [110, 61, 37, 100, 0]) [- 5] console0
       = Some (length ([110, 61, 37, 100] :: u8 list), s') \<and> putc_ready 0 s'
    \<and> screen_of s' 0 = fold (screen_put True) [110, 61, 45, 53] (screen_of console0 0)
    \<and> keeps_others {0xB8000, backup 0} 0 console0 s'"
  proof (rule printf_prints_text [OF _ t])
    show "is_cstr (arr_get [110, 61, 37, 100, 0]) [110, 61, 37, 100]"
      using is_cstr_append_arr [of "[110, 61, 37, 100]" "[]"] by simp
    show "putc_ready 0 console0"
      using console_ok_console0 display_shows_console0 by (simp add: putc_ready_def console0_def)
  qed
qed

end
