(* ===== verification/Keyboard.thy ===== *)
theory Keyboard
  imports Output
begin

text \<open>
  \<open>keyboard.c\<close>: the scancode tables, the modifier flags and the interrupt handler, one definition per
  branch of the handler. The line being typed, the command history and the line handed to
  \<open>terminal_read\<close> are fields of the displayed terminal. The lemmas show which presses keep the
  terminal table well formed, what a typed line delivers, and that Enter on a full line writes
  outside \<open>typed_buf\<close>.
\<close>

record keyboard = console +
  la_on :: bool
  ls_on :: bool
  rs_on :: bool
  lctrl_on :: bool
  cap_on :: bool
  backspace_on :: bool
  share_buffer :: "u8 list"

section \<open>Scancode tables\<close>

text \<open>Index \<open>c - 1\<close> holds the character of scancode \<open>c\<close>. \<open>T\<close>, \<open>E\<close> and \<open>C\<close> stand for Tab, Enter and Ctrl.\<close>

definition lower_case_scancodes :: "u8 list" where
  "lower_case_scancodes =
     [96, 49, 50, 51, 52, 53, 54, 55, 56, 57, 48, 45, 61, 8,
      84, 113, 119, 101, 114, 116, 121, 117, 105, 111, 112, 91, 93, 69,
      67, 97, 115, 100, 102, 103, 104, 106, 107, 108, 59, 34, 96, 92,
      92, 122, 120, 99, 118, 98, 110, 109, 44, 46, 47, 0, 0, 0, 32, 0, 0, 0, 0, 0, 0, 0]"

definition upper_case_scancodes :: "u8 list" where
  "upper_case_scancodes =
     [126, 33, 64, 35, 36, 37, 94, 38, 42, 40, 41, 95, 43, 8,
      84, 81, 87, 69, 82, 84, 89, 85, 73, 79, 80, 123, 125, 69,
      67, 65, 83, 68, 70, 71, 72, 74, 75, 76, 58, 34, 126, 124,
      124, 90, 88, 67, 86, 66, 78, 77, 60, 62, 63, 0, 0, 0, 0, 0, 0, 32, 0, 0, 0, 0]"

definition cap_upper_case_scancodes :: "u8 list" where
  "cap_upper_case_scancodes =
     [96, 49, 50, 51, 52, 53, 54, 55, 56, 57, 48, 45, 61, 8,
      84, 81, 87, 69, 82, 84, 89, 85, 73, 79, 80, 91, 93, 69,
      67, 65, 83, 68, 70, 71, 72, 74, 75, 76, 59, 34, 96, 92,
      92, 90, 88, 67, 86, 66, 78, 77, 44, 46, 47, 0, 0, 0, 0, 0, 0, 32, 0, 0, 0, 0]"

definition cap_lower_case_scancodes :: "u8 list" where
  "cap_lower_case_scancodes =
     [126, 33, 64, 35, 36, 37, 94, 38, 42, 40, 41, 95, 43, 8,
      84, 113, 119, 101, 114, 116, 121, 117, 105, 111, 112, 123, 125, 69,
      67, 97, 115, 100, 102, 103, 104, 106, 107, 108, 58, 34, 126, 124,
      124, 122, 120, 99, 118, 98, 110, 109, 60, 62, 63, 0, 0, 0, 0, 0, 0, 32, 0, 0, 0, 0]"

section \<open>Operations\<close>

text \<open>Updating \<open>terminals[i]\<close>.\<close>

definition upd_terminal ::
  "int \<Rightarrow> (terminal_t \<Rightarrow> terminal_t option) \<Rightarrow> 'z console_scheme \<Rightarrow> 'z console_scheme option" where
  "upd_terminal i f s =
     do { t \<leftarrow> aget (terminals s) i; t \<leftarrow> f t; ts \<leftarrow> aset (terminals s) i t; Some (s\<lparr>terminals := ts\<rparr>) }"

abbreviation upd_curr ::
  "(terminal_t \<Rightarrow> terminal_t option) \<Rightarrow> 'z console_scheme \<Rightarrow> 'z console_scheme option" where
  "upd_curr f s \<equiv> upd_terminal (curr_terminal_idx s) f s"

abbreviation curr_terminal :: "'z console_scheme \<Rightarrow> terminal_t option" where
  "curr_terminal s \<equiv> aget (terminals s) (curr_terminal_idx s)"

definition keyboard_init :: "'z console_scheme \<Rightarrow> 'z console_scheme option" where
  "keyboard_init s =
     do { s \<leftarrow> for_opt 0 3 (\<lambda>i. upd_terminal (int i) (\<lambda>t. Some (t\<lparr>typing_finish := 0\<rparr>))) s;
          Some (enable_irq 1 s) }"

definition getScancode :: "'z machine_scheme \<Rightarrow> u8 \<times> 'z machine_scheme" where
  "getScancode s = inb 0x60 s"

definition clear_buffer :: "'z console_scheme \<Rightarrow> 'z console_scheme option" where
  "clear_buffer s =
     upd_curr (\<lambda>t. do { b \<leftarrow> array_fill 128 0 (typed_buf t); Some (t\<lparr>typed_buf := b\<rparr>) }) s"

text \<open>The \<open>switch\<close> on modifier keys: the new flags, whether it goes to \<open>FINISH\<close>, and \<open>ins_flag\<close>.\<close>

definition modifier_keys :: "u8 \<Rightarrow> 'z keyboard_scheme \<Rightarrow> 'z keyboard_scheme \<times> bool \<times> bool" where
  "modifier_keys c s =
     (if c = 0x38 then (s\<lparr>la_on := True\<rparr>, True, True)
      else if c = 0xB8 then (s\<lparr>la_on := False\<rparr>, True, True)
      else if c = 0x2A then (s\<lparr>ls_on := True\<rparr>, True, True)
      else if c = 0x36 then (s\<lparr>rs_on := True\<rparr>, True, True)
      else if c = 0xAA then (s\<lparr>ls_on := False\<rparr>, True, True)
      else if c = 0xB6 then (s\<lparr>rs_on := False\<rparr>, True, True)
      else if c = 0x1D then (s\<lparr>lctrl_on := True\<rparr>, True, True)
      else if c = 0x9D then (s\<lparr>lctrl_on := False\<rparr>, True, True)
      else if c = 0x3A then (s\<lparr>cap_on := \<not> cap_on s\<rparr>, True, True)
      else if c = 0x0E then (s\<lparr>backspace_on := True\<rparr>, False, True)
      else if c = 0x8E then (s\<lparr>backspace_on := False\<rparr>, True, True)
      else (s, False, False))"

text \<open>The byte behind a cell of the display is its colour; the cursor's cell gets the terminal's.\<close>

definition mark_cursor :: "'z console_scheme \<Rightarrow> 'z console_scheme option" where
  "mark_cursor s =
     do { t \<leftarrow> curr_terminal s;
          Some (s\<lparr>phys := (phys s)(cell VIDEO (NUM_COLS * screen_y t + screen_x t) + 1
            := word_of_int (1 + curr_terminal_idx s))\<rparr>) }"

text \<open>Alt and F1 to F3. The \<open>push\<close>es around it only balance the stack.\<close>

definition switch_terminal :: "u8 \<Rightarrow> 'z console_scheme \<Rightarrow> 'z console_scheme option" where
  "switch_terminal c s =
     do { let s = cli s;
          let s = s\<lparr>curr_terminal_idx := uint c - 0x3B\<rparr>;
          t \<leftarrow> curr_terminal s;
          let s = s\<lparr>phys := memcpy VIDEO (video_mem t) 4096 (phys s)\<rparr>;
          let pos = word_of_int (screen_y t * NUM_COLS + screen_x t);
          let s = set_cursor pos s;
          s \<leftarrow> mark_cursor s;
          Some (sti s) }"

text \<open>\<open>while (curr_char_idx > 0) { putc('\b'); curr_char_idx--; }\<close>\<close>

partial_function (option) erase_line :: "'z console_scheme \<Rightarrow> 'z console_scheme option" where
  "erase_line s =
     do { t \<leftarrow> curr_terminal s;
          if curr_char_idx t > 0 then
            do { s \<leftarrow> putc 8 s;
                 s \<leftarrow> upd_curr (\<lambda>t. Some (t\<lparr>curr_char_idx := curr_char_idx t - 1\<rparr>)) s;
                 erase_line s }
          else Some s }"

partial_function (option) recall_loop ::
  "int \<Rightarrow> nat \<Rightarrow> 'z console_scheme \<Rightarrow> 'z console_scheme option" where
  "recall_loop ec i s =
     do { t \<leftarrow> curr_terminal s;
          line \<leftarrow> aget (buffer_for_ec t) ec;
          n \<leftarrow> strlen (arr_get line);
          if i < n then
            do { ch \<leftarrow> aget line (int i);
                 s \<leftarrow> upd_curr (\<lambda>t. do { b \<leftarrow> aset (typed_buf t) (int i) ch; Some (t\<lparr>typed_buf := b\<rparr>) }) s;
                 s \<leftarrow> putc ch s;
                 recall_loop ec (Suc i) s }
          else Some s }"

text \<open>The up arrow.\<close>

definition recall_command :: "'z console_scheme \<Rightarrow> 'z console_scheme option" where
  "recall_command s =
     do { t \<leftarrow> curr_terminal s;
          if buffer_ec_idx t \<le> 0 then Some s
          else
            do { let ec_buf_temp = buffer_ec_idx t - 1;
                 s \<leftarrow> upd_curr (\<lambda>t. Some (t\<lparr>buffer_ec_idx := ec_buf_temp\<rparr>)) s;
                 s \<leftarrow> erase_line s;
                 s \<leftarrow> clear_buffer s;
                 s \<leftarrow> recall_loop ec_buf_temp 0 s;
                 t \<leftarrow> curr_terminal s;
                 line \<leftarrow> aget (buffer_for_ec t) ec_buf_temp;
                 n \<leftarrow> strlen (arr_get line);
                 upd_curr (\<lambda>t. Some (t\<lparr>curr_char_idx := int n\<rparr>)) s } }"

text \<open>Both ways to end a line store it in the history first. \<open>if (!hello_flag) hello_flag = 0\<close> changes
  nothing.\<close>

definition store_history :: "terminal_t \<Rightarrow> terminal_t option" where
  "store_history t =
     (let t = (if buffer_size t = 20 then t\<lparr>buffer_size := 0\<rparr> else t) in
      if hello_flag t = 0 then
        do { line \<leftarrow> aget (buffer_for_ec t) (buffer_size t);
             line \<leftarrow> array_copy 128 (typed_buf t) line;
             h \<leftarrow> aset (buffer_for_ec t) (buffer_size t) line;
             Some (t\<lparr>hello_flag := 0, buffer_for_ec := h, buffer_size := buffer_size t + 1\<rparr>) }
      else Some t)"

text \<open>Enter: the line with its newline goes to \<open>share_buf\<close>.\<close>

definition enter_line :: "'z console_scheme \<Rightarrow> 'z console_scheme option" where
  "enter_line s =
     do { s \<leftarrow> putc 10 s;
          s \<leftarrow> upd_curr (\<lambda>t.
            do { t \<leftarrow> store_history t;
                 b \<leftarrow> aset (typed_buf t) (curr_char_idx t) 10;
                 let t = t\<lparr>typed_buf := b\<rparr>;
                 sb \<leftarrow> array_copy 128 (typed_buf t) (share_buf t);
                 Some (t\<lparr>share_buf := sb, buffer_ec_idx := buffer_size t, typing_finish := 1\<rparr>) }) s;
          s \<leftarrow> clear_buffer s;
          s \<leftarrow> upd_curr (\<lambda>t. Some (t\<lparr>curr_char_idx := 0\<rparr>)) s;
          beep s }"

text \<open>A full line is handed over without a newline.\<close>

definition full_line :: "'z console_scheme \<Rightarrow> 'z console_scheme option" where
  "full_line s =
     do { s \<leftarrow> putc 10 s;
          s \<leftarrow> upd_curr (\<lambda>t.
            do { t \<leftarrow> store_history t;
                 sb \<leftarrow> array_copy 128 (typed_buf t) (share_buf t);
                 Some (t\<lparr>share_buf := sb, buffer_ec_idx := buffer_size t, typing_finish := 1\<rparr>) }) s;
          s \<leftarrow> clear_buffer s;
          upd_curr (\<lambda>t. Some (t\<lparr>curr_char_idx := 0\<rparr>)) s }"

definition ctrl_l :: "'z console_scheme \<Rightarrow> 'z console_scheme option" where
  "ctrl_l s =
     do { s \<leftarrow> clear s;
          s \<leftarrow> clear_buffer s;
          s \<leftarrow> upd_curr (\<lambda>t. Some (t\<lparr>curr_char_idx := 0\<rparr>)) s;
          let s = set_cursor 0 s;
          mark_cursor s }"

definition backspace_key :: "'z console_scheme \<Rightarrow> 'z console_scheme option" where
  "backspace_key s =
     do { t \<leftarrow> curr_terminal s;
          s \<leftarrow> (if curr_char_idx t > 0 then
                 do { s \<leftarrow> putc 8 s;
                      upd_curr (\<lambda>t. Some (t\<lparr>curr_char_idx := curr_char_idx t - 1\<rparr>)) s }
               else Some s);
          beep s }"

text \<open>The four copies of the printing branch differ in the table only.\<close>

definition print_key :: "u8 list \<Rightarrow> u8 \<Rightarrow> bool \<Rightarrow> 'z console_scheme \<Rightarrow> 'z console_scheme option" where
  "print_key table c ins_flag s =
     (if c < 0x81 \<and> \<not> ins_flag then
        do { curr_character \<leftarrow> aget table (uint c - 1);
             s \<leftarrow> upd_curr (\<lambda>t.
               do { b \<leftarrow> aset (typed_buf t) (curr_char_idx t) curr_character;
                    Some (t\<lparr>typed_buf := b, curr_char_idx := curr_char_idx t + 1\<rparr>) }) s;
             s \<leftarrow> putc curr_character s;
             beep s }
      else Some s)"

definition scancode_table :: "'z keyboard_scheme \<Rightarrow> u8 list" where
  "scancode_table s =
     (if \<not> cap_on s \<and> \<not> ls_on s \<and> \<not> rs_on s then lower_case_scancodes
      else if \<not> cap_on s \<and> (ls_on s \<or> rs_on s) then upper_case_scancodes
      else if cap_on s \<and> \<not> ls_on s \<and> \<not> rs_on s then cap_upper_case_scancodes
      else cap_lower_case_scancodes)"

text \<open>What the handler does with a scancode, up to the label \<open>FINISH\<close>.\<close>

definition handle_scancode :: "u8 \<Rightarrow> 'z keyboard_scheme \<Rightarrow> 'z keyboard_scheme option" where
  "handle_scancode c s =
     (let (s, finish, ins_flag) = modifier_keys c s in
      if finish then Some s
      else if la_on s \<and> c \<ge> 0x3B \<and> c \<le> 0x3D then switch_terminal c s
      else if c = 0x48 then recall_command s
      else if \<not> (c > 0 \<and> c < 0x3B) \<or> c = 0x37 then Some s
      else
        do { k \<leftarrow> aget lower_case_scancodes (uint c - 1);
             if k = 69 then enter_line s
             else
               do { t \<leftarrow> curr_terminal s;
                    if curr_char_idx t = 128 then
                      do { s \<leftarrow> full_line s; print_key (scancode_table s) c ins_flag s }
                    else if lctrl_on s \<and> c = 0x26 then ctrl_l s
                    else if backspace_on s then backspace_key s
                    else print_key (scancode_table s) c ins_flag s } })"

definition keyboard_interrupt_handler :: "'z keyboard_scheme \<Rightarrow> 'z keyboard_scheme option" where
  "keyboard_interrupt_handler s =
     do { let s = cli s;
          let s = nosound s;
          let (keyboard_flag, s) = inb 0x64 s;
          let (c, s) = inb 0x60 s;
          s \<leftarrow> handle_scancode c s;
          let s = sti s;
          Some (send_eoi 1 s) }"

section \<open>Invariant\<close>

definition line_ok :: "terminal_t \<Rightarrow> bool" where
  "line_ok t \<longleftrightarrow> 0 \<le> curr_char_idx t \<and> curr_char_idx t \<le> 128
     \<and> 0 \<le> buffer_size t \<and> buffer_size t \<le> 20 \<and> 0 \<le> buffer_ec_idx t \<and> buffer_ec_idx t \<le> 20"

definition keyboard_ok :: "'z console_scheme \<Rightarrow> bool" where
  "keyboard_ok s \<longleftrightarrow> console_ok s \<and> sound_ok s \<and> (\<forall>i<3. line_ok (terminals s ! i))"

text \<open>The displayed terminal.\<close>

definition cur :: "'z console_scheme \<Rightarrow> terminal_t" where
  "cur s = terminals s ! nat (curr_terminal_idx s)"

definition set_cur :: "terminal_t \<Rightarrow> 'z console_scheme \<Rightarrow> 'z console_scheme" where
  "set_cur t s = s\<lparr>terminals := (terminals s)[nat (curr_terminal_idx s) := t]\<rparr>"

lemma curr_terminal_eq: "console_ok s \<Longrightarrow> curr_terminal s = Some (cur s)"
  using console_okD [of s] by (simp add: aget_def cur_def)

lemma upd_curr_eq: "console_ok s \<Longrightarrow> upd_curr f s = map_option (\<lambda>t. set_cur t s) (f (cur s))"
  using console_okD [of s]
  by (simp add: upd_terminal_def aget_def aset_def cur_def set_cur_def split: Option.bind_split)

lemma keyboard_okD:
  assumes "keyboard_ok s"
  shows "console_ok s" "sound_ok s" "line_ok (cur s)" "terminal_ok (nat (curr_terminal_idx s)) (cur s)"
  using assms console_okD [of s] by (auto simp: keyboard_ok_def cur_def)

lemma set_cur_fields [simp]:
  "curr_terminal_idx (set_cur t s) = curr_terminal_idx s" "phys (set_cur t s) = phys s"
  "curr_running_terminal_idx (set_cur t s) = curr_running_terminal_idx s"
  "temp_curr_running_terminal_idx (set_cur t s) = temp_curr_running_terminal_idx s"
  "sound_freq (set_cur t s) = sound_freq s" "console.more (set_cur t s) = console.more s"
  "history (set_cur t s) = history s" "device (set_cur t s) = device s"
  by (simp_all add: set_cur_def)

lemma cur_set_cur [simp]: "console_ok s \<Longrightarrow> cur (set_cur t s) = t"
  using console_okD [of s] by (simp add: set_cur_def cur_def)

lemma sound_ok_set_cur [simp]: "sound_ok (set_cur t s) = sound_ok s"
  by (simp add: sound_ok_def)

lemma keyboard_ok_set_cur [inv_intros]:
  assumes "keyboard_ok s" "terminal_ok (nat (curr_terminal_idx s)) t" "line_ok t"
  shows "keyboard_ok (set_cur t s)"
proof -
  note c = console_okD [OF keyboard_okD(1) [OF assms(1)]]
  have "console_ok (set_cur t s)"
    by (rule console_ok_update [OF keyboard_okD(1) [OF assms(1)] c(2) assms(2)]) (simp_all add: set_cur_def)
  then show ?thesis
    using assms c by (auto simp: keyboard_ok_def nth_list_update) (simp add: set_cur_def nth_list_update)
qed

text \<open>Operations below the console leave it alone.\<close>

lemma console_frame:
  assumes "sound.more s' = sound.more s"
  shows "terminals s' = terminals s" "phys s' = phys s" "curr_terminal_idx s' = curr_terminal_idx s"
    "curr_running_terminal_idx s' = curr_running_terminal_idx s"
    "temp_curr_running_terminal_idx s' = temp_curr_running_terminal_idx s"
    "console.more s' = console.more s"
  using assms by (cases s; cases s'; simp)+

lemma console_ok_frame:
  assumes same: "sound.more s' = sound.more s"
  shows "console_ok s' = console_ok s"
  by (simp add: console_ok_def console_frame [OF same])

lemma keyboard_ok_frame:
  assumes same: "sound.more s' = sound.more s" and freq: "sound_freq s' = sound_freq s"
  shows "keyboard_ok s' = keyboard_ok s"
  by (simp add: keyboard_ok_def console_ok_frame [OF same] console_frame [OF same] sound_ok_def freq)

lemma screen_of_frame:
  assumes same: "sound.more s' = sound.more s"
  shows "screen_of s' = screen_of s" "cur s' = cur s" "display_shows s' = display_shows s"
proof -
  note f = console_frame [OF same]
  show sc: "screen_of s' = screen_of s" by (simp add: screen_of_def f fun_eq_iff Let_def)
  show "cur s' = cur s" by (simp add: cur_def f)
  show "display_shows s' = display_shows s" by (simp add: display_shows_def sc display_def f)
qed

lemma sound_set_cursor [simp]:
  "sound_freq (set_cursor p s) = sound_freq s" "sound.more (set_cursor p s) = sound.more s"
  "sound_freq (send_eoi n s) = sound_freq s" "sound.more (send_eoi n s) = sound.more s"
  by (simp_all add: set_cursor_def send_eoi_def io_defs)

lemma putc_sound_freq: "console_ok s \<Longrightarrow> putc c s = Some s' \<Longrightarrow> sound_freq s' = sound_freq s"
  by (rule putc_effect [of s "nat (curr_terminal_idx s)" c]) auto

text \<open>\<open>s'\<close> is \<open>s\<close> with the displayed terminal \<open>t\<close>, its cursor and its text apart.\<close>

definition edited :: "terminal_t \<Rightarrow> 'z console_scheme \<Rightarrow> 'z console_scheme \<Rightarrow> bool" where
  "edited t s s' \<longleftrightarrow>
     keyboard_ok s' \<and> (\<exists>x y. cur s' = t\<lparr>screen_x := x, screen_y := y\<rparr>)
     \<and> (\<forall>j<3. j \<noteq> nat (curr_terminal_idx s) \<longrightarrow> terminals s' ! j = terminals s ! j)
     \<and> curr_terminal_idx s' = curr_terminal_idx s
     \<and> curr_running_terminal_idx s' = curr_running_terminal_idx s
     \<and> temp_curr_running_terminal_idx s' = temp_curr_running_terminal_idx s
     \<and> console.more s' = console.more s"

lemma line_ok_cursor [simp]: "line_ok (t\<lparr>screen_x := x, screen_y := y\<rparr>) = line_ok t"
  by (simp add: line_ok_def)

lemma edited_refl: "keyboard_ok s \<Longrightarrow> edited (cur s) s s"
  using cursor_upd_triv(1) [of "cur s" "screen_x (cur s)"] unfolding edited_def
  by (metis cursor_upd_triv(3))

lemma edited_trans:
  assumes "edited t s s1" "edited t' s1 s2"
  shows "edited t' s s2"
  unfolding edited_def
proof (intro conjI)
  show "\<exists>x y. cur s2 = t'\<lparr>screen_x := x, screen_y := y\<rparr>" using assms(2) by (simp only: edited_def)
qed (use assms in \<open>simp_all add: edited_def del: ex_simps\<close>)

lemma edited_set_cur:
  assumes "keyboard_ok s" "terminal_ok (nat (curr_terminal_idx s)) t" "line_ok t"
  shows "edited t s (set_cur t s)"
  unfolding edited_def
proof (intro conjI)
  show "keyboard_ok (set_cur t s)" by (rule keyboard_ok_set_cur [OF assms])
  show "\<exists>x y. cur (set_cur t s) = t\<lparr>screen_x := x, screen_y := y\<rparr>"
    using keyboard_okD [OF assms(1)] by (metis cur_set_cur cursor_upd_triv(1,3))
qed (simp_all add: set_cur_def)

lemma edited_putc:
  assumes "keyboard_ok s"
  shows "\<exists>s'. putc c s = Some s' \<and> edited (cur s) s s'
    \<and> screen_of s' (nat (curr_terminal_idx s)) = screen_put True c (screen_of s (nat (curr_terminal_idx s)))
    \<and> (display_shows s \<longrightarrow> display_shows s')"
proof -
  let ?i = "nat (curr_terminal_idx s)"
  note ok = keyboard_okD [OF assms]
  note c = console_okD [OF ok(1)]
  obtain s' where e: "putc c s = Some s'" and p: "prints True {0xB8000, backup ?i} ?i c s s'"
    and d: "display_shows s \<longrightarrow> display_shows s'"
    using putc_ok [OF ok(1), of c] by blast
  obtain x y where t: "terminals s' = (terminals s)[?i := (terminals s ! ?i)\<lparr>screen_x := x, screen_y := y\<rparr>]"
    using p by (auto simp: prints_def printed_on_def)
  have same: "console_ok s'" "curr_terminal_idx s' = curr_terminal_idx s"
    "curr_running_terminal_idx s' = curr_running_terminal_idx s"
    "temp_curr_running_terminal_idx s' = temp_curr_running_terminal_idx s"
    "console.more s' = console.more s" "sound_freq s' = sound_freq s"
    using p putc_sound_freq [OF ok(1) e] by (simp_all add: prints_def printed_on_def)
  have "keyboard_ok s'"
    using assms same c(1,2) by (auto simp: keyboard_ok_def sound_ok_def t nth_list_update)
  moreover have "cur s' = (cur s)\<lparr>screen_x := x, screen_y := y\<rparr>"
    using c(1,2) by (simp add: cur_def same t)
  ultimately have "edited (cur s) s s'" using same by (auto simp: edited_def t)
  then show ?thesis using e d p by (auto simp: prints_def)
qed

section \<open>What the branches do\<close>

lemma edited_beep:
  assumes "keyboard_ok s"
  shows "\<exists>s'. beep s = Some s' \<and> edited (cur s) s s' \<and> screen_of s' = screen_of s
    \<and> display_shows s' = display_shows s"
proof -
  obtain s' where e: "beep s = Some s'" "sound_ok s'"
    using beep_ok [OF keyboard_okD(2) [OF assms], of beep] by auto
  note f = beep_frame(1) [OF e(1)]
  have "keyboard_ok s'"
    using assms e(2) by (simp add: keyboard_ok_def console_ok_frame [OF f] console_frame [OF f])
  moreover have "\<exists>x y. cur s' = (cur s)\<lparr>screen_x := x, screen_y := y\<rparr>"
    using edited_refl [OF assms] by (simp add: edited_def screen_of_frame [OF f])
  ultimately have "edited (cur s) s s'" by (simp add: edited_def console_frame [OF f])
  then show ?thesis using e by (auto simp: screen_of_frame [OF f])
qed

lemma terminal_okD:
  "terminal_ok i t \<Longrightarrow> length (typed_buf t) = 128" "terminal_ok i t \<Longrightarrow> length (share_buf t) = 128"
  "terminal_ok i t \<Longrightarrow> length (buffer_for_ec t) = 20"
  "terminal_ok i t \<Longrightarrow> r < 20 \<Longrightarrow> length (buffer_for_ec t ! r) = 128"
  by (auto simp: terminal_ok_def)

text \<open>Fields outside \<open>terminal_ok\<close> and \<open>line_ok\<close>, or of the right size.\<close>

lemma terminal_ok_upd [simp]:
  "terminal_ok i (t\<lparr>curr_char_idx := n\<rparr>) = terminal_ok i t"
  "terminal_ok i (t\<lparr>buffer_ec_idx := n\<rparr>) = terminal_ok i t"
  "terminal_ok i (t\<lparr>buffer_size := n\<rparr>) = terminal_ok i t"
  "terminal_ok i (t\<lparr>hello_flag := n\<rparr>) = terminal_ok i t"
  "terminal_ok i (t\<lparr>typing_finish := n\<rparr>) = terminal_ok i t"
  "terminal_ok i (t\<lparr>vid_on := n\<rparr>) = terminal_ok i t"
  "length b = length (typed_buf t) \<Longrightarrow> terminal_ok i (t\<lparr>typed_buf := b\<rparr>) = terminal_ok i t"
  "length b = length (share_buf t) \<Longrightarrow> terminal_ok i (t\<lparr>share_buf := b\<rparr>) = terminal_ok i t"
  "cursor_ok x y \<Longrightarrow> terminal_ok i t \<Longrightarrow> terminal_ok i (t\<lparr>screen_x := x, screen_y := y\<rparr>)"
  by (simp_all add: terminal_ok_def)

lemma clear_buffer_eq:
  assumes "keyboard_ok s"
  shows "clear_buffer s = Some (set_cur ((cur s)\<lparr>typed_buf := replicate 128 0\<rparr>) s)"
proof -
  have "length (typed_buf (cur s)) = 128" using terminal_okD(1) [OF keyboard_okD(4) [OF assms]] .
  then show ?thesis by (simp add: clear_buffer_def upd_curr_eq [OF keyboard_okD(1) [OF assms]] array_fill_eq)
qed

text \<open>The line stored as the newest of the history.\<close>

definition with_history :: "terminal_t \<Rightarrow> terminal_t" where
  "with_history t =
     (let n = (if buffer_size t = 20 then 0 else buffer_size t) in
      if hello_flag t = 0
      then t\<lparr>buffer_for_ec := (buffer_for_ec t)[nat n := typed_buf t], buffer_size := n + 1\<rparr>
      else t\<lparr>buffer_size := n\<rparr>)"

lemma hello_flag_upd: "hello_flag t = 0 \<Longrightarrow> t\<lparr>hello_flag := 0\<rparr> = t" "t\<lparr>buffer_size := buffer_size t\<rparr> = t"
  by (cases t; simp)+

lemma store_history_eq:
  assumes "terminal_ok i t" "line_ok t"
  shows "store_history t = Some (with_history t)"
proof -
  define n where "n = (if buffer_size t = 20 then 0 else buffer_size t)"
  have n: "0 \<le> n" "n < 20" using assms(2) by (auto simp: n_def line_ok_def)
  let ?t = "t\<lparr>buffer_size := n\<rparr>"
  have t: "(if buffer_size t = 20 then t\<lparr>buffer_size := 0\<rparr> else t) = ?t"
    by (simp add: n_def hello_flag_upd)
  have len: "length (buffer_for_ec t) = 20" "length (typed_buf t) = 128"
    "length (buffer_for_ec t ! nat n) = 128"
    using terminal_okD [OF assms(1)] n by (auto simp: nat_less_iff)
  have "t\<lparr>buffer_size := n, hello_flag := 0, buffer_for_ec := h, buffer_size := n + 1\<rparr>
    = t\<lparr>buffer_for_ec := h, buffer_size := n + 1\<rparr>" if "hello_flag t = 0" for h
    using that by (cases t) simp
  then show ?thesis
    unfolding store_history_def t Let_def
    using len n by (auto simp: with_history_def Let_def n_def [symmetric] aget_def aset_def array_copy_eq)
qed

lemma with_history_ok:
  assumes "terminal_ok i t" "line_ok t"
  shows "terminal_ok i (with_history t)" "line_ok (with_history t)"
    "typed_buf (with_history t) = typed_buf t" "share_buf (with_history t) = share_buf t"
    "curr_char_idx (with_history t) = curr_char_idx t"
proof -
  show "terminal_ok i (with_history t)"
    using assms by (auto simp: with_history_def Let_def terminal_ok_def dest!: set_update_subset_insert [THEN subsetD])
  show "line_ok (with_history t)"
    using assms(2) by (auto simp: with_history_def Let_def line_ok_def)
qed (simp_all add: with_history_def Let_def)

lemma with_history_cursor:
  "with_history (t\<lparr>screen_x := x, screen_y := y\<rparr>) = (with_history t)\<lparr>screen_x := x, screen_y := y\<rparr>"
  by (simp add: with_history_def Let_def)

lemma edited_upd:
  assumes "keyboard_ok s" "f (cur s) = Some t" "terminal_ok (nat (curr_terminal_idx s)) t" "line_ok t"
  shows "upd_curr f s = Some (set_cur t s)" "edited t s (set_cur t s)" "keyboard_ok (set_cur t s)"
    "cur (set_cur t s) = t" "screen_of (set_cur t s) = screen_of s \<or> True"
  using assms edited_set_cur [OF assms(1,3,4)] keyboard_ok_set_cur [OF assms(1,3,4)] keyboard_okD(1) [OF assms(1)]
  by (simp_all add: upd_curr_eq)

lemma edited_cursor: "edited t s s' \<Longrightarrow> t = t'\<lparr>screen_x := x, screen_y := y\<rparr> \<Longrightarrow> edited t' s s'"
  by (auto simp: edited_def)

lemma edited_keyboard_ok: "edited t s s' \<Longrightarrow> keyboard_ok s'"
  by (simp add: edited_def)

lemma edited_idx: "edited t s s' \<Longrightarrow> curr_terminal_idx s' = curr_terminal_idx s"
  by (simp add: edited_def)

text \<open>The line \<open>l\<close> handed to the reader, and the terminal ready for the next one.\<close>

definition deliver :: "u8 list \<Rightarrow> terminal_t \<Rightarrow> terminal_t" where
  "deliver l t = (with_history t)\<lparr>typed_buf := replicate 128 0, share_buf := l,
     buffer_ec_idx := buffer_size (with_history t), typing_finish := 1, curr_char_idx := 0\<rparr>"

lemma deliver_cursor:
  "deliver l (t\<lparr>screen_x := x, screen_y := y\<rparr>) = (deliver l t)\<lparr>screen_x := x, screen_y := y\<rparr>"
  by (simp add: deliver_def with_history_cursor)

lemma deliver_step:
  assumes ok: "keyboard_ok s" and l: "length l = 128"
    and f: "f (cur s) = Some ((with_history (cur s))\<lparr>typed_buf := b, share_buf := l,
        buffer_ec_idx := buffer_size (with_history (cur s)), typing_finish := 1\<rparr>)"
    and b: "length b = 128"
  shows "\<exists>s'. do { s \<leftarrow> upd_curr f s; s \<leftarrow> clear_buffer s; upd_curr (\<lambda>t. Some (t\<lparr>curr_char_idx := 0\<rparr>)) s } = Some s'
    \<and> edited (deliver l (cur s)) s s'"
proof -
  let ?i = "nat (curr_terminal_idx s)"
  note ok' = keyboard_okD [OF ok]
  note h = with_history_ok [OF ok'(4,3)]
  let ?t1 = "(with_history (cur s))\<lparr>typed_buf := b, share_buf := l,
        buffer_ec_idx := buffer_size (with_history (cur s)), typing_finish := 1\<rparr>"
  have t1: "terminal_ok ?i ?t1" "line_ok ?t1"
    using h terminal_okD [OF ok'(4)] l b by (simp_all add: line_ok_def)
  note u1 = edited_upd [where f = f, OF ok f t1]
  have t2: "terminal_ok ?i (?t1\<lparr>typed_buf := replicate 128 0\<rparr>)" "line_ok (?t1\<lparr>typed_buf := replicate 128 0\<rparr>)"
    using h terminal_okD [OF ok'(4)] l b by (simp_all add: line_ok_def)
  define s1 where "s1 = set_cur ?t1 s"
  define s2 where "s2 = set_cur ((cur s1)\<lparr>typed_buf := replicate 128 0\<rparr>) s1"
  have ok1: "keyboard_ok s1" "cur s1 = ?t1" "edited ?t1 s s1" "curr_terminal_idx s1 = curr_terminal_idx s"
    using u1 by (simp_all add: s1_def)
  have e2: "edited (?t1\<lparr>typed_buf := replicate 128 0\<rparr>) s1 s2" "keyboard_ok s2"
      "cur s2 = ?t1\<lparr>typed_buf := replicate 128 0\<rparr>" "curr_terminal_idx s2 = curr_terminal_idx s"
    using edited_set_cur [OF ok1(1)] keyboard_ok_set_cur [OF ok1(1)] t2 ok1 keyboard_okD(1) [OF ok1(1)]
    by (simp_all add: s2_def)
  have "deliver l (cur s) = (cur s2)\<lparr>curr_char_idx := 0\<rparr>"
    by (simp add: e2 deliver_def)
  moreover have "terminal_ok ?i ((cur s2)\<lparr>curr_char_idx := 0\<rparr>)" "line_ok ((cur s2)\<lparr>curr_char_idx := 0\<rparr>)"
    using e2 t2 by (simp_all add: line_ok_def)
  ultimately have u3: "upd_curr (\<lambda>t. Some (t\<lparr>curr_char_idx := 0\<rparr>)) s2 = Some (set_cur (deliver l (cur s)) s2)"
    "edited (deliver l (cur s)) s2 (set_cur (deliver l (cur s)) s2)"
    using edited_upd [where f = "\<lambda>t. Some (t\<lparr>curr_char_idx := 0\<rparr>)", OF e2(2)] e2(4) by simp_all
  have "do { s \<leftarrow> upd_curr f s; s \<leftarrow> clear_buffer s; upd_curr (\<lambda>t. Some (t\<lparr>curr_char_idx := 0\<rparr>)) s }
      = Some (set_cur (deliver l (cur s)) s2)"
    using u1(1) clear_buffer_eq [OF ok1(1)] u3(1) by (simp add: s1_def s2_def)
  moreover have "edited (deliver l (cur s)) s (set_cur (deliver l (cur s)) s2)"
    using edited_trans [OF edited_trans [OF ok1(3) e2(1)] u3(2)] .
  ultimately show ?thesis by blast
qed

lemma enter_line_ok:
  assumes ok: "keyboard_ok s" and idx: "curr_char_idx (cur s) < 128"
  shows "\<exists>s'. enter_line s = Some s'
    \<and> edited (deliver ((typed_buf (cur s))[nat (curr_char_idx (cur s)) := 10]) (cur s)) s s'"
proof -
  let ?l = "(typed_buf (cur s))[nat (curr_char_idx (cur s)) := 10]"
  obtain s1 where s1: "putc 10 s = Some s1" "edited (cur s) s s1" using edited_putc [OF ok] by blast
  then obtain x y where c1: "cur s1 = (cur s)\<lparr>screen_x := x, screen_y := y\<rparr>" by (auto simp: edited_def)
  note ok1 = edited_keyboard_ok [OF s1(2)]
  note ok1' = keyboard_okD [OF ok1]
  let ?f = "\<lambda>t. do { t \<leftarrow> store_history t;
                 b \<leftarrow> aset (typed_buf t) (curr_char_idx t) 10;
                 let t = t\<lparr>typed_buf := b\<rparr>;
                 sb \<leftarrow> array_copy 128 (typed_buf t) (share_buf t);
                 Some (t\<lparr>share_buf := sb, buffer_ec_idx := buffer_size t, typing_finish := 1\<rparr>) }"
  have len: "length (typed_buf (cur s)) = 128" "length (share_buf (cur s)) = 128"
    using terminal_okD [OF keyboard_okD(4) [OF ok]] by simp_all
  have f: "?f (cur s1) = Some ((with_history (cur s1))\<lparr>typed_buf := ?l, share_buf := ?l,
        buffer_ec_idx := buffer_size (with_history (cur s1)), typing_finish := 1\<rparr>)"
  proof -
    have "typed_buf (cur s1) = typed_buf (cur s)" "share_buf (cur s1) = share_buf (cur s)"
      "curr_char_idx (cur s1) = curr_char_idx (cur s)" "0 \<le> curr_char_idx (cur s1)"
      using ok1'(3) by (simp_all add: c1 line_ok_def)
    then show ?thesis
      using idx len with_history_ok [OF ok1'(4,3)]
      by (simp add: store_history_eq [OF ok1'(4,3)] aset_in array_copy_eq)
  qed
  obtain s2 where s2: "do { s \<leftarrow> upd_curr ?f s1; s \<leftarrow> clear_buffer s; upd_curr (\<lambda>t. Some (t\<lparr>curr_char_idx := 0\<rparr>)) s } = Some s2"
    "edited (deliver ?l (cur s1)) s1 s2"
    using deliver_step [where f = ?f, OF ok1 _ f] len by auto
  obtain s3 where s3: "beep s2 = Some s3" "edited (cur s2) s2 s3"
    using edited_beep [OF edited_keyboard_ok [OF s2(2)]] by blast
  obtain x' y' where "cur s2 = (deliver ?l (cur s1))\<lparr>screen_x := x', screen_y := y'\<rparr>"
    using s2(2) by (auto simp: edited_def)
  then have "edited (deliver ?l (cur s)) s2 s3"
    using edited_cursor [where t' = "deliver ?l (cur s)" and x = x' and y = y', OF s3(2)] by (simp add: c1 deliver_cursor)
  then have "edited (deliver ?l (cur s)) s s3"
    by (rule edited_trans [OF edited_trans [OF s1(2) s2(2)]])
  moreover have "enter_line s = Some s3"
    using s1(1) s2(1) s3(1) by (simp add: enter_line_def bind_eq_Some_conv) blast
  ultimately show ?thesis by blast
qed

lemma full_line_ok:
  assumes ok: "keyboard_ok s"
  shows "\<exists>s'. full_line s = Some s' \<and> edited (deliver (typed_buf (cur s)) (cur s)) s s'"
proof -
  let ?l = "typed_buf (cur s)"
  obtain s1 where s1: "putc 10 s = Some s1" "edited (cur s) s s1" using edited_putc [OF ok] by blast
  then obtain x y where c1: "cur s1 = (cur s)\<lparr>screen_x := x, screen_y := y\<rparr>" by (auto simp: edited_def)
  note ok1 = edited_keyboard_ok [OF s1(2)]
  note ok1' = keyboard_okD [OF ok1]
  let ?f = "\<lambda>t. do { t \<leftarrow> store_history t;
                 sb \<leftarrow> array_copy 128 (typed_buf t) (share_buf t);
                 Some (t\<lparr>share_buf := sb, buffer_ec_idx := buffer_size t, typing_finish := 1\<rparr>) }"
  have len: "length (typed_buf (cur s)) = 128" "length (share_buf (cur s)) = 128"
    using terminal_okD [OF keyboard_okD(4) [OF ok]] by simp_all
  have f: "?f (cur s1) = Some ((with_history (cur s1))\<lparr>typed_buf := ?l, share_buf := ?l,
        buffer_ec_idx := buffer_size (with_history (cur s1)), typing_finish := 1\<rparr>)"
  proof -
    have e: "typed_buf (cur s1) = typed_buf (cur s)" "share_buf (cur s1) = share_buf (cur s)"
      by (simp_all add: c1)
    have w: "(with_history (cur s1))\<lparr>typed_buf := ?l\<rparr> = with_history (cur s1)"
      using with_history_ok(3) [OF ok1'(4,3)] e by (metis terminal_t.surjective terminal_t.update_convs(2))
    have "?f (cur s1) = Some ((with_history (cur s1))\<lparr>typed_buf := ?l\<rparr>\<lparr>share_buf := ?l,
        buffer_ec_idx := buffer_size (with_history (cur s1)), typing_finish := 1\<rparr>)"
      unfolding w using len e with_history_ok [OF ok1'(4,3)]
      by (simp add: store_history_eq [OF ok1'(4,3)] array_copy_eq)
    then show ?thesis .
  qed
  obtain s2 where s2: "do { s \<leftarrow> upd_curr ?f s1; s \<leftarrow> clear_buffer s; upd_curr (\<lambda>t. Some (t\<lparr>curr_char_idx := 0\<rparr>)) s } = Some s2"
    "edited (deliver ?l (cur s1)) s1 s2"
    using deliver_step [where f = ?f, OF ok1 _ f] len by auto
  have "edited (deliver ?l (cur s)) s1 s2"
    by (rule edited_cursor [OF s2(2)]) (simp add: c1 deliver_cursor)
  then have "edited (deliver ?l (cur s)) s s2"
    by (rule edited_trans [OF s1(2)])
  moreover have "full_line s = Some s2"
    using s1(1) s2(1) by (simp add: full_line_def)
  ultimately show ?thesis by blast
qed

text \<open>A character added to the line at the cursor.\<close>

definition with_char :: "u8 \<Rightarrow> terminal_t \<Rightarrow> terminal_t" where
  "with_char ch t = t\<lparr>typed_buf := (typed_buf t)[nat (curr_char_idx t) := ch], curr_char_idx := curr_char_idx t + 1\<rparr>"

lemma print_key_ok:
  assumes ok: "keyboard_ok s" and idx: "curr_char_idx (cur s) < 128"
    and c: "0 < c" "c < 0x3B" and tab: "length table = 64"
  shows "\<exists>s'. print_key table c False s = Some s'
    \<and> edited (with_char (table ! (unat c - 1)) (cur s)) s s'
    \<and> screen_of s' (nat (curr_terminal_idx s))
        = screen_put True (table ! (unat c - 1)) (screen_of s (nat (curr_terminal_idx s)))
    \<and> (display_shows s \<longrightarrow> display_shows s')"
proof -
  let ?ch = "table ! (unat c - 1)"
  let ?f = "\<lambda>t. do { b \<leftarrow> aset (typed_buf t) (curr_char_idx t) ?ch;
      Some (t\<lparr>typed_buf := b, curr_char_idx := curr_char_idx t + 1\<rparr>) }"
  note ok' = keyboard_okD [OF ok]
  have cu: "0 < unat c" "unat c < 59" using c by (simp_all add: word_less_nat_alt)
  have g: "aget table (uint c - 1) = Some ?ch"
  proof -
    have "0 < uint c" "uint c < 59" using c by (simp_all add: word_less_def)
    then show ?thesis using tab by (simp add: aget_def nat_diff_distrib)
  qed
  have f: "?f (cur s) = Some (with_char ?ch (cur s))"
    using ok'(3) idx terminal_okD(1) [OF ok'(4)] by (simp add: aset_in with_char_def line_ok_def)
  have t: "terminal_ok (nat (curr_terminal_idx s)) (with_char ?ch (cur s))" "line_ok (with_char ?ch (cur s))"
    using ok' idx by (simp_all add: with_char_def line_ok_def)
  note u = edited_upd [where f = ?f, OF ok f t]
  obtain s2 where s2: "putc ?ch (set_cur (with_char ?ch (cur s)) s) = Some s2"
    "edited (with_char ?ch (cur s)) (set_cur (with_char ?ch (cur s)) s) s2"
    "screen_of s2 (nat (curr_terminal_idx s)) = screen_put True ?ch (screen_of (set_cur (with_char ?ch (cur s)) s) (nat (curr_terminal_idx s)))"
    "display_shows (set_cur (with_char ?ch (cur s)) s) \<longrightarrow> display_shows s2"
    using edited_putc [OF u(3), of ?ch] u(4) by auto
  have sc: "screen_of (set_cur (with_char ?ch (cur s)) s) = screen_of s"
    using console_okD [OF ok'(1)]
    by (auto simp: screen_of_def set_cur_def with_char_def cur_def nth_list_update fun_eq_iff Let_def)
  then have ds: "display_shows (set_cur (with_char ?ch (cur s)) s) = display_shows s"
    by (simp add: display_shows_def display_def)
  obtain s3 where s3: "beep s2 = Some s3" "edited (cur s2) s2 s3" "screen_of s3 = screen_of s2"
      "display_shows s3 = display_shows s2"
    using edited_beep [OF edited_keyboard_ok [OF s2(2)]] by blast
  obtain x y where "cur s2 = (with_char ?ch (cur s))\<lparr>screen_x := x, screen_y := y\<rparr>"
    using s2(2) by (auto simp: edited_def)
  then have "edited (with_char ?ch (cur s)) s2 s3" by (rule edited_cursor [OF s3(2)])
  then have "edited (with_char ?ch (cur s)) s s3"
    using edited_trans [OF u(2) s2(2)] edited_trans by blast
  moreover have "c < 0x81" using cu by (simp add: word_less_nat_alt)
  ultimately show ?thesis
    using u(1) s2 s3 sc ds by (simp add: print_key_def g)
qed

lemma backspace_ok:
  assumes ok: "keyboard_ok s"
  shows "\<exists>s'. backspace_key s = Some s'
    \<and> edited ((cur s)\<lparr>curr_char_idx := max 0 (curr_char_idx (cur s) - 1)\<rparr>) s s'"
proof -
  let ?t = "(cur s)\<lparr>curr_char_idx := max 0 (curr_char_idx (cur s) - 1)\<rparr>"
  note ok' = keyboard_okD [OF ok]
  have "\<exists>s1. (if curr_char_idx (cur s) > 0 then
                 do { s \<leftarrow> putc 8 s;
                      upd_curr (\<lambda>t. Some (t\<lparr>curr_char_idx := curr_char_idx t - 1\<rparr>)) s }
               else Some s) = Some s1 \<and> edited ?t s s1"
  proof (cases "curr_char_idx (cur s) > 0")
    case True
    obtain s1 where s1: "putc 8 s = Some s1" "edited (cur s) s s1" using edited_putc [OF ok] by blast
    then obtain x y where c1: "cur s1 = (cur s)\<lparr>screen_x := x, screen_y := y\<rparr>" by (auto simp: edited_def)
    note ok1 = keyboard_okD [OF edited_keyboard_ok [OF s1(2)]]
    let ?t1 = "(cur s1)\<lparr>curr_char_idx := curr_char_idx (cur s1) - 1\<rparr>"
    have t1: "terminal_ok (nat (curr_terminal_idx s1)) ?t1" "line_ok ?t1"
      using ok1(3,4) ok'(3) True by (simp_all add: line_ok_def c1)
    note u = edited_upd [where f = "\<lambda>t. Some (t\<lparr>curr_char_idx := curr_char_idx t - 1\<rparr>)",
        OF edited_keyboard_ok [OF s1(2)] refl t1]
    have "edited ?t s1 (set_cur ?t1 s1)"
      by (rule edited_cursor [where x = x and y = y, OF u(2)]) (use True in \<open>simp add: c1\<close>)
    then show ?thesis using True s1 u(1) edited_trans by fastforce
  next
    case False
    then have "?t = cur s" using ok'(3) by (cases "cur s") (simp add: line_ok_def)
    then show ?thesis using False edited_refl [OF ok] by simp
  qed
  then obtain s1 where s1: "(if curr_char_idx (cur s) > 0 then
                 do { s \<leftarrow> putc 8 s;
                      upd_curr (\<lambda>t. Some (t\<lparr>curr_char_idx := curr_char_idx t - 1\<rparr>)) s }
               else Some s) = Some s1" "edited ?t s s1" by blast
  obtain s3 where s3: "beep s1 = Some s3" "edited (cur s1) s1 s3"
    using edited_beep [OF edited_keyboard_ok [OF s1(2)]] by blast
  obtain x y where "cur s1 = ?t\<lparr>screen_x := x, screen_y := y\<rparr>" using s1(2) unfolding edited_def by blast
  then have "edited ?t s1 s3" by (rule edited_cursor [OF s3(2)])
  then have "edited ?t s s3" by (rule edited_trans [OF s1(2)])
  then show ?thesis using s1(1) s3(1) by (simp add: backspace_key_def curr_terminal_eq [OF ok'(1)])
qed

text \<open>Colour bytes are not cells.\<close>

lemma colour_not_cell:
  assumes "b \<in> text_pages" "b' \<in> text_pages" "k < 2048" "j < 2048"
  shows "cell b (int k) + 1 \<noteq> cell b' (int j)"
proof
  assume e: "cell b (int k) + 1 = cell b' (int j)"
  have "unat b \<in> {753664, 757760, 761856, 765952}" "unat b' \<in> {753664, 757760, 761856, 765952}"
    using assms(1,2) by (auto simp: text_pages_def)
  moreover have "unat (cell b (int k) + 1) = unat b + 2 * k + 1"
    using calculation assms unat_cell [OF assms(1,3)] by (auto simp: unat_word_ariths(1))
  ultimately have "even (unat b)" "even (unat b')" "unat b + 2 * k + 1 = unat b' + 2 * j"
    using unat_cell [OF assms(2,4)] e by auto
  then show False by presburger
qed

lemma mark_cursor_ok:
  assumes "console_ok s"
  shows "\<exists>m. mark_cursor s = Some (s\<lparr>phys := m\<rparr>) \<and> (\<forall>b\<in>text_pages. page b m = page b (phys s))"
proof -
  note c = console_okD [OF assms]
  have "terminal_ok (nat (curr_terminal_idx s)) (cur s)" using c(2,11) by (simp add: cur_def)
  then have "cursor_ok (screen_x (cur s)) (screen_y (cur s))" by (simp add: terminal_ok_def)
  then have "0 \<le> 80 * screen_y (cur s) + screen_x (cur s)" "80 * screen_y (cur s) + screen_x (cur s) < 2048"
    by (auto simp: cursor_ok_def)
  then obtain k where k: "80 * screen_y (cur s) + screen_x (cur s) = int k" "k < 2048"
    by (metis nonneg_int_cases of_nat_less_numeral_iff)
  have "page b ((phys s)(cell VIDEO (int k) + 1 := v)) = page b (phys s)" if "b \<in> text_pages" for b v
  proof -
    have "cell b (int j) \<noteq> cell VIDEO (int k) + 1" if "j < 2000" for j
      using colour_not_cell [of VIDEO b k j] \<open>b \<in> text_pages\<close> that k(2) by (auto simp: text_pages_def)
    then show ?thesis by (auto simp: page_def fun_eq_iff)
  qed
  then show ?thesis by (auto simp: mark_cursor_def curr_terminal_eq [OF assms] k(1))
qed

lemma keyboard_ok_phys [simp]: "keyboard_ok (s\<lparr>phys := m\<rparr>) = keyboard_ok s"
  by (simp add: keyboard_ok_def console_ok_def sound_ok_def)

lemma cur_phys [simp]: "cur (s\<lparr>phys := m\<rparr>) = cur s"
  by (simp add: cur_def)

lemma edited_phys: "edited t s s' \<Longrightarrow> edited t s (s'\<lparr>phys := m\<rparr>)"
  by (auto simp: edited_def)

lemma edited_clear:
  assumes ok: "keyboard_ok s"
  shows "\<exists>s'. clear s = Some s' \<and> edited (cur s) s s' \<and> display_shows s'
    \<and> screen_of s' (nat (curr_terminal_idx s)) = \<lparr>cells = (\<lambda>k. if k < 2000 then 32 else 0), col = 0, row = 0\<rparr>"
proof -
  note c = console_okD [OF keyboard_okD(1) [OF ok]]
  obtain s' where s': "clear s = Some s'" "console_ok s'"
    "screen_of s' (nat (curr_terminal_idx s)) = \<lparr>cells = (\<lambda>k. if k < 2000 then 32 else 0), col = 0, row = 0\<rparr>"
    "display_shows s'" and p: "printed_on (nat (curr_terminal_idx s)) {VIDEO, backup (nat (curr_terminal_idx s))} s s'"
    using clear_ok [OF keyboard_okD(1) [OF ok] refl] by blast
  have f: "sound_freq s' = sound_freq s"
    using s'(1) by (auto simp: clear_def bind_eq_Some_conv)
  obtain x y where t: "terminals s' = (terminals s)[nat (curr_terminal_idx s) := (cur s)\<lparr>screen_x := x, screen_y := y\<rparr>]"
    using p by (auto simp: printed_on_def cur_def)
  have same: "curr_terminal_idx s' = curr_terminal_idx s"
    "curr_running_terminal_idx s' = curr_running_terminal_idx s"
    "temp_curr_running_terminal_idx s' = temp_curr_running_terminal_idx s" "console.more s' = console.more s"
    using p by (simp_all add: printed_on_def)
  have "keyboard_ok s'"
    using ok s'(2) f c(1,2) by (auto simp: keyboard_ok_def sound_ok_def t nth_list_update cur_def)
  moreover have "cur s' = (cur s)\<lparr>screen_x := x, screen_y := y\<rparr>"
    using c(1,2) by (simp add: cur_def same t)
  ultimately have "edited (cur s) s s'" using same by (auto simp: edited_def t)
  then show ?thesis using s' by blast
qed

lemma edited_clear_buffer:
  assumes "keyboard_ok s"
  shows "\<exists>s'. clear_buffer s = Some s' \<and> edited ((cur s)\<lparr>typed_buf := replicate 128 0\<rparr>) s s'
    \<and> cur s' = (cur s)\<lparr>typed_buf := replicate 128 0\<rparr>"
proof -
  note ok = keyboard_okD [OF assms]
  have "terminal_ok (nat (curr_terminal_idx s)) ((cur s)\<lparr>typed_buf := replicate 128 0\<rparr>)"
    "line_ok ((cur s)\<lparr>typed_buf := replicate 128 0\<rparr>)"
    using ok terminal_okD(1) [OF ok(4)] by (simp_all add: line_ok_def)
  then show ?thesis
    using clear_buffer_eq [OF assms] edited_set_cur [OF assms] ok(1) by auto
qed

lemma edited_idx_upd:
  assumes "keyboard_ok s" "0 \<le> n" "n \<le> 128"
  shows "\<exists>s'. upd_curr (\<lambda>t. Some (t\<lparr>curr_char_idx := n\<rparr>)) s = Some s'
    \<and> edited ((cur s)\<lparr>curr_char_idx := n\<rparr>) s s' \<and> phys s' = phys s"
proof -
  note ok = keyboard_okD [OF assms(1)]
  have "terminal_ok (nat (curr_terminal_idx s)) ((cur s)\<lparr>curr_char_idx := n\<rparr>)"
    "line_ok ((cur s)\<lparr>curr_char_idx := n\<rparr>)"
    using ok assms by (simp_all add: line_ok_def)
  then show ?thesis
    using edited_upd(1,2) [where f = "\<lambda>t. Some (t\<lparr>curr_char_idx := n\<rparr>)", OF assms(1) refl] by simp
qed

lemma ctrl_l_ok:
  assumes ok: "keyboard_ok s"
  shows "\<exists>s'. ctrl_l s = Some s'
    \<and> edited ((cur s)\<lparr>typed_buf := replicate 128 0, curr_char_idx := 0\<rparr>) s s'"
proof -
  obtain s1 where s1: "clear s = Some s1" "edited (cur s) s s1" using edited_clear [OF ok] by blast
  then obtain x y where c1: "cur s1 = (cur s)\<lparr>screen_x := x, screen_y := y\<rparr>" by (auto simp: edited_def)
  note ok1 = edited_keyboard_ok [OF s1(2)]
  obtain s2 where s2: "clear_buffer s1 = Some s2" "edited ((cur s1)\<lparr>typed_buf := replicate 128 0\<rparr>) s1 s2"
    "cur s2 = (cur s1)\<lparr>typed_buf := replicate 128 0\<rparr>"
    using edited_clear_buffer [OF ok1] by blast
  obtain s3 where s3: "upd_curr (\<lambda>t. Some (t\<lparr>curr_char_idx := 0\<rparr>)) s2 = Some s3"
    "edited ((cur s2)\<lparr>curr_char_idx := 0\<rparr>) s2 s3"
    using edited_idx_upd [OF edited_keyboard_ok [OF s2(2)], of 0] by auto
  let ?t = "(cur s)\<lparr>typed_buf := replicate 128 0, curr_char_idx := 0\<rparr>"
  have "edited ?t s2 s3"
    by (rule edited_cursor [where x = x and y = y, OF s3(2)]) (simp add: s2(3) c1)
  then have e3: "edited ?t s s3" by (rule edited_trans [OF edited_trans [OF s1(2) s2(2)]])
  have more: "sound.more (set_cursor 0 s3) = sound.more s3" by simp
  have "edited ?t s (set_cursor 0 s3)"
    using e3 keyboard_ok_frame [OF more] by (simp add: edited_def console_frame [OF more] screen_of_frame [OF more])
  moreover obtain m where "mark_cursor (set_cursor 0 s3) = Some ((set_cursor 0 s3)\<lparr>phys := m\<rparr>)"
    using mark_cursor_ok keyboard_okD(1) [OF edited_keyboard_ok [OF calculation]] by blast
  ultimately show ?thesis
    using s1(1) s2(1) s3(1) edited_phys by (auto simp: ctrl_l_def)
qed

section \<open>Switching terminals\<close>

lemma unat_page_offset: "b \<in> text_pages \<Longrightarrow> j < 4096 \<Longrightarrow> unat (b + of_nat j) = unat b + j"
  by (auto simp: text_pages_def unat_word_ariths(1) unat_of_nat_u32)

lemma page_unat: "b \<in> text_pages \<Longrightarrow> unat b \<in> {753664, 757760, 761856, 765952}"
  by (auto simp: text_pages_def)

lemma backup_disjoint: "i < 3 \<Longrightarrow> disjoint_blocks VIDEO (backup i) (unat (4096 :: u32))"
  unfolding disjoint_blocks_def
proof (intro allI impI)
  fix j assume i: "i < 3" and j: "j < unat (4096 :: u32)"
  have "unat (backup i) \<in> {757760, 761856, 765952}" using i by (auto simp: lt3 backup_def)
  then show "unat (4096 :: u32) \<le> unat (backup i + of_nat j - VIDEO)"
    using unat_page_offset [of "backup i" j] backup_pages(1) [OF i] j by (auto simp: unat_sub_u32)
qed

lemma memcpy_page:
  assumes i: "i < 3"
  shows "page VIDEO (memcpy VIDEO (backup i) 4096 m) = page (backup i) m"
    and "b \<in> text_pages \<Longrightarrow> b \<noteq> VIDEO \<Longrightarrow> page b (memcpy VIDEO (backup i) 4096 m) = page b m"
proof -
  have cp: "memcpy VIDEO (backup i) 4096 m a
      = (if unat (a - VIDEO) < 4096 then m (backup i + (a - VIDEO)) else m a)" for a
    by (simp add: memcpy_copies [OF backup_disjoint [OF i]] block_copy_def blit_def)
  have u: "unat (cell b (int k) - VIDEO) = unat b - 753664 + 2 * k" if "b \<in> text_pages" "k < 2000" for b k
    using unat_cell [OF that(1), of k] page_unat [OF that(1)] that(2) by (auto simp: unat_sub_u32)
  have "backup i + (cell VIDEO (int k) - VIDEO) = cell (backup i) (int k)" for k
    by (simp add: cell_of_nat)
  then show "page VIDEO (memcpy VIDEO (backup i) 4096 m) = page (backup i) m"
    using u [of VIDEO] by (auto simp: page_def cp)
  assume b: "b \<in> text_pages" "b \<noteq> VIDEO"
  then have "4096 \<le> unat b - 753664" by (auto simp: text_pages_def)
  then show "page b (memcpy VIDEO (backup i) 4096 m) = page b m"
  proof (intro ext)
    fix k
    show "page b (memcpy VIDEO (backup i) 4096 m) k = page b m k"
      using u [OF b(1), of k] \<open>4096 \<le> unat b - 753664\<close> by (auto simp: page_def cp)
  qed
qed

lemma switch_terminal_ok:
  assumes ok: "keyboard_ok s" and c: "0x3B \<le> c" "c \<le> 0x3D"
  shows "\<exists>s'. switch_terminal c s = Some s' \<and> keyboard_ok s'
    \<and> curr_terminal_idx s' = uint c - 0x3B \<and> terminals s' = terminals s
    \<and> (\<forall>j<3. screen_of s' j = screen_of s j)
    \<and> display s' = cells (screen_of s (nat (uint c - 0x3B)))"
proof -
  define i where "i = nat (uint c - 0x3B)"
  have r: "0x3B \<le> uint c" "uint c \<le> 0x3D" using c by (simp_all add: word_le_def)
  have i3: "i < 3" and i: "uint c - 0x3B = int i" using r by (simp_all add: i_def)
  have len: "length (terminals s) = 3" using console_okD [OF keyboard_okD(1) [OF ok]] by simp
  define s1 where "s1 = (cli s)\<lparr>curr_terminal_idx := int i\<rparr>"
  have ok1: "keyboard_ok s1"
    using ok i3 by (auto simp: keyboard_ok_def console_ok_def sound_ok_def s1_def lt3)
  have t: "curr_terminal s1 = Some (terminals s ! i)"
    using i3 len by (simp add: aget_def s1_def)
  have vm: "video_mem (terminals s ! i) = backup i"
    using console_okD(11) [OF keyboard_okD(1) [OF ok] i3] by (simp add: terminal_ok_def)
  define m1 where "m1 = memcpy VIDEO (backup i) 4096 (phys s)"
  let ?t = "terminals s ! i"
  define s2 where "s2 = set_cursor (word_of_int (screen_y ?t * NUM_COLS + screen_x ?t)) (s1\<lparr>phys := m1\<rparr>)"
  have more: "sound.more s2 = sound.more (s1\<lparr>phys := m1\<rparr>)" by (simp add: s2_def)
  have ok2: "keyboard_ok s2"
    using ok1 keyboard_ok_frame [OF more] by (simp add: s2_def)
  obtain m where m: "mark_cursor s2 = Some (s2\<lparr>phys := m\<rparr>)" "\<forall>b\<in>text_pages. page b m = page b (phys s2)"
    using mark_cursor_ok [OF keyboard_okD(1) [OF ok2]] by blast
  define s' where "s' = sti (s2\<lparr>phys := m\<rparr>)"
  have f: "terminals s' = terminals s" "curr_terminal_idx s' = int i" "phys s' = m" "phys s2 = m1"
    by (simp_all add: s'_def s2_def s1_def)
  have "keyboard_ok s'"
    using ok2 keyboard_ok_frame [of s' "s2\<lparr>phys := m\<rparr>"] by (simp add: s'_def)
  moreover have "screen_of s' j = screen_of s j" if "j < 3" for j
    using that m(2) memcpy_page(2) [OF i3, of "backup j" "phys s"] by (simp add: screen_of_def f m1_def)
  moreover have "display s' = cells (screen_of s i)"
    using m(2) memcpy_page(1) [OF i3, of "phys s"] by (simp add: display_def screen_of_def f m1_def Let_def)
  moreover have "switch_terminal c s = Some s'"
  proof -
    have p: "phys s1 = phys s" by (simp add: s1_def)
    have "switch_terminal c s = do { s \<leftarrow> mark_cursor s2; Some (sti s) }"
      unfolding switch_terminal_def Let_def i s1_def [symmetric] t by (simp add: vm p s2_def m1_def)
    then show ?thesis using m(1) by (simp add: s'_def)
  qed
  ultimately show ?thesis using f by (auto simp: i)
qed


section \<open>Recalling a command\<close>

lemma erase_line_ok:
  "keyboard_ok s \<Longrightarrow> \<exists>s'. erase_line s = Some s' \<and> edited ((cur s)\<lparr>curr_char_idx := 0\<rparr>) s s'"
proof (induction "nat (curr_char_idx (cur s))" arbitrary: s)
  case 0
  note ok = keyboard_okD [OF 0(2)]
  have z: "curr_char_idx (cur s) = 0" using 0(1) ok(3) by (simp add: line_ok_def)
  then have e: "(cur s)\<lparr>curr_char_idx := 0\<rparr> = cur s" by (cases "cur s") simp
  have "erase_line s = Some s" using z by (subst erase_line.simps) (simp add: curr_terminal_eq [OF ok(1)])
  then show ?case unfolding e using edited_refl [OF 0(2)] by blast
next
  case (Suc n)
  note ok = keyboard_okD [OF Suc(3)]
  obtain s1 where s1: "putc 8 s = Some s1" "edited (cur s) s s1" using edited_putc [OF Suc(3)] by blast
  then obtain x y where c1: "cur s1 = (cur s)\<lparr>screen_x := x, screen_y := y\<rparr>" by (auto simp: edited_def)
  define k where "k = curr_char_idx (cur s) - 1"
  have k: "0 \<le> k" "k \<le> 128" "n = nat k" using Suc(2) ok(3) by (auto simp: k_def line_ok_def)
  obtain s2 where s2: "upd_curr (\<lambda>t. Some (t\<lparr>curr_char_idx := curr_char_idx t - 1\<rparr>)) s1 = Some s2"
    "edited ((cur s1)\<lparr>curr_char_idx := k\<rparr>) s1 s2"
  proof -
    note ok1 = keyboard_okD [OF edited_keyboard_ok [OF s1(2)]]
    have "terminal_ok (nat (curr_terminal_idx s1)) ((cur s1)\<lparr>curr_char_idx := k\<rparr>)"
      "line_ok ((cur s1)\<lparr>curr_char_idx := k\<rparr>)"
      using ok1 k by (simp_all add: line_ok_def)
    then show thesis
      using that edited_upd(1,2) [where f = "\<lambda>t. Some (t\<lparr>curr_char_idx := curr_char_idx t - 1\<rparr>)",
          OF edited_keyboard_ok [OF s1(2)]] by (simp add: k_def c1)
  qed
  obtain x' y' where c2: "cur s2 = ((cur s1)\<lparr>curr_char_idx := k\<rparr>)\<lparr>screen_x := x', screen_y := y'\<rparr>"
    using s2(2) by (auto simp: edited_def)
  have "n = nat (curr_char_idx (cur s2))" using k by (simp add: c2)
  from Suc(1) [OF this edited_keyboard_ok [OF s2(2)]]
  obtain s3 where s3: "erase_line s2 = Some s3" "edited ((cur s2)\<lparr>curr_char_idx := 0\<rparr>) s2 s3" by blast
  have "edited ((cur s)\<lparr>curr_char_idx := 0\<rparr>) s2 s3"
    by (rule edited_cursor [where x = x' and y = y', OF s3(2)]) (simp add: c2 c1)
  then have "edited ((cur s)\<lparr>curr_char_idx := 0\<rparr>) s s3"
    by (rule edited_trans [OF edited_trans [OF s1(2) s2(2)]])
  moreover have "erase_line s = Some s3"
    using Suc(2) s1(1) s2(1) s3(1) by (subst erase_line.simps) (simp add: curr_terminal_eq [OF ok(1)])
  ultimately show ?case by blast
qed

lemma recall_loop_ok:
  assumes "keyboard_ok s" "0 \<le> ec" "ec < 20"
    and "is_cstr (arr_get (buffer_for_ec (cur s) ! nat ec)) l" "i \<le> length l"
    and "take i (typed_buf (cur s)) = take i l"
  shows "\<exists>s' b. recall_loop ec i s = Some s' \<and> edited ((cur s)\<lparr>typed_buf := b\<rparr>) s s'
    \<and> take (length l) b = l \<and> drop (length l) b = drop (length l) (typed_buf (cur s))"
  using assms
proof (induction "length l - i" arbitrary: i s)
  case 0
  note ok = keyboard_okD [OF 0(2)]
  have h: "aget (buffer_for_ec (cur s)) ec = Some (buffer_for_ec (cur s) ! nat ec)"
    using 0(3,4) terminal_okD(3) [OF ok(4)] by (simp add: aget_in)
  have "recall_loop ec i s = Some s"
    using 0(1) by (subst recall_loop.simps) (simp add: curr_terminal_eq [OF ok(1)] h strlen_cstr [OF 0(5)])
  moreover have "(cur s)\<lparr>typed_buf := typed_buf (cur s)\<rparr> = cur s" by (cases "cur s") simp
  ultimately show ?case using 0 edited_refl [OF 0(2)]
    by (intro exI [of _ s] exI [of _ "typed_buf (cur s)"]) simp
next
  case (Suc n)
  note ok = keyboard_okD [OF Suc(3)]
  let ?row = "buffer_for_ec (cur s) ! nat ec"
  have h: "aget (buffer_for_ec (cur s)) ec = Some ?row"
    using Suc(4,5) terminal_okD(3) [OF ok(4)] by (simp add: aget_in)
  have i: "i < length l" using Suc(2) by simp
  have row: "length ?row = 128" using terminal_okD(4) [OF ok(4), of "nat ec"] Suc(4,5) by (simp add: nat_less_iff)
  have li: "i < 128" "?row ! i = l ! i"
    using is_cstrD(1) [OF Suc(6) i] row by (simp_all add: arr_get_def split: if_splits)
  have tb: "length (typed_buf (cur s)) = 128" by (rule terminal_okD(1) [OF ok(4)])
  let ?f = "\<lambda>t. do { b \<leftarrow> aset (typed_buf t) (int i) (l ! i); Some (t\<lparr>typed_buf := b\<rparr>) }"
  let ?t = "(cur s)\<lparr>typed_buf := (typed_buf (cur s))[i := l ! i]\<rparr>"
  have t: "terminal_ok (nat (curr_terminal_idx s)) ?t" "line_ok ?t" using ok by (simp_all add: line_ok_def)
  have f: "?f (cur s) = Some ?t" using li tb by (simp add: aset_in)
  note u = edited_upd [where f = ?f, OF Suc(3) f t]
  obtain s2 where s2: "putc (l ! i) (set_cur ?t s) = Some s2" "edited ?t (set_cur ?t s) s2"
    using edited_putc [OF u(3)] u(4) by metis
  obtain x y where c2: "cur s2 = ?t\<lparr>screen_x := x, screen_y := y\<rparr>" using s2(2) unfolding edited_def by blast
  have e2: "edited ?t s s2" using edited_trans [OF u(2) s2(2)] .
  have n: "n = length l - Suc i" using Suc(2) by simp
  have "take (Suc i) ((typed_buf (cur s))[i := l ! i]) = take (Suc i) l"
    using Suc(8) i li tb by (simp add: take_Suc_conv_app_nth)
  then obtain s3 b where s3: "recall_loop ec (Suc i) s2 = Some s3" "edited ((cur s2)\<lparr>typed_buf := b\<rparr>) s2 s3"
    "take (length l) b = l" "drop (length l) b = drop (length l) (typed_buf (cur s2))"
    using Suc(1) [of "Suc i" s2] n Suc(4-6) edited_keyboard_ok [OF e2] i by (auto simp: c2)
  have "edited ((cur s)\<lparr>typed_buf := b\<rparr>) s2 s3"
    by (rule edited_cursor [where x = x and y = y, OF s3(2)]) (simp add: c2)
  then have "edited ((cur s)\<lparr>typed_buf := b\<rparr>) s s3" by (rule edited_trans [OF e2])
  moreover have "recall_loop ec i s = Some s3"
    using i li row u(1) s2(1) s3(1)
    by (subst recall_loop.simps) (simp add: curr_terminal_eq [OF ok(1)] h strlen_cstr [OF Suc(6)] aget_in)
  ultimately show ?case using s3(3,4) i by (auto simp: c2)
qed

lemma recall_command_ok:
  assumes ok: "keyboard_ok s" and ec: "0 < buffer_ec_idx (cur s)"
    and row: "is_cstr (arr_get (buffer_for_ec (cur s) ! nat (buffer_ec_idx (cur s) - 1))) l"
  shows "\<exists>s'. recall_command s = Some s'
    \<and> edited ((cur s)\<lparr>buffer_ec_idx := buffer_ec_idx (cur s) - 1, typed_buf := l @ replicate (128 - length l) 0,
        curr_char_idx := int (length l)\<rparr>) s s'"
proof -
  note ok' = keyboard_okD [OF ok]
  define e where "e = buffer_ec_idx (cur s) - 1"
  have e: "0 \<le> e" "e < 20" using ec ok'(3) by (auto simp: e_def line_ok_def)
  have l: "length l < 128"
    using is_cstrD(2) [OF row] terminal_okD(4) [OF ok'(4), of "nat e"] e
    by (auto simp: arr_get_def e_def nat_less_iff split: if_splits)
  let ?f = "\<lambda>t. Some (t\<lparr>buffer_ec_idx := e\<rparr>)"
  have t: "terminal_ok (nat (curr_terminal_idx s)) ((cur s)\<lparr>buffer_ec_idx := e\<rparr>)"
    "line_ok ((cur s)\<lparr>buffer_ec_idx := e\<rparr>)"
    using ok' e by (simp_all add: line_ok_def)
  note u = edited_upd [where f = ?f, OF ok refl t]
  define s1 where "s1 = set_cur ((cur s)\<lparr>buffer_ec_idx := e\<rparr>) s"
  have s1: "upd_curr ?f s = Some s1" "keyboard_ok s1" "cur s1 = (cur s)\<lparr>buffer_ec_idx := e\<rparr>"
    "edited ((cur s)\<lparr>buffer_ec_idx := e\<rparr>) s s1"
    using u by (simp_all add: s1_def)
  obtain s2 where s2: "erase_line s1 = Some s2" "edited ((cur s1)\<lparr>curr_char_idx := 0\<rparr>) s1 s2"
    using erase_line_ok [OF s1(2)] by blast
  obtain x y where c2: "cur s2 = ((cur s1)\<lparr>curr_char_idx := 0\<rparr>)\<lparr>screen_x := x, screen_y := y\<rparr>"
    using s2(2) unfolding edited_def by blast
  obtain s3 where s3: "clear_buffer s2 = Some s3" "edited ((cur s2)\<lparr>typed_buf := replicate 128 0\<rparr>) s2 s3"
    "cur s3 = (cur s2)\<lparr>typed_buf := replicate 128 0\<rparr>"
    using edited_clear_buffer [OF edited_keyboard_ok [OF s2(2)]] by blast
  have row3: "is_cstr (arr_get (buffer_for_ec (cur s3) ! nat e)) l"
    using row by (simp add: s3(3) c2 s1(3) e_def)
  obtain s4 b where s4: "recall_loop e 0 s3 = Some s4" "edited ((cur s3)\<lparr>typed_buf := b\<rparr>) s3 s4"
    "take (length l) b = l" "drop (length l) b = drop (length l) (typed_buf (cur s3))"
    using recall_loop_ok [OF edited_keyboard_ok [OF s3(2)] e row3, of 0] by auto
  have b: "b = l @ replicate (128 - length l) 0"
    using append_take_drop_id [of "length l" b] s4(3,4) by (simp add: s3(3))
  obtain x' y' where c4: "cur s4 = ((cur s3)\<lparr>typed_buf := b\<rparr>)\<lparr>screen_x := x', screen_y := y'\<rparr>"
    using s4(2) unfolding edited_def by blast
  note ok4 = edited_keyboard_ok [OF s4(2)]
  obtain s5 where s5: "upd_curr (\<lambda>t. Some (t\<lparr>curr_char_idx := int (length l)\<rparr>)) s4 = Some s5"
    "edited ((cur s4)\<lparr>curr_char_idx := int (length l)\<rparr>) s4 s5"
    using edited_idx_upd [OF ok4, of "int (length l)"] l by auto
  let ?t = "(cur s)\<lparr>buffer_ec_idx := e, typed_buf := l @ replicate (128 - length l) 0,
        curr_char_idx := int (length l)\<rparr>"
  have "edited ?t s4 s5"
    by (rule edited_cursor [where x = x' and y = y', OF s5(2)]) (simp add: c4 s3(3) c2 s1(3) b)
  then have "edited ?t s s5"
    by (rule edited_trans [OF edited_trans [OF edited_trans [OF edited_trans [OF s1(4) s2(2)] s3(2)] s4(2)]])
  moreover have "recall_command s = Some s5"
  proof -
    have "aget (buffer_for_ec (cur s4)) e = Some (buffer_for_ec (cur s3) ! nat e)"
      using e terminal_okD(3) [OF keyboard_okD(4) [OF ok4]] by (simp add: aget_in c4)
    then show ?thesis
      using ec s1(1) s2(1) s3(1) s4(1) s5(1) strlen_cstr [OF row3] keyboard_okD(1) [OF ok4]
      by (simp add: recall_command_def curr_terminal_eq ok'(1) e_def [symmetric])
  qed
  ultimately show ?thesis unfolding e_def by blast
qed

section \<open>The handler\<close>

lemma flag_frame [simp]:
  "keyboard_ok (s\<lparr>la_on := b\<rparr>) = keyboard_ok s"
  "keyboard_ok (s\<lparr>ls_on := b\<rparr>) = keyboard_ok s"
  "keyboard_ok (s\<lparr>rs_on := b\<rparr>) = keyboard_ok s"
  "keyboard_ok (s\<lparr>lctrl_on := b\<rparr>) = keyboard_ok s"
  "keyboard_ok (s\<lparr>cap_on := b\<rparr>) = keyboard_ok s"
  "keyboard_ok (s\<lparr>backspace_on := b\<rparr>) = keyboard_ok s"
  "cur (s\<lparr>la_on := b\<rparr>) = cur s"
  "cur (s\<lparr>ls_on := b\<rparr>) = cur s"
  "cur (s\<lparr>rs_on := b\<rparr>) = cur s"
  "cur (s\<lparr>lctrl_on := b\<rparr>) = cur s"
  "cur (s\<lparr>cap_on := b\<rparr>) = cur s"
  "cur (s\<lparr>backspace_on := b\<rparr>) = cur s"
  "screen_of (s\<lparr>la_on := b\<rparr>) = screen_of s"
  "screen_of (s\<lparr>ls_on := b\<rparr>) = screen_of s"
  "screen_of (s\<lparr>rs_on := b\<rparr>) = screen_of s"
  "screen_of (s\<lparr>lctrl_on := b\<rparr>) = screen_of s"
  "screen_of (s\<lparr>cap_on := b\<rparr>) = screen_of s"
  "screen_of (s\<lparr>backspace_on := b\<rparr>) = screen_of s"
  by (simp_all add: keyboard_ok_def console_ok_def sound_ok_def cur_def screen_of_def fun_eq_iff Let_def)

lemma modifier_keys_ok:
  "modifier_keys c s = (s1, finish, ins_flag) \<Longrightarrow>
   keyboard_ok s1 = keyboard_ok s \<and> cur s1 = cur s \<and> curr_terminal_idx s1 = curr_terminal_idx s
   \<and> screen_of s1 = screen_of s \<and> (ins_flag \<and> \<not> finish \<longrightarrow> c = 0x0E)"
  unfolding modifier_keys_def by (simp split: if_splits) auto

lemma scancode_table_length: "length (scancode_table s) = 64"
  by (simp add: scancode_table_def lower_case_scancodes_def upper_case_scancodes_def
      cap_upper_case_scancodes_def cap_lower_case_scancodes_def)

text \<open>The scancode of Enter is the only one the tables mark with \<open>E\<close>.\<close>

lemma enter_code_table: "list_all (\<lambda>k. lower_case_scancodes ! k = 69 \<longleftrightarrow> k = 27) [0..<58]"
  by (simp add: lower_case_scancodes_def upt_rec)

lemma aget_lower:
  fixes c :: u8
  assumes "0 < c" "c < 0x3B"
  shows "aget lower_case_scancodes (uint c - 1) = Some (lower_case_scancodes ! (unat c - 1))"
    "lower_case_scancodes ! (unat c - 1) = 69 \<longleftrightarrow> c = 0x1C"
proof -
  have "0 < uint c" "uint c < 59" using assms by (simp_all add: word_less_def)
  then show "aget lower_case_scancodes (uint c - 1) = Some (lower_case_scancodes ! (unat c - 1))"
    by (simp add: aget_def nat_diff_distrib lower_case_scancodes_def)
  have u: "0 < unat c" "unat c < 59" using assms by (simp_all add: word_less_nat_alt)
  then have "lower_case_scancodes ! (unat c - 1) = 69 \<longleftrightarrow> unat c - 1 = 27"
    using enter_code_table by (simp add: list_all_iff)
  also have "\<dots> \<longleftrightarrow> unat c = 28" using u by auto
  also have "\<dots> \<longleftrightarrow> c = 0x1C" by (simp add: word_unat_eq_iff)
  finally show "lower_case_scancodes ! (unat c - 1) = 69 \<longleftrightarrow> c = 0x1C" .
qed

lemma print_key_any:
  assumes ok: "keyboard_ok s" and idx: "curr_char_idx (cur s) < 128" and c: "0 < c" "c < 0x3B"
  shows "\<exists>s'. print_key (scancode_table t) c ins s = Some s' \<and> keyboard_ok s'"
proof (cases ins)
  case True
  then show ?thesis using ok by (simp add: print_key_def)
next
  case False
  then show ?thesis
    using print_key_ok [OF ok idx c scancode_table_length [of t]] edited_keyboard_ok by auto
qed

lemma handle_scancode_ok:
  assumes ok: "keyboard_ok s"
    and enter: "c = 0x1C \<Longrightarrow> curr_char_idx (cur s) < 128"
    and rows: "c = 0x48 \<Longrightarrow> \<forall>r\<in>set (buffer_for_ec (cur s)). 0 \<in> set r"
  shows "\<exists>s'. handle_scancode c s = Some s' \<and> keyboard_ok s'"
proof -
  obtain s1 fin ins where mk: "modifier_keys c s = (s1, fin, ins)" by (cases "modifier_keys c s") auto
  note m = modifier_keys_ok [OF mk]
  have ok1: "keyboard_ok s1" and c1: "cur s1 = cur s" using m ok by simp_all
  note ok1' = keyboard_okD [OF ok1]
  note h = handle_scancode_def [of c s, unfolded mk Let_def split]
  consider "fin" | "\<not> fin" "la_on s1 \<and> c \<ge> 0x3B \<and> c \<le> 0x3D"
    | "\<not> fin" "\<not> (la_on s1 \<and> c \<ge> 0x3B \<and> c \<le> 0x3D)" "c = 0x48"
    | "\<not> fin" "\<not> (la_on s1 \<and> c \<ge> 0x3B \<and> c \<le> 0x3D)" "c \<noteq> 0x48" "\<not> (c > 0 \<and> c < 0x3B) \<or> c = 0x37"
    | "\<not> fin" "c \<noteq> 0x48" "c > 0" "c < 0x3B" "c \<noteq> 0x37" by blast
  then show ?thesis
  proof cases
    case 1
    then show ?thesis using ok1 by (simp add: h)
  next
    case 2
    then show ?thesis using switch_terminal_ok [OF ok1, of c] by (auto simp: h)
  next
    case 3
    have "\<exists>s'. recall_command s1 = Some s' \<and> keyboard_ok s'"
    proof (cases "0 < buffer_ec_idx (cur s1)")
      case True
      have "nat (buffer_ec_idx (cur s1) - 1) < 20" using True ok1'(3) by (auto simp: line_ok_def)
      then have "0 \<in> set (buffer_for_ec (cur s1) ! nat (buffer_ec_idx (cur s1) - 1))"
        using rows [OF 3(3)] terminal_okD(3) [OF ok1'(4)] by (simp add: c1)
      from is_cstr_arr [OF this] show ?thesis
        using recall_command_ok [OF ok1 True] edited_keyboard_ok by blast
    next
      case False
      then show ?thesis using ok1 by (simp add: recall_command_def curr_terminal_eq [OF ok1'(1)])
    qed
    then show ?thesis unfolding h using 3 by simp
  next
    case 4
    then show ?thesis using ok1 by (auto simp: h)
  next
    case 5
    then have la: "\<not> 0x3B \<le> c" by auto
    note g = aget_lower [OF 5(3,4)]
    show ?thesis
    proof (cases "c = 0x1C")
      case True
      then have "curr_char_idx (cur s1) < 128" using enter c1 by simp
      then show ?thesis
        unfolding h using True 5 la g enter_line_ok [OF ok1] edited_keyboard_ok by auto
    next
      case False
      then have e: "lower_case_scancodes ! (unat c - 1) \<noteq> 69" using g(2) by simp
      show ?thesis
      proof (cases "curr_char_idx (cur s1) = 128")
        case True
        obtain s2 where s2: "full_line s1 = Some s2" "edited (deliver (typed_buf (cur s1)) (cur s1)) s1 s2"
          using full_line_ok [OF ok1] by blast
        then have "curr_char_idx (cur s2) = 0" by (auto simp: edited_def deliver_def)
        then show ?thesis
          using print_key_any [OF edited_keyboard_ok [OF s2(2)] _ 5(3,4), of s2 ins] 5 la g(1) e True s2(1)
          by (simp add: h curr_terminal_eq [OF ok1'(1)])
      next
        case full: False
        then have lt: "curr_char_idx (cur s1) < 128" using ok1'(3) by (simp add: line_ok_def)
        then show ?thesis
          using print_key_any [OF ok1 lt 5(3,4)] ctrl_l_ok [OF ok1] backspace_ok [OF ok1] 5 la g(1) e full
            edited_keyboard_ok
          by (simp add: h curr_terminal_eq [OF ok1'(1)]) blast
      qed
    qed
  qed
qed

text \<open>The scancode an interrupt finds at the keyboard's data port.\<close>

definition scancode :: "'z sound_scheme \<Rightarrow> u8" where
  "scancode s = fst (inb 0x60 (snd (inb 0x64 (nosound (cli s)))))"

lemma handler_prologue:
  assumes "keyboard_ok s"
  defines "s1 \<equiv> snd (inb 0x60 (snd (inb 0x64 (nosound (cli s)))))"
  shows "keyboard_ok s1" "cur s1 = cur s"
    "keyboard_interrupt_handler s = do { s2 \<leftarrow> handle_scancode (scancode s) s1; Some (send_eoi 1 (sti s2)) }"
proof -
  have m: "sound.more s1 = sound.more s" by (simp add: s1_def)
  show "keyboard_ok s1" using assms(1) keyboard_ok_frame [OF m] by (simp add: s1_def)
  show "cur s1 = cur s" by (rule screen_of_frame(2) [OF m])
  show "keyboard_interrupt_handler s = do { s2 \<leftarrow> handle_scancode (scancode s) s1; Some (send_eoi 1 (sti s2)) }"
    by (simp add: keyboard_interrupt_handler_def s1_def scancode_def case_prod_beta Let_def del: fst_inb)
qed

text \<open>C12. The keyboard interrupt handler returns and keeps the terminal table well formed for every
  scancode and every modifier state, with two exceptions: Enter on a full line, and the up arrow
  when a stored line has no terminating NUL.\<close>

theorem keyboard_handler_safe:
  assumes "keyboard_ok s"
    and "scancode s = 0x1C \<longrightarrow> curr_char_idx (cur s) < 128"
    and "scancode s = 0x48 \<longrightarrow> (\<forall>r\<in>set (buffer_for_ec (cur s)). 0 \<in> set r)"
  shows "\<exists>s'. keyboard_interrupt_handler s = Some s' \<and> keyboard_ok s' \<and> intr_flag s'"
proof -
  note p = handler_prologue [OF assms(1)]
  obtain s2 where s2: "handle_scancode (scancode s) (snd (inb 0x60 (snd (inb 0x64 (nosound (cli s)))))) = Some s2"
    "keyboard_ok s2"
    using handle_scancode_ok [OF p(1), of "scancode s"] assms(2,3) p(2) by auto
  have "keyboard_ok (send_eoi 1 (sti s2))"
    using s2(2) keyboard_ok_frame [of "send_eoi 1 (sti s2)" s2] by simp
  then show ?thesis using p(3) s2(1) by simp
qed

text \<open>C34. Enter with 128 characters typed makes the handler write \<open>typed_buf[128]\<close>, one byte behind the
  array, so it has no defined result: the test for a full line comes after the one for Enter.\<close>

theorem enter_on_full_line_overflows:
  assumes "keyboard_ok s" "curr_char_idx (cur s) = 128"
  shows "handle_scancode 0x1C s = None"
proof -
  obtain s1 where s1: "putc 10 s = Some s1" "edited (cur s) s s1" using edited_putc [OF assms(1)] by blast
  note ok1 = keyboard_okD [OF edited_keyboard_ok [OF s1(2)]]
  have "curr_char_idx (cur s1) = 128" using s1(2) assms(2) by (auto simp: edited_def)
  then have "enter_line s = None"
    using with_history_ok [OF ok1(4,3)] terminal_okD(1) [OF ok1(4)]
    by (simp add: enter_line_def s1(1) upd_curr_eq [OF ok1(1)] store_history_eq [OF ok1(4,3)] aset_def)
  moreover have "modifier_keys 0x1C s = (s, False, False)" by (simp add: modifier_keys_def)
  moreover have "aget lower_case_scancodes (uint (0x1C :: u8) - 1) = Some 69"
    by (simp add: aget_def lower_case_scancodes_def)
  ultimately show ?thesis by (simp add: handle_scancode_def)
qed

section \<open>Typing a line\<close>

definition plain_key :: "u8 \<Rightarrow> bool" where
  "plain_key c \<longleftrightarrow> 0 < c \<and> c < 0x3A \<and> c \<notin> {0x0E, 0x1C, 0x1D, 0x2A, 0x36, 0x37, 0x38}"

text \<open>The text \<open>xs\<close> has been typed on the displayed terminal, and no control key is down.\<close>

definition typed :: "u8 list \<Rightarrow> 'z keyboard_scheme \<Rightarrow> bool" where
  "typed xs s \<longleftrightarrow> keyboard_ok s \<and> \<not> lctrl_on s \<and> \<not> backspace_on s \<and> length xs \<le> 128
     \<and> curr_char_idx (cur s) = int (length xs) \<and> typed_buf (cur s) = xs @ replicate (128 - length xs) 0"

lemma keyboard_more:
  fixes s s' :: "'z keyboard_scheme"
  assumes "console.more s' = console.more s"
  shows "lctrl_on s' = lctrl_on s" "backspace_on s' = backspace_on s" "la_on s' = la_on s"
    "cap_on s' = cap_on s" "ls_on s' = ls_on s" "rs_on s' = rs_on s" "share_buffer s' = share_buffer s"
    "keyboard.more s' = keyboard.more s"
  using assms by (cases s; cases s'; simp)+

lemma type_key:
  assumes t: "typed xs s" and n: "length xs < 128" and c: "plain_key c"
  shows "\<exists>s'. handle_scancode c s = Some s' \<and> typed (xs @ [scancode_table s ! (unat c - 1)]) s'
    \<and> scancode_table s' = scancode_table s \<and> curr_terminal_idx s' = curr_terminal_idx s
    \<and> screen_of s' (nat (curr_terminal_idx s))
        = screen_put True (scancode_table s ! (unat c - 1)) (screen_of s (nat (curr_terminal_idx s)))"
proof -
  let ?ch = "scancode_table s ! (unat c - 1)"
  have ok: "keyboard_ok s" and fl: "\<not> lctrl_on s" "\<not> backspace_on s"
    and idx: "curr_char_idx (cur s) = int (length xs)" and tb: "typed_buf (cur s) = xs @ replicate (128 - length xs) 0"
    using t by (simp_all add: typed_def)
  have r: "0 < c" "c < 0x3B" "\<not> c \<ge> 0x3B" "c \<noteq> 0x1C" "c \<noteq> 0x37" "c \<noteq> 0x48"
    using c by (auto simp: plain_key_def word_less_nat_alt word_le_nat_alt)
  have "c \<notin> {0xB8, 0xAA, 0xB6, 0x9D, 0x3A, 0x8E}" using c by (auto simp: plain_key_def)
  then have mk: "modifier_keys c s = (s, False, False)"
    using c by (simp add: modifier_keys_def plain_key_def)
  obtain s' where s': "print_key (scancode_table s) c False s = Some s'" "edited (with_char ?ch (cur s)) s s'"
    "screen_of s' (nat (curr_terminal_idx s)) = screen_put True ?ch (screen_of s (nat (curr_terminal_idx s)))"
    using print_key_ok [OF ok _ r(1,2) scancode_table_length [of s]] idx n by auto
  have "handle_scancode c s = Some s'"
    using r aget_lower [OF r(1,2)] idx n fl s'(1)
    by (simp add: handle_scancode_def mk curr_terminal_eq [OF keyboard_okD(1) [OF ok]])
  moreover have more: "console.more s' = console.more s" using s'(2) by (simp add: edited_def)
  moreover have "scancode_table s' = scancode_table s"
    using keyboard_more [OF more] by (simp add: scancode_table_def)
  moreover have "typed (xs @ [?ch]) s'"
  proof -
    obtain x y where cs: "cur s' = (with_char ?ch (cur s))\<lparr>screen_x := x, screen_y := y\<rparr>"
      using s'(2) unfolding edited_def by blast
    have "(xs @ replicate (128 - length xs) 0)[length xs := ?ch] = xs @ ?ch # replicate (128 - Suc (length xs)) 0"
      using n by (simp add: list_update_append Suc_diff_Suc [symmetric])
    then have "curr_char_idx (cur s') = int (length (xs @ [?ch]))"
        "typed_buf (cur s') = (xs @ [?ch]) @ replicate (128 - length (xs @ [?ch])) 0"
      using idx tb by (simp_all add: cs with_char_def)
    then show ?thesis
      using edited_keyboard_ok [OF s'(2)] n fl keyboard_more [OF more] by (simp add: typed_def)
  qed
  ultimately show ?thesis using s'(2,3) by (simp add: edited_def)
qed

lemma type_keys:
  "typed xs s \<Longrightarrow> length xs + length cs \<le> 128 \<Longrightarrow> \<forall>c\<in>set cs. plain_key c \<Longrightarrow>
   \<exists>s'. out_all handle_scancode cs s = Some s' \<and> typed (xs @ map (\<lambda>c. scancode_table s ! (unat c - 1)) cs) s'
    \<and> curr_terminal_idx s' = curr_terminal_idx s
    \<and> screen_of s' (nat (curr_terminal_idx s)) = fold (screen_put True)
        (map (\<lambda>c. scancode_table s ! (unat c - 1)) cs) (screen_of s (nat (curr_terminal_idx s)))"
proof (induction cs arbitrary: xs s)
  case Nil
  then show ?case by simp
next
  case (Cons c cs)
  have n: "length xs < 128" and p: "plain_key c" using Cons.prems by simp_all
  obtain s1 where s1: "handle_scancode c s = Some s1" "typed (xs @ [scancode_table s ! (unat c - 1)]) s1"
    "scancode_table s1 = scancode_table s" "curr_terminal_idx s1 = curr_terminal_idx s"
    "screen_of s1 (nat (curr_terminal_idx s))
        = screen_put True (scancode_table s ! (unat c - 1)) (screen_of s (nat (curr_terminal_idx s)))"
    using type_key [OF Cons.prems(1) n p] by blast
  show ?case
    using Cons.IH [OF s1(2)] Cons.prems(2,3) s1 by auto
qed

text \<open>C8. From an empty line, with any combination of Shift and Caps Lock, pressing up to 127 character
  keys echoes their characters on the displayed terminal; Enter then hands exactly that text, with
  a newline and zeros behind it, to the reader and leaves an empty line.\<close>

theorem typed_line_delivered:
  assumes "typed [] s" "length cs \<le> 127" "\<forall>c\<in>set cs. plain_key c"
    and i_def: "i = nat (curr_terminal_idx s)"
    and line_def: "line = map (\<lambda>c. scancode_table s ! (unat c - 1)) cs"
  shows "\<exists>s1 s2. out_all handle_scancode cs s = Some s1 \<and> handle_scancode 0x1C s1 = Some s2
    \<and> screen_of s1 i = fold (screen_put True) line (screen_of s i)
    \<and> share_buf (terminals s2 ! i) = line @ 10 # replicate (127 - length cs) 0
    \<and> typing_finish (terminals s2 ! i) = 1 \<and> typed [] s2"
proof -
  obtain s1 where s1: "out_all handle_scancode cs s = Some s1" "typed line s1"
    "curr_terminal_idx s1 = curr_terminal_idx s"
    "screen_of s1 i = fold (screen_put True) line (screen_of s i)"
    using type_keys [OF assms(1), of cs] assms(2,3) by (auto simp: i_def line_def)
  have ok1: "keyboard_ok s1" and idx: "curr_char_idx (cur s1) = int (length cs)"
    and tb: "typed_buf (cur s1) = line @ replicate (128 - length cs) 0"
    using s1(2) by (simp_all add: typed_def line_def)
  obtain s2 where s2: "enter_line s1 = Some s2"
    "edited (deliver ((typed_buf (cur s1))[nat (curr_char_idx (cur s1)) := 10]) (cur s1)) s1 s2"
    using enter_line_ok [OF ok1] idx assms(2) by auto
  have "modifier_keys 0x1C s1 = (s1, False, False)" by (simp add: modifier_keys_def)
  moreover have "aget lower_case_scancodes (uint (0x1C :: u8) - 1) = Some 69"
    by (simp add: aget_def lower_case_scancodes_def)
  ultimately have e: "handle_scancode 0x1C s1 = Some s2" using s2(1) by (simp add: handle_scancode_def)
  have l: "(line @ replicate (128 - length cs) 0)[length cs := 10] = line @ 10 # replicate (127 - length cs) 0"
  proof -
    have "128 - length cs = Suc (127 - length cs)" using assms(2) by simp
    then show ?thesis by (simp add: line_def list_update_append)
  qed
  have more: "console.more s2 = console.more s1" "curr_terminal_idx s2 = curr_terminal_idx s1" "keyboard_ok s2"
    using s2(2) by (simp_all add: edited_def)
  have "cur s2 = terminals s2 ! i" by (simp add: cur_def more s1(3) i_def)
  moreover have "share_buf (cur s2) = line @ 10 # replicate (127 - length cs) 0" "typing_finish (cur s2) = 1"
    "typed [] s2"
  proof -
    obtain x y where c2: "cur s2 = (deliver (line @ 10 # replicate (127 - length cs) 0) (cur s1))\<lparr>screen_x := x, screen_y := y\<rparr>"
      using s2(2) unfolding edited_def idx tb nat_int l by blast
    show "share_buf (cur s2) = line @ 10 # replicate (127 - length cs) 0" "typing_finish (cur s2) = 1"
      by (simp_all add: c2 deliver_def)
    have "curr_char_idx (cur s2) = 0" "typed_buf (cur s2) = replicate 128 0" by (simp_all add: c2 deliver_def)
    moreover have "\<not> lctrl_on s1" "\<not> backspace_on s1" using s1(2) by (simp_all add: typed_def)
    ultimately show "typed [] s2" using keyboard_more [OF more(1)] more(3) by (simp add: typed_def)
  qed
  ultimately show ?thesis using s1(1,4) e by auto
qed

section \<open>Witnesses\<close>

definition keyboard0 :: keyboard where
  "keyboard0 = console.extend console0 (keyboard.fields False False False False False False (replicate 128 0))"

lemma keyboard_ok_keyboard0 [simp]: "keyboard_ok keyboard0" "cur keyboard0 = terminal0 0"
  "nat (curr_terminal_idx keyboard0) = 0"
proof -
  have f: "terminals keyboard0 = map terminal0 [0, 1, 2]" "curr_terminal_idx keyboard0 = 0"
    "curr_running_terminal_idx keyboard0 = 0" "temp_curr_running_terminal_idx keyboard0 = 1"
    "sound_freq keyboard0 = 1200"
    by (simp_all add: keyboard0_def console.defs console0_def)
  have "line_ok (terminal0 i)" for i by (simp add: line_ok_def terminal0_def)
  then show "keyboard_ok keyboard0"
    by (auto simp: keyboard_ok_def console_ok_def sound_ok_def f lt3)
  show "cur keyboard0 = terminal0 0" "nat (curr_terminal_idx keyboard0) = 0"
    by (simp_all add: cur_def f)
qed


theorem keyboard_handler_safe_witness:
  "\<exists>s'. keyboard_interrupt_handler keyboard0 = Some s' \<and> keyboard_ok s' \<and> intr_flag s'"
  by (rule keyboard_handler_safe) (simp_all add: terminal0_def)

definition full_keyboard :: keyboard where
  "full_keyboard = set_cur ((terminal0 0)\<lparr>typed_buf := replicate 128 65, curr_char_idx := 128\<rparr>) keyboard0"

theorem enter_on_full_line_overflows_witness: "handle_scancode 0x1C full_keyboard = None"
proof (rule enter_on_full_line_overflows)
  show "keyboard_ok full_keyboard" unfolding full_keyboard_def
    by (rule keyboard_ok_set_cur) (simp_all add: terminal_ok_def terminal0_def cursor_ok_def line_ok_def)
  show "curr_char_idx (cur full_keyboard) = 128"
    unfolding full_keyboard_def using keyboard_okD(1) [of keyboard0] by simp
qed

lemma typed_keyboard0: "typed [] keyboard0"
  by (simp add: typed_def) (simp add: keyboard0_def console.defs keyboard.defs terminal0_def)

text \<open>Typing \<open>ls\<close>.\<close>

theorem typed_line_delivered_witness:
  "\<exists>s1 s2. out_all handle_scancode [0x26, 0x1F] keyboard0 = Some s1 \<and> handle_scancode 0x1C s1 = Some s2
    \<and> screen_of s1 0 = fold (screen_put True) [108, 115] (screen_of keyboard0 0)
    \<and> share_buf (terminals s2 ! 0) = [108, 115] @ 10 # replicate (127 - length [0x26, 0x1F :: u8]) 0
    \<and> typing_finish (terminals s2 ! 0) = 1 \<and> typed [] s2"
proof (rule typed_line_delivered [OF typed_keyboard0])
  have "scancode_table keyboard0 = lower_case_scancodes"
    by (simp add: scancode_table_def keyboard0_def console.defs keyboard.defs)
  then show "[108, 115] = map (\<lambda>c. scancode_table keyboard0 ! (unat c - 1)) [0x26, 0x1F :: u8]"
    by (simp add: lower_case_scancodes_def)
qed (simp_all add: plain_key_def)

end
