(* ===== verification/Terminal.thy ===== *)
theory Terminal
  imports Keyboard
begin

text \<open>
  \<open>terminal.c\<close>: initialisation of the terminal table and the read and write operations behind file
  descriptors 0 and 1. A user buffer is a pair of functions on the state, \<open>get s i\<close> and \<open>put s i x\<close> for
  \<open>buf[i]\<close>, since where it lies depends on the page tables; a null pointer is a flag.
\<close>

record terminal_state = keyboard +
  phys_addr_available :: "int list"
  flag_first_execute :: int

section \<open>Operations\<close>

definition init_terminal :: "nat \<Rightarrow> terminal_t \<Rightarrow> terminal_t option" where
  "init_terminal i t =
     do { let t = t\<lparr>curr_char_idx := 0\<rparr>;
          sb \<leftarrow> array_fill 128 0 (share_buf t);
          let t = t\<lparr>share_buf := sb\<rparr>;
          tb \<leftarrow> array_fill 128 0 (typed_buf t);
          let t = t\<lparr>typed_buf := tb, buffer_ec_idx := 0, buffer_size := 0, hello_flag := 0,
            vid_on := 0, screen_x := 0, screen_y := 0\<rparr>;
          ph \<leftarrow> array_fill 6 (-1) (phys_mem_idx t);
          Some (t\<lparr>phys_mem_idx := ph, video_mem := VIDEO + (of_nat i + 1) * 4096\<rparr>) }"

text \<open>The jump tables \<open>stdin_jumptable\<close> and \<open>stdout_jumptable\<close> are constants of the model.\<close>

definition terminal_init :: "'z terminal_state_scheme \<Rightarrow> 'z terminal_state_scheme option" where
  "terminal_init s =
     do { let s = s\<lparr>flag_first_execute := 1\<rparr>;
          av \<leftarrow> array_fill 6 1 (phys_addr_available s);
          let s = s\<lparr>phys_addr_available := av\<rparr>;
          s \<leftarrow> for_opt 0 3 (\<lambda>i. upd_terminal (int i) (init_terminal i)) s;
          Some (s\<lparr>curr_terminal_idx := 0\<rparr>) }"

definition terminal_open :: "'z keyboard_scheme \<Rightarrow> (int \<times> 'z keyboard_scheme) option" where
  "terminal_open s = do { b \<leftarrow> array_fill 128 0 (share_buffer s); Some (0, s\<lparr>share_buffer := b\<rparr>) }"

definition terminal_close :: "'z keyboard_scheme \<Rightarrow> int \<times> 'z keyboard_scheme" where
  "terminal_close s = (0, s)"

abbreviation running_terminal :: "'z console_scheme \<Rightarrow> terminal_t option" where
  "running_terminal s \<equiv> aget (terminals s) (curr_running_terminal_idx s)"

abbreviation upd_running ::
  "(terminal_t \<Rightarrow> terminal_t option) \<Rightarrow> 'z console_scheme \<Rightarrow> 'z console_scheme option" where
  "upd_running f s \<equiv> upd_terminal (curr_running_terminal_idx s) f s"

definition line_ready :: "'z console_scheme \<Rightarrow> bool" where
  "line_ready s \<longleftrightarrow> (\<exists>t. running_terminal s = Some t \<and> typing_finish t \<noteq> 0)"

definition terminal_read ::
  "('z keyboard_scheme \<Rightarrow> cstr) \<Rightarrow> ('z keyboard_scheme \<Rightarrow> nat \<Rightarrow> u8 \<Rightarrow> 'z keyboard_scheme option) \<Rightarrow> bool \<Rightarrow> int \<Rightarrow>
   ('z keyboard_scheme \<Rightarrow> 'z keyboard_scheme) list \<Rightarrow> 'z keyboard_scheme \<Rightarrow> (int \<times> 'z keyboard_scheme) option" where
  "terminal_read get put is_null nbytes irqs s =
     (if is_null then Some (-1, s)
      else if nbytes < 0 then Some (-1, s)
      else
        do { let s = sti s;
             s \<leftarrow> wait_until line_ready irqs s;
             let s = cli s;
             let ret = (if nbytes > 128 then 128 else nbytes);
             s \<leftarrow> for_opt 0 (nat ret) (\<lambda>i s.
               do { t \<leftarrow> running_terminal s; x \<leftarrow> aget (share_buf t) (int i); put s i x }) s;
             s \<leftarrow> upd_running (\<lambda>t. Some (t\<lparr>typing_finish := 0\<rparr>)) s;
             s \<leftarrow> clear_buffer s;
             s \<leftarrow> upd_curr (\<lambda>t. Some (t\<lparr>curr_char_idx := 0\<rparr>)) s;
             n \<leftarrow> strlen (get s);
             Some (int n, s) })"

definition terminal_write ::
  "('z console_scheme \<Rightarrow> cstr) \<Rightarrow> bool \<Rightarrow> int \<Rightarrow> 'z console_scheme \<Rightarrow> (int \<times> 'z console_scheme) option" where
  "terminal_write get is_null nbytes s =
     (let s = cli s;
          s = disable_irq 0 s;
          s = s\<lparr>temp_curr_running_terminal_idx := curr_running_terminal_idx s\<rparr> in
      if is_null then Some (-1, s)
      else if nbytes < 0 then Some (-1, s)
      else
        do { let ret = nbytes;
             s \<leftarrow> for_opt 0 (nat ret) (\<lambda>i s.
               do { c \<leftarrow> get s i;
                    if curr_terminal_idx s = temp_curr_running_terminal_idx s then putc c s
                    else putc_background c s }) s;
             s \<leftarrow> (if ret = 128 then putc 10 s else Some s);
             let s = enable_irq 0 s;
             let s = sti s;
             Some (ret, s) })"

section \<open>Initialisation\<close>

lemma init_terminal_eq:
  assumes "length (share_buf t) = 128" "length (typed_buf t) = 128" "length (phys_mem_idx t) = 6"
  shows "init_terminal i t = Some (t\<lparr>curr_char_idx := 0, share_buf := replicate 128 0, typed_buf := replicate 128 0,
    buffer_ec_idx := 0, buffer_size := 0, hello_flag := 0, vid_on := 0, screen_x := 0, screen_y := 0,
    phys_mem_idx := replicate 6 (-1), video_mem := backup i\<rparr>)"
  using assms by (simp add: init_terminal_def array_fill_eq backup_def algebra_simps)

lemma for_opt_3: "for_opt 0 3 f s = do { s \<leftarrow> f 0 s; s \<leftarrow> f 1 s; f 2 s }"
  by (simp add: for_opt_def upt_rec numeral_2_eq_2 split: Option.bind_split)

definition fresh_terminal :: "nat \<Rightarrow> terminal_t \<Rightarrow> bool" where
  "fresh_terminal i t \<longleftrightarrow> terminal_ok i t \<and> line_ok t \<and> phys_mem_idx t = replicate 6 (-1)
     \<and> screen_x t = 0 \<and> screen_y t = 0 \<and> vid_on t = 0"

lemma init_terminal_fresh:
  assumes "length (share_buf t) = 128" "length (typed_buf t) = 128" "length (phys_mem_idx t) = 6"
    "length (buffer_for_ec t) = 20" "\<forall>r\<in>set (buffer_for_ec t). length r = 128"
  shows "\<exists>t'. init_terminal i t = Some t' \<and> fresh_terminal i t'"
  using assms by (simp add: init_terminal_eq fresh_terminal_def terminal_ok_def line_ok_def cursor_ok_def)

lemma upd_terminal_eq:
  "0 \<le> i \<Longrightarrow> nat i < length (terminals s) \<Longrightarrow> f (terminals s ! nat i) = Some t \<Longrightarrow>
   upd_terminal i f s = Some (s\<lparr>terminals := (terminals s)[nat i := t]\<rparr>)"
  by (simp add: upd_terminal_def aget_def aset_def)

definition terminals_declared :: "'z terminal_state_scheme \<Rightarrow> bool" where
  "terminals_declared s \<longleftrightarrow> length (terminals s) = 3 \<and> length (phys_addr_available s) = 6
     \<and> (\<forall>t\<in>set (terminals s). length (share_buf t) = 128 \<and> length (typed_buf t) = 128
      \<and> length (phys_mem_idx t) = 6 \<and> length (buffer_for_ec t) = 20 \<and> (\<forall>r\<in>set (buffer_for_ec t). length r = 128))"

lemma terminal_init_eq:
  assumes "terminals_declared s"
  shows "\<exists>f. terminal_init s = Some (s\<lparr>flag_first_execute := 1, phys_addr_available := replicate 6 1,
      terminals := (terminals s)[0 := f 0, 1 := f 1, 2 := f 2], curr_terminal_idx := 0\<rparr>) \<and> (\<forall>i<3. fresh_terminal i (f i))"
proof -
  note d = assms [unfolded terminals_declared_def]
  have "\<exists>t'. init_terminal i (terminals s ! i) = Some t' \<and> fresh_terminal i t'" if "i < 3" for i
    using d that by (intro init_terminal_fresh) auto
  then obtain f where f: "init_terminal i (terminals s ! i) = Some (f i) \<and> fresh_terminal i (f i)" if "i < 3" for i
    by metis
  then show ?thesis
    using d f [of 0] f [of 1] f [of 2]
    by (intro exI [of _ f]) (simp add: terminal_init_def array_fill_eq for_opt_3 upd_terminal_eq)
qed

text \<open>C29. From any contents of the three terminal records (of the declared array sizes), \<open>terminal_init\<close>
  makes the terminal table well formed with every cursor at the top left, marks all six process
  slots free and no slot as used by a terminal, and selects terminal 0.\<close>

theorem terminal_init_ok:
  assumes "terminals_declared s" "sound_ok s"
    and idx: "curr_running_terminal_idx s \<in> {0, 1, 2}" "temp_curr_running_terminal_idx s \<in> {0, 1, 2}"
  shows "\<exists>s'. terminal_init s = Some s' \<and> keyboard_ok s' \<and> curr_terminal_idx s' = 0
    \<and> phys_addr_available s' = replicate 6 1 \<and> flag_first_execute s' = 1
    \<and> (\<forall>i<3. fresh_terminal i (terminals s' ! i))"
proof -
  obtain f where f: "terminal_init s = Some (s\<lparr>flag_first_execute := 1, phys_addr_available := replicate 6 1,
      terminals := (terminals s)[0 := f 0, 1 := f 1, 2 := f 2], curr_terminal_idx := 0\<rparr>)" "\<forall>i<3. fresh_terminal i (f i)"
    using terminal_init_eq [OF assms(1)] by blast
  define s' where "s' = s\<lparr>flag_first_execute := 1, phys_addr_available := replicate 6 1,
      terminals := (terminals s)[0 := f 0, 1 := f 1, 2 := f 2], curr_terminal_idx := 0\<rparr>"
  have len: "length (terminals s) = 3" using assms(1) by (simp add: terminals_declared_def)
  then have t: "terminals s' ! i = f i" if "i < 3" for i using that by (auto simp: s'_def lt3)
  have "keyboard_ok s'"
    using f(2) t assms(2) idx
    by (simp add: keyboard_ok_def console_ok_def sound_ok_def fresh_terminal_def)
      (simp add: s'_def len)
  then show ?thesis using f t unfolding s'_def [symmetric] by (intro exI [of _ s']) (simp add: s'_def)
qed

section \<open>Writing\<close>

lemma terminal_write_loop_shown:
  assumes ready: "putc_ready k s" and eq: "curr_terminal_idx s = temp_curr_running_terminal_idx s"
    and get: "\<And>t i. i < length tx \<Longrightarrow> keeps_others {VIDEO, backup k} k s t \<Longrightarrow> get t i = Some (tx ! i)"
  shows "\<exists>s'. for_opt 0 (length tx) (\<lambda>i s.
      do { c \<leftarrow> get s i;
           if curr_terminal_idx s = temp_curr_running_terminal_idx s then putc c s else putc_background c s }) s = Some s'
    \<and> putc_ready k s' \<and> screen_of s' k = fold (screen_put True) tx (screen_of s k)
    \<and> keeps_others {VIDEO, backup k} k s s'"
proof -
  let ?P = "\<lambda>i t. putc_ready k t \<and> screen_of t k = fold (screen_put True) (take i tx) (screen_of s k)
    \<and> keeps_others {VIDEO, backup k} k s t"
  have "\<exists>s'. for_opt 0 (length tx) (\<lambda>i s.
      do { c \<leftarrow> get s i;
           if curr_terminal_idx s = temp_curr_running_terminal_idx s then putc c s else putc_background c s }) s = Some s'
    \<and> ?P (length tx) s'"
  proof (rule for_opt_inv)
    show "?P 0 s" using ready putc.keeps_refl [OF ready] by simp
    fix i t assume i: "i < length tx" and P: "?P i t"
    then have g: "get t i = Some (tx ! i)" using get by blast
    have e: "curr_terminal_idx t = temp_curr_running_terminal_idx t"
      using P eq by (simp add: keeps_others_def printed_on_def)
    obtain t' where "putc (tx ! i) t = Some t'" "putc_ready k t'"
      "screen_of t' k = screen_put True (tx ! i) (screen_of t k)" "keeps_others {VIDEO, backup k} k t t'"
      using putc.out_ok [of k t "tx ! i"] P by blast
    then show "\<exists>s'. do { c \<leftarrow> get t i;
           if curr_terminal_idx t = temp_curr_running_terminal_idx t then putc c t else putc_background c t } = Some s'
        \<and> ?P (Suc i) s'"
      using P i keeps_others_trans by (auto simp: g e take_Suc_conv_app_nth)
  qed simp
  then show ?thesis by simp
qed

lemma terminal_write_loop_hidden:
  assumes ready: "background_ready k s" and ne: "curr_terminal_idx s \<noteq> temp_curr_running_terminal_idx s"
    and get: "\<And>t i. i < length tx \<Longrightarrow> keeps_others {backup k} k s t \<Longrightarrow> get t i = Some (tx ! i)"
  shows "\<exists>s'. for_opt 0 (length tx) (\<lambda>i s.
      do { c \<leftarrow> get s i;
           if curr_terminal_idx s = temp_curr_running_terminal_idx s then putc c s else putc_background c s }) s = Some s'
    \<and> background_ready k s' \<and> screen_of s' k = fold (screen_put False) tx (screen_of s k)
    \<and> keeps_others {backup k} k s s'"
proof -
  let ?P = "\<lambda>i t. background_ready k t \<and> screen_of t k = fold (screen_put False) (take i tx) (screen_of s k)
    \<and> keeps_others {backup k} k s t"
  have "\<exists>s'. for_opt 0 (length tx) (\<lambda>i s.
      do { c \<leftarrow> get s i;
           if curr_terminal_idx s = temp_curr_running_terminal_idx s then putc c s else putc_background c s }) s = Some s'
    \<and> ?P (length tx) s'"
  proof (rule for_opt_inv)
    show "?P 0 s" using ready background.keeps_refl [OF ready] by simp
    fix i t assume i: "i < length tx" and P: "?P i t"
    then have g: "get t i = Some (tx ! i)" using get by blast
    have e: "curr_terminal_idx t \<noteq> temp_curr_running_terminal_idx t"
      using P ne by (simp add: keeps_others_def printed_on_def)
    obtain t' where "putc_background (tx ! i) t = Some t'" "background_ready k t'"
      "screen_of t' k = screen_put False (tx ! i) (screen_of t k)" "keeps_others {backup k} k t t'"
      using background.out_ok [of k t "tx ! i"] P by blast
    then show "\<exists>s'. do { c \<leftarrow> get t i;
           if curr_terminal_idx t = temp_curr_running_terminal_idx t then putc c t else putc_background c t } = Some s'
        \<and> ?P (Suc i) s'"
      using P i keeps_others_trans by (auto simp: g e take_Suc_conv_app_nth)
  qed simp
  then show ?thesis by simp
qed

lemma same_but_cells_page:
  assumes "same_but_cells B m m'" "B \<subseteq> text_pages" "b \<in> text_pages" "b \<notin> B"
  shows "page b m' = page b m"
proof -
  have "cell b (int k) \<noteq> cell b' (int j)" if "b' \<in> B" "k < 2000" "j < 2000" for b' k j
    using cell_eq_nat [of b b' k j] assms(2-4) that by auto
  then show ?thesis using assms(1) by (auto simp: same_but_cells_def page_def fun_eq_iff)
qed

lemma same_but_cells_mono: "same_but_cells A m m' \<Longrightarrow> A \<subseteq> B \<Longrightarrow> same_but_cells B m m'"
  by (auto simp: same_but_cells_def)

lemma irq_more [simp]:
  "sound.more (enable_irq n s) = sound.more s" "sound.more (disable_irq n s) = sound.more s"
  "sound_freq (enable_irq n s) = sound_freq s" "sound_freq (disable_irq n s) = sound_freq s"
  by (simp_all add: enable_irq_def disable_irq_def Let_def io_defs)

lemma terminal_write_out:
  fixes s :: "'z console_scheme"
  assumes ok: "console_ok s" and k: "k = nat (curr_running_terminal_idx s)"
    and shown: "curr_terminal_idx s = curr_running_terminal_idx s \<longrightarrow> display_shows s"
    and len: "length tx \<noteq> 128"
    and get: "\<And>(t :: 'z console_scheme) i. i < length tx \<Longrightarrow> same_but_cells {0xB8000, backup k} (phys s) (phys t) \<Longrightarrow>
      console.more t = console.more s \<Longrightarrow> get t i = Some (tx ! i)"
  shows "\<exists>s'. terminal_write get False (int (length tx)) s = Some (int (length tx), s')
    \<and> console_ok s' \<and> intr_flag s'
    \<and> screen_of s' k = fold (screen_put (curr_terminal_idx s = curr_running_terminal_idx s)) tx (screen_of s k)
    \<and> (\<forall>j<3. j \<noteq> k \<longrightarrow> screen_of s' j = screen_of s j)
    \<and> (curr_terminal_idx s \<noteq> curr_running_terminal_idx s \<longrightarrow> display s' = display s)
    \<and> (\<exists>x y. terminals s' = (terminals s)[k := (terminals s ! k)\<lparr>screen_x := x, screen_y := y\<rparr>])
    \<and> same_but_cells {VIDEO, backup k} (phys s) (phys s')
    \<and> curr_terminal_idx s' = curr_terminal_idx s \<and> curr_running_terminal_idx s' = curr_running_terminal_idx s
    \<and> console.more s' = console.more s"
proof -
  define s1 where "s1 = (disable_irq 0 (cli s))\<lparr>temp_curr_running_terminal_idx := curr_running_terminal_idx s\<rparr>"
  let ?loop = "for_opt 0 (length tx) (\<lambda>i s.
      do { c \<leftarrow> get s i;
           if curr_terminal_idx s = temp_curr_running_terminal_idx s then putc c s else putc_background c s }) s1"
  let ?wrap = "curr_terminal_idx s = curr_running_terminal_idx s"
  have more: "sound.more (disable_irq 0 (cli s)) = sound.more s" by simp
  note f = console_frame [OF more]
  have f1: "terminals s1 = terminals s" "phys s1 = phys s" "curr_terminal_idx s1 = curr_terminal_idx s"
    "curr_running_terminal_idx s1 = curr_running_terminal_idx s"
    "temp_curr_running_terminal_idx s1 = curr_running_terminal_idx s" "console.more s1 = console.more s"
    by (simp_all add: s1_def f)
  have ok1: "console_ok s1" using ok by (simp add: console_ok_def f1)
  have k3: "k < 3" using console_okD [OF ok] k by simp
  have sc: "screen_of s1 = screen_of s" "display s1 = display s" "display_shows s1 = display_shows s"
    by (simp_all add: screen_of_def display_def display_shows_def f1 fun_eq_iff Let_def)
  have w: "terminal_write get False (int (length tx)) s
      = do { t \<leftarrow> ?loop; Some (int (length tx), sti (enable_irq 0 t)) }"
    using len by (simp add: terminal_write_def Let_def s1_def f)
  have fin: "console_ok (sti (enable_irq 0 t)) = console_ok t" "screen_of (sti (enable_irq 0 t)) = screen_of t"
    "display (sti (enable_irq 0 t)) = display t" for t :: "'z console_scheme"
  proof -
    have m: "sound.more (sti (enable_irq 0 t)) = sound.more t" by simp
    show "console_ok (sti (enable_irq 0 t)) = console_ok t" "screen_of (sti (enable_irq 0 t)) = screen_of t"
      "display (sti (enable_irq 0 t)) = display t"
      by (simp_all only: console_ok_frame [OF m] screen_of_frame [OF m] display_def console_frame [OF m])
  qed
  have keep: "(\<exists>x y. terminals t' = (terminals s)[k := (terminals s ! k)\<lparr>screen_x := x, screen_y := y\<rparr>])
      \<and> same_but_cells {VIDEO, backup k} (phys s) (phys t')
      \<and> curr_terminal_idx t' = curr_terminal_idx s \<and> curr_running_terminal_idx t' = curr_running_terminal_idx s
      \<and> console.more t' = console.more s"
    if "keeps_others B k s1 t" "B \<subseteq> {VIDEO, backup k}" "t' = sti (enable_irq 0 t)" for B t and t' :: "'z console_scheme"
  proof -
    have m: "sound.more t' = sound.more t" using that(3) by simp
    show ?thesis
      using that(1,2) same_but_cells_mono [of B] unfolding keeps_others_def printed_on_def
      by (simp add: console_frame [OF m] f1)
  qed
  have g: "get t i = Some (tx ! i)" if "i < length tx" "keeps_others B k s1 t" "B \<subseteq> {VIDEO, backup k}" for t i B
    using that get [of i t] same_but_cells_mono [of B] by (simp add: keeps_others_def printed_on_def f1)
  show ?thesis
  proof (cases ?wrap)
    case True
    then have r: "putc_ready k s1" using ok1 shown k by (simp add: putc_ready_def sc f1)
    obtain t where t: "?loop = Some t" "putc_ready k t" "screen_of t k = fold (screen_put True) tx (screen_of s1 k)"
      "keeps_others {VIDEO, backup k} k s1 t"
      using terminal_write_loop_shown [OF r, of tx get] g True by (auto simp: f1)
    note kp = keep [OF t(4) subset_refl refl]
    show ?thesis using w True t kp by (simp add: fin sc putc_ready_def keeps_others_def)
  next
    case False
    then have r: "background_ready k s1" using ok1 k by (simp add: background_ready_def f1)
    obtain t where t: "?loop = Some t" "background_ready k t" "screen_of t k = fold (screen_put False) tx (screen_of s1 k)"
      "keeps_others {backup k} k s1 t"
      using terminal_write_loop_hidden [OF r, of tx get] g [of _ "{backup k}"] False by (auto simp: f1)
    have "same_but_cells {backup k} (phys s1) (phys t)" using t(4) by (simp add: keeps_others_def printed_on_def)
    then have "display t = display s1"
      using same_but_cells_page [of "{backup k}" _ _ VIDEO] k3 by (simp add: display_def)
    moreover note kp = keep [OF t(4) _ refl]
    ultimately show ?thesis using w t False kp by (simp add: fin sc background_ready_def keeps_others_def)
  qed
qed

text \<open>A write of any length but 128 to a terminal succeeds, returns its length, draws exactly its bytes on
  the running terminal (going on to the next row only if that terminal is displayed), leaves the
  other terminals alone, and leaves the display alone if the terminal is hidden.\<close>

theorem terminal_write_prints:
  fixes s :: "'z console_scheme"
  assumes ok: "console_ok s" and k: "k = nat (curr_running_terminal_idx s)"
    and shown: "curr_terminal_idx s = curr_running_terminal_idx s \<longrightarrow> display_shows s"
    and len: "length tx \<noteq> 128"
    and get: "\<And>(t :: 'z console_scheme) i. i < length tx \<Longrightarrow> same_but_cells {0xB8000, backup k} (phys s) (phys t) \<Longrightarrow>
      console.more t = console.more s \<Longrightarrow> get t i = Some (tx ! i)"
  shows "\<exists>s'. terminal_write get False (int (length tx)) s = Some (int (length tx), s')
    \<and> console_ok s' \<and> intr_flag s'
    \<and> screen_of s' k = fold (screen_put (curr_terminal_idx s = curr_running_terminal_idx s)) tx (screen_of s k)
    \<and> (\<forall>j<3. j \<noteq> k \<longrightarrow> screen_of s' j = screen_of s j)
    \<and> (curr_terminal_idx s \<noteq> curr_running_terminal_idx s \<longrightarrow> display s' = display s)"
  using terminal_write_out [where get = get, OF ok k shown len get] by blast

theorem terminal_write_prints_witness:
  "\<exists>s'. terminal_write (\<lambda>t i. if i < 2 then Some ([104, 105] ! i) else None) False (int (length [104, 105 :: u8])) console0
      = Some (int (length [104, 105 :: u8]), s')
    \<and> console_ok s' \<and> intr_flag s'
    \<and> screen_of s' 0 = fold (screen_put (curr_terminal_idx console0 = curr_running_terminal_idx console0))
        [104, 105] (screen_of console0 0)
    \<and> (\<forall>j<3. j \<noteq> 0 \<longrightarrow> screen_of s' j = screen_of console0 j)
    \<and> (curr_terminal_idx console0 \<noteq> curr_running_terminal_idx console0 \<longrightarrow> display s' = display console0)"
  by (rule terminal_write_prints [OF console_ok_console0])
    (simp_all add: display_shows_console0, simp add: console0_def)

text \<open>When the pointer is null or the count negative, \<open>terminal_write\<close> returns \<open>-1\<close> with the timer line masked
  and interrupts disabled: nothing undoes the two calls it starts with.\<close>

theorem terminal_write_error_masks_timer:
  assumes "pic_ok m0 s0 s" "is_null \<or> nbytes < 0"
  shows "\<exists>s'. terminal_write get is_null nbytes s = Some (-1, s') \<and> \<not> intr_flag s'
    \<and> irq_lines m0 s0 s' = irq_lines m0 s0 s - {0}"
proof -
  have "pic_ok m0 s0 (cli s)" "irq_lines m0 s0 (cli s) = irq_lines m0 s0 s"
    using assms(1) by (simp_all add: pic_ok_def irq_lines_def)
  then have "irq_lines m0 s0 (disable_irq 0 (cli s)) = irq_lines m0 s0 s - {0}"
    using pic.lines_disable [of m0 s0 "cli s" 0] by simp
  then show ?thesis
    using assms(2) by (auto simp: terminal_write_def Let_def irq_lines_def)
qed

theorem terminal_write_error_masks_timer_witness:
  "\<exists>s'. terminal_write (\<lambda>_ _. None) True 5 console0 = Some (-1, s') \<and> \<not> intr_flag s'
    \<and> irq_lines power_on power_on s' = irq_lines power_on power_on console0 - {0}"
proof (rule terminal_write_error_masks_timer)
  show "pic_ok power_on power_on console0"
    using pic_ok_rtc0 by (simp add: pic_ok_def rtc0_def console0_def)
qed simp

section \<open>Reading\<close>

text \<open>
  What \<open>terminal_read\<close> relies on of the buffer it fills: while it is mapped, a write within its room
  changes that byte only, no text cell and nothing but memory; and what it holds depends on memory
  and on the components above the console alone.
\<close>

locale user_buffer =
  fixes bget :: "'z keyboard_scheme \<Rightarrow> cstr"
    and bput :: "'z keyboard_scheme \<Rightarrow> nat \<Rightarrow> u8 \<Rightarrow> 'z keyboard_scheme option"
    and mapped :: "'z keyboard_scheme \<Rightarrow> bool"
    and room :: nat
  assumes put_ok: "mapped s \<Longrightarrow> i < room \<Longrightarrow> \<exists>m. bput s i x = Some (s\<lparr>phys := m\<rparr>) \<and> mapped (s\<lparr>phys := m\<rparr>)
      \<and> (\<forall>b\<in>text_pages. page b m = page b (phys s))
      \<and> (\<forall>j<room. bget (s\<lparr>phys := m\<rparr>) j = (if j = i then Some x else bget s j))"
    and get_cong: "phys t = phys s \<Longrightarrow> console.more t = console.more s \<Longrightarrow> mapped t = mapped s \<and> bget t = bget s"
begin

lemma copy_loop:
  assumes m: "mapped s" and n: "n \<le> room" and x: "\<And>i m. i < n \<Longrightarrow> src (s\<lparr>phys := m\<rparr>) i = Some (xs ! i)"
  shows "\<exists>m. for_opt 0 n (\<lambda>i s. do { x \<leftarrow> src s i; bput s i x }) s = Some (s\<lparr>phys := m\<rparr>)
    \<and> mapped (s\<lparr>phys := m\<rparr>) \<and> (\<forall>b\<in>text_pages. page b m = page b (phys s))
    \<and> (\<forall>j<room. bget (s\<lparr>phys := m\<rparr>) j = (if j < n then Some (xs ! j) else bget s j))"
proof -
  let ?P = "\<lambda>i t. \<exists>m. t = s\<lparr>phys := m\<rparr> \<and> mapped t \<and> (\<forall>b\<in>text_pages. page b m = page b (phys s))
    \<and> (\<forall>j<room. bget t j = (if j < i then Some (xs ! j) else bget s j))"
  have "\<exists>t. for_opt 0 n (\<lambda>i s. do { x \<leftarrow> src s i; bput s i x }) s = Some t \<and> ?P n t"
  proof (rule for_opt_inv)
    show "?P 0 s" using m by (intro exI [of _ "phys s"]) simp
    fix i t assume i: "i < n" and P: "?P i t"
    then obtain m0 where t: "t = s\<lparr>phys := m0\<rparr>" "mapped t" "\<forall>b\<in>text_pages. page b m0 = page b (phys s)"
      "\<forall>j<room. bget t j = (if j < i then Some (xs ! j) else bget s j)" by blast
    obtain m1 where m1: "bput t i (xs ! i) = Some (t\<lparr>phys := m1\<rparr>)" "mapped (t\<lparr>phys := m1\<rparr>)"
      "\<forall>b\<in>text_pages. page b m1 = page b (phys t)"
      "\<forall>j<room. bget (t\<lparr>phys := m1\<rparr>) j = (if j = i then Some (xs ! i) else bget t j)"
      using put_ok [OF t(2), of i "xs ! i"] i n by auto
    have e: "t\<lparr>phys := m1\<rparr> = s\<lparr>phys := m1\<rparr>" by (simp add: t(1))
    have "?P (Suc i) (t\<lparr>phys := m1\<rparr>)"
      using m1 t by (intro exI [of _ m1]) (auto simp: e less_Suc_eq)
    moreover have "do { x \<leftarrow> src t i; bput t i x } = Some (t\<lparr>phys := m1\<rparr>)"
      using x [OF i] m1(1) by (simp add: t(1))
    ultimately show "\<exists>t'. do { x \<leftarrow> src t i; bput t i x } = Some t' \<and> ?P (Suc i) t'" by blast
  qed simp
  then show ?thesis by blast
qed

lemma terminal_read_line:
  assumes wait: "wait_until line_ready irqs (sti s) = Some s1" and ok: "keyboard_ok s1" and m: "mapped s1"
    and k: "k = nat (curr_running_terminal_idx s1)"
    and line: "share_buf (terminals s1 ! k) = line @ 10 # replicate (127 - length line) 0" "0 \<notin> set line"
    and len: "length line + 2 \<le> n" "n \<le> room" "n \<le> 128"
  shows "\<exists>s'. terminal_read bget bput False (int n) irqs s = Some (int (length line) + 1, s')
    \<and> is_cstr (bget s') (line @ [10]) \<and> keyboard_ok s' \<and> typing_finish (terminals s' ! k) = 0
    \<and> typed_buf (cur s') = replicate 128 0 \<and> curr_char_idx (cur s') = 0
    \<and> (\<forall>j<3. screen_of s' j = screen_of s1 j) \<and> mapped s'"
proof -
  note c = console_okD [OF keyboard_okD(1) [OF ok]]
  have k3: "k < 3" using c k by simp
  have tk: "terminal_ok k (terminals s1 ! k)" "line_ok (terminals s1 ! k)"
    using c(11) [OF k3] ok k3 by (auto simp: keyboard_ok_def)
  let ?xs = "line @ 10 # replicate (127 - length line) 0"
  define s2 where "s2 = cli s1"
  have m2: "mapped s2" "bget s2 = bget s1" using get_cong [of s2 s1] m by (simp_all add: s2_def)
  have f2: "terminals s2 = terminals s1" "curr_running_terminal_idx s2 = curr_running_terminal_idx s1"
    "curr_terminal_idx s2 = curr_terminal_idx s1" by (simp_all add: s2_def)
  have lenx: "length ?xs = 128" using len by simp
  have src: "do { t \<leftarrow> running_terminal (s2\<lparr>phys := m\<rparr>); aget (share_buf t) (int i) } = Some (?xs ! i)"
    if "i < n" for i m
    using that c(1,6,7) lenx len by (simp add: f2 aget_def k [symmetric] line(1) del: length_append)
  obtain m3 where m3: "for_opt 0 n (\<lambda>i s. do { x \<leftarrow> (do { t \<leftarrow> running_terminal s; aget (share_buf t) (int i) }); bput s i x }) s2
      = Some (s2\<lparr>phys := m3\<rparr>)" "mapped (s2\<lparr>phys := m3\<rparr>)" "\<forall>b\<in>text_pages. page b m3 = page b (phys s2)"
      "\<forall>j<room. bget (s2\<lparr>phys := m3\<rparr>) j = (if j < n then Some (?xs ! j) else bget s2 j)"
    using copy_loop [OF m2(1) len(2), of "\<lambda>s i. do { t \<leftarrow> running_terminal s; aget (share_buf t) (int i) }" ?xs] src
    by auto
  define s3 where "s3 = s2\<lparr>phys := m3\<rparr>"
  have ok3: "keyboard_ok s3" unfolding s3_def s2_def
    using ok keyboard_ok_frame [of "cli s1" s1] by simp
  let ?t = "(terminals s1 ! k)\<lparr>typing_finish := 0\<rparr>"
  define s4 where "s4 = s3\<lparr>terminals := (terminals s1)[k := ?t]\<rparr>"
  have u4: "upd_running (\<lambda>t. Some (t\<lparr>typing_finish := 0\<rparr>)) s3 = Some s4"
    using c k k3 by (simp add: upd_terminal_def aget_def aset_def s3_def f2 s4_def)
  have t4: "terminal_ok k ?t" "line_ok ?t" using tk by (simp_all add: line_ok_def)
  have ok4: "keyboard_ok s4"
  proof -
    have "console_ok s4"
      by (rule console_ok_update [OF keyboard_okD(1) [OF ok3] k3 t4(1)]) (simp_all add: s4_def s3_def f2)
    then show ?thesis
      using ok3 t4(2) k3 c(1) by (auto simp: keyboard_ok_def s4_def s3_def f2 sound_ok_def nth_list_update)
  qed
  obtain s5 where s5: "clear_buffer s4 = Some s5" "keyboard_ok s5" "cur s5 = (cur s4)\<lparr>typed_buf := replicate 128 0\<rparr>"
      "s5 = set_cur ((cur s4)\<lparr>typed_buf := replicate 128 0\<rparr>) s4"
    using edited_clear_buffer [OF ok4] clear_buffer_eq [OF ok4] edited_keyboard_ok by auto
  let ?t6 = "(cur s5)\<lparr>curr_char_idx := 0\<rparr>"
  define s6 where "s6 = set_cur ?t6 s5"
  have t6: "terminal_ok (nat (curr_terminal_idx s5)) ?t6" "line_ok ?t6"
    using keyboard_okD [OF s5(2)] by (simp_all add: line_ok_def)
  have u6: "upd_curr (\<lambda>t. Some (t\<lparr>curr_char_idx := 0\<rparr>)) s5 = Some s6"
    by (simp add: upd_curr_eq [OF keyboard_okD(1) [OF s5(2)]] s6_def)
  have ok6: "keyboard_ok s6" unfolding s6_def by (rule keyboard_ok_set_cur [OF s5(2) t6])
  have same: "phys s6 = phys s3" "console.more s6 = console.more s3"
    by (simp_all add: s6_def s5(4) s4_def)
  have g6: "bget s6 = bget s3" "mapped s6" using get_cong [OF same] m3(2) by (simp_all add: s3_def)
  have str: "is_cstr (bget s6) (line @ [10])"
    using line(2) len m3(4) by (auto simp: is_cstr_def g6 s3_def nth_append)
  have cur6: "cur s6 = ?t6" unfolding s6_def using keyboard_okD(1) [OF s5(2)] by simp
  have fin: "typing_finish (terminals s6 ! k) = 0"
    using c k3 by (auto simp: s6_def s5(3,4) set_cur_def s4_def s3_def f2 cur_def nth_list_update)
  have scr: "screen_of s6 j = screen_of s1 j" if "j < 3" for j
    using that c m3(3) k3
    by (auto simp: screen_of_def s6_def s5(3,4) set_cur_def s4_def s3_def s2_def cur_def nth_list_update Let_def)
  have "terminal_read bget bput False (int n) irqs s = Some (int (length line) + 1, s6)"
  proof -
    have "for_opt 0 n (\<lambda>i s. do { t \<leftarrow> running_terminal s; x \<leftarrow> aget (share_buf t) (int i); bput s i x }) s2 = Some s3"
      using m3(1) by (simp add: s3_def)
    then show ?thesis
      using wait len u4 s5(1) u6 strlen_cstr [OF str] by (simp add: terminal_read_def s2_def [symmetric])
  qed
  then show ?thesis using str ok6 fin cur6 s5(3) scr g6(2) by auto
qed

end

text \<open>A buffer that the kernel reaches at its own address, away from the text cells.\<close>

definition kernel_get :: "u32 \<Rightarrow> 'z console_scheme \<Rightarrow> cstr" where
  "kernel_get a s = mem_get a (phys s)"

definition kernel_put :: "u32 \<Rightarrow> 'z console_scheme \<Rightarrow> nat \<Rightarrow> u8 \<Rightarrow> 'z console_scheme option" where
  "kernel_put a s i x = do { m \<leftarrow> mem_put a (phys s) i x; Some (s\<lparr>phys := m\<rparr>) }"

definition off_screen :: "u32 \<Rightarrow> nat \<Rightarrow> bool" where
  "off_screen a n \<longleftrightarrow> n \<le> 4294967296 \<and> (\<forall>i<n. \<forall>b\<in>text_pages. \<forall>k<2000. a + of_nat i \<noteq> cell b (int k))"

lemma page_off_screen:
  assumes "off_screen a n" "i < n" "b \<in> text_pages"
  shows "page b (m(a + of_nat i := x)) = page b m"
proof -
  have "cell b (int k) \<noteq> a + of_nat i" if "k < 2000" for k
    using assms that unfolding off_screen_def by metis
  then show ?thesis by (auto simp: page_def fun_eq_iff)
qed

interpretation kernel_buffer: user_buffer "kernel_get a" "kernel_put a" "\<lambda>s. off_screen a n" n for a n
proof
  fix s :: "'a keyboard_scheme" and i x
  assume m: "off_screen a n" "i < n"
  then have r: "i < 4294967296" "n \<le> 4294967296" by (auto simp: off_screen_def)
  have "a + of_nat j = a + of_nat i \<longleftrightarrow> j = i" if "j < n" for j
    using of_nat_u32_inj [of j i] that r by simp
  then show "\<exists>m. kernel_put a s i x = Some (s\<lparr>phys := m\<rparr>) \<and> off_screen a n
      \<and> (\<forall>b\<in>text_pages. page b m = page b (phys s))
      \<and> (\<forall>j < n. kernel_get a (s\<lparr>phys := m\<rparr>) j = (if j = i then Some x else kernel_get a s j))"
    using m r page_off_screen [OF m] by (auto simp: kernel_put_def kernel_get_def mem_put_def mem_get_def)
qed (simp add: kernel_get_def)

text \<open>C15. Once a line of at most 126 characters has been entered on the running terminal, \<open>terminal_read\<close> with
  room for it returns its length with the newline, leaves it in the buffer as a string, and clears
  the flag and the line editor; the screens are untouched.\<close>

theorem terminal_read_returns_line:
  assumes "wait_until line_ready irqs (sti s) = Some s1" "keyboard_ok s1" "off_screen a n"
    and "k = nat (curr_running_terminal_idx s1)"
    and "share_buf (terminals s1 ! k) = line @ 10 # replicate (127 - length line) 0" "0 \<notin> set line"
    and "length line + 2 \<le> n" "n \<le> 128"
  shows "\<exists>s'. terminal_read (kernel_get a) (kernel_put a) False (int n) irqs s = Some (int (length line) + 1, s')
    \<and> is_cstr (kernel_get a s') (line @ [10]) \<and> keyboard_ok s' \<and> typing_finish (terminals s' ! k) = 0
    \<and> typed_buf (cur s') = replicate 128 0 \<and> curr_char_idx (cur s') = 0
    \<and> (\<forall>j<3. screen_of s' j = screen_of s1 j)"
  using kernel_buffer.terminal_read_line [OF assms(1-7) order_refl assms(8)] by blast

definition reader0 :: keyboard where
  "reader0 = set_cur ((terminal0 0)\<lparr>share_buf := [108, 115] @ 10 # replicate 125 0, typing_finish := 1\<rparr>) keyboard0"

lemma off_screen_low: "off_screen 0x1000 128"
proof -
  have "unat (0x1000 + of_nat i :: u32) \<noteq> unat (cell b (int k))" if "i < 128" "b \<in> text_pages" "k < 2000" for i b k
  proof -
    have "unat (0x1000 + of_nat i :: u32) = 4096 + i" using that(1) by (simp add: unat_word_ariths(1))
    moreover have "753664 \<le> unat (cell b (int k))"
      using unat_cell [OF that(2), of k] page_unat [OF that(2)] that(3) by auto
    ultimately show ?thesis using that(1) by simp
  qed
  then show ?thesis unfolding off_screen_def by (auto dest: arg_cong [of _ _ unat])
qed

theorem terminal_read_returns_line_witness:
  "\<exists>s'. terminal_read (kernel_get 0x1000) (kernel_put 0x1000) False (int 128) [] reader0
      = Some (int (length [108, 115 :: u8]) + 1, s')
    \<and> is_cstr (kernel_get 0x1000 s') ([108, 115] @ [10]) \<and> keyboard_ok s' \<and> typing_finish (terminals s' ! 0) = 0
    \<and> typed_buf (cur s') = replicate 128 0 \<and> curr_char_idx (cur s') = 0
    \<and> (\<forall>j<3. screen_of s' j = screen_of (sti reader0) j)"
proof (rule terminal_read_returns_line [where ?s1.0 = "sti reader0"])
  have t: "terminals reader0 ! 0 = (terminal0 0)\<lparr>share_buf := [108, 115] @ 10 # replicate 125 0, typing_finish := 1\<rparr>"
    "curr_running_terminal_idx reader0 = 0" "length (terminals reader0) = 3"
    by (simp_all add: reader0_def set_cur_def keyboard0_def console.defs console0_def)
  then show "wait_until line_ready [] (sti reader0) = Some (sti reader0)"
    by (simp add: line_ready_def aget_def)
  have "keyboard_ok reader0" unfolding reader0_def
    by (rule keyboard_ok_set_cur) (simp_all add: terminal_ok_def terminal0_def cursor_ok_def line_ok_def)
  then show "keyboard_ok (sti reader0)" using keyboard_ok_frame [of "sti reader0" reader0] by simp
  show "0 = nat (curr_running_terminal_idx (sti reader0))"
    "share_buf (terminals (sti reader0) ! 0) = [108, 115] @ 10 # replicate (127 - length [108, 115 :: u8]) 0"
    by (simp_all add: t)
qed (simp_all add: off_screen_low)

definition boot0 :: terminal_state where
  "boot0 = keyboard.extend keyboard0 (terminal_state.fields (replicate 6 0) 0)"

theorem terminal_init_ok_witness:
  "\<exists>s'. terminal_init boot0 = Some s' \<and> keyboard_ok s' \<and> curr_terminal_idx s' = 0
    \<and> phys_addr_available s' = replicate 6 1 \<and> flag_first_execute s' = 1
    \<and> (\<forall>i<3. fresh_terminal i (terminals s' ! i))"
proof (rule terminal_init_ok)
  have f: "terminals boot0 = map terminal0 [0, 1, 2]" "curr_running_terminal_idx boot0 = 0"
    "temp_curr_running_terminal_idx boot0 = 1" "sound_freq boot0 = 1200" "phys_addr_available boot0 = replicate 6 0"
    by (simp_all add: boot0_def keyboard.defs terminal_state.defs keyboard0_def console.defs console0_def)
  show "terminals_declared boot0" by (simp add: terminals_declared_def f terminal0_def)
qed (simp_all add: boot0_def keyboard.defs terminal_state.defs keyboard0_def console.defs console0_def sound_ok_def)

end
