(* ===== verification/FileSystem.thy ===== *)
theory FileSystem
  imports Terminal CMem
begin

text \<open>
  \<open>file_system.c\<close>: the read-only file system. The image is the kernel memory the module was loaded
  to: a boot block with the directory, one block per inode, then the data blocks, all reached through
  pointers. The lemmas relate the pointer code to the files it stores: a file is the list of its
  bytes, the directory the list of its entries.
\<close>

section \<open>Data\<close>

record dentry_t =
  file_name :: "u8 list"
  file_type :: int
  inode_idx :: u32
  dentry_reserved :: "u8 list"

text \<open>The four jump tables of the kernel are filled once with constant functions, so a pointer to one
  is its name.\<close>

datatype file_operation_table_t = stdin_jumptable | stdout_jumptable | RTC_jumptable | DIR_jumptable
  | FILE_jumptable

record file_descriptor_t =
  file_operation_table_ptr :: "file_operation_table_t option"
  fd_inode :: u32
  file_position :: u32
  fd_flags :: u32

record file_system = terminal_state +
  boot_block :: u32
  inode_addr :: u32
  curr_dir_dentry :: dentry_t
  curr_file_dentry :: dentry_t
  last_round :: int
  directory_index :: u32

section \<open>Layout of the image\<close>

text \<open>The structs \<open>boot_block_t\<close>, \<open>dentry_t\<close> (64 bytes each) and \<open>inode_block_t\<close>.\<close>

definition dir_num :: "u32 \<Rightarrow> mem \<Rightarrow> u32" where
  "dir_num bb m = load32 m bb"

definition inode_num :: "u32 \<Rightarrow> mem \<Rightarrow> u32" where
  "inode_num bb m = load32 m (bb + 4)"

definition data_block_num :: "u32 \<Rightarrow> mem \<Rightarrow> u32" where
  "data_block_num bb m = load32 m (bb + 8)"

definition dir_entry :: "u32 \<Rightarrow> nat \<Rightarrow> u32" where
  "dir_entry bb i = bb + 64 + of_nat (64 * i)"

definition inode_block :: "u32 \<Rightarrow> u32 \<Rightarrow> u32" where
  "inode_block ia ino = ia + 4096 * ino"

definition inode_length :: "u32 \<Rightarrow> u32 \<Rightarrow> mem \<Rightarrow> u32" where
  "inode_length ia ino m = load32 m (inode_block ia ino)"

definition data_block_idx :: "u32 \<Rightarrow> u32 \<Rightarrow> nat \<Rightarrow> mem \<Rightarrow> int" where
  "data_block_idx ia ino k m = sint (load32 m (inode_block ia ino + 4 + of_nat (4 * k)))"

section \<open>Operations\<close>

definition file_sys_init :: "u32 \<Rightarrow> 'z file_system_scheme \<Rightarrow> 'z file_system_scheme" where
  "file_sys_init start_addr s = s\<lparr>boot_block := start_addr, inode_addr := start_addr + 4096\<rparr>"

text \<open>Whether the first \<open>len\<close> characters of two strings agree, compared until they differ.\<close>

function same_chars :: "cstr \<Rightarrow> cstr \<Rightarrow> nat \<Rightarrow> nat \<Rightarrow> bool option" where
  "same_chars s1 s2 j len =
     (if j < len then do { a \<leftarrow> s1 j; b \<leftarrow> s2 j; if a \<noteq> b then Some False else same_chars s1 s2 (Suc j) len }
      else Some True)"
  by pat_completeness auto
termination
  by (relation "measure (\<lambda>(s1, s2, j, len). len - j)") auto

declare same_chars.simps [simp del]

text \<open>The search of \<open>read_dentry_by_name\<close>: the index of the entry, or no entry. \<open>dir_entry\<close> has 63
  elements; a name that fills its 32 bytes has no NUL of its own, so \<open>strlen\<close> reads on into the entry.\<close>

function find_dentry :: "u32 \<Rightarrow> mem \<Rightarrow> cstr \<Rightarrow> nat \<Rightarrow> nat option option" where
  "find_dentry bb m fname i =
     (if int i < sint (dir_num bb m) then
        do { n \<leftarrow> strlen fname;
             if i < 63 then
               do { let name = mem_get (dir_entry bb i) m;
                    n' \<leftarrow> strlen name;
                    let len = (if n > 32 then 32 else n);
                    let curr_file_len = (if n' > 32 then 32 else n');
                    if len \<noteq> curr_file_len then find_dentry bb m fname (Suc i)
                    else do { cmp_flag \<leftarrow> same_chars fname name 0 len;
                              if cmp_flag then Some (Some i) else find_dentry bb m fname (Suc i) } }
             else None }
      else Some None)"
  by pat_completeness auto
termination
  by (relation "measure (\<lambda>(bb, m, fname, i). nat (sint (dir_num bb m)) - i)") auto

declare find_dentry.simps [simp del]

text \<open>Copying an entry of the directory into \<open>*dentry\<close>.\<close>

definition load_dentry :: "u32 \<Rightarrow> mem \<Rightarrow> dentry_t \<Rightarrow> dentry_t option" where
  "load_dentry a m d =
     do { name \<leftarrow> for_opt 0 32 (\<lambda>i name. do { c \<leftarrow> mem_get a m i; aset name (int i) c }) (file_name d);
          Some (d\<lparr>file_name := name, file_type := sint (load32 m (a + 32)), inode_idx := load32 m (a + 36)\<rparr>) }"

definition read_dentry_by_name ::
  "u32 \<Rightarrow> mem \<Rightarrow> bool \<Rightarrow> cstr \<Rightarrow> dentry_t \<Rightarrow> (int \<times> dentry_t) option" where
  "read_dentry_by_name bb m is_null fname dentry =
     (if is_null then Some (-1, dentry)
      else do { found \<leftarrow> find_dentry bb m fname 0;
                case found of
                  Some i \<Rightarrow> do { d \<leftarrow> load_dentry (dir_entry bb i) m dentry; Some (0, d) }
                | None \<Rightarrow> Some (-1, dentry) })"

definition read_dentry_by_index :: "u32 \<Rightarrow> mem \<Rightarrow> u32 \<Rightarrow> dentry_t \<Rightarrow> (int \<times> dentry_t) option" where
  "read_dentry_by_index bb m index dentry =
     (if index \<ge> dir_num bb m then Some (-1, dentry)
      else if unat index < 63 then
        do { d \<leftarrow> load_dentry (dir_entry bb (unat index)) m dentry; Some (0, d) }
      else None)"

text \<open>The inner loop of \<open>read_data\<close>: bytes of one data block, from \<open>addr\<close> on, to \<open>buf[i]\<close>, until the
  block or the count ends. \<open>memof\<close> is the memory the image is read from, given the state of the
  destination. The count is an \<open>int32_t\<close>, undefined below its minimum.\<close>

function copy_block ::
  "('b \<Rightarrow> mem) \<Rightarrow> ('b \<Rightarrow> nat \<Rightarrow> u8 \<Rightarrow> 'b option) \<Rightarrow> u32 \<Rightarrow> nat \<Rightarrow> nat \<Rightarrow> int \<Rightarrow> 'b \<Rightarrow> (nat \<times> int \<times> 'b) option"
where
  "copy_block memof put base addr i len b =
     (if addr < 4096 then
        if len = -2147483648 then None
        else do { b \<leftarrow> put b i (memof b (base + of_nat addr));
                  if len - 1 = 0 then Some (Suc i, 0, b)
                  else copy_block memof put base (Suc addr) (Suc i) (len - 1) b }
      else Some (i, len, b))"
  by pat_completeness auto
termination
  by (relation "measure (\<lambda>(memof, put, base, addr, i, len, b). 4096 - addr)") auto

declare copy_block.simps [simp del]

text \<open>The outer loop; \<open>False\<close> is the early \<open>return -1\<close>.\<close>

function read_blocks ::
  "('b \<Rightarrow> mem) \<Rightarrow> ('b \<Rightarrow> nat \<Rightarrow> u8 \<Rightarrow> 'b option) \<Rightarrow> u32 \<Rightarrow> u32 \<Rightarrow> u32 \<Rightarrow> u32 \<Rightarrow> nat \<Rightarrow> nat \<Rightarrow> nat \<Rightarrow> int \<Rightarrow>
   'b \<Rightarrow> (bool \<times> 'b) option"
where
  "read_blocks memof put bb ia ino head blk addr i len b =
     (if len \<noteq> 0 then
        if blk < 1023 then
          let curr_data_idx = data_block_idx ia ino blk (memof b) in
          if curr_data_idx < 0 \<or> curr_data_idx \<ge> sint (data_block_num bb (memof b)) then Some (False, b)
          else if curr_data_idx * 4096 > 2147483647 then None
          else do { (i, len, b) \<leftarrow> copy_block memof put (head + word_of_int (curr_data_idx * 4096)) addr i len b;
                    read_blocks memof put bb ia ino head (Suc blk) 0 i len b }
        else None
      else Some (True, b))"
  by pat_completeness auto
termination
  by (relation "measure (\<lambda>(memof, put, bb, ia, ino, head, blk, addr, i, len, b). 1023 - blk)") auto

declare read_blocks.simps [simp del]

definition read_data ::
  "('b \<Rightarrow> mem) \<Rightarrow> ('b \<Rightarrow> nat \<Rightarrow> u8 \<Rightarrow> 'b option) \<Rightarrow> u32 \<Rightarrow> u32 \<Rightarrow> u32 \<Rightarrow> u32 \<Rightarrow> u32 \<Rightarrow> 'b \<Rightarrow> (int \<times> 'b) option"
where
  "read_data memof put bb ia inode offset length' b =
     (let m = memof b in
      if inode \<ge> inode_num bb m then Some (-1, b)
      else if inode_length ia inode m = 0 then Some (-1, b)
      else
        let data_block_head = ia + 4096 * inode_num bb m;
            offset_data_block_idx = unat (offset div 4096);
            offset_data_addr = unat (offset mod 4096);
            (copy_length, ret) =
              (if offset + length' \<le> inode_length ia inode m then (sint length', sint length')
               else (sint (inode_length ia inode m - offset), 0))
        in do { (done', b) \<leftarrow> read_blocks memof put bb ia inode data_block_head offset_data_block_idx
                                offset_data_addr 0 copy_length b;
                Some (if done' then ret else -1, b) })"

definition get_file_size :: "u32 \<Rightarrow> u32 \<Rightarrow> mem \<Rightarrow> int" where
  "get_file_size ia index m = sint (inode_length ia index m)"

definition file_open :: "bool \<Rightarrow> cstr \<Rightarrow> 'z file_system_scheme \<Rightarrow> (int \<times> 'z file_system_scheme) option" where
  "file_open is_null filename s =
     do { let s = s\<lparr>last_round := 0\<rparr>;
          (r, d) \<leftarrow> read_dentry_by_name (boot_block s) (phys s) is_null filename (curr_file_dentry s);
          Some (r, s\<lparr>curr_file_dentry := d\<rparr>) }"

definition file_close :: "'z file_system_scheme \<Rightarrow> int \<times> 'z file_system_scheme" where
  "file_close s = (0, s)"

text \<open>\<open>fd\<close> is the descriptor itself, cast to an integer; its new value is returned beside the state.\<close>

definition file_read ::
  "('z file_system_scheme \<Rightarrow> nat \<Rightarrow> u8 \<Rightarrow> 'z file_system_scheme option) \<Rightarrow> int \<Rightarrow> file_descriptor_t \<Rightarrow>
   'z file_system_scheme \<Rightarrow> (int \<times> file_descriptor_t \<times> 'z file_system_scheme) option" where
  "file_read put nbytes fd s =
     do { (len, s) \<leftarrow> read_data phys put (boot_block s) (inode_addr s) (fd_inode fd) (file_position fd)
            (word_of_int nbytes) s;
          let fd = fd\<lparr>file_position := file_position fd + word_of_int len\<rparr>;
          if len = 0 \<and> last_round s = 0 then
            Some (sint (inode_length (inode_addr s) (fd_inode fd) (phys s) - file_position fd), fd,
                  s\<lparr>last_round := 1\<rparr>)
          else if len = 0 \<and> last_round s = 1 then Some (0, fd, s\<lparr>last_round := 0\<rparr>)
          else Some (len, fd, s) }"

definition file_write :: "'z file_system_scheme \<Rightarrow> int \<times> 'z file_system_scheme" where
  "file_write s = (-1, s)"

text \<open>The result of \<open>read_dentry_by_name\<close> is not looked at; \<open>file_type\<close> may be an earlier one.\<close>

definition dir_open :: "bool \<Rightarrow> cstr \<Rightarrow> 'z file_system_scheme \<Rightarrow> (int \<times> 'z file_system_scheme) option" where
  "dir_open is_null filename s =
     do { (r, d) \<leftarrow> read_dentry_by_name (boot_block s) (phys s) is_null filename (curr_dir_dentry s);
          Some (if file_type d \<noteq> 1 then -1 else 0, s\<lparr>curr_dir_dentry := d\<rparr>) }"

definition dir_close :: "'z file_system_scheme \<Rightarrow> int \<times> 'z file_system_scheme" where
  "dir_close s = (0, s)"

text \<open>\<open>strlen\<close> of the name in the global \<open>curr_dir_dentry\<close> reads on into its \<open>file_type\<close> when the name
  fills its 32 bytes; \<open>dentry_bytes\<close> is the struct as bytes.\<close>

definition word_bytes :: "u32 \<Rightarrow> u8 list" where
  "word_bytes w = [ucast w, ucast (drop_bit 8 w), ucast (drop_bit 16 w), ucast (drop_bit 24 w)]"

definition dentry_bytes :: "dentry_t \<Rightarrow> u8 list" where
  "dentry_bytes d = file_name d @ word_bytes (word_of_int (file_type d)) @ word_bytes (inode_idx d)
     @ dentry_reserved d"

definition dir_read ::
  "('z file_system_scheme \<Rightarrow> nat \<Rightarrow> u8 \<Rightarrow> 'z file_system_scheme option) \<Rightarrow> 'z file_system_scheme \<Rightarrow>
   (int \<times> 'z file_system_scheme) option" where
  "dir_read put s =
     do { (ret, d) \<leftarrow> read_dentry_by_index (boot_block s) (phys s) (directory_index s) (curr_dir_dentry s);
          let s = s\<lparr>curr_dir_dentry := d, directory_index := directory_index s + 1\<rparr>;
          if ret = -1 then Some (0, s\<lparr>directory_index := 0\<rparr>)
          else
            do { n \<leftarrow> strlen (arr_get (dentry_bytes d));
                 let j = (if n > 32 then 32 else n);
                 s \<leftarrow> for_opt 0 j (\<lambda>j s. do { c \<leftarrow> aget (file_name (curr_dir_dentry s)) (int j); put s j c }) s;
                 Some (int j, s) } }"

definition dir_write :: "'z file_system_scheme \<Rightarrow> int \<times> 'z file_system_scheme" where
  "dir_write s = (-1, s)"

section \<open>Files as lists of bytes\<close>

definition file_address :: "u32 \<Rightarrow> u32 \<Rightarrow> u32 \<Rightarrow> mem \<Rightarrow> nat \<Rightarrow> u32" where
  "file_address bb ia ino m k =
     ia + 4096 * inode_num bb m + word_of_int (data_block_idx ia ino (k div 4096) m * 4096) + of_nat (k mod 4096)"

definition file_contents :: "u32 \<Rightarrow> u32 \<Rightarrow> u32 \<Rightarrow> mem \<Rightarrow> u8 list" where
  "file_contents bb ia ino m = map (\<lambda>k. m (file_address bb ia ino m k)) [0..<unat (inode_length ia ino m)]"

text \<open>An inode of a non-empty file whose blocks exist.\<close>

definition inode_ok :: "u32 \<Rightarrow> u32 \<Rightarrow> u32 \<Rightarrow> mem \<Rightarrow> bool" where
  "inode_ok bb ia ino m \<longleftrightarrow> ino < inode_num bb m \<and> 0 < unat (inode_length ia ino m)
     \<and> unat (inode_length ia ino m) \<le> 1023 * 4096
     \<and> (\<forall>k<unat (inode_length ia ino m). 0 \<le> data_block_idx ia ino (k div 4096) m
          \<and> data_block_idx ia ino (k div 4096) m < sint (data_block_num bb m)
          \<and> data_block_idx ia ino (k div 4096) m * 4096 \<le> 2147483647)"

text \<open>The addresses that reading the inode depends on.\<close>

definition footprint :: "u32 \<Rightarrow> u32 \<Rightarrow> u32 \<Rightarrow> mem \<Rightarrow> u32 set" where
  "footprint bb ia ino m = (\<lambda>j. bb + of_nat j) ` {..<12} \<union> (\<lambda>j. inode_block ia ino + of_nat j) ` {..<4096}
     \<union> file_address bb ia ino m ` {..<unat (inode_length ia ino m)}"

lemma length_file_contents [simp]: "length (file_contents bb ia ino m) = unat (inode_length ia ino m)"
  by (simp add: file_contents_def)

lemma take_drop_map_upt: "take n (drop p (map f [0..<L])) = map f [p..<min (p + n) L]"
  by (cases "p + n \<le> L") (simp_all add: take_map drop_map min_def)

lemma sint_small: "unat (w::u32) \<le> 2147483647 \<Longrightarrow> sint w = int (unat w)"
proof -
  assume "unat w \<le> 2147483647"
  then have "uint w \<le> 2147483647" using unat_eq_nat_uint [of w] by linarith
  then have "uint w < 2 ^ 31" by simp
  moreover have "- (2 ^ 31) \<le> uint w" by (rule order_trans [OF _ uint_ge_0]) simp
  ultimately have "signed_take_bit 31 (uint w) = uint w" by (rule signed_take_bit_int_eq_self [rotated])
  then show ?thesis by (simp add: sint_uint)
qed

lemma load32_cong:
  "(\<And>j. j < 4 \<Longrightarrow> m (a + of_nat j) = m' (a + of_nat j)) \<Longrightarrow> load32 m a = load32 m' a"
  using spec [of "\<lambda>j. j < 4 \<longrightarrow> m (a + of_nat j) = m' (a + of_nat j)" 0]
    spec [of "\<lambda>j. j < 4 \<longrightarrow> m (a + of_nat j) = m' (a + of_nat j)" 1]
    spec [of "\<lambda>j. j < 4 \<longrightarrow> m (a + of_nat j) = m' (a + of_nat j)" 2]
    spec [of "\<lambda>j. j < 4 \<longrightarrow> m (a + of_nat j) = m' (a + of_nat j)" 3]
  by (simp add: load32_def)

lemma footprint_agree:
  assumes "\<And>a. a \<in> footprint bb ia ino m \<Longrightarrow> m' a = m a"
  shows "inode_num bb m' = inode_num bb m" "data_block_num bb m' = data_block_num bb m"
    "inode_length ia ino m' = inode_length ia ino m"
    "k < 1023 \<Longrightarrow> data_block_idx ia ino k m' = data_block_idx ia ino k m"
proof -
  have boot: "m' (bb + of_nat j) = m (bb + of_nat j)" if "j < 12" for j
    using assms that unfolding footprint_def by blast
  have ino: "m' (inode_block ia ino + of_nat j) = m (inode_block ia ino + of_nat j)" if "j < 4096" for j
    using assms that unfolding footprint_def by blast
  show "inode_num bb m' = inode_num bb m" unfolding inode_num_def
    using boot [of "4 + j" for j] by (intro load32_cong) (simp add: add.assoc)
  show "data_block_num bb m' = data_block_num bb m" unfolding data_block_num_def
    using boot [of "8 + j" for j] by (intro load32_cong) (simp add: add.assoc)
  show "inode_length ia ino m' = inode_length ia ino m" unfolding inode_length_def
    using ino by (intro load32_cong) simp
  show "data_block_idx ia ino k m' = data_block_idx ia ino k m" if "k < 1023" unfolding data_block_idx_def
    using ino [of "4 + 4 * k + j" for j] that
    by (intro arg_cong [where f = sint] load32_cong) (simp add: add.assoc)
qed

text \<open>A destination whose first \<open>limit\<close> bytes are not part of the image \<open>m0\<close>: stores there keep what is
  read from the image.\<close>

locale file_buffer =
  fixes memof :: "'b \<Rightarrow> mem" and put :: "'b \<Rightarrow> nat \<Rightarrow> u8 \<Rightarrow> 'b option" and ok :: "'b \<Rightarrow> bool"
    and image :: "u32 set" and m0 :: mem and limit :: nat
  assumes put_ok: "ok b \<Longrightarrow> i < limit \<Longrightarrow> put b i x = Some b' \<Longrightarrow> ok b'"
    and ok_image: "ok b \<Longrightarrow> a \<in> image \<Longrightarrow> memof b a = m0 a"
begin

lemma put_list_ok: "put_list put b i xs = Some b' \<Longrightarrow> i + length xs \<le> limit \<Longrightarrow> ok b \<Longrightarrow> ok b'"
proof (induction xs arbitrary: b i)
  case (Cons x xs)
  then obtain c where c: "put b i x = Some c" "put_list put c (Suc i) xs = Some b'"
    by (auto split: Option.bind_splits)
  then have "ok c" using put_ok [of b i] Cons.prems by simp
  then show ?case using Cons.IH [OF c(2)] Cons.prems by simp
qed simp

lemma copy_block_eq:
  assumes "c = min (4096 - addr) n" "0 < n" "n \<le> 2147483647" "addr \<le> 4096" "ok b" "i + c \<le> limit"
    and "\<And>j. j < c \<Longrightarrow> base + of_nat (addr + j) \<in> image"
  shows "copy_block memof put base addr i (int n) b
    = map_option (\<lambda>b'. (i + c, int (n - c), b')) (put_list put b i (map (\<lambda>j. m0 (base + of_nat j)) [addr..<addr + c]))"
  using assms
proof (induction c arbitrary: addr i n b)
  case 0
  then have "addr = 4096" by (simp add: min_def split: if_splits)
  then show ?case by (simp add: copy_block.simps)
next
  case (Suc c)
  then have a: "addr < 4096" by simp
  have x: "memof b (base + of_nat addr) = m0 (base + of_nat addr)"
    using Suc.prems(7) [of 0] ok_image Suc.prems(5) by simp
  have l: "[addr..<Suc (addr + c)] = addr # [Suc addr..<Suc (addr + c)]" by (simp add: upt_conv_Cons)
  show ?case
  proof (cases "put b i (m0 (base + of_nat addr))")
    case None
    then show ?thesis using a x Suc.prems(2) by (simp add: copy_block.simps [of _ _ _ addr] l del: upt_Suc)
  next
    case (Some b')
    show ?thesis
    proof (cases "n = 1")
      case True
      then have "c = 0" using Suc.prems(1) by simp
      then show ?thesis using Some a x True by (simp add: copy_block.simps [of _ _ _ addr])
    next
      case False
      have IH: "copy_block memof put base (Suc addr) (Suc i) (int (n - 1)) b'
        = map_option (\<lambda>b''. (Suc i + c, int (n - 1 - c), b''))
            (put_list put b' (Suc i) (map (\<lambda>j. m0 (base + of_nat j)) [Suc addr..<Suc addr + c]))"
      proof (rule Suc.IH)
        show "base + of_nat (Suc addr + j) \<in> image" if "j < c" for j
          using Suc.prems(7) [of "Suc j"] that by simp
        show "ok b'" using put_ok [OF _ _ Some] Suc.prems(1,5,6) by simp
      qed (use Suc.prems(1-6) False in auto)
      have e: "int (n - 1) = int n - 1" using Suc.prems(2) by simp
      have ne: "int n - 1 \<noteq> 0" "int n \<noteq> - 2147483648" using Suc.prems(2) False by auto
      show ?thesis
        unfolding copy_block.simps [of memof put base addr] Let_def
        using Some a x ne IH [unfolded e]
        by (simp add: l del: upt_Suc of_nat_diff)
    qed
  qed
qed

lemma put_list_append_upt:
  "p \<le> q \<Longrightarrow> q \<le> r \<Longrightarrow> put_list put b i (map f [p..<r])
   = do { b' \<leftarrow> put_list put b i (map f [p..<q]); put_list put b' (i + (q - p)) (map f [q..<r]) }"
  using upt_add_eq_append [of p q "r - q"] by (simp add: put_list_append)

lemma read_blocks_eq:
  assumes inode: "inode_ok bb ia ino m0" and foot: "footprint bb ia ino m0 \<subseteq> image"
    and "ok b" "addr < 4096" "blk * 4096 + addr + n \<le> unat (inode_length ia ino m0)" "n \<le> 2147483647" "i + n \<le> limit"
    and head: "head = ia + 4096 * inode_num bb m0"
  shows "read_blocks memof put bb ia ino head blk addr i (int n) b
    = map_option (Pair True) (put_list put b i
        (map (\<lambda>k. m0 (file_address bb ia ino m0 k)) [blk * 4096 + addr..<blk * 4096 + addr + n]))"
  using assms(3-7)
proof (induction n arbitrary: blk addr i b rule: less_induct)
  case (less n)
  show ?case
  proof (cases "n = 0")
    case True
    then show ?thesis by (simp add: read_blocks.simps)
  next
    case False
    define p where "p = blk * 4096 + addr"
    define c where "c = min (4096 - addr) n"
    define idx where "idx = data_block_idx ia ino blk m0"
    have p: "p < unat (inode_length ia ino m0)" "p div 4096 = blk" "p mod 4096 = addr"
      using less.prems False by (auto simp: p_def)
    then have blk: "blk < 1023" using inode unfolding inode_ok_def by linarith
    have agree: "memof b a = m0 a" if "a \<in> footprint bb ia ino m0" for a
      using that foot ok_image less.prems(1) by blast
    have idx_b: "data_block_idx ia ino blk (memof b) = idx" "data_block_num bb (memof b) = data_block_num bb m0"
      using footprint_agree [OF agree] blk by (simp_all add: idx_def)
    have idx: "0 \<le> idx" "idx < sint (data_block_num bb m0)" "idx * 4096 \<le> 2147483647"
      using inode p unfolding inode_ok_def idx_def by blast+
    define base where "base = head + word_of_int (idx * 4096)"
    have addr: "base + of_nat (addr + j) = file_address bb ia ino m0 (p + j)" if "j < c" for j
    proof -
      have "addr + j < 4096" using that unfolding c_def by linarith
      then have "(p + j) div 4096 = blk" "(p + j) mod 4096 = addr + j"
        by (auto simp: p_def add.assoc)
      then show ?thesis by (simp add: file_address_def base_def head idx_def)
    qed
    have "file_address bb ia ino m0 (p + j) \<in> image" if "j < c" for j
    proof -
      have "p + j < unat (inode_length ia ino m0)"
        using that less.prems(3) unfolding c_def p_def by linarith
      then show ?thesis using foot unfolding footprint_def by blast
    qed
    then have copy: "copy_block memof put base addr i (int n) b
      = map_option (\<lambda>b'. (i + c, int (n - c), b'))
          (put_list put b i (map (\<lambda>j. m0 (base + of_nat j)) [addr..<addr + c]))"
      using False less.prems addr by (intro copy_block_eq) (simp_all add: c_def)
    have run: "map (\<lambda>j. m0 (base + of_nat j)) [addr..<addr + c]
      = map (\<lambda>k. m0 (file_address bb ia ino m0 k)) [p..<p + c]"
      using addr by (intro nth_equalityI) (simp_all del: of_nat_add)
    have rest: "read_blocks memof put bb ia ino head (Suc blk) 0 (i + c) (int (n - c)) b'
      = map_option (Pair True) (put_list put b' (i + c) (map (\<lambda>k. m0 (file_address bb ia ino m0 k)) [p + c..<p + n]))"
      if "ok b'" "i + n \<le> limit" for b'
    proof (cases "n - c = 0")
      case True
      then show ?thesis by (simp add: read_blocks.simps c_def)
    next
      case 2: False
      then have c: "c = 4096 - addr" by (simp add: c_def min_def split: if_splits)
      then have e: "p + c = Suc blk * 4096 + 0" "p + n = Suc blk * 4096 + 0 + (n - c)"
        using less.prems(2) 2 by (simp_all add: p_def)
      have "n - c < n" "i + c + (n - c) \<le> limit" using c 2 that(2) less.prems(2) False by simp_all
      then show ?thesis
        unfolding e using that less.prems less.IH [of "n - c" b' 0 "Suc blk" "i + c"] e(2) by (simp add: p_def)
    qed
    have step: "read_blocks memof put bb ia ino head blk addr i (int n) b
      = do { (i, len, b) \<leftarrow> copy_block memof put base addr i (int n) b;
             read_blocks memof put bb ia ino head (Suc blk) 0 i len b }"
      using False blk idx idx_b by (subst read_blocks.simps) (simp add: Let_def base_def)
    have c: "p \<le> p + c" "p + c \<le> p + n" by (simp_all add: c_def)
    show ?thesis
      unfolding step copy run p_def [symmetric] put_list_append_upt [OF c]
      using put_list_ok [of b i "map (\<lambda>k. m0 (file_address bb ia ino m0 k)) [p..<p + c]"] rest less.prems(1,5) c
      by (cases "put_list put b i (map (\<lambda>k. m0 (file_address bb ia ino m0 k)) [p..<p + c])")
         (simp_all del: of_nat_diff)
  qed
qed

text \<open>Reading a range that starts inside the file, or at its end.\<close>

lemma read_data_eq:
  assumes inode: "inode_ok bb ia ino m0" and foot: "footprint bb ia ino m0 \<subseteq> image" and "ok b"
    and off: "unat off \<le> unat (inode_length ia ino m0)" and n: "unat n \<le> 2147483647"
    and lim: "min (unat n) (unat (inode_length ia ino m0) - unat off) \<le> limit"
  shows "read_data memof put bb ia ino off n b
    = map_option (Pair (if unat off + unat n \<le> unat (inode_length ia ino m0) then int (unat n) else 0))
        (put_list put b 0 (take (unat n) (drop (unat off) (file_contents bb ia ino m0))))"
proof -
  define L where "L = unat (inode_length ia ino m0)"
  have agree: "memof b a = m0 a" if "a \<in> footprint bb ia ino m0" for a
    using that foot ok_image \<open>ok b\<close> by blast
  note fields = footprint_agree [OF agree]
  have L: "L \<le> 4190208" "0 < L" using inode by (simp_all add: inode_ok_def L_def)
  have off': "uint off = int (unat off)" "uint n = int (unat n)" by simp_all
  have sum: "unat (off + n) = unat off + unat n"
    using off n L by (simp add: unat_word_ariths L_def [symmetric])
  have le: "off + n \<le> inode_length ia ino m0 \<longleftrightarrow> unat off + unat n \<le> L"
    by (simp add: word_le_nat_alt sum L_def)
  have diff: "sint (inode_length ia ino m0 - off) = int (L - unat off)"
    using off L by (subst sint_small) (simp_all add: unat_sub L_def word_le_nat_alt)
  have n_s: "sint n = int (unat n)" using n by (rule sint_small)
  have p: "unat (off div 4096) * 4096 + unat (off mod 4096) = unat off" "unat (off mod 4096) < 4096"
    by (simp_all add: unat_div unat_mod)
  have bytes: "take k (drop (unat off) (file_contents bb ia ino m0))
      = map (\<lambda>k. m0 (file_address bb ia ino m0 k)) [unat off..<min (unat off + k) L]" for k
    by (simp add: file_contents_def L_def take_drop_map_upt)
  have blocks: "read_blocks memof put bb ia ino (ia + 4096 * inode_num bb m0) (unat (off div 4096)) (unat (off mod 4096))
      0 (int k) b = map_option (Pair True) (put_list put b 0 (take k (drop (unat off) (file_contents bb ia ino m0))))"
    if "unat off + k \<le> L" "k \<le> 2147483647" "k \<le> limit" for k
    using read_blocks_eq [OF inode foot \<open>ok b\<close> p(2), of "unat (off div 4096)" k 0, OF _ _ _ refl] that p(1)
    by (simp add: L_def [symmetric] bytes)
  have ino: "\<not> inode_num bb m0 \<le> ino" "inode_length ia ino m0 \<noteq> 0"
    using inode by (auto simp: inode_ok_def)
  show ?thesis
  proof (cases "unat off + unat n \<le> L")
    case True
    then show ?thesis
      using ino blocks [of "unat n"] n le n_s lim
      by (simp add: read_data_def fields Let_def L_def [symmetric] map_option_case split: option.split)
  next
    case False
    moreover have "take (unat n) (drop (unat off) (file_contents bb ia ino m0))
        = take (L - unat off) (drop (unat off) (file_contents bb ia ino m0))"
      using False by (simp add: L_def)
    ultimately show ?thesis
      using ino blocks [of "L - unat off"] off L le diff lim
      by (simp add: read_data_def fields Let_def L_def [symmetric] map_option_case split: option.split)
  qed
qed

end

text \<open>Local arrays of the kernel are not part of the image.\<close>

interpretation array_buffer: file_buffer "\<lambda>_. m" arr_put "\<lambda>_. True" UNIV m limit for m limit
  by unfold_locales auto

section \<open>The directory\<close>

text \<open>The name of an entry: its bytes up to a NUL, all 32 when there is none.\<close>

definition entry_name :: "u32 \<Rightarrow> mem \<Rightarrow> nat \<Rightarrow> u8 list" where
  "entry_name bb m i = takeWhile (\<lambda>c. c \<noteq> 0) (map (\<lambda>j. m (dir_entry bb i + of_nat j)) [0..<32])"

definition directory_ok :: "u32 \<Rightarrow> mem \<Rightarrow> bool" where
  "directory_ok bb m \<longleftrightarrow> unat (dir_num bb m) \<le> 63
     \<and> (\<forall>i<unat (dir_num bb m). \<exists>j<64. m (dir_entry bb i + of_nat j) = 0)"

lemma length_entry_name: "length (entry_name bb m i) \<le> 32"
  using length_takeWhile_le [of "\<lambda>c. c \<noteq> 0" "map (\<lambda>j. m (dir_entry bb i + of_nat j)) [0..<32]"]
  by (simp add: entry_name_def)

lemma take_takeWhile: "take n (takeWhile P xs) = takeWhile P (take n xs)"
  by (induction xs arbitrary: n) (auto simp: take_Cons split: nat.split)

lemma directory_name_cstr:
  assumes "directory_ok bb m" "i < unat (dir_num bb m)"
  obtains ys where "is_cstr (mem_get (dir_entry bb i) m) ys" "take 32 ys = entry_name bb m i"
proof -
  let ?f = "\<lambda>j. m (dir_entry bb i + of_nat j)"
  let ?ys = "takeWhile (\<lambda>c. c \<noteq> 0) (map ?f [0..<64])"
  have "\<exists>j<64. ?f j = 0" using assms by (simp add: directory_ok_def)
  then have "0 \<in> set (map ?f [0..<64])" by (force simp: image_iff)
  then have "is_cstr (arr_get (map ?f [0..<64])) ?ys" by (rule is_cstr_arr)
  moreover have "length ?ys \<le> 64" by (metis length_map length_takeWhile_le length_upt minus_nat.diff_0)
  ultimately have "is_cstr (mem_get (dir_entry bb i) m) ?ys"
    unfolding is_cstr_def by (auto simp: arr_get_def mem_get_def split: if_splits)
  moreover have "take 32 ?ys = entry_name bb m i"
    by (simp add: take_takeWhile entry_name_def take_map)
  ultimately show ?thesis by (rule that)
qed

lemma same_chars_eq:
  assumes "\<And>k. k < len \<Longrightarrow> s1 k = Some (f k)" "\<And>k. k < len \<Longrightarrow> s2 k = Some (g k)"
  shows "same_chars s1 s2 j len = Some (\<forall>k. j \<le> k \<and> k < len \<longrightarrow> f k = g k)"
  using assms
proof (induction s1 s2 j len rule: same_chars.induct)
  case (1 s1 s2 j len)
  show ?case
  proof (cases "j < len \<and> f j = g j")
    case True
    then have "(\<forall>k. j \<le> k \<and> k < len \<longrightarrow> f k = g k) \<longleftrightarrow> (\<forall>k. Suc j \<le> k \<and> k < len \<longrightarrow> f k = g k)"
      by (metis Suc_leD le_neq_implies_less not_less_eq_eq Suc_leI)
    with True 1 show ?thesis by (simp add: same_chars.simps [of s1 s2 j])
  next
    case False
    then show ?thesis using 1(2,3) by (auto simp: same_chars.simps [of s1 s2 j])
  qed
qed

text \<open>The search finds the first entry whose name is the wanted one, both cut to 32 characters.\<close>

lemma find_dentry_eq:
  assumes dir: "directory_ok bb m" and name: "is_cstr fname xs" and "i \<le> unat (dir_num bb m)"
  shows "find_dentry bb m fname i
    = Some (let k = i + first_index (\<lambda>j. entry_name bb m j = take 32 xs) [i..<unat (dir_num bb m)]
            in if k < unat (dir_num bb m) then Some k else None)"
  using assms(3)
proof (induction "unat (dir_num bb m) - i" arbitrary: i)
  case 0
  then have i: "i = unat (dir_num bb m)" by simp
  show ?case
    using dir unfolding i by (subst find_dentry.simps) (simp add: directory_ok_def sint_small)
next
  case (Suc d)
  then have i: "i < unat (dir_num bb m)" "i < 63" using dir by (auto simp: directory_ok_def)
  have "sint (dir_num bb m) = int (unat (dir_num bb m))" using dir by (intro sint_small) (simp add: directory_ok_def)
  then have guard: "int i < sint (dir_num bb m)" using i(1) by (simp only: of_nat_less_iff)
  obtain ys where ys: "is_cstr (mem_get (dir_entry bb i) m) ys" "take 32 ys = entry_name bb m i"
    using directory_name_cstr [OF dir i(1)] .
  have l: "[i..<unat (dir_num bb m)] = i # [Suc i..<unat (dir_num bb m)]" using i by (simp add: upt_conv_Cons)
  have IH: "find_dentry bb m fname (Suc i)
    = Some (let k = Suc i + first_index (\<lambda>j. entry_name bb m j = take 32 xs) [Suc i..<unat (dir_num bb m)]
            in if k < unat (dir_num bb m) then Some k else None)"
    using Suc i by (intro Suc.hyps) simp_all
  have same: "same_chars fname (mem_get (dir_entry bb i) m) 0 n = Some (\<forall>k<n. xs ! k = ys ! k)"
    if "n \<le> length xs" "n \<le> length ys" for n
    using that is_cstrD(1) [OF name] is_cstrD(1) [OF ys(1)]
    by (subst same_chars_eq [where f = "(!) xs" and g = "(!) ys"]) simp_all
  have eq: "take 32 ys = take 32 xs \<longleftrightarrow> min 32 (length xs) = min 32 (length ys)
      \<and> (\<forall>k<min 32 (length xs). xs ! k = ys ! k)"
    by (auto simp: list_eq_iff_nth_eq)
  have clamp: "(if 32 < n then 32 else n) = min 32 n" for n :: nat by simp
  define hit where "hit \<longleftrightarrow> (\<forall>k<min 32 (length xs). xs ! k = ys ! k)"
  have cmp: "min 32 (length xs) = min 32 (length ys) \<Longrightarrow>
      same_chars fname (mem_get (dir_entry bb i) m) 0 (min 32 (length ys)) = Some hit"
    using same [of "min 32 (length xs)"] by (auto simp: hit_def)
  have "find_dentry bb m fname i
      = (if entry_name bb m i = take 32 xs then Some (Some i) else find_dentry bb m fname (Suc i))"
    unfolding ys(2) [symmetric] eq hit_def [symmetric] using cmp i guard
    by (subst find_dentry.simps)
       (auto simp: strlen_cstr [OF name] strlen_cstr [OF ys(1)] Let_def clamp)
  then show ?case using i by (simp add: IH l Let_def)
qed

definition dentry_at :: "u32 \<Rightarrow> mem \<Rightarrow> nat \<Rightarrow> dentry_t \<Rightarrow> dentry_t" where
  "dentry_at bb m i d = d\<lparr>file_name := map (\<lambda>j. m (dir_entry bb i + of_nat j)) [0..<32],
     file_type := sint (load32 m (dir_entry bb i + 32)), inode_idx := load32 m (dir_entry bb i + 36)\<rparr>"

lemma load_dentry_eq:
  assumes "length (file_name d) = 32"
  shows "load_dentry (dir_entry bb i) m d = Some (dentry_at bb m i d)"
proof -
  let ?f = "\<lambda>j. m (dir_entry bb i + of_nat j)"
  have "for_opt 0 k (\<lambda>i' name. do { c \<leftarrow> mem_get (dir_entry bb i) m i'; aset name (int i') c }) (file_name d)
      = Some (map ?f [0..<k] @ drop k (file_name d))" if "k \<le> 32" for k
    using that
  proof (induction k)
    case (Suc k)
    then show ?case
      using assms by (simp add: for_opt_Suc mem_get_def aset_in list_update_append Cons_nth_drop_Suc [symmetric])
  qed simp
  from this [of 32] show ?thesis using assms by (simp add: load_dentry_def dentry_at_def)
qed

lemma read_dentry_by_name_eq:
  assumes "directory_ok bb m" "is_cstr fname xs" "length (file_name d) = 32"
    and "k = first_index (\<lambda>j. entry_name bb m j = take 32 xs) [0..<unat (dir_num bb m)]"
  shows "read_dentry_by_name bb m False fname d
    = Some (if k < unat (dir_num bb m) then (0, dentry_at bb m k d) else (-1, d))"
  using find_dentry_eq [OF assms(1,2), of 0] load_dentry_eq [OF assms(3)] assms(4)
  by (simp add: read_dentry_by_name_def Let_def)

lemma read_dentry_by_index_eq:
  "directory_ok bb m \<Longrightarrow> length (file_name d) = 32 \<Longrightarrow> read_dentry_by_index bb m index d
    = Some (if unat index < unat (dir_num bb m) then (0, dentry_at bb m (unat index) d) else (-1, d))"
  by (auto simp: read_dentry_by_index_def load_dentry_eq directory_ok_def word_le_nat_alt)

text \<open>C27. In a well-formed directory (at most 63 entries) \<open>read_dentry_by_name\<close> finds the first entry
  whose name is the given string, both cut to 32 characters, and copies its name, type and inode;
  when there is none it returns \<open>-1\<close> and leaves \<open>*dentry\<close> alone. So a name that \<open>read_dentry_by_index\<close>
  delivers is found again at the first entry that has it.\<close>

theorem read_dentry_by_name_finds_first:
  assumes "directory_ok bb m" "is_cstr fname xs" "length (file_name d) = 32"
  shows "(\<exists>i<unat (dir_num bb m). entry_name bb m i = take 32 xs \<and> (\<forall>j<i. entry_name bb m j \<noteq> take 32 xs)
        \<and> read_dentry_by_name bb m False fname d = Some (0, dentry_at bb m i d)
        \<and> read_dentry_by_index bb m (of_nat i) d = Some (0, dentry_at bb m i d))
    \<or> (\<forall>i<unat (dir_num bb m). entry_name bb m i \<noteq> take 32 xs)
        \<and> read_dentry_by_name bb m False fname d = Some (-1, d)"
proof -
  let ?n = "unat (dir_num bb m)" and ?p = "\<lambda>j. entry_name bb m j = take 32 xs"
  define k where "k = first_index ?p [0..<?n]"
  note read = read_dentry_by_name_eq [OF assms k_def]
  show ?thesis
  proof (cases "k < ?n")
    case True
    then have "?p k" "\<forall>j<k. \<not> ?p j"
      using first_index_nth [of ?p "[0..<?n]"] first_index_before [of _ ?p "[0..<?n]"] by (auto simp: k_def)
    moreover have "read_dentry_by_index bb m (of_nat k) d = Some (0, dentry_at bb m k d)"
      using True assms by (simp add: read_dentry_by_index_eq directory_ok_def)
    ultimately show ?thesis using True read by auto
  next
    case False
    then have "\<forall>i<?n. \<not> ?p i"
      using first_index_less [of ?p "[0..<?n]"] by (auto simp: k_def)
    then show ?thesis using False read by auto
  qed
qed

text \<open>The boot block, which holds the directory.\<close>

definition boot_region :: "u32 \<Rightarrow> u32 set" where
  "boot_region bb = (\<lambda>j. bb + of_nat j) ` {..<4096}"

lemma boot_region_agree:
  assumes "\<And>a. a \<in> boot_region bb \<Longrightarrow> m' a = m a"
  shows "dir_num bb m' = dir_num bb m"
    "i < 63 \<Longrightarrow> j < 64 \<Longrightarrow> m' (dir_entry bb i + of_nat j) = m (dir_entry bb i + of_nat j)"
    "i < 63 \<Longrightarrow> entry_name bb m' i = entry_name bb m i"
    "i < 63 \<Longrightarrow> dentry_at bb m' i d = dentry_at bb m i d"
    "directory_ok bb m' = directory_ok bb m"
proof -
  have at: "m' (bb + of_nat j) = m (bb + of_nat j)" if "j < 4096" for j
    using assms that unfolding boot_region_def by blast
  show num: "dir_num bb m' = dir_num bb m" unfolding dir_num_def
    using at by (intro load32_cong) simp
  show entry: "m' (dir_entry bb i + of_nat j) = m (dir_entry bb i + of_nat j)" if "i < 63" "j < 64" for i j
    using at [of "64 + 64 * i + j"] that by (simp add: dir_entry_def add.assoc)
  have name: "map (\<lambda>j. m' (dir_entry bb i + of_nat j)) [0..<32] = map (\<lambda>j. m (dir_entry bb i + of_nat j)) [0..<32]"
    if "i < 63" for i
    using entry [OF that] by (intro map_cong) auto
  show "entry_name bb m' i = entry_name bb m i" if "i < 63"
    by (simp only: entry_name_def name [OF that])
  have "load32 m' (dir_entry bb i + k) = load32 m (dir_entry bb i + k)" if "i < 63" "k = of_nat n" "n + 4 \<le> 64" for k n
    using entry [of i "n + j" for j] that by (intro load32_cong) (simp add: add.assoc)
  from this [of "32" 32] this [of "36" 36] show "dentry_at bb m' i d = dentry_at bb m i d" if "i < 63"
    using that by (simp add: dentry_at_def name [OF that] del: map_eq_conv)
  have "(\<exists>j<64. m' (dir_entry bb i + of_nat j) = 0) \<longleftrightarrow> (\<exists>j<64. m (dir_entry bb i + of_nat j) = 0)" if "i < 63" for i
    using entry [OF that] by auto
  then show "directory_ok bb m' = directory_ok bb m"
    unfolding directory_ok_def num by (meson order_less_le_trans)
qed

section \<open>Reading files\<close>

text \<open>C26. \<open>read_data\<close> with a start inside the file stores exactly the requested bytes of the file, as many as
  there are, at the front of the buffer, and nothing else; it returns the count when all of them
  existed and \<open>0\<close> at the end of the file. No loop runs forever and no block outside the image is read.\<close>

theorem read_data_reads_file:
  assumes "inode_ok bb ia ino m" "unat off \<le> unat (inode_length ia ino m)" "unat n \<le> 2147483647"
    and "data = take (unat n) (drop (unat off) (file_contents bb ia ino m))" "length data \<le> length buf"
  shows "read_data (\<lambda>_. m) arr_put bb ia ino off n buf
    = Some (if unat off + unat n \<le> unat (inode_length ia ino m) then int (unat n) else 0,
        data @ drop (length data) buf)"
proof -
  have "put_list arr_put buf 0 data = Some (data @ drop (length data) buf)"
    using arr_put_list_eq [of 0 data buf] assms(5) by simp
  then show ?thesis
    using array_buffer.read_data_eq [OF assms(1) subset_UNIV TrueI assms(2,3) order_refl] assms(4) by simp
qed

text \<open>A program that reads a file to its end, \<open>n\<close> bytes at a time, as \<open>cat\<close> does.\<close>

fun read_chunks ::
  "('z file_system_scheme \<Rightarrow> nat \<Rightarrow> u8 \<Rightarrow> 'z file_system_scheme option) \<Rightarrow> ('z file_system_scheme \<Rightarrow> cstr) \<Rightarrow>
   nat \<Rightarrow> nat \<Rightarrow> file_descriptor_t \<Rightarrow> 'z file_system_scheme \<Rightarrow> (u8 list \<times> 'z file_system_scheme) option"
where
  "read_chunks put get n 0 fd s = None"
| "read_chunks put get n (Suc fuel) fd s =
     do { (r, fd, s) \<leftarrow> file_read put (int n) fd s;
          if r \<le> 0 then Some ([], s)
          else do { (xs, s') \<leftarrow> read_chunks put get n fuel fd s;
                    Some (map (\<lambda>j. the (get s j)) [0..<nat r] @ xs, s') } }"

locale fs_destination = file_buffer phys put ok image m0 limit
  for put :: "'z file_system_scheme \<Rightarrow> nat \<Rightarrow> u8 \<Rightarrow> 'z file_system_scheme option"
    and ok image m0 limit +
  fixes get :: "'z file_system_scheme \<Rightarrow> cstr"
  assumes put_phys: "put s i x = Some s' \<Longrightarrow> \<exists>m. s' = s\<lparr>phys := m\<rparr>"
    and put_defined: "ok s \<Longrightarrow> i < limit \<Longrightarrow> \<exists>s'. put s i x = Some s'"
    and get_put: "ok s \<Longrightarrow> i < limit \<Longrightarrow> j < limit \<Longrightarrow> put s i x = Some s' \<Longrightarrow>
      get s' j = (if j = i then Some x else get s j)"
    and get_fields: "get (s\<lparr>curr_dir_dentry := d, last_round := v, directory_index := k\<rparr>) = get s"
    and ok_fields: "ok s \<Longrightarrow> ok (s\<lparr>curr_dir_dentry := d, last_round := v, directory_index := k\<rparr>)"
begin

lemma get_last_round: "get (s\<lparr>last_round := v\<rparr>) = get s"
  using get_fields [where s = s and d = "curr_dir_dentry s" and v = v and k = "directory_index s"] by simp

lemma ok_last_round: "ok s \<Longrightarrow> ok (s\<lparr>last_round := v\<rparr>)"
  using ok_fields [where s = s and d = "curr_dir_dentry s" and v = v and k = "directory_index s"] by simp

lemma put_list_stored:
  "ok s \<Longrightarrow> i + length xs \<le> limit \<Longrightarrow> \<exists>s' m. put_list put s i xs = Some s' \<and> ok s' \<and> s' = s\<lparr>phys := m\<rparr>
    \<and> (\<forall>j<limit. get s' j = (if i \<le> j \<and> j < i + length xs then Some (xs ! (j - i)) else get s j))"
proof (induction xs arbitrary: s i)
  case Nil
  then show ?case by (auto intro: exI [of _ "phys s"])
next
  case (Cons x xs)
  then have i: "i < limit" by simp
  obtain s1 m where s1: "put s i x = Some s1" "s1 = s\<lparr>phys := m\<rparr>"
    using put_defined [OF Cons.prems(1) i] put_phys by blast
  have ok1: "ok s1" using put_ok [OF Cons.prems(1) i s1(1)] .
  obtain s' m' where s': "put_list put s1 (Suc i) xs = Some s'" "ok s'" "s' = s1\<lparr>phys := m'\<rparr>"
      "\<forall>j<limit. get s' j = (if Suc i \<le> j \<and> j < Suc i + length xs then Some (xs ! (j - Suc i)) else get s1 j)"
    using Cons.IH [OF ok1, of "Suc i"] Cons.prems(2) by auto
  have "get s' j = (if i \<le> j \<and> j < i + length (x # xs) then Some ((x # xs) ! (j - i)) else get s j)"
    if "j < limit" for j
    using s'(4) that get_put [OF Cons.prems(1) i that s1(1)] by (auto simp: nth_Cons')
  then show ?case using s' s1 by auto
qed

lemma put_list_phys: "put_list put s i xs = Some s' \<Longrightarrow> \<exists>m. s' = s\<lparr>phys := m\<rparr>"
proof (induction xs arbitrary: s i)
  case Nil
  then show ?case by (auto intro: exI [of _ "phys s"])
next
  case (Cons x xs)
  then obtain t where t: "put s i x = Some t" "put_list put t (Suc i) xs = Some s'"
    by (auto split: Option.bind_splits)
  from put_phys [OF t(1)] Cons.IH [OF t(2)] show ?case by auto
qed

lemma file_read_eq:
  assumes ok: "ok s" and inode: "inode_ok (boot_block s) (inode_addr s) (fd_inode fd) m0"
    and foot: "footprint (boot_block s) (inode_addr s) (fd_inode fd) m0 \<subseteq> image"
    and L: "L = unat (inode_length (inode_addr s) (fd_inode fd) m0)" and pos: "pos = unat (file_position fd)" "pos \<le> L"
    and n: "0 < n" "n \<le> 2147483647" "n \<le> limit" and round: "last_round s \<in> {0, 1}"
    and data: "data = take n (drop pos (file_contents (boot_block s) (inode_addr s) (fd_inode fd) m0))"
  shows "\<exists>s' m. s' = s\<lparr>phys := m\<rparr> \<and> ok s' \<and> (\<forall>j<length data. get s' j = Some (data ! j)) \<and>
    file_read put (int n) fd s
      = Some (if pos + n \<le> L then (int n, fd\<lparr>file_position := of_nat (pos + n)\<rparr>, s')
          else if last_round s = 0 then (int (L - pos), fd, s'\<lparr>last_round := 1\<rparr>)
          else (0, fd, s'\<lparr>last_round := 0\<rparr>))"
proof -
  let ?bb = "boot_block s" and ?ia = "inode_addr s" and ?ino = "fd_inode fd"
  have Lb: "L \<le> 4190208" using inode L by (simp add: inode_ok_def)
  have un: "unat (word_of_int (int n) :: u32) = n" using n by simp
  have len: "length data \<le> n" using data by simp
  obtain s' m where s': "put_list put s 0 data = Some s'" "ok s'" "s' = s\<lparr>phys := m\<rparr>"
      "\<forall>j<limit. get s' j = (if j < length data then Some (data ! j) else get s j)"
    using put_list_stored [OF ok, of 0 data] len n(3) by auto
  have read: "read_data phys put ?bb ?ia ?ino (file_position fd) (word_of_int (int n)) s
    = Some (if pos + n \<le> L then int n else 0, s')"
    using read_data_eq [OF inode foot ok, of "file_position fd" "word_of_int (int n)"] pos n(2,3) un s'(1) data L
    by simp
  have "phys s' a = m0 a" if "a \<in> footprint ?bb ?ia ?ino m0" for a
    using ok_image [OF s'(2)] that foot by blast
  from footprint_agree(3) [OF this] have il: "inode_length ?ia ?ino (phys s') = inode_length ?ia ?ino m0" .
  have diff: "sint (inode_length ?ia ?ino m0 - file_position fd) = int (L - pos)"
    using pos L Lb by (subst sint_small) (simp_all add: unat_sub word_le_nat_alt)
  have "file_position fd + word_of_int (int n) = of_nat (pos + n)"
    using pos by simp
  then have "file_read put (int n) fd s
      = Some (if pos + n \<le> L then (int n, fd\<lparr>file_position := of_nat (pos + n)\<rparr>, s')
          else if last_round s = 0 then (int (L - pos), fd, s'\<lparr>last_round := 1\<rparr>)
          else (0, fd, s'\<lparr>last_round := 0\<rparr>))"
    using read s'(3) round n(1) il diff by (auto simp: file_read_def)
  then show ?thesis using s' len n(3) by auto
qed

lemma read_chunks_eq:
  assumes inode: "inode_ok bb ia ino m0" and foot: "footprint bb ia ino m0 \<subseteq> image"
    and n: "0 < n" "n \<le> 2147483647" "n \<le> limit"
  shows "ok s \<Longrightarrow> boot_block s = bb \<Longrightarrow> inode_addr s = ia \<Longrightarrow> fd_inode fd = ino \<Longrightarrow> last_round s = 0 \<Longrightarrow>
    unat (file_position fd) \<le> unat (inode_length ia ino m0) \<Longrightarrow>
    (unat (inode_length ia ino m0) - unat (file_position fd)) div n + 2 \<le> fuel \<Longrightarrow>
    \<exists>s'. read_chunks put get n fuel fd s = Some (drop (unat (file_position fd)) (file_contents bb ia ino m0), s') \<and> ok s'"
proof (induction fuel arbitrary: fd s)
  case (Suc fuel)
  let ?L = "unat (inode_length ia ino m0)" and ?F = "file_contents bb ia ino m0"
  define pos where "pos = unat (file_position fd)"
  have pos: "pos \<le> ?L" "?L \<le> 4190208" using Suc.prems inode by (simp_all add: pos_def inode_ok_def)
  note args = refl _ refl n
  obtain s1 m1 where s1: "s1 = s\<lparr>phys := m1\<rparr>" "ok s1" "\<forall>j<length (take n (drop pos ?F)). get s1 j = Some (take n (drop pos ?F) ! j)"
      "file_read put (int n) fd s
        = Some (if pos + n \<le> ?L then (int n, fd\<lparr>file_position := of_nat (pos + n)\<rparr>, s1)
                else (int (?L - pos), fd, s1\<lparr>last_round := 1\<rparr>))"
    using file_read_eq [of s fd ?L pos n "take n (drop pos ?F)"] Suc.prems inode foot n pos
    by (auto simp: pos_def)
  show ?case
  proof (cases "pos + n \<le> ?L")
    case True
    define fd' where "fd' = fd\<lparr>file_position := of_nat (pos + n)\<rparr>"
    have fd': "unat (file_position fd') = pos + n" "fd_inode fd' = ino"
      using True pos Suc.prems by (simp_all add: fd'_def del: of_nat_add)
    have "(?L - pos) div n = Suc ((?L - (pos + n)) div n)"
      using True n(1) by (simp add: div_if)
    then obtain s' where s': "read_chunks put get n fuel fd' s1 = Some (drop (pos + n) ?F, s')" "ok s'"
      using Suc.IH [of s1 fd'] s1(1,2) fd' Suc.prems True by (auto simp: pos_def)
    have "map (\<lambda>j. the (get s1 j)) [0..<n] = take n (drop pos ?F)"
      using s1(3) True by (intro nth_equalityI) auto
    moreover have "take n (drop pos ?F) @ drop (pos + n) ?F = drop pos ?F"
      by (metis append_take_drop_id drop_drop add.commute)
    ultimately show ?thesis
      using True s1(4) s' n(1) by (simp add: fd'_def pos_def [symmetric])
  next
    case False
    then have all: "take n (drop pos ?F) = drop pos ?F" by simp
    have chunk: "map (\<lambda>j. the (get s1 j)) [0..<?L - pos] = drop pos ?F"
      using s1(3) unfolding all by (intro nth_equalityI) auto
    define s2 where "s2 = s1\<lparr>last_round := 1\<rparr>"
    have ok2: "ok s2" using s1(2) ok_last_round by (simp add: s2_def)
    obtain f where f: "fuel = Suc f" using Suc.prems(7) by (cases fuel) auto
    obtain s3 m3 where s3: "s3 = s2\<lparr>phys := m3\<rparr>" "ok s3" "file_read put (int n) fd s2 = Some (0, fd, s3\<lparr>last_round := 0\<rparr>)"
    proof -
      have fields: "boot_block s2 = bb" "inode_addr s2 = ia" "last_round s2 = 1"
        using Suc.prems s1(1) by (simp_all add: s2_def)
      obtain s3 m3 where s3: "s3 = s2\<lparr>phys := m3\<rparr>" "ok s3"
          "file_read put (int n) fd s2
            = Some (if pos + n \<le> ?L then (int n, fd\<lparr>file_position := of_nat (pos + n)\<rparr>, s3)
                    else if last_round s2 = 0 then (int (?L - pos), fd, s3\<lparr>last_round := 1\<rparr>)
                    else (0, fd, s3\<lparr>last_round := 0\<rparr>))"
        using file_read_eq [OF ok2, of fd ?L pos n] fields inode foot n pos(1) Suc.prems(4) pos_def by auto
      then show ?thesis using that False fields(3) by simp
    qed
    have ok3: "ok (s3\<lparr>last_round := 0\<rparr>)" using ok_last_round [OF s3(2)] .
    have second: "read_chunks put get n fuel fd s2 = Some ([], s3\<lparr>last_round := 0\<rparr>)"
      using s3(3) by (simp add: f)
    have first: "file_read put (int n) fd s = Some (int (?L - pos), fd, s2)"
      using False s1(4) by (simp add: s2_def)
    have g: "get s2 = get s1" by (simp add: s2_def get_last_round)
    show ?thesis
    proof (cases "pos = ?L")
      case True
      then show ?thesis using first ok2 by (simp add: pos_def [symmetric])
    next
      case False
      then have "0 < ?L - pos" using pos by linarith
      then have "int (?L - pos) > 0" by (simp only: of_nat_0_less_iff)
      then show ?thesis using first second ok3 chunk by (simp add: pos_def [symmetric] g del: of_nat_diff)
    qed
  qed
qed simp

lemma dir_read_loop:
  "length (file_name (curr_dir_dentry s)) = 32 \<Longrightarrow> j \<le> 32 \<Longrightarrow>
   for_opt 0 j (\<lambda>j s. do { c \<leftarrow> aget (file_name (curr_dir_dentry s)) (int j); put s j c }) s
     = put_list put s 0 (take j (file_name (curr_dir_dentry s)))"
proof (induction j)
  case (Suc j)
  have "aget (file_name (curr_dir_dentry s')) (int j) = Some (file_name (curr_dir_dentry s) ! j)"
    if "put_list put s 0 (take j (file_name (curr_dir_dentry s))) = Some s'" for s'
    using put_list_phys [OF that] Suc.prems by (auto simp: aget_in)
  then show ?case
    using Suc by (auto simp: for_opt_Suc take_Suc_conv_app_nth put_list_snoc split: Option.bind_split)
qed simp

lemma dir_read_eq:
  assumes ok: "ok s" and dir: "directory_ok (boot_block s) m0" and image: "boot_region (boot_block s) \<subseteq> image"
    and lim: "32 \<le> limit" and cur: "length (file_name (curr_dir_dentry s)) = 32" "0 \<in> set (dentry_reserved (curr_dir_dentry s))"
    and k: "k = unat (directory_index s)"
  shows "k < unat (dir_num (boot_block s) m0) \<Longrightarrow>
      \<exists>s' m. dir_read put s = Some (int (length (entry_name (boot_block s) m0 k)), s') \<and> ok s'
        \<and> s' = s\<lparr>phys := m, curr_dir_dentry := dentry_at (boot_block s) m0 k (curr_dir_dentry s),
            directory_index := of_nat (Suc k)\<rparr>
        \<and> (\<forall>j<length (entry_name (boot_block s) m0 k). get s' j = Some (entry_name (boot_block s) m0 k ! j))"
    and "unat (dir_num (boot_block s) m0) \<le> k \<Longrightarrow> dir_read put s = Some (0, s\<lparr>directory_index := 0\<rparr>)"
proof -
  let ?bb = "boot_block s" and ?n = "unat (dir_num (boot_block s) m0)"
  have agree: "phys s a = m0 a" if "a \<in> boot_region ?bb" for a
    using that image ok_image [OF ok] by blast
  note same = boot_region_agree [OF agree]
  have dir': "directory_ok ?bb (phys s)" using dir same by simp
  have n: "?n \<le> 63" using dir by (simp add: directory_ok_def)
  note read = read_dentry_by_index_eq [OF dir' cur(1), of "directory_index s", folded k]
  show "dir_read put s = Some (0, s\<lparr>directory_index := 0\<rparr>)" if "?n \<le> k"
    using that read same by (simp add: dir_read_def)
  define d where "d = dentry_at ?bb m0 k (curr_dir_dentry s)"
  define name where "name = entry_name ?bb m0 k"
  define s1 where "s1 = s\<lparr>curr_dir_dentry := d, directory_index := directory_index s + 1\<rparr>"
  have next_index: "directory_index s + 1 = of_nat (Suc k)" using k by simp
  have d: "length (file_name d) = 32" "dentry_reserved d = dentry_reserved (curr_dir_dentry s)"
    by (simp_all add: d_def dentry_at_def)
  have "0 \<in> set (dentry_bytes d)" using cur(2) d(2) by (simp add: dentry_bytes_def)
  then have str: "is_cstr (arr_get (dentry_bytes d)) (takeWhile (\<lambda>c. c \<noteq> 0) (dentry_bytes d))" (is "is_cstr _ ?str")
    by (rule is_cstr_arr)
  have name: "take 32 ?str = name"
    using d(1) by (simp add: take_takeWhile dentry_bytes_def name_def entry_name_def d_def dentry_at_def)
  then have j: "(if length ?str > 32 then 32 else length ?str) = length name" by auto
  have name': "name = take (length name) (file_name d)"
    unfolding name_def entry_name_def d_def dentry_at_def by (simp add: takeWhile_eq_take [symmetric])
  have l: "length name \<le> 32" by (simp add: name_def length_entry_name)
  have ok1: "ok s1" using ok_fields [OF ok, where d = d and v = "last_round s" and k = "directory_index s + 1"] by (simp add: s1_def)
  obtain s' m where s': "put_list put s1 0 name = Some s'" "ok s'" "s' = s1\<lparr>phys := m\<rparr>"
      "\<forall>j<limit. get s' j = (if j < length name then Some (name ! j) else get s1 j)"
    using put_list_stored [OF ok1, of 0 name] l lim by auto
  show "\<exists>s' m. dir_read put s = Some (int (length (entry_name ?bb m0 k)), s') \<and> ok s'
        \<and> s' = s\<lparr>phys := m, curr_dir_dentry := dentry_at ?bb m0 k (curr_dir_dentry s),
            directory_index := of_nat (Suc k)\<rparr>
        \<and> (\<forall>j<length (entry_name ?bb m0 k). get s' j = Some (entry_name ?bb m0 k ! j))" if "k < ?n"
  proof -
    have "read_dentry_by_index ?bb (phys s) (directory_index s) (curr_dir_dentry s) = Some (0, d)"
      using that n read same by (simp add: d_def)
    then have "dir_read put s = Some (int (length name), s')"
      using dir_read_loop [of s1 "length name"] d(1) l s'(1) strlen_cstr [OF str] j name'
      by (simp add: dir_read_def s1_def)
    moreover have "s' = s\<lparr>phys := m, curr_dir_dentry := d, directory_index := directory_index s + 1\<rparr>"
      by (simp add: s'(3) s1_def)
    moreover have "\<forall>j<length name. get s' j = Some (name ! j)" using s'(4) l lim by simp
    ultimately show ?thesis
      using s'(2) unfolding name_def [symmetric] d_def [symmetric] next_index [symmetric] by blast
  qed
qed

end

text \<open>A buffer that the kernel reaches at its own address.\<close>

interpretation kernel_destination: fs_destination "kernel_put a"
    "\<lambda>s. (\<forall>x\<in>image. phys s x = m x) \<and> (\<forall>i<limit. a + of_nat i \<notin> image) \<and> limit \<le> 4294967296"
    image m limit "kernel_get a" for a image m limit
  by unfold_locales
     (auto simp: kernel_put_def kernel_get_def mem_put_def mem_get_def of_nat_u32_inj split: if_splits Option.bind_splits)

text \<open>A program that opens a file (\<open>last_round\<close> is \<open>0\<close>, the position \<open>0\<close>) and calls \<open>file_read\<close> with any
  chunk size until it returns \<open>0\<close> has received exactly the contents of the file, after at most
  \<open>length div n + 2\<close> calls, as long as its buffer is not part of the image and no other file is read in
  between.\<close>

theorem file_read_delivers_file:
  fixes s :: "'z file_system_scheme"
  assumes "inode_ok (boot_block s) (inode_addr s) (fd_inode fd) (phys s)"
    and "\<forall>i<n. a + of_nat i \<notin> footprint (boot_block s) (inode_addr s) (fd_inode fd) (phys s)"
    and "0 < n" "n \<le> 2147483647" "last_round s = 0" "file_position fd = 0"
    and "L = unat (inode_length (inode_addr s) (fd_inode fd) (phys s))"
  shows "\<exists>s'. read_chunks (kernel_put a) (kernel_get a) n (L div n + 2) fd s
    = Some (file_contents (boot_block s) (inode_addr s) (fd_inode fd) (phys s), s')"
  using kernel_destination.read_chunks_eq [where s = s and fd = fd and n = n and limit = n and m = "phys s" and a = a
      and fuel = "L div n + 2", OF assms(1) order_refl assms(3,4) order_refl] assms
  by (auto simp del: read_chunks.simps add_2_eq_Suc')

text \<open>Successive calls of \<open>dir_read\<close> deliver the names of the directory in order, each cut at 32
  characters, then \<open>0\<close>, which also starts the listing afresh. The count \<open>nbytes\<close> plays no part.\<close>

theorem dir_read_lists:
  fixes s :: "'z file_system_scheme"
  assumes "directory_ok (boot_block s) (phys s)" "length (file_name (curr_dir_dentry s)) = 32"
    and "0 \<in> set (dentry_reserved (curr_dir_dentry s))"
    and "\<forall>i<32. a + of_nat i \<notin> boot_region (boot_block s)" and "k = unat (directory_index s)"
  shows "if k < unat (dir_num (boot_block s) (phys s))
    then \<exists>s' name. name = entry_name (boot_block s) (phys s) k
      \<and> dir_read (kernel_put a) s = Some (int (length name), s')
      \<and> (\<forall>j<length name. kernel_get a s' j = Some (name ! j))
      \<and> unat (directory_index s') = Suc k
      \<and> (\<forall>x\<in>boot_region (boot_block s). phys s' x = phys s x)
      \<and> length (file_name (curr_dir_dentry s')) = 32 \<and> 0 \<in> set (dentry_reserved (curr_dir_dentry s'))
    else dir_read (kernel_put a) s = Some (0, s\<lparr>directory_index := 0\<rparr>)"
  using kernel_destination.dir_read_eq [where s = s and limit = 32 and m = "phys s" and a = a,
      OF _ assms(1) order_refl order_refl assms(2,3,5)] assms(1,3,4)
  by (auto simp: dentry_at_def directory_ok_def simp del: of_nat_Suc)

section \<open>A small image\<close>

text \<open>Two entries, \<open>.\<close> and the regular file \<open>a\<close> of three bytes; one inode and one data block.\<close>

definition fs_image :: mem where
  "fs_image = (\<lambda>_. 0)(0x10000 := 2, 0x10004 := 1, 0x10008 := 1,
     0x10040 := 46, 0x10060 := 1, 0x10080 := 97, 0x100A0 := 2, 0x11000 := 3,
     0x12000 := 104, 0x12001 := 105, 0x12002 := 10)"

lemma fs_image_load [simp]:
  "dir_num 0x10000 fs_image = 2" "inode_num 0x10000 fs_image = 1" "data_block_num 0x10000 fs_image = 1"
  "inode_length 0x11000 0 fs_image = 3" "data_block_idx 0x11000 0 0 fs_image = 0"
  by (simp_all add: dir_num_def inode_num_def data_block_num_def inode_length_def data_block_idx_def
      inode_block_def load32_def fs_image_def)

lemma fs_image_ok: "directory_ok 0x10000 fs_image" "inode_ok 0x10000 0x11000 0 fs_image"
proof -
  have "fs_image (dir_entry 0x10000 i + of_nat 1) = 0" if "i < 2" for i
  proof -
    from that have "i \<in> {0, 1}" by auto
    then show ?thesis by (auto simp: dir_entry_def fs_image_def)
  qed
  then show "directory_ok 0x10000 fs_image"
    unfolding directory_ok_def by (auto intro!: exI [of _ 1])
  show "inode_ok 0x10000 0x11000 0 fs_image"
    by (simp add: inode_ok_def)
qed

definition some_dentry :: dentry_t where
  "some_dentry = \<lparr>file_name = replicate 32 0, file_type = 0, inode_idx = 0, dentry_reserved = replicate 24 0\<rparr>"

definition fs0 :: file_system where
  "fs0 = (terminal_state.extend boot0
     (file_system.fields 0x10000 0x11000 some_dentry some_dentry 0 0))\<lparr>phys := fs_image\<rparr>"

lemma fs0_simps [simp]:
  "phys fs0 = fs_image" "boot_block fs0 = 0x10000" "inode_addr fs0 = 0x11000" "curr_dir_dentry fs0 = some_dentry"
  "last_round fs0 = 0" "directory_index fs0 = 0"
  by (simp_all add: fs0_def terminal_state.defs file_system.defs)

lemma fs_image_contents [simp]: "file_contents 0x10000 0x11000 0 fs_image = [104, 105, 10]"
  by (simp add: file_contents_def file_address_def upt_rec) (simp add: fs_image_def)

lemma fs_image_name: "entry_name 0x10000 fs_image 1 = [97]"
  by (simp add: entry_name_def dir_entry_def upt_rec) (simp add: fs_image_def)

theorem read_data_reads_file_witness:
  "read_data (\<lambda>_. fs_image) arr_put 0x10000 0x11000 0 1 4 [1, 2, 3] = Some (0, [105, 10, 3])"
  using read_data_reads_file [OF fs_image_ok(2), where off = 1 and n = 4 and buf = "[1, 2, 3]", OF _ _ refl] by simp

lemma high_not_low:
  assumes "i < 256"
  shows "0x100 + of_nat i \<noteq> (0x10000 + of_nat j :: u32) \<or> 0x10000000 \<le> j"
proof (cases "j < 0x10000000")
  case True
  have "(0x100 + of_nat i :: u32) = of_nat (0x100 + i)" "(0x10000 + of_nat j :: u32) = of_nat (0x10000 + j)" by simp_all
  then show ?thesis using of_nat_u32_inj [of "0x100 + i" "0x10000 + j"] assms True by simp
qed simp

lemma buffer_off_image:
  assumes "i < 256"
  shows "0x100 + of_nat i \<notin> boot_region 0x10000" "0x100 + of_nat i \<notin> footprint 0x10000 0x11000 0 fs_image"
proof -
  have no: "0x100 + of_nat i = (0x10000 + of_nat j :: u32) \<Longrightarrow> j < 0x10000000 \<Longrightarrow> False" for j
    using high_not_low [OF assms, of j] by auto
  show "0x100 + of_nat i \<notin> boot_region 0x10000"
    unfolding boot_region_def using no by fastforce
  have inode: "0x11000 + of_nat j = (0x10000 + of_nat (0x1000 + j) :: u32)"
    and data: "0x12000 + of_nat j = (0x10000 + of_nat (0x2000 + j) :: u32)" for j by simp_all
  show "0x100 + of_nat i \<notin> footprint 0x10000 0x11000 0 fs_image"
  proof -
    have "0x100 + of_nat i \<noteq> (0x10000 + of_nat j :: u32)" if "j < 12" for j using no [of j] that by auto
    moreover have "0x100 + of_nat i \<noteq> inode_block 0x11000 0 + of_nat j" if "j < 4096" for j
      using no [of "0x1000 + j"] that unfolding inode_block_def inode [symmetric] by auto
    moreover have "0x100 + of_nat i \<noteq> file_address 0x10000 0x11000 0 fs_image j" if "j < 3" for j
      using no [of "0x2000 + j"] that unfolding data [symmetric] by (auto simp: file_address_def)
    ultimately show ?thesis by (auto simp: footprint_def)
  qed
qed

theorem read_dentry_by_name_finds_first_witness:
  "\<exists>i<unat (dir_num 0x10000 fs_image). entry_name 0x10000 fs_image i = [97]
    \<and> read_dentry_by_name 0x10000 fs_image False (arr_get [97, 0]) some_dentry
      = Some (0, dentry_at 0x10000 fs_image i some_dentry)"
proof -
  have "is_cstr (arr_get [97, 0]) [97]" using is_cstr_append_arr [of "[97]" "[]"] by simp
  from read_dentry_by_name_finds_first [OF fs_image_ok(1) this, of some_dentry] fs_image_name
  show ?thesis by (force simp: some_dentry_def)
qed

theorem file_read_delivers_file_witness:
  "\<exists>s'. read_chunks (kernel_put 0x100) (kernel_get 0x100) 2 3
      \<lparr>file_operation_table_ptr = Some FILE_jumptable, fd_inode = 0, file_position = 0, fd_flags = 1\<rparr> fs0
    = Some ([104, 105, 10], s')"
proof -
  let ?fd = "\<lparr>file_operation_table_ptr = Some FILE_jumptable, fd_inode = 0, file_position = 0, fd_flags = 1\<rparr>"
  have "\<exists>s'. read_chunks (kernel_put 0x100) (kernel_get 0x100) 2 (3 div 2 + 2) ?fd fs0
      = Some (file_contents (boot_block fs0) (inode_addr fs0) (fd_inode ?fd) (phys fs0), s')"
    using buffer_off_image(2) fs_image_ok(2) by (intro file_read_delivers_file) simp_all
  moreover have "3 div 2 + 2 = (3::nat)" by simp
  ultimately show ?thesis by (simp only: fs0_simps file_descriptor_t.simps fs_image_contents)
qed

theorem dir_read_lists_witness:
  "\<exists>s'. dir_read (kernel_put 0x100) (fs0\<lparr>directory_index := 1\<rparr>) = Some (1, s') \<and> kernel_get 0x100 s' 0 = Some 97"
  using dir_read_lists [where s = "fs0\<lparr>directory_index := 1\<rparr>" and a = "0x100" and k = 1]
    buffer_off_image(1) fs_image_ok(1) fs_image_name
  by (auto simp: some_dentry_def)

end
