(* ===== verification/Paging.thy ===== *)
theory Paging
  imports FileSystem
begin

text \<open>
  \<open>page.c\<close>: the page directories of the kernel and the six process slots, the shared page tables and
  the control registers. \<open>translate\<close> is the walk the processor does. The lemmas show that every
  directory the kernel loads maps the first 8 MB one to one, which memory a process can reach, and
  that different slots never share image memory.
\<close>

text \<open>\<open>pde_arr\<close> holds pointers to \<open>pde_0\<close> to \<open>pde_6\<close>, which are the elements of \<open>pdes\<close>. Where the linker put
  the arrays is in \<open>addr_pde\<close>, \<open>addr_pte_zero\<close>, \<open>addr_pte_one\<close>.\<close>

record paging = file_system +
  pde_arr :: "nat option list"
  pdes :: "u32 list list"
  pte_zero :: "u32 list"
  pte_one :: "u32 list"
  addr_pde :: "nat \<Rightarrow> u32"
  addr_pte_zero :: u32
  addr_pte_one :: u32
  cr0 :: u32
  cr3 :: u32
  cr4 :: u32

section \<open>Operations\<close>

definition enable_paging :: "u32 \<Rightarrow> 'z paging_scheme \<Rightarrow> 'z paging_scheme" where
  "enable_paging pde_enable s = s\<lparr>cr3 := pde_enable, cr0 := cr0 s OR 0x80000000\<rparr>"

definition enable_PSE :: "'z paging_scheme \<Rightarrow> 'z paging_scheme" where
  "enable_PSE s = s\<lparr>cr4 := cr4 s OR 0x10\<rparr>"

text \<open>\<open>pde_arr[index][i] = v\<close>, \<open>pte_zero[i] = v\<close>, \<open>pte_one[i] = v\<close>.\<close>

definition set_pde :: "int \<Rightarrow> int \<Rightarrow> u32 \<Rightarrow> 'z paging_scheme \<Rightarrow> 'z paging_scheme option" where
  "set_pde index i v s =
     do { p \<leftarrow> aget (pde_arr s) index; k \<leftarrow> p;
          d \<leftarrow> aget (pdes s) (int k);
          d \<leftarrow> aset d i v;
          ds \<leftarrow> aset (pdes s) (int k) d;
          Some (s\<lparr>pdes := ds\<rparr>) }"

definition set_pte_zero :: "int \<Rightarrow> u32 \<Rightarrow> 'z paging_scheme \<Rightarrow> 'z paging_scheme option" where
  "set_pte_zero i v s = do { t \<leftarrow> aset (pte_zero s) i v; Some (s\<lparr>pte_zero := t\<rparr>) }"

definition set_pte_one :: "int \<Rightarrow> u32 \<Rightarrow> 'z paging_scheme \<Rightarrow> 'z paging_scheme option" where
  "set_pte_one i v s = do { t \<leftarrow> aset (pte_one s) i v; Some (s\<lparr>pte_one := t\<rparr>) }"

text \<open>Loading the directory \<open>pde_arr[index]\<close>.\<close>

definition load_directory :: "int \<Rightarrow> 'z paging_scheme \<Rightarrow> 'z paging_scheme option" where
  "load_directory index s =
     do { p \<leftarrow> aget (pde_arr s) index; k \<leftarrow> p; Some (enable_paging (addr_pde s k) (enable_PSE s)) }"

text \<open>The assignments to the first page table that all three functions make.\<close>

definition fill_pte_zero :: "'z paging_scheme \<Rightarrow> 'z paging_scheme option" where
  "fill_pte_zero s = for_opt 0 1024 (\<lambda>i. set_pte_zero (int i) (of_nat i * 4096 OR 3)) s"

definition video_ptes :: "'z paging_scheme \<Rightarrow> 'z paging_scheme option" where
  "video_ptes s =
     do { s \<leftarrow> set_pte_zero 0xB8 (VIDEO OR 3) s;
          s \<leftarrow> set_pte_zero 0xB9 (VIDEO + 4096 OR 3) s;
          s \<leftarrow> set_pte_zero 0xBA (VIDEO + 4096 * 2 OR 3) s;
          set_pte_zero 0xBB (VIDEO + 4096 * 3 OR 3) s }"

definition map_page_init :: "'z paging_scheme \<Rightarrow> 'z paging_scheme option" where
  "map_page_init s =
     do { ps \<leftarrow> for_opt 0 7 (\<lambda>i ps. aset ps (int i) (Some i)) (pde_arr s);
          let s = s\<lparr>pde_arr := ps\<rparr>;
          s \<leftarrow> set_pde 0 0 (addr_pte_zero s OR 3) s;
          s \<leftarrow> video_ptes s;
          s \<leftarrow> set_pde 0 1 (0x400000 OR 0x80 OR 3) s;
          s \<leftarrow> fill_pte_zero s;
          load_directory 0 s }"

definition set_page :: "u32 \<Rightarrow> u32 \<Rightarrow> int \<Rightarrow> bool \<Rightarrow> int \<Rightarrow> 'z paging_scheme \<Rightarrow> 'z paging_scheme option" where
  "set_page pde_idx phys_addr index fourkb_on vid_idx s =
     do { let phys_videomem = word_of_int (vid_idx + 1) * 4096 + VIDEO;
          s \<leftarrow> set_pde index 0 (addr_pte_zero s OR 3) s;
          s \<leftarrow> video_ptes s;
          s \<leftarrow> set_pde index 1 (0x400000 OR 0x80 OR 3) s;
          s \<leftarrow> fill_pte_zero s;
          s \<leftarrow> set_pde index (uint pde_idx) (phys_addr OR 0x80 OR 3 OR 4) s;
          s \<leftarrow> (if fourkb_on then
                 do { s \<leftarrow> set_pde index 34 (addr_pte_one s OR 3 OR 4) s;
                      set_pte_one 1 (phys_videomem OR 3 OR 4) s }
               else Some s);
          load_directory index s }"

text \<open>\<open>vid_idx\<close> is not used by \<open>set_page_1\<close>.\<close>

definition set_page_1 ::
  "u32 \<Rightarrow> u32 \<Rightarrow> int \<Rightarrow> bool \<Rightarrow> int \<Rightarrow> int \<Rightarrow> 'z paging_scheme \<Rightarrow> 'z paging_scheme option" where
  "set_page_1 pde_idx phys_addr index fourkb_on vid_idx term s =
     do { let phys_videomem = word_of_int (term + 1) * 4096 + VIDEO;
          s \<leftarrow> set_pde index 0 (addr_pte_zero s OR 3) s;
          s \<leftarrow> video_ptes s;
          s \<leftarrow> set_pde index 1 (0x400000 OR 0x80 OR 3) s;
          s \<leftarrow> fill_pte_zero s;
          s \<leftarrow> set_pde index (uint pde_idx) (phys_addr OR 0x80 OR 3 OR 4) s;
          s \<leftarrow> (if fourkb_on then
                 do { s \<leftarrow> set_pde index 34 (addr_pte_one s OR 3 OR 4) s;
                      set_pte_one (term + 1) (phys_videomem OR 3 OR 4) s }
               else Some s);
          load_directory index s }"

section \<open>The page walk\<close>

text \<open>Which array a physical address is: the hardware reads them where the linker put them.\<close>

definition directory_at :: "u32 \<Rightarrow> 'z paging_scheme \<Rightarrow> u32 list option" where
  "directory_at a s =
     (let k = first_index (\<lambda>k. addr_pde s k = a) [0..<7] in if k < length (pdes s) then Some (pdes s ! k) else None)"

definition table_at :: "u32 \<Rightarrow> 'z paging_scheme \<Rightarrow> u32 list option" where
  "table_at a s =
     (if a = addr_pte_zero s then Some (pte_zero s) else if a = addr_pte_one s then Some (pte_one s) else None)"

text \<open>An access is allowed through an entry that is present and, from user mode, has the user bit.\<close>

definition entry_allows :: "bool \<Rightarrow> u32 \<Rightarrow> bool" where
  "entry_allows user e \<longleftrightarrow> bit e 0 \<and> (user \<longrightarrow> bit e 2)"

definition translate :: "bool \<Rightarrow> u32 \<Rightarrow> 'z paging_scheme \<Rightarrow> u32 option" where
  "translate user va s =
     do { d \<leftarrow> directory_at (cr3 s) s;
          e \<leftarrow> aget d (uint (drop_bit 22 va));
          if \<not> entry_allows user e then None
          else if bit e 7 then Some ((e AND 0xFFC00000) + take_bit 22 va)
          else do { t \<leftarrow> table_at (e AND 0xFFFFF000) s;
                    e \<leftarrow> aget t (uint (take_bit 10 (drop_bit 12 va)));
                    if entry_allows user e then Some ((e AND 0xFFFFF000) + take_bit 12 va) else None } }"

section \<open>Entries and addresses as words\<close>

lemma page_mask: "(0xFFFFF000 :: u32) = NOT (mask 12)" "(0xFFC00000 :: u32) = NOT (mask 22)"
  by (simp_all add: mask_eq_exp_minus_1)

text \<open>An address that is a multiple of \<open>2 ^ n\<close>, with flags below.\<close>

lemma aligned_bit: "take_bit n (a::u32) = 0 \<Longrightarrow> i < n \<Longrightarrow> \<not> bit a i"
  by (metis bit_0_eq bit_take_bit_iff bot_apply bot_bool_def)

lemma aligned_or:
  fixes a f :: u32
  assumes "take_bit n a = 0" "take_bit n f = f"
  shows "bit (a OR f) i = (if i < n then bit f i else bit a i)" "(a OR f) AND NOT (mask n) = a"
proof -
  have f: "\<not> bit f i" if "n \<le> i" for i
    using assms(2) that by (metis bit_take_bit_iff not_le)
  show "bit (a OR f) i = (if i < n then bit f i else bit a i)"
    using aligned_bit [OF assms(1)] f by (auto simp: bit_or_iff)
  have a: "n \<le> i" if "bit a i" for i
    using that aligned_bit [OF assms(1), of i] by (meson not_le)
  show "(a OR f) AND NOT (mask n) = a"
    using f a by (intro bit_eqI) (auto simp: bit_simps not_less)
qed

lemma va_parts:
  fixes va :: u32
  shows "uint (drop_bit 22 va) = int (unat va div 4194304)"
    "uint (take_bit 10 (drop_bit 12 va)) = int (unat va div 4096 mod 1024)"
    "take_bit 12 va = of_nat (unat va mod 4096)" "take_bit 22 va = of_nat (unat va mod 4194304)"
proof -
  show "uint (drop_bit 22 va) = int (unat va div 4194304)"
    by (simp add: drop_bit_eq_div uint_div zdiv_int)
  show "uint (take_bit 10 (drop_bit 12 va)) = int (unat va div 4096 mod 1024)"
    by (simp add: take_bit_eq_mod drop_bit_eq_div uint_div uint_mod zdiv_int zmod_int)
  show "take_bit 12 va = of_nat (unat va mod 4096)" "take_bit 22 va = of_nat (unat va mod 4194304)"
    by (simp_all add: take_bit_eq_mod word_arith_nat_mod)
qed

lemma va_page: "of_nat (unat (va::u32) div 4096) * 4096 + of_nat (unat va mod 4096) = va"
proof -
  have "of_nat (unat va div 4096) * 4096 + of_nat (unat va mod 4096)
      = (of_nat (unat va div 4096 * 4096 + unat va mod 4096) :: u32)"
    by (simp only: of_nat_add of_nat_mult of_nat_numeral)
  then show ?thesis by (simp only: div_mult_mod_eq of_nat_unat_u32)
qed

section \<open>What the functions compute\<close>

definition identity_table :: "u32 list" where
  "identity_table = map (\<lambda>i. of_nat i * 4096 OR 3) [0..<1024]"

lemma length_identity_table [simp]: "length identity_table = 1024"
  by (simp add: identity_table_def)

definition paging_ok :: "'z paging_scheme \<Rightarrow> bool" where
  "paging_ok s \<longleftrightarrow> length (pde_arr s) = 7 \<and> length (pdes s) = 7 \<and> (\<forall>d\<in>set (pdes s). length d = 1024)
     \<and> length (pte_zero s) = 1024 \<and> length (pte_one s) = 1024
     \<and> inj_on (addr_pde s) {..<7} \<and> addr_pte_zero s \<noteq> addr_pte_one s
     \<and> take_bit 12 (addr_pte_zero s) = 0 \<and> take_bit 12 (addr_pte_one s) = 0"

lemma set_pte_zero_eq: "0 \<le> i \<Longrightarrow> i < int (length (pte_zero s)) \<Longrightarrow>
    set_pte_zero i v s = Some (s\<lparr>pte_zero := (pte_zero s)[nat i := v]\<rparr>)"
  by (simp add: set_pte_zero_def aset_in)

lemma fill_pte_zero_eq:
  assumes "length (pte_zero s) = 1024"
  shows "fill_pte_zero s = Some (s\<lparr>pte_zero := identity_table\<rparr>)"
proof -
  have "for_opt 0 k (\<lambda>i. set_pte_zero (int i) (of_nat i * 4096 OR 3)) s
      = Some (s\<lparr>pte_zero := map (\<lambda>i. of_nat i * 4096 OR 3) [0..<k] @ drop k (pte_zero s)\<rparr>)" if "k \<le> 1024" for k
    using that
  proof (induction k)
    case (Suc k)
    then show ?case
      using assms by (simp add: for_opt_Suc set_pte_zero_eq list_update_append Cons_nth_drop_Suc [symmetric])
  qed simp
  from this [of 1024] show ?thesis using assms by (simp add: fill_pte_zero_def identity_table_def)
qed

lemma video_ptes_eq:
  assumes "length (pte_zero s) = 1024"
  shows "\<exists>t. length t = 1024 \<and> video_ptes s = Some (s\<lparr>pte_zero := t\<rparr>)"
  using assms by (intro exI conjI) (simp_all add: video_ptes_def set_pte_zero_eq)

lemma set_pde_eq:
  assumes "paging_ok s" "pde_arr s ! k = Some k" "k < 7" "0 \<le> i" "i < 1024"
  shows "set_pde (int k) i v s = Some (s\<lparr>pdes := (pdes s)[k := (pdes s ! k)[nat i := v]]\<rparr>)"
proof -
  have "length (pdes s ! k) = 1024" using assms by (simp add: paging_ok_def)
  then show ?thesis using assms by (simp add: set_pde_def paging_ok_def aget_in aset_in)
qed

definition loaded :: "nat \<Rightarrow> 'z paging_scheme \<Rightarrow> 'z paging_scheme" where
  "loaded k s = s\<lparr>cr3 := addr_pde s k, cr0 := cr0 s OR 0x80000000, cr4 := cr4 s OR 0x10\<rparr>"

definition kernel_entries :: "'z paging_scheme \<Rightarrow> u32 list \<Rightarrow> u32 list" where
  "kernel_entries s d = d[0 := addr_pte_zero s OR 3, 1 := 0x400000 OR 0x80 OR 3]"

lemma load_directory_eq: "k < length (pde_arr s) \<Longrightarrow> pde_arr s ! k = Some k \<Longrightarrow> load_directory (int k) s = Some (loaded k s)"
  by (simp add: load_directory_def aget_in enable_paging_def enable_PSE_def loaded_def)

text \<open>The part that \<open>map_page_init\<close>, \<open>set_page\<close> and \<open>set_page_1\<close> share.\<close>

lemma kernel_part:
  assumes "paging_ok s" "pde_arr s ! k = Some k" "k < 7"
  shows "do { s \<leftarrow> set_pde (int k) 0 (addr_pte_zero s OR 3) s;
              s \<leftarrow> video_ptes s;
              s \<leftarrow> set_pde (int k) 1 (0x400000 OR 0x80 OR 3) s;
              s \<leftarrow> fill_pte_zero s; f s }
    = f (s\<lparr>pte_zero := identity_table, pdes := (pdes s)[k := kernel_entries s (pdes s ! k)]\<rparr>)"
proof -
  have len: "length (pdes s ! k) = 1024" "length (pte_zero s) = 1024" "length (pdes s) = 7"
    using assms by (simp_all add: paging_ok_def)
  define s1 where "s1 = s\<lparr>pdes := (pdes s)[k := (pdes s ! k)[0 := addr_pte_zero s OR 3]]\<rparr>"
  obtain t where t: "length t = 1024" "video_ptes s1 = Some (s1\<lparr>pte_zero := t\<rparr>)"
    using video_ptes_eq [of s1] len by (auto simp: s1_def)
  define s2 where "s2 = s1\<lparr>pte_zero := t\<rparr>"
  have ok2: "paging_ok s2" "pde_arr s2 ! k = Some k" "pdes s2 ! k = (pdes s ! k)[0 := addr_pte_zero s OR 3]"
    using assms len t(1) by (auto simp: paging_ok_def s2_def s1_def dest!: set_update_subset_insert [THEN subsetD])
  show ?thesis
    using set_pde_eq [OF assms, of 0] set_pde_eq [OF ok2(1,2) assms(3), of 1] t(2) len ok2(3) t(1)
    by (simp add: s1_def s2_def fill_pte_zero_eq kernel_entries_def) (rule arg_cong [where f = f], simp)
qed

lemma paging_ok_update:
  assumes "paging_ok s" "length d = 1024" "length t = 1024"
  shows "paging_ok (s\<lparr>pte_zero := t, pdes := (pdes s)[k := d]\<rparr>)"
  using assms by (auto simp: paging_ok_def dest!: set_update_subset_insert [THEN subsetD])

lemma paging_ok_loaded [simp]: "paging_ok (loaded k s) = paging_ok s"
  by (simp add: loaded_def paging_ok_def)

lemma set_page_eq:
  assumes "paging_ok s" "pde_arr s ! k = Some k" "k < 7" "i < 1024"
  shows "set_page (of_nat i) pa (int k) False v s
    = Some (loaded k (s\<lparr>pte_zero := identity_table,
        pdes := (pdes s)[k := (kernel_entries s (pdes s ! k))[i := pa OR 0x80 OR 3 OR 4]]\<rparr>))"
proof -
  let ?s = "s\<lparr>pte_zero := identity_table, pdes := (pdes s)[k := kernel_entries s (pdes s ! k)]\<rparr>"
  have len: "length (pdes s ! k) = 1024" "length (pdes s) = 7" "length (pde_arr s) = 7"
    using assms by (simp_all add: paging_ok_def)
  have ok: "paging_ok ?s" "pde_arr ?s ! k = Some k"
    using assms(2) len by (auto intro!: paging_ok_update [OF assms(1)] simp: kernel_entries_def identity_table_def)
  have i: "uint (of_nat i :: u32) = int i" using assms(4) by (simp add: unsigned_of_nat take_bit_nat_eq_self)
  show ?thesis
    unfolding set_page_def Let_def kernel_part [OF assms(1-3)] i
    using set_pde_eq [OF ok assms(3), of "int i"] assms(2-4) len
    by (simp add: load_directory_eq)
qed

lemma set_page_1_eq:
  assumes "paging_ok s" "pde_arr s ! k = Some k" "k < 7" "i < 1024" "t < 1023"
  shows "set_page_1 (of_nat i) pa (int k) True v (int t) s
    = Some (loaded k (s\<lparr>pte_zero := identity_table,
        pdes := (pdes s)[k := (kernel_entries s (pdes s ! k))[i := pa OR 0x80 OR 3 OR 4,
          34 := addr_pte_one s OR 3 OR 4]],
        pte_one := (pte_one s)[Suc t := (of_nat (Suc t) * 4096 + VIDEO) OR 3 OR 4]\<rparr>))"
proof -
  let ?s = "s\<lparr>pte_zero := identity_table, pdes := (pdes s)[k := kernel_entries s (pdes s ! k)]\<rparr>"
  let ?d = "(kernel_entries s (pdes s ! k))[i := pa OR 0x80 OR 3 OR 4]"
  let ?s' = "s\<lparr>pte_zero := identity_table, pdes := (pdes s)[k := ?d]\<rparr>"
  have len: "length (pdes s ! k) = 1024" "length (pdes s) = 7" "length (pde_arr s) = 7" "length (pte_one s) = 1024"
    using assms by (simp_all add: paging_ok_def)
  have ok: "paging_ok ?s" "pde_arr ?s ! k = Some k" "paging_ok ?s'" "pde_arr ?s' ! k = Some k"
    using assms(2) len by (auto intro!: paging_ok_update [OF assms(1)] simp: kernel_entries_def identity_table_def)
  have i: "uint (of_nat i :: u32) = int i" using assms(4) by (simp add: unsigned_of_nat take_bit_nat_eq_self)
  have one: "set_pte_one (int t + 1) v s = Some (s\<lparr>pte_one := (pte_one s)[Suc t := v]\<rparr>)"
    if "length (pte_one s) = 1024" for v and s :: "'a paging_scheme"
    using that assms(5) by (simp add: set_pte_one_def aset_in nat_add_distrib)
  show ?thesis
    unfolding set_page_1_def Let_def kernel_part [OF assms(1-3)] i
    using set_pde_eq [OF ok(1,2) assms(3), of "int i"] set_pde_eq [OF ok(3,4) assms(3), of 34] assms(2-5) len
    by (simp add: load_directory_eq one)
qed

section \<open>What a directory maps\<close>

lemma directory_at_loaded:
  assumes "paging_ok s" "k < 7"
  shows "directory_at (addr_pde s k) s = Some (pdes s ! k)"
proof -
  have "first_index (\<lambda>j. addr_pde s j = addr_pde s k) [0..<7] = k"
    using assms by (intro first_index_eqI) (auto simp: paging_ok_def inj_on_def)
  then show ?thesis using assms by (simp add: directory_at_def paging_ok_def)
qed

lemma table_at_simps [simp]:
  "table_at (addr_pte_zero s) s = Some (pte_zero s)"
  "paging_ok s \<Longrightarrow> table_at (addr_pte_one s) s = Some (pte_one s)"
  by (auto simp: table_at_def paging_ok_def)

lemma dir_index_less: "unat (va :: u32) div 4194304 < 1024"
  using unat_lt_u32 [of va] by simp

lemma aget_dir: "length d = 1024 \<Longrightarrow> aget d (uint (drop_bit 22 (va :: u32))) = Some (d ! (unat va div 4194304))"
  unfolding va_parts using dir_index_less by (simp add: aget_in)

text \<open>The walk through a directory \<open>d\<close>: an absent entry, a 4 MB page, and a page of a table.\<close>

lemma translate_absent:
  assumes dir: "directory_at (cr3 s) s = Some d" "length d = 1024"
  shows "\<not> bit (d ! (unat va div 4194304)) 0 \<Longrightarrow> translate user va s = None"
  by (simp add: translate_def dir aget_dir entry_allows_def)

lemma translate_large:
  assumes dir: "directory_at (cr3 s) s = Some d" "length d = 1024"
    and "d ! (unat va div 4194304) = base OR f" "take_bit 22 base = 0" "take_bit 22 f = f" "bit f 0" "bit f 7"
  shows "translate user va s
    = (if user \<and> \<not> bit f 2 then None else Some (base + of_nat (unat va mod 4194304)))"
  unfolding translate_def
  using assms(3-) by (simp add: aget_dir dir entry_allows_def aligned_or page_mask va_parts(4) [of va])

lemma translate_small:
  assumes dir: "directory_at (cr3 s) s = Some d" "length d = 1024"
    and "d ! (unat va div 4194304) = a OR f" "take_bit 12 a = 0" "take_bit 12 f = f" "bit f 0" "\<not> bit f 7"
    and "table_at a s = Some t" "length t = 1024"
    and e: "t ! (unat va div 4096 mod 1024) = b OR g" "take_bit 12 b = 0" "take_bit 12 g = g"
  shows "translate user va s
    = (if bit g 0 \<and> (user \<longrightarrow> bit f 2 \<and> bit g 2) then Some (b + of_nat (unat va mod 4096)) else None)"
proof -
  have "aget t (uint (take_bit 10 (drop_bit 12 va))) = Some (b OR g)"
    unfolding va_parts using assms by (simp add: aget_in)
  then show ?thesis
    unfolding translate_def
    using assms(3-) by (simp add: aget_dir dir entry_allows_def aligned_or page_mask va_parts(3) [of va])
qed

section \<open>Invariant\<close>

text \<open>The 4 MB of physical memory that hold the program of process slot \<open>k\<close>.\<close>

definition slot_base :: "nat \<Rightarrow> u32" where
  "slot_base k = 0x800000 + of_nat k * 0x400000"

definition maps_kernel :: "'z paging_scheme \<Rightarrow> u32 list \<Rightarrow> bool" where
  "maps_kernel s d \<longleftrightarrow> d ! 0 = addr_pte_zero s OR 3 \<and> d ! 1 = 0x400000 OR 0x83"

definition slot_directory :: "'z paging_scheme \<Rightarrow> nat \<Rightarrow> u32 list \<Rightarrow> bool" where
  "slot_directory s k d \<longleftrightarrow> maps_kernel s d \<and> d ! 32 = slot_base k OR 0x87
     \<and> d ! 34 \<in> {0, addr_pte_one s OR 7} \<and> (\<forall>i<1024. i \<notin> {0, 1, 32, 34} \<longrightarrow> d ! i = 0)"

definition vidmap_table :: "u32 list \<Rightarrow> bool" where
  "vidmap_table t \<longleftrightarrow> (\<forall>i<1024. t ! i = 0 \<or> i \<in> {1, 2, 3} \<and> t ! i = backup (i - 1) OR 7)"

definition paging_inv :: "'z paging_scheme \<Rightarrow> bool" where
  "paging_inv s \<longleftrightarrow> paging_ok s \<and> (\<forall>k<7. pde_arr s ! k = Some k) \<and> pte_zero s = identity_table
     \<and> maps_kernel s (pdes s ! 0) \<and> (\<forall>i<1024. 2 \<le> i \<longrightarrow> pdes s ! 0 ! i = 0)
     \<and> (\<forall>k<6. slot_directory s k (pdes s ! Suc k) \<or> (\<forall>i<1024. pdes s ! Suc k ! i = 0))
     \<and> vidmap_table (pte_one s)"

lemma slot_base_aligned: "take_bit 22 (slot_base k) = 0"
proof -
  have "slot_base k = push_bit 22 (of_nat (2 + k))"
    by (simp add: slot_base_def push_bit_eq_mult distrib_right)
  then show ?thesis by (simp add: take_bit_push_bit)
qed

lemma unat_slot_base: "k < 6 \<Longrightarrow> unat (slot_base k) = 8388608 + k * 4194304"
proof -
  assume k: "k < 6"
  have "slot_base k = of_nat (8388608 + k * 4194304)" by (simp add: slot_base_def)
  moreover have "unat (of_nat (8388608 + k * 4194304) :: u32) = 8388608 + k * 4194304"
    using k by (intro unat_of_nat_u32) simp
  ultimately show ?thesis by (simp only:)
qed

lemma backup_aligned: "i < 3 \<Longrightarrow> take_bit 12 (backup i) = 0"
proof -
  assume "i < 3"
  then have "i \<in> {0, 1, 2}" by auto
  then show ?thesis by (auto simp: backup_def take_bit_eq_mod)
qed

lemma identity_table_nth: "i < 1024 \<Longrightarrow> identity_table ! i = of_nat i * 4096 OR 3"
  by (simp add: identity_table_def)

lemma page_aligned: "take_bit 12 (of_nat i * 4096 :: u32) = 0"
proof -
  have "(of_nat i * 4096 :: u32) = push_bit 12 (of_nat i)" by (simp add: push_bit_eq_mult)
  then show ?thesis by (simp add: take_bit_push_bit)
qed

text \<open>Every directory in use maps the first 8 MB one to one, for the kernel only.\<close>

lemma kernel_mapped:
  assumes inv: "paging_inv s" and k: "k < 7" "cr3 s = addr_pde s k" "maps_kernel s (pdes s ! k)" and va: "unat va < 8388608"
  shows "translate False va s = Some va" "translate True va s = None"
proof -
  have ok: "paging_ok s" "pte_zero s = identity_table" using inv by (simp_all add: paging_inv_def)
  have d: "directory_at (cr3 s) s = Some (pdes s ! k)" "length (pdes s ! k) = 1024"
    using directory_at_loaded [OF ok(1) k(1)] k ok(1) by (simp_all add: paging_ok_def)
  have "translate user va s = (if user then None else Some va)" for user
  proof (cases "unat va < 4194304")
    case True
    then have "pdes s ! k ! (unat va div 4194304) = addr_pte_zero s OR 3" using k by (simp add: maps_kernel_def)
    from translate_small [OF d this, where t = "pte_zero s" and b = "of_nat (unat va div 4096) * 4096" and g = 3]
    show ?thesis
      using identity_table_nth [of "unat va div 4096"] page_aligned True ok va_page [of va]
      by (simp add: paging_ok_def identity_table_def bit_numeral_rec take_bit_numeral_numeral)
  next
    case False
    then have i: "unat va div 4194304 = 1" using va by auto
    then have "unat va = 4194304 + unat va mod 4194304" using div_mult_mod_eq [of "unat va" 4194304] by simp
    with i have "pdes s ! k ! (unat va div 4194304) = 0x400000 OR 0x83" "0x400000 + of_nat (unat va mod 4194304) = va"
      using k by (simp_all add: maps_kernel_def) (metis of_nat_add of_nat_numeral of_nat_unat_u32)
    from translate_large [OF d this(1)] this(2) show ?thesis
      by (simp add: bit_numeral_rec take_bit_eq_mod)
  qed
  then show "translate False va s = Some va" "translate True va s = None" by simp_all
qed

lemma in_slot_cases:
  assumes "slot_directory s k d" "i < 1024"
  obtains "i < 2" "maps_kernel s d" | "i = 32" "d ! i = slot_base k OR 0x87" | "i = 34" "d ! i = addr_pte_one s OR 7"
    | "d ! i = 0"
proof -
  have "i \<in> {0, 1, 32, 34} \<or> d ! i = 0" using assms by (auto simp: slot_directory_def)
  then show ?thesis
    using assms that by (auto simp: slot_directory_def)
qed

text \<open>What a process in slot \<open>k\<close> reaches: its own 4 MB at 128 MB, and the vidmap pages at 136 MB if its
  directory has the entry.\<close>

lemma user_mapped:
  assumes inv: "paging_inv s" and k: "k < 6" "cr3 s = addr_pde s (Suc k)" "slot_directory s k (pdes s ! Suc k)"
  shows "unat va div 4194304 = 32 \<Longrightarrow> translate user va s = Some (slot_base k + of_nat (unat va mod 4194304))"
    and "translate True va s = Some pa \<Longrightarrow> unat va div 4194304 = 32 \<or>
      unat va div 4194304 = 34 \<and> pdes s ! Suc k ! 34 \<noteq> 0
        \<and> (\<exists>i<3. unat va div 4096 mod 1024 = Suc i \<and> pa = backup i + of_nat (unat va mod 4096))"
proof -
  have ok: "paging_ok s" using inv by (simp add: paging_inv_def)
  have d: "directory_at (cr3 s) s = Some (pdes s ! Suc k)" "length (pdes s ! Suc k) = 1024"
    using directory_at_loaded [OF ok, of "Suc k"] k ok by (simp_all add: paging_ok_def)
  show image: "translate user va s = Some (slot_base k + of_nat (unat va mod 4194304))"
    if "unat va div 4194304 = 32" for user
  proof -
    have "pdes s ! Suc k ! (unat va div 4194304) = slot_base k OR 0x87"
      using that k(3) by (simp add: slot_directory_def)
    from translate_large [OF d this slot_base_aligned] show ?thesis by (simp add: bit_numeral_rec take_bit_eq_mod)
  qed
  assume t: "translate True va s = Some pa"
  have "unat va div 4194304 < 1024" using unat_lt_u32 [of va] by simp
  from k(3) this show "unat va div 4194304 = 32 \<or>
      unat va div 4194304 = 34 \<and> pdes s ! Suc k ! 34 \<noteq> 0
        \<and> (\<exists>i<3. unat va div 4096 mod 1024 = Suc i \<and> pa = backup i + of_nat (unat va mod 4096))"
  proof (cases rule: in_slot_cases)
    case 1
    then have "unat va < 8388608" by (metis div_less_iff_less_mult mult_2 numeral_Bit0 zero_less_numeral)
    then show ?thesis using kernel_mapped [OF inv _ k(2)] k(1) 1(2) t by simp
  next
    case 3
    define j where "j = unat va div 4096 mod 1024"
    have one: "take_bit 12 (addr_pte_one s) = 0" "length (pte_one s) = 1024" using ok by (simp_all add: paging_ok_def)
    have "j < 1024" by (simp add: j_def)
    then consider "pte_one s ! j = 0" | i where "i < 3" "j = Suc i" "pte_one s ! j = backup i OR 7"
      using inv unfolding paging_inv_def vidmap_table_def by (metis One_nat_def diff_Suc_1 insertE
          lessI less_2_cases_iff numeral_2_eq_2 numeral_3_eq_3 singletonD zero_less_Suc Suc_lessD)
    then show ?thesis
    proof cases
      case 1
      then show ?thesis
        using translate_small [OF d 3(2) one(1), where t = "pte_one s" and b = 0 and g = 0 and user = True] ok one t
        by (simp add: bit_numeral_rec take_bit_numeral_numeral j_def [symmetric])
    next
      case (2 i)
      have "bit (addr_pte_one s OR 7) 0"
        using aligned_or(1) [OF one(1), of 7 0] by (simp add: take_bit_numeral_numeral bit_numeral_rec)
      then have "addr_pte_one s OR 7 \<noteq> 0" by auto
      with 2 show ?thesis
        using translate_small [OF d 3(2) one(1), where t = "pte_one s" and b = "backup i" and g = 7 and user = True]
          ok one t 3 backup_aligned
        by (auto simp: bit_numeral_rec take_bit_numeral_numeral j_def [symmetric])
    qed
  next
    case 4
    then show ?thesis using translate_absent [OF d, of va] t by simp
  qed simp
qed

section \<open>The operations keep the invariant\<close>

text \<open>Before \<open>map_page_init\<close> the arrays are as the loader leaves static data: all zero.\<close>

definition paging_boot :: "'z paging_scheme \<Rightarrow> bool" where
  "paging_boot s \<longleftrightarrow> paging_ok s \<and> (\<forall>k<7. pdes s ! k = replicate 1024 0) \<and> pte_one s = replicate 1024 0"

lemma map_page_init_eq:
  assumes "paging_ok s"
  shows "map_page_init s = Some (loaded 0 (s\<lparr>pde_arr := map Some [0..<7], pte_zero := identity_table,
    pdes := (pdes s)[0 := kernel_entries s (pdes s ! 0)]\<rparr>))"
proof -
  have arr: "for_opt 0 7 (\<lambda>i ps. aset ps (int i) (Some i)) (pde_arr s) = Some (map Some [0..<7])"
  proof -
    have "for_opt 0 k (\<lambda>i ps. aset ps (int i) (Some i)) (pde_arr s) = Some (map Some [0..<k] @ drop k (pde_arr s))"
      if "k \<le> 7" for k
      using that
    proof (induction k)
      case (Suc k)
      then show ?case
        using assms by (simp add: for_opt_Suc aset_in list_update_append Cons_nth_drop_Suc [symmetric] paging_ok_def)
    qed simp
    from this [of 7] assms show ?thesis by (simp add: paging_ok_def)
  qed
  let ?s = "s\<lparr>pde_arr := map Some [0..<7]\<rparr>"
  have ok: "paging_ok ?s" "pde_arr ?s ! 0 = Some 0" using assms by (simp_all add: paging_ok_def)
  show ?thesis
    unfolding map_page_init_def arr Option.bind.simps Let_def
    using kernel_part [OF ok, of "load_directory 0"]
    by (simp add: load_directory_eq [of 0, simplified] kernel_entries_def)
qed

lemma paging_inv_loaded [simp]: "paging_inv (loaded k s) = paging_inv s"
  by (simp add: paging_inv_def paging_ok_def loaded_def maps_kernel_def slot_directory_def)

lemma map_page_init_inv [inv_intros]:
  assumes "paging_boot s"
  shows "\<exists>s'. map_page_init s = Some s' \<and> paging_inv s' \<and> cr3 s' = addr_pde s' 0 \<and> maps_kernel s' (pdes s' ! 0)"
proof -
  have ok: "paging_ok s" using assms by (simp add: paging_boot_def)
  let ?s = "s\<lparr>pde_arr := map Some [0..<7], pte_zero := identity_table, pdes := (pdes s)[0 := kernel_entries s (pdes s ! 0)]\<rparr>"
  have len: "length (pdes s) = 7" "length (pdes s ! 0) = 1024" using ok by (simp_all add: paging_ok_def)
  have "paging_ok (s\<lparr>pte_zero := identity_table, pdes := (pdes s)[0 := kernel_entries s (pdes s ! 0)]\<rparr>)"
    using len by (intro paging_ok_update [OF ok]) (simp_all add: kernel_entries_def identity_table_def)
  then have "paging_ok ?s" by (simp add: paging_ok_def)
  then have "paging_inv ?s"
    using assms len
    by (auto simp: paging_inv_def paging_boot_def maps_kernel_def kernel_entries_def vidmap_table_def nth_list_update)
  then have "paging_inv (loaded 0 ?s)" by simp
  moreover have "cr3 (loaded 0 ?s) = addr_pde (loaded 0 ?s) 0" by (simp add: loaded_def)
  moreover have "maps_kernel (loaded 0 ?s) (pdes (loaded 0 ?s) ! 0)"
    using len by (simp add: loaded_def maps_kernel_def kernel_entries_def)
  ultimately show ?thesis using map_page_init_eq [OF ok] by blast
qed

lemma paging_inv_slot:
  assumes inv: "paging_inv s" and k: "k < 6" and d: "slot_directory s k d" "length d = 1024"
    and t: "vidmap_table t" "length t = 1024"
    and s': "pdes s' = (pdes s)[Suc k := d]" "pte_one s' = t" "pte_zero s' = identity_table" "pde_arr s' = pde_arr s"
      "addr_pde s' = addr_pde s" "addr_pte_zero s' = addr_pte_zero s" "addr_pte_one s' = addr_pte_one s"
  shows "paging_inv s'"
proof -
  have ok: "paging_ok s" using inv by (simp add: paging_inv_def)
  have "length x = 1024" if "x \<in> set ((pdes s)[Suc k := d])" for x
    using that ok d(2) by (auto simp: paging_ok_def dest!: set_update_subset_insert [THEN subsetD])
  then have "paging_ok s'" using ok s' t(2) by (simp add: paging_ok_def identity_table_def)
  moreover have "slot_directory s j = slot_directory s' j" "maps_kernel s' = maps_kernel s" for j
    by (auto simp: fun_eq_iff slot_directory_def maps_kernel_def s')
  ultimately show ?thesis
    using inv s' d t k unfolding paging_inv_def by (auto simp: nth_list_update paging_ok_def)
qed

lemma kernel_entries_slot:
  assumes inv: "paging_inv s" and k: "k < 6"
  shows "slot_directory s k ((kernel_entries s (pdes s ! Suc k))[32 := slot_base k OR 0x87])"
    and "slot_directory s k ((kernel_entries s (pdes s ! Suc k))[32 := slot_base k OR 0x87, 34 := addr_pte_one s OR 7])"
    and "length (pdes s ! Suc k) = 1024"
proof -
  have "slot_directory s k (pdes s ! Suc k) \<or> (\<forall>i<1024. pdes s ! Suc k ! i = 0)"
    using inv k by (simp add: paging_inv_def)
  moreover show l: "length (pdes s ! Suc k) = 1024" using inv k by (simp add: paging_inv_def paging_ok_def)
  ultimately show "slot_directory s k ((kernel_entries s (pdes s ! Suc k))[32 := slot_base k OR 0x87])"
    "slot_directory s k ((kernel_entries s (pdes s ! Suc k))[32 := slot_base k OR 0x87, 34 := addr_pte_one s OR 7])"
    by (auto simp: slot_directory_def kernel_entries_def maps_kernel_def nth_list_update)
qed

lemma set_page_inv:
  assumes inv: "paging_inv s" and k: "k < 6"
  shows "\<exists>s'. set_page 32 (slot_base k) (int (Suc k)) False v s = Some s' \<and> paging_inv s' \<and> cr3 s' = addr_pde s' (Suc k)
    \<and> s' = loaded (Suc k) (s\<lparr>pte_zero := identity_table,
        pdes := (pdes s)[Suc k := (kernel_entries s (pdes s ! Suc k))[32 := slot_base k OR 0x87]]\<rparr>)
    \<and> slot_directory s' k (pdes s' ! Suc k)"
proof -
  let ?d = "(kernel_entries s (pdes s ! Suc k))[32 := slot_base k OR 0x87]"
  let ?s = "s\<lparr>pte_zero := identity_table, pdes := (pdes s)[Suc k := ?d]\<rparr>"
  have ok: "paging_ok s" "pde_arr s ! Suc k = Some (Suc k)" "length (pdes s) = 7" "vidmap_table (pte_one s)" "length (pte_one s) = 1024"
    using inv k by (simp_all add: paging_inv_def paging_ok_def)
  note d = kernel_entries_slot [OF inv k]
  have inv': "paging_inv ?s"
    by (rule paging_inv_slot [OF inv k d(1) _ ok(4,5)]) (simp_all add: d(3) kernel_entries_def)
  have "slot_directory (loaded (Suc k) ?s) k ?d"
    using d(1) by (simp add: slot_directory_def maps_kernel_def loaded_def)
  then have "slot_directory (loaded (Suc k) ?s) k (pdes (loaded (Suc k) ?s) ! Suc k)"
    using ok(3) k by (simp add: loaded_def)
  moreover have "set_page 32 (slot_base k) (int (Suc k)) False v s = Some (loaded (Suc k) ?s)"
    using set_page_eq [OF ok(1,2), of 32 "slot_base k" v] k by simp
  moreover have "cr3 (loaded (Suc k) ?s) = addr_pde (loaded (Suc k) ?s) (Suc k)" by (simp add: loaded_def)
  ultimately show ?thesis using inv' paging_inv_loaded by blast
qed

lemma set_page_1_inv:
  assumes inv: "paging_inv s" and k: "k < 6" and t: "t < 3"
  shows "\<exists>s'. set_page_1 32 (slot_base k) (int (Suc k)) True v (int t) s = Some s' \<and> paging_inv s' \<and> cr3 s' = addr_pde s' (Suc k)
    \<and> s' = loaded (Suc k) (s\<lparr>pte_zero := identity_table,
        pdes := (pdes s)[Suc k := (kernel_entries s (pdes s ! Suc k))[32 := slot_base k OR 0x87, 34 := addr_pte_one s OR 7]],
        pte_one := (pte_one s)[Suc t := backup t OR 7]\<rparr>)
    \<and> slot_directory s' k (pdes s' ! Suc k)"
proof -
  let ?d = "(kernel_entries s (pdes s ! Suc k))[32 := slot_base k OR 0x87, 34 := addr_pte_one s OR 7]"
  let ?t = "(pte_one s)[Suc t := backup t OR 7]"
  let ?s = "s\<lparr>pte_zero := identity_table, pdes := (pdes s)[Suc k := ?d], pte_one := ?t\<rparr>"
  have ok: "paging_ok s" "pde_arr s ! Suc k = Some (Suc k)" "length (pdes s) = 7" "vidmap_table (pte_one s)" "length (pte_one s) = 1024"
    using inv k by (simp_all add: paging_inv_def paging_ok_def)
  note d = kernel_entries_slot [OF inv k]
  have vt: "vidmap_table ?t" using ok(4,5) t by (auto simp: vidmap_table_def nth_list_update)
  have inv': "paging_inv ?s"
    by (rule paging_inv_slot [OF inv k d(2) _ vt]) (simp_all add: d(3) kernel_entries_def ok(5))
  have "slot_directory (loaded (Suc k) ?s) k ?d"
    using d(2) by (simp add: slot_directory_def maps_kernel_def loaded_def)
  then have "slot_directory (loaded (Suc k) ?s) k (pdes (loaded (Suc k) ?s) ! Suc k)"
    using ok(3) k by (simp add: loaded_def)
  moreover have "set_page_1 32 (slot_base k) (int (Suc k)) True v (int t) s = Some (loaded (Suc k) ?s)"
  proof -
    have "of_nat (Suc t) * 4096 + VIDEO = backup t" by (simp add: backup_def)
    with set_page_1_eq [OF ok(1,2), of 32 t "slot_base k" v] k t show ?thesis by simp
  qed
  moreover have "cr3 (loaded (Suc k) ?s) = addr_pde (loaded (Suc k) ?s) (Suc k)" by (simp add: loaded_def)
  ultimately show ?thesis using inv' paging_inv_loaded by blast
qed

lemma paging_inv_cr3 [simp]: "paging_inv (s\<lparr>cr3 := a\<rparr>) = paging_inv s"
  by (simp add: paging_inv_def paging_ok_def maps_kernel_def slot_directory_def)

lemma slot_directory_cr3 [simp]: "slot_directory (s\<lparr>cr3 := a\<rparr>) = slot_directory s"
  by (simp add: fun_eq_iff maps_kernel_def slot_directory_def)

lemma slot_directory_kernel: "slot_directory s k d \<Longrightarrow> maps_kernel s d"
  by (simp add: slot_directory_def)

lemma vidmap_translates:
  assumes inv: "paging_inv s" and k: "k < 6" "cr3 s = addr_pde s (Suc k)"
    and d: "pdes s ! Suc k ! 34 = addr_pte_one s OR 7" and t: "t < 3" "pte_one s ! Suc t = backup t OR 7" and o: "o' < 4096"
  shows "translate user (0x08801000 + of_nat t * 4096 + of_nat o') s = Some (backup t + of_nat o')"
proof -
  have ok: "paging_ok s" using inv by (simp add: paging_inv_def)
  have d': "directory_at (cr3 s) s = Some (pdes s ! Suc k)" "length (pdes s ! Suc k) = 1024"
    using directory_at_loaded [OF ok, of "Suc k"] k ok by (simp_all add: paging_ok_def)
  define va :: u32 where "va = 0x08801000 + of_nat t * 4096 + of_nat o'"
  have "va = of_nat (142610432 + t * 4096 + o')" by (simp add: va_def)
  moreover have "unat (of_nat (142610432 + t * 4096 + o') :: u32) = 142610432 + t * 4096 + o'"
    using t(1) o by (intro unat_of_nat_u32) simp
  ultimately have va: "unat va = 142610432 + t * 4096 + o'" by (simp only:)
  have i: "unat va div 4194304 = 34" "unat va div 4096 mod 1024 = Suc t" "unat va mod 4096 = o'"
  proof -
    show "unat va div 4194304 = 34" unfolding va using t(1) o by simp
    have "unat va = (34817 + t) * 4096 + o'" by (simp add: va)
    then have "unat va div 4096 = 34817 + t" "unat va mod 4096 = o'" using o by (simp_all only: div_mult_self3 mod_mult_self3) auto
    then show "unat va div 4096 mod 1024 = Suc t" "unat va mod 4096 = o'" using t(1) by (auto simp: mod_if)
  qed
  have "pdes s ! Suc k ! (unat va div 4194304) = addr_pte_one s OR 7" using d i(1) by simp
  from translate_small [OF d' this, where t = "pte_one s" and b = "backup t" and g = 7] show ?thesis
    using ok t backup_aligned [OF t(1)] i unfolding va_def [symmetric]
    by (simp add: paging_ok_def bit_numeral_rec take_bit_numeral_numeral table_at_simps(2) [OF ok])
qed

section \<open>The paging states of a running kernel\<close>

text \<open>Paging is set up once by \<open>map_page_init\<close>; afterwards \<open>execute\<close> prepares slots with \<open>set_page\<close>, \<open>vidmap\<close>
  adds the video entry with \<open>set_page_1\<close>, the scheduler and \<open>halt\<close> load other directories, and the rest of
  the kernel changes anything but the tables.\<close>

definition same_tables :: "'z paging_scheme \<Rightarrow> 'z paging_scheme \<Rightarrow> bool" where
  "same_tables s s' \<longleftrightarrow> pde_arr s' = pde_arr s \<and> pdes s' = pdes s \<and> pte_zero s' = pte_zero s \<and> pte_one s' = pte_one s
     \<and> addr_pde s' = addr_pde s \<and> addr_pte_zero s' = addr_pte_zero s \<and> addr_pte_one s' = addr_pte_one s"

inductive paging_run :: "'z paging_scheme \<Rightarrow> 'z paging_scheme \<Rightarrow> bool" where
  boot: "map_page_init s = Some s' \<Longrightarrow> paging_run s s'"
| program: "paging_run s t \<Longrightarrow> k < 6 \<Longrightarrow> set_page 32 (slot_base k) (int (Suc k)) False v t = Some t' \<Longrightarrow> paging_run s t'"
| video: "paging_run s t \<Longrightarrow> k < 6 \<Longrightarrow> i < 3 \<Longrightarrow> set_page_1 32 (slot_base k) (int (Suc k)) True v (int i) t = Some t' \<Longrightarrow>
    paging_run s t'"
| other: "paging_run s t \<Longrightarrow> same_tables t t' \<Longrightarrow> paging_run s t'"

lemma paging_inv_same_tables: "same_tables s s' \<Longrightarrow> paging_inv s' = paging_inv s"
  by (simp add: same_tables_def paging_inv_def paging_ok_def maps_kernel_def slot_directory_def)

lemma paging_run_inv: "paging_run s t \<Longrightarrow> paging_boot s \<Longrightarrow> paging_inv t"
proof (induction rule: paging_run.induct)
  case (boot s s')
  then show ?case using map_page_init_inv [of s] by auto
next
  case (program s t k v t')
  then show ?case using set_page_inv [of t k v] by auto
next
  case (video s t k i v t')
  then show ?case using set_page_1_inv [of t k i v] by auto
next
  case (other s t t')
  then show ?case by (simp add: paging_inv_same_tables)
qed

section \<open>What paging guarantees\<close>

text \<open>\<open>map_page_init\<close> turns paging on with a directory under which every kernel address below 8 MB is its
  own physical address and no user address is mapped at all, and establishes the paging invariant.\<close>

theorem map_page_init_identity:
  assumes "paging_boot s"
  shows "\<exists>s'. map_page_init s = Some s' \<and> paging_inv s' \<and> bit (cr0 s') 31 \<and> bit (cr4 s') 4
    \<and> (\<forall>va. unat va < 8388608 \<longrightarrow> translate False va s' = Some va \<and> translate True va s' = None)"
proof -
  have ok: "paging_ok s" using assms by (simp add: paging_boot_def)
  obtain s' where s': "map_page_init s = Some s'" "paging_inv s'" "cr3 s' = addr_pde s' 0" "maps_kernel s' (pdes s' ! 0)"
    using map_page_init_inv [OF assms] by blast
  moreover have "bit (cr0 s') 31" "bit (cr4 s') 4"
    using s'(1) map_page_init_eq [OF ok] by (auto simp: loaded_def bit_or_iff bit_numeral_rec)
  ultimately show ?thesis using kernel_mapped [OF s'(2) _ s'(3,4)] by auto
qed

text \<open>C23. \<open>set_page\<close>, as \<open>execute\<close> calls it for process slot \<open>k\<close>, keeps the paging invariant, keeps the first
  8 MB mapped one to one for the kernel only, and maps the 4 MB at 128 MB onto the slot's memory, whose
  physical addresses are \<open>8 MB + k * 4 MB\<close> and up. The directories of the other slots are not touched.\<close>

theorem set_page_maps_program:
  assumes "paging_inv s" "k < 6"
  shows "\<exists>s'. set_page 32 (slot_base k) (int (Suc k)) False v s = Some s' \<and> paging_inv s'
    \<and> (\<forall>va. unat va < 8388608 \<longrightarrow> translate False va s' = Some va \<and> translate True va s' = None)
    \<and> (\<forall>va user. unat va div 4194304 = 32 \<longrightarrow>
        translate user va s' = Some (slot_base k + of_nat (unat va mod 4194304)))
    \<and> unat (slot_base k) = 8388608 + k * 4194304 \<and> (\<forall>j<7. j \<noteq> Suc k \<longrightarrow> pdes s' ! j = pdes s ! j)"
proof -
  obtain s' where s': "set_page 32 (slot_base k) (int (Suc k)) False v s = Some s'" "paging_inv s'" "cr3 s' = addr_pde s' (Suc k)"
    "slot_directory s' k (pdes s' ! Suc k)"
    and eq: "s' = loaded (Suc k) (s\<lparr>pte_zero := identity_table,
        pdes := (pdes s)[Suc k := (kernel_entries s (pdes s ! Suc k))[32 := slot_base k OR 0x87]]\<rparr>)"
    using set_page_inv [OF assms] by blast
  have "\<forall>j<7. j \<noteq> Suc k \<longrightarrow> pdes s' ! j = pdes s ! j" by (simp add: eq loaded_def)
  moreover have "Suc k < 7" using assms by simp
  ultimately show ?thesis
    using s' kernel_mapped [OF s'(2) _ s'(3) slot_directory_kernel [OF s'(4)]] user_mapped(1) [OF s'(2) assms(2) s'(3,4)]
      unat_slot_base [OF assms(2)] by blast
qed

lemma slots_disjoint:
  assumes "paging_inv s" "j < 6" "k < 6" "j \<noteq> k"
    and "slot_directory s j (pdes s ! Suc j)" "slot_directory s k (pdes s ! Suc k)"
    and "translate True va (s\<lparr>cr3 := addr_pde s (Suc j)\<rparr>) = Some pa"
    and "translate True va' (s\<lparr>cr3 := addr_pde s (Suc k)\<rparr>) = Some pa"
  shows "\<exists>i<3. \<exists>o'<4096. pa = backup i + of_nat o' \<and> unat va div 4194304 = 34 \<and> unat va' div 4194304 = 34"
proof -
  let ?sj = "s\<lparr>cr3 := addr_pde s (Suc j)\<rparr>" and ?sk = "s\<lparr>cr3 := addr_pde s (Suc k)\<rparr>"
  have image: "8388608 + i * 4194304 \<le> unat pa \<and> unat pa < 8388608 + Suc i * 4194304"
    if "i < 6" "pa = slot_base i + of_nat (x mod 4194304)" for i x
  proof -
    have "pa = of_nat (8388608 + i * 4194304 + x mod 4194304)" using that by (simp add: slot_base_def)
    moreover have "x mod 4194304 < 4194304" by simp
    moreover have "unat (of_nat (8388608 + i * 4194304 + x mod 4194304) :: u32) = 8388608 + i * 4194304 + x mod 4194304"
      using that(1) by (intro unat_of_nat_u32) (use mod_less_divisor [of 4194304 x] in linarith)
    ultimately show ?thesis by simp
  qed
  have video: "unat pa < 8388608" if "i < 3" "pa = backup i + of_nat (x mod 4096)" for i x
  proof -
    have "pa = of_nat (757760 + i * 4096 + x mod 4096)" using that by (simp add: backup_def)
    moreover have "unat (of_nat (757760 + i * 4096 + x mod 4096) :: u32) = 757760 + i * 4096 + x mod 4096"
      using that(1) by (intro unat_of_nat_u32) (use mod_less_divisor [of 4096 x] in linarith)
    ultimately show ?thesis using that(1) mod_less_divisor [of 4096 x] by simp
  qed
  have J: "unat va div 4194304 = 32 \<and> pa = slot_base j + of_nat (unat va mod 4194304)
      \<or> unat va div 4194304 = 34 \<and> (\<exists>i<3. pa = backup i + of_nat (unat va mod 4096))"
    using user_mapped(1) [where s = ?sj and k = j and va = va and user = True] user_mapped(2) [where s = ?sj and k = j and va = va and pa = pa] assms by auto
  have K: "unat va' div 4194304 = 32 \<and> pa = slot_base k + of_nat (unat va' mod 4194304)
      \<or> unat va' div 4194304 = 34 \<and> (\<exists>i<3. pa = backup i + of_nat (unat va' mod 4096))"
    using user_mapped(1) [where s = ?sk and k = k and va = va' and user = True] user_mapped(2) [where s = ?sk and k = k and va = va' and pa = pa] assms by auto
  have "\<not> (pa = slot_base j + of_nat (unat va mod 4194304) \<and> pa = slot_base k + of_nat (unat va' mod 4194304))"
    using image [OF assms(2), of "unat va"] image [OF assms(3), of "unat va'"] assms(4) by auto
  moreover have "pa \<noteq> slot_base m + of_nat (x mod 4194304)" if "i < 3" "pa = backup i + of_nat (y mod 4096)" "m < 6" for i x y m
    using video [OF that(1,2)] image [OF that(3), of x] by auto
  ultimately have "unat va div 4194304 = 34 \<and> unat va' div 4194304 = 34 \<and> (\<exists>i<3. pa = backup i + of_nat (unat va mod 4096))"
    using J K assms(2,3) by metis
  moreover have "unat va mod 4096 < 4096" by simp
  ultimately show ?thesis by blast
qed

text \<open>A slot that no program has been given has an empty directory.\<close>

lemma unused_slot:
  assumes "paging_inv s" "k < 6" "\<not> slot_directory s k (pdes s ! Suc k)"
  shows "translate user va (s\<lparr>cr3 := addr_pde s (Suc k)\<rparr>) = None"
proof -
  let ?s = "s\<lparr>cr3 := addr_pde s (Suc k)\<rparr>"
  have ok: "paging_ok s" using assms(1) by (simp add: paging_inv_def)
  have ok': "paging_ok ?s" using ok by (simp add: paging_ok_def)
  have d: "directory_at (cr3 ?s) ?s = Some (pdes s ! Suc k)" "length (pdes s ! Suc k) = 1024"
    using directory_at_loaded [OF ok', of "Suc k"] assms(2) ok by (simp_all add: paging_ok_def)
  have "\<forall>i<1024. pdes s ! Suc k ! i = 0" using assms by (auto simp: paging_inv_def)
  moreover have "unat va div 4194304 < 1024" using unat_lt_u32 [of va] by simp
  ultimately show ?thesis using translate_absent [OF d] by simp
qed

text \<open>C9. Whatever programs the kernel loads and whatever video pages it maps, two process slots never share
  program memory: a physical address that user code reaches under the directories of two different
  slots is a byte of a terminal's video page, and both reach it through their vidmap entry.\<close>

theorem slots_isolated:
  assumes "paging_boot s0" "paging_run s0 s" "j < 6" "k < 6" "j \<noteq> k"
    and "translate True va (s\<lparr>cr3 := addr_pde s (Suc j)\<rparr>) = Some pa"
    and "translate True va' (s\<lparr>cr3 := addr_pde s (Suc k)\<rparr>) = Some pa"
  shows "\<exists>i<3. \<exists>o'<4096. pa = backup i + of_nat o' \<and> unat va div 4194304 = 34 \<and> unat va' div 4194304 = 34"
proof -
  have inv: "paging_inv s" using paging_run_inv [OF assms(2,1)] .
  show ?thesis
    using slots_disjoint [OF inv assms(3-5) _ _ assms(6,7)] unused_slot [OF inv assms(3)] unused_slot [OF inv assms(4)] assms(6,7)
    by (metis option.distinct(1))
qed

text \<open>C35. \<open>set_page_1\<close>, as \<open>vidmap\<close> calls it for slot \<open>k\<close> and terminal \<open>t\<close>, gives user code the terminal's video
  page at the address that \<open>vidmap\<close> hands out, and keeps the paging invariant. The entry is never taken
  back: when \<open>set_page\<close> later prepares the same slot for another program, that program still reaches the page.\<close>

theorem vidmap_page_outlives_program:
  assumes "paging_inv s" "k < 6" "t < 3"
  shows "\<exists>s'. set_page_1 32 (slot_base k) (int (Suc k)) True v (int t) s = Some s' \<and> paging_inv s'
    \<and> (\<forall>o'<4096. translate True (0x08801000 + of_nat t * 4096 + of_nat o') s' = Some (backup t + of_nat o'))
    \<and> (\<exists>s''. set_page 32 (slot_base k) (int (Suc k)) False v s' = Some s'' \<and> paging_inv s''
        \<and> (\<forall>o'<4096. translate True (0x08801000 + of_nat t * 4096 + of_nat o') s'' = Some (backup t + of_nat o')))"
proof -
  obtain s' where s': "set_page_1 32 (slot_base k) (int (Suc k)) True v (int t) s = Some s'" "paging_inv s'" "cr3 s' = addr_pde s' (Suc k)"
    and eq: "s' = loaded (Suc k) (s\<lparr>pte_zero := identity_table,
        pdes := (pdes s)[Suc k := (kernel_entries s (pdes s ! Suc k))[32 := slot_base k OR 0x87, 34 := addr_pte_one s OR 7]],
        pte_one := (pte_one s)[Suc t := backup t OR 7]\<rparr>)"
    using set_page_1_inv [OF assms] by blast
  have len: "length (pdes s) = 7" "length (pdes s ! Suc k) = 1024" "length (pte_one s) = 1024"
    using assms(1,2) by (simp_all add: paging_inv_def paging_ok_def)
  have f': "pdes s' ! Suc k ! 34 = addr_pte_one s' OR 7" "pte_one s' ! Suc t = backup t OR 7" "length (pdes s' ! Suc k) = 1024"
      "length (pdes s') = 7"
    using len assms by (simp_all add: eq loaded_def kernel_entries_def)
  obtain s'' where s'': "set_page 32 (slot_base k) (int (Suc k)) False v s' = Some s''" "paging_inv s''" "cr3 s'' = addr_pde s'' (Suc k)"
    and eq'': "s'' = loaded (Suc k) (s'\<lparr>pte_zero := identity_table,
        pdes := (pdes s')[Suc k := (kernel_entries s' (pdes s' ! Suc k))[32 := slot_base k OR 0x87]]\<rparr>)"
    using set_page_inv [OF s'(2) assms(2)] by blast
  have f'': "pdes s'' ! Suc k ! 34 = addr_pte_one s'' OR 7" "pte_one s'' ! Suc t = backup t OR 7"
    using f' assms by (simp_all add: eq'' loaded_def kernel_entries_def)
  show ?thesis
    using s'(1,2) s''(1,2) vidmap_translates [OF s'(2) assms(2) s'(3) f'(1) assms(3) f'(2)]
      vidmap_translates [OF s''(2) assms(2) s''(3) f''(1) assms(3) f''(2)] by blast
qed

section \<open>Witnesses\<close>

definition paging0 :: paging where
  "paging0 = file_system.extend fs0
     (paging.fields (replicate 7 None) (replicate 7 (replicate 1024 0)) (replicate 1024 0) (replicate 1024 0)
       (\<lambda>k. of_nat (0x500000 + k * 4096)) 0x508000 0x509000 0x11 0 0)"

lemma paging0_boot: "paging_boot paging0"
proof -
  have "inj_on (\<lambda>k. of_nat (0x500000 + k * 4096) :: u32) {..<7}"
    by (intro inj_onI) (use of_nat_u32_inj in \<open>simp del: of_nat_add of_nat_mult\<close>)
  then show ?thesis
    by (auto simp: paging_boot_def paging_ok_def paging0_def file_system.defs paging.defs take_bit_eq_mod)
qed

theorem map_page_init_identity_witness:
  "\<exists>s'. map_page_init paging0 = Some s' \<and> translate False 0xB8000 s' = Some 0xB8000"
  using map_page_init_identity [OF paging0_boot] by force

lemma paging_inv_example: "\<exists>s'::paging. paging_inv s'"
  using map_page_init_inv [OF paging0_boot] by blast

theorem set_page_maps_program_witness:
  "\<exists>(s::paging) s'. paging_inv s \<and> set_page 32 0xC00000 2 False (-1) s = Some s'
    \<and> translate True 0x08048000 s' = Some 0xC48000"
proof -
  obtain s :: paging where "paging_inv s" using paging_inv_example by blast
  from set_page_maps_program [OF this, of 1 "-1"] this show ?thesis by (auto simp: slot_base_def)
qed

theorem vidmap_page_outlives_program_witness:
  "\<exists>(s::paging) s'. paging_inv s \<and> set_page_1 32 0xC00000 2 True (-1) 1 s = Some s'
    \<and> translate True 0x08802000 s' = Some 0xBA000"
proof -
  obtain s :: paging where "paging_inv s" using paging_inv_example by blast
  from vidmap_page_outlives_program [OF this, of 1 1 "-1"] this show ?thesis
    by (force simp: slot_base_def backup_def)
qed

theorem slots_isolated_witness:
  "\<exists>(s::paging) pa. paging_run paging0 s \<and> translate True 0x08801000 (s\<lparr>cr3 := addr_pde s 1\<rparr>) = Some pa
    \<and> translate True 0x08801000 (s\<lparr>cr3 := addr_pde s 2\<rparr>) = Some pa
    \<and> (\<exists>i<3. \<exists>o'<4096. pa = backup i + of_nat o')"
proof -
  obtain s0 where inv0: "paging_inv s0" and run0: "paging_run paging0 s0"
    using map_page_init_inv [OF paging0_boot] paging_run.boot by blast
  have len0: "length (pdes s0) = 7" "length (pdes s0 ! Suc 0) = 1024" "length (pte_one s0) = 1024"
    using inv0 by (simp_all add: paging_inv_def paging_ok_def)
  obtain s1 where inv1: "paging_inv s1" and set1: "set_page_1 32 (slot_base 0) (int (Suc 0)) True (-1) (int 0) s0 = Some s1" and dir1: "slot_directory s1 0 (pdes s1 ! Suc 0)"
    and s1: "s1 = loaded (Suc 0) (s0\<lparr>pte_zero := identity_table,
      pdes := (pdes s0)[Suc 0 := (kernel_entries s0 (pdes s0 ! Suc 0))[32 := slot_base 0 OR 0x87, 34 := addr_pte_one s0 OR 7]],
      pte_one := (pte_one s0)[Suc 0 := backup 0 OR 7]\<rparr>)"
    using set_page_1_inv [OF inv0, of 0 0 "-1"] by auto
  have len1: "length (pdes s1) = 7" "length (pdes s1 ! 2) = 1024" "length (pte_one s1) = 1024"
    using inv1 by (simp_all add: paging_inv_def paging_ok_def)
  obtain s2 where inv2: "paging_inv s2" and set2: "set_page_1 32 (slot_base 1) (int (Suc 1)) True (-1) (int 0) s1 = Some s2"
    and dir2: "slot_directory s2 1 (pdes s2 ! 2)"
    and s2: "s2 = loaded 2 (s1\<lparr>pte_zero := identity_table,
      pdes := (pdes s1)[2 := (kernel_entries s1 (pdes s1 ! 2))[32 := slot_base 1 OR 0x87, 34 := addr_pte_one s1 OR 7]],
      pte_one := (pte_one s1)[Suc 0 := backup 0 OR 7]\<rparr>)"
    using set_page_1_inv [OF inv1, of 1 0 "-1"] by (auto simp: numeral_2_eq_2)
  have run2: "paging_run paging0 s2"
    using paging_run.video [OF paging_run.video [OF run0 _ _ set1] _ _ set2] by simp
  have ent: "pdes s2 ! Suc 0 ! 34 = addr_pte_one s2 OR 7" "pdes s2 ! 2 ! 34 = addr_pte_one s2 OR 7"
      "pte_one s2 ! Suc 0 = backup 0 OR 7"
    using len0 len1 by (simp_all add: s2 s1 loaded_def kernel_entries_def)
  have t1: "translate True 0x08801000 (s2\<lparr>cr3 := addr_pde s2 (Suc 0)\<rparr>) = Some (backup 0)"
    using vidmap_translates [of "s2\<lparr>cr3 := addr_pde s2 (Suc 0)\<rparr>" 0 0 0 True] inv2 ent by simp
  have t2: "translate True 0x08801000 (s2\<lparr>cr3 := addr_pde s2 (Suc 1)\<rparr>) = Some (backup 0)"
    using vidmap_translates [of "s2\<lparr>cr3 := addr_pde s2 (Suc 1)\<rparr>" 1 0 0 True] inv2 ent by (simp add: numeral_2_eq_2)
  have "\<exists>i<3. \<exists>o'<4096. backup 0 = backup i + of_nat o' \<and> unat (0x08801000::u32) div 4194304 = 34
      \<and> unat (0x08801000::u32) div 4194304 = 34"
    by (rule slots_isolated [OF paging0_boot run2 _ _ _ t1 t2]) simp_all
  then show ?thesis using run2 t1 t2 by (auto simp: numeral_2_eq_2)
qed

end
