(* ===== verification/Process.thy ===== *)
theory Process
  imports Paging
begin

text \<open>
  \<open>system_call_handler.c\<close>: the process control blocks, the system calls and the descriptor tables. User
  memory is physical memory seen through the page tables. A system call that does not come back to its
  caller says so in its result: \<open>execute\<close> enters the new program, \<open>halt\<close> resumes the \<open>execute\<close> call of
  the parent.
\<close>

section \<open>State\<close>

record PCB_t =
  file_descriptor_tabele :: "file_descriptor_t list"
  arg :: "u8 list"
  parent_esp0 :: u32
  parent_ss0 :: u16
  parent_ebp :: u32
  parent_esp :: u32
  parent_PDBR :: u32
  curr_ebp :: u32
  curr_esp :: u32
  curr_PDBR :: u32
  curr_esp0 :: u32

text \<open>The PCB of slot \<open>k\<close> lies at \<open>8 MB - (k + 1) * 8 KB\<close>; \<open>pcbs\<close> lists them by slot. \<open>ebp\<close> and \<open>esp\<close> are the
  registers inside the running system call. \<open>execute_frame\<close> is the frame the compiler sets up when
  \<open>execute\<close> is called at a given stack pointer, \<open>stack_junk\<close> what uninitialised local arrays hold.\<close>

record process = paging +
  pcbs :: "PCB_t list"
  tss_ss0 :: u16
  tss_esp0 :: u32
  exception_flag :: int
  ebp :: u32
  esp :: u32
  execute_frame :: "u32 \<Rightarrow> u32 \<times> u32"
  stack_junk :: "u8 list"

text \<open>How a system call ends: it returns a value, enters user code at an instruction and stack pointer, or
  leaves through \<open>execute_return\<close> with a value and the frame of the \<open>execute\<close> call it returns from.\<close>

datatype control = Return int | Enter_user u32 u32 | Resume u32 u32

abbreviation "KERNEL_DS \<equiv> (0x18 :: u16)"
abbreviation "VMSTART \<equiv> (0x08048000 :: u32)"

section \<open>User memory\<close>

text \<open>The kernel dereferences user pointers with its own privilege. A store into the kernel's own 4 MB would
  overwrite the objects that the model keeps apart from \<open>phys\<close>; it has no result here.\<close>

definition user_get :: "u32 \<Rightarrow> 'z paging_scheme \<Rightarrow> cstr" where
  "user_get a s i = do { pa \<leftarrow> translate False (a + of_nat i) s; Some (phys s pa) }"

definition user_put :: "u32 \<Rightarrow> 'z paging_scheme \<Rightarrow> nat \<Rightarrow> u8 \<Rightarrow> 'z paging_scheme option" where
  "user_put a s i x =
     do { pa \<leftarrow> translate False (a + of_nat i) s;
          if 0x400000 \<le> pa \<and> pa < 0x800000 then None else Some (s\<lparr>phys := (phys s)(pa := x)\<rparr>) }"

definition user_store32 :: "u32 \<Rightarrow> u32 \<Rightarrow> 'z paging_scheme \<Rightarrow> 'z paging_scheme option" where
  "user_store32 a v s =
     do { s \<leftarrow> user_put a s 0 (ucast v);
          s \<leftarrow> user_put a s 1 (ucast (drop_bit 8 v));
          s \<leftarrow> user_put a s 2 (ucast (drop_bit 16 v));
          user_put a s 3 (ucast (drop_bit 24 v)) }"

section \<open>Process control blocks\<close>

definition upd_pcb :: "int \<Rightarrow> (PCB_t \<Rightarrow> PCB_t option) \<Rightarrow> 'z process_scheme \<Rightarrow> 'z process_scheme option" where
  "upd_pcb k f s =
     do { p \<leftarrow> aget (pcbs s) k; p \<leftarrow> f p; ps \<leftarrow> aset (pcbs s) k p; Some (s\<lparr>pcbs := ps\<rparr>) }"

text \<open>\<open>for (i = 0; i < 6; i++) if (phys_mem_idx[i] == -1) break;\<close> and the entry before it.\<close>

definition process_depth :: "terminal_t \<Rightarrow> int" where
  "process_depth t = int (first_index (\<lambda>x. x = -1) (take 6 (phys_mem_idx t)))"

definition top_process :: "terminal_t \<Rightarrow> int option" where
  "top_process t = aget (phys_mem_idx t) (process_depth t - 1)"

definition running_process :: "'z process_scheme \<Rightarrow> int option" where
  "running_process s = do { t \<leftarrow> running_terminal s; top_process t }"

abbreviation closed_descriptor :: file_descriptor_t where
  "closed_descriptor \<equiv> \<lparr>file_operation_table_ptr = None, fd_inode = 0, file_position = 0, fd_flags = 0\<rparr>"

abbreviation open_descriptor :: "file_operation_table_t \<Rightarrow> u32 \<Rightarrow> file_descriptor_t" where
  "open_descriptor table ino \<equiv>
     \<lparr>file_operation_table_ptr = Some table, fd_inode = ino, file_position = 0, fd_flags = 1\<rparr>"

definition set_fd :: "int \<Rightarrow> file_descriptor_t \<Rightarrow> PCB_t \<Rightarrow> PCB_t option" where
  "set_fd i d p = do { fds \<leftarrow> aset (file_descriptor_tabele p) i d; Some (p\<lparr>file_descriptor_tabele := fds\<rparr>) }"

section \<open>getargs, vidmap and the signal stubs\<close>

text \<open>\<open>nbytes < strlen(...)\<close> compares unsigned numbers.\<close>

definition getargs :: "u32 \<Rightarrow> int \<Rightarrow> 'z process_scheme \<Rightarrow> (int \<times> 'z process_scheme) option" where
  "getargs buf nbytes s =
     do { let s = cli s;
          curr_halt \<leftarrow> running_process s;
          p \<leftarrow> aget (pcbs s) curr_halt;
          c \<leftarrow> aget (arg p) 0;
          if c = 0 then Some (-1, s)
          else
            do { n \<leftarrow> strlen (arr_get (arg p));
                 s \<leftarrow> (if (word_of_int nbytes :: u32) < of_nat n then strcpy (user_put buf) s (arr_get (arg p))
                       else strncpy (user_put buf) s (arr_get (arg p)) (unat (word_of_int nbytes :: u32)));
                 let s = sti s;
                 Some (0, s) } }"

definition vidmap :: "u32 \<Rightarrow> 'z process_scheme \<Rightarrow> (int \<times> 'z process_scheme) option" where
  "vidmap screen_start s =
     (if screen_start < 0x08000000 \<or> screen_start \<ge> 0x08400000 then Some (-1, s)
      else
        do { t \<leftarrow> curr_terminal s;
             curr_vidmap \<leftarrow> top_process t;
             s \<leftarrow> upd_curr (\<lambda>t. Some (t\<lparr>vid_on := 1\<rparr>)) s;
             s \<leftarrow> set_page_1 32 (0x800000 + word_of_int (curr_vidmap * 0x400000)) (curr_vidmap + 1) True (-1)
                    (curr_terminal_idx s) s;
             s \<leftarrow> user_store32 screen_start (0x08801000 + word_of_int (4096 * curr_terminal_idx s)) s;
             Some (0, s) })"

definition set_handler :: "int \<Rightarrow> u32 \<Rightarrow> int" where
  "set_handler signum handler_address = 0"

definition sigreturn :: int where
  "sigreturn = 0"

section \<open>read, write, open, close\<close>

text \<open>\<open>irqs\<close> are the interrupts that arrive while a driver waits.\<close>

definition driver_read ::
  "file_operation_table_t \<Rightarrow> file_descriptor_t \<Rightarrow> u32 \<Rightarrow> int \<Rightarrow> ('z process_scheme \<Rightarrow> 'z process_scheme) list \<Rightarrow>
   'z process_scheme \<Rightarrow> (int \<times> file_descriptor_t \<times> 'z process_scheme) option" where
  "driver_read table fd buf nbytes irqs s =
     (case table of
        stdin_jumptable \<Rightarrow> do { (r, s) \<leftarrow> terminal_read (user_get buf) (user_put buf) (buf = 0) nbytes irqs s; Some (r, fd, s) }
      | stdout_jumptable \<Rightarrow> do { (r, s) \<leftarrow> terminal_read (user_get buf) (user_put buf) (buf = 0) nbytes irqs s; Some (r, fd, s) }
      | RTC_jumptable \<Rightarrow> do { (r, s) \<leftarrow> RTC_read irqs s; Some (r, fd, s) }
      | DIR_jumptable \<Rightarrow> do { (r, s) \<leftarrow> dir_read (user_put buf) s; Some (r, fd, s) }
      | FILE_jumptable \<Rightarrow> file_read (user_put buf) nbytes fd s)"

definition sys_read :: "int \<Rightarrow> u32 \<Rightarrow> int \<Rightarrow> ('z process_scheme \<Rightarrow> 'z process_scheme) list \<Rightarrow> 'z process_scheme \<Rightarrow>
    (int \<times> 'z process_scheme) option" where
  "sys_read fd buf nbytes irqs s =
     (let s = cli s in
      if fd = 1 then Some (-1, s)
      else if fd < 0 \<or> fd > 7 then Some (-1, s)
      else
        do { curr_halt \<leftarrow> running_process s;
             p \<leftarrow> aget (pcbs s) curr_halt;
             d \<leftarrow> aget (file_descriptor_tabele p) fd;
             if fd_flags d = 0 then Some (-1, s)
             else
               do { table \<leftarrow> file_operation_table_ptr d;
                    (r, d, s) \<leftarrow> driver_read table d buf nbytes irqs s;
                    s \<leftarrow> upd_pcb curr_halt (set_fd fd d) s;
                    Some (r, s) } })"

text \<open>\<open>RTC_write\<close> reads the frequency through the user's pointer.\<close>

definition user_memory :: "'z paging_scheme \<Rightarrow> mem" where
  "user_memory s = (\<lambda>a. case translate False a s of Some pa \<Rightarrow> phys s pa | None \<Rightarrow> 0)"

definition user_mapped4 :: "u32 \<Rightarrow> 'z paging_scheme \<Rightarrow> bool" where
  "user_mapped4 a s \<longleftrightarrow> (\<forall>i\<in>{0, 1, 2, 3}. translate False (a + i) s \<noteq> None)"

definition driver_write ::
  "file_operation_table_t \<Rightarrow> u32 \<Rightarrow> int \<Rightarrow> 'z process_scheme \<Rightarrow> (int \<times> 'z process_scheme) option" where
  "driver_write table buf nbytes s =
     (case table of
        stdin_jumptable \<Rightarrow> terminal_write (user_get buf) (buf = 0) nbytes s
      | stdout_jumptable \<Rightarrow> terminal_write (user_get buf) (buf = 0) nbytes s
      | RTC_jumptable \<Rightarrow>
          if buf \<noteq> 0 \<and> nbytes = 4 \<and> \<not> user_mapped4 buf s then None else RTC_write (user_memory s) buf nbytes s
      | DIR_jumptable \<Rightarrow> Some (dir_write s)
      | FILE_jumptable \<Rightarrow> Some (file_write s))"

definition sys_write :: "int \<Rightarrow> u32 \<Rightarrow> int \<Rightarrow> 'z process_scheme \<Rightarrow> (int \<times> 'z process_scheme) option" where
  "sys_write fd buf nbytes s =
     (let s = cli s in
      if fd = 0 then Some (-1, s)
      else if fd < 0 \<or> fd > 7 then Some (-1, s)
      else
        do { curr_halt \<leftarrow> running_process s;
             p \<leftarrow> aget (pcbs s) curr_halt;
             d \<leftarrow> aget (file_descriptor_tabele p) fd;
             if fd_flags d = 0 then Some (-1, s)
             else do { table \<leftarrow> file_operation_table_ptr d; driver_write table buf nbytes s } })"

definition driver_open ::
  "file_operation_table_t \<Rightarrow> cstr \<Rightarrow> 'z process_scheme \<Rightarrow> (int \<times> 'z process_scheme) option" where
  "driver_open table filename s =
     (case table of
        stdin_jumptable \<Rightarrow> terminal_open s
      | stdout_jumptable \<Rightarrow> terminal_open s
      | RTC_jumptable \<Rightarrow> Some (RTC_open s)
      | DIR_jumptable \<Rightarrow> dir_open False filename s
      | FILE_jumptable \<Rightarrow> file_open False filename s)"

text \<open>The uninitialised locals \<open>curr_dentry\<close>, \<open>curr_dentry_open\<close>; they are used only after \<open>read_dentry_by_name\<close> has filled them.\<close>

definition local_dentry :: dentry_t where
  "local_dentry = \<lparr>file_name = replicate 32 0, file_type = 0, inode_idx = 0, dentry_reserved = replicate 24 0\<rparr>"

text \<open>\<open>filename\<close> is read through the user's page tables, which \<open>open\<close> does not change.\<close>

definition sys_open :: "bool \<Rightarrow> cstr \<Rightarrow> 'z process_scheme \<Rightarrow> (int \<times> 'z process_scheme) option" where
  "sys_open is_null filename s =
     (let s = cli s in
      if is_null then Some (-1, s)
      else
        do { (ret, curr_dentry_open) \<leftarrow> read_dentry_by_name (boot_block s) (phys s) False filename local_dentry;
             if ret = -1 then Some (-1, s)
             else
               do { curr_halt \<leftarrow> running_process s;
                    p \<leftarrow> aget (pcbs s) curr_halt;
                    let i = first_index (\<lambda>d. fd_flags d = 0) (take 8 (file_descriptor_tabele p));
                    if i \<ge> 8 then Some (-1, s)
                    else
                      do { let d = (if file_type curr_dentry_open = 0 then open_descriptor RTC_jumptable 0
                                    else if file_type curr_dentry_open = 1 then open_descriptor DIR_jumptable 0
                                    else open_descriptor FILE_jumptable (inode_idx curr_dentry_open));
                           s \<leftarrow> upd_pcb curr_halt (set_fd (int i) d) s;
                           table \<leftarrow> file_operation_table_ptr d;
                           (_, s) \<leftarrow> driver_open table filename s;
                           Some (int i, s) } } })"

text \<open>\<open>close\<close> clears the descriptor; the driver's own \<open>close\<close> is never called.\<close>

definition sys_close :: "int \<Rightarrow> 'z process_scheme \<Rightarrow> (int \<times> 'z process_scheme) option" where
  "sys_close fd s =
     (if fd < 0 \<or> fd > 7 then Some (-1, s)
      else
        do { curr_halt \<leftarrow> running_process s;
             p \<leftarrow> aget (pcbs s) curr_halt;
             d \<leftarrow> aget (file_descriptor_tabele p) fd;
             if fd < 2 \<or> fd_flags d = 0 then Some (-1, s)
             else do { s \<leftarrow> upd_pcb curr_halt (set_fd fd closed_descriptor) s; Some (0, s) } })"

section \<open>User memory of a running program\<close>

text \<open>The program of slot \<open>k\<close> is loaded and \<open>a\<close>, \<open>a + 1\<close>, ... \<open>a + n - 1\<close> lie in its 4 MB.\<close>

definition in_program :: "nat \<Rightarrow> u32 \<Rightarrow> nat \<Rightarrow> 'z paging_scheme \<Rightarrow> bool" where
  "in_program k a n s \<longleftrightarrow> paging_inv s \<and> k < 6 \<and> cr3 s = addr_pde s (Suc k) \<and> slot_directory s k (pdes s ! Suc k)
     \<and> unat a div 4194304 = 32 \<and> unat a mod 4194304 + n \<le> 4194304"

definition program_byte :: "nat \<Rightarrow> u32 \<Rightarrow> nat \<Rightarrow> u32" where
  "program_byte k a i = slot_base k + of_nat (unat a mod 4194304 + i)"

lemma in_program_phys [simp]: "in_program k a n (s\<lparr>phys := m\<rparr>) = in_program k a n s"
  by (simp add: in_program_def paging_inv_def paging_ok_def maps_kernel_def slot_directory_def)

lemma unat_program_byte:
  assumes "k < 6" "unat a mod 4194304 + i < 4194304"
  shows "unat (program_byte k a i) = 8388608 + k * 4194304 + (unat a mod 4194304 + i)"
proof -
  have "program_byte k a i = of_nat (8388608 + k * 4194304 + (unat a mod 4194304 + i))"
    by (simp add: program_byte_def slot_base_def)
  moreover have "unat (of_nat (8388608 + k * 4194304 + (unat a mod 4194304 + i)) :: u32)
      = 8388608 + k * 4194304 + (unat a mod 4194304 + i)"
    using assms by (intro unat_of_nat_u32) linarith
  ultimately show ?thesis by (simp only:)
qed

lemma translate_program:
  assumes "in_program k a n s" "i < n"
  shows "translate user (a + of_nat i) s = Some (program_byte k a i)"
proof -
  have a: "unat a div 4194304 = 32" "unat a mod 4194304 + i < 4194304"
    using assms by (simp_all add: in_program_def)
  have e: "unat a = 32 * 4194304 + unat a mod 4194304" using a(1) by (metis div_mult_mod_eq)
  then have "unat a + i < 4294967296" using a(2) by linarith
  moreover have "a + of_nat i = of_nat (unat a + i)" by simp
  ultimately have va: "unat (a + of_nat i) = unat a + i" by (metis unat_of_nat_u32)
  then have "unat (a + of_nat i) = 32 * 4194304 + (unat a mod 4194304 + i)" using e by linarith
  then have "unat (a + of_nat i) div 4194304 = 32" "unat (a + of_nat i) mod 4194304 = unat a mod 4194304 + i"
    using a(2) by (simp_all only: div_mult_self3 mod_mult_self3) auto
  then show ?thesis
    using user_mapped(1) [of s k "a + of_nat i" user] assms(1) by (simp add: in_program_def program_byte_def)
qed

lemma user_get_program:
  "in_program k a n s \<Longrightarrow> i < n \<Longrightarrow> user_get a s i = Some (phys s (program_byte k a i))"
  by (simp add: user_get_def translate_program)

lemma user_put_program:
  assumes "in_program k a n s" "i < n"
  shows "user_put a s i x = Some (s\<lparr>phys := (phys s)(program_byte k a i := x)\<rparr>)"
proof -
  have "unat (program_byte k a i) = 8388608 + k * 4194304 + (unat a mod 4194304 + i)"
    using assms by (intro unat_program_byte) (simp_all add: in_program_def)
  then have "\<not> program_byte k a i < 0x800000" by (simp add: word_less_nat_alt)
  then show ?thesis by (simp add: user_put_def translate_program [OF assms])
qed

lemma program_byte_eq:
  assumes "in_program k a n s" "i < n" "j < n"
  shows "program_byte k a i = program_byte k a j \<longleftrightarrow> i = j"
proof -
  have "unat (program_byte k a l) = 8388608 + k * 4194304 + (unat a mod 4194304 + l)" if "l < n" for l
    using assms(1) that by (intro unat_program_byte) (simp_all add: in_program_def)
  note ij = this [OF assms(2)] this [OF assms(3)]
  have "i = j" if "program_byte k a i = program_byte k a j"
  proof -
    have "unat (program_byte k a i) = unat (program_byte k a j)" by (rule arg_cong [OF that])
    then show ?thesis using ij by linarith
  qed
  then show ?thesis by blast
qed

lemma program_byte_high:
  assumes "in_program k a n s" "i < n" "unat x < 8388608"
  shows "program_byte k a i \<noteq> x"
proof -
  have "unat (program_byte k a i) = 8388608 + k * 4194304 + (unat a mod 4194304 + i)"
    using assms(1,2) by (intro unat_program_byte) (simp_all add: in_program_def)
  with assms(3) have "unat (program_byte k a i) \<noteq> unat x" by linarith
  then show ?thesis by metis
qed

lemma translate_cong:
  assumes "pdes t = pdes s" "pte_zero t = pte_zero s" "pte_one t = pte_one s" "addr_pde t = addr_pde s"
    "addr_pte_zero t = addr_pte_zero s" "addr_pte_one t = addr_pte_one s" "cr3 t = cr3 s"
  shows "translate user va t = translate user va s"
proof -
  have "directory_at a t = directory_at a s" and "table_at a t = table_at a s" for a
    using assms by (simp_all add: directory_at_def table_at_def Let_def)
  then show ?thesis unfolding translate_def assms(7) by (simp only:)
qed

lemma user_get_cong:
  assumes "pdes t = pdes s" "pte_zero t = pte_zero s" "pte_one t = pte_one s" "addr_pde t = addr_pde s"
    "addr_pte_zero t = addr_pte_zero s" "addr_pte_one t = addr_pte_one s" "cr3 t = cr3 s" "phys t = phys s"
  shows "user_get a t = user_get a s"
  using translate_cong [OF assms(1-7)] assms(8) by (simp add: user_get_def fun_eq_iff)

lemma paging_of_more:
  assumes "console.more t = console.more s"
  shows "pdes t = pdes s" "pte_zero t = pte_zero s" "pte_one t = pte_one s" "addr_pde t = addr_pde s"
    "addr_pte_zero t = addr_pte_zero s" "addr_pte_one t = addr_pte_one s" "cr3 t = cr3 s" "pde_arr t = pde_arr s"
  using assms by (cases t, cases s, simp)+

lemma in_program_cong:
  assumes "pdes t = pdes s" "pte_zero t = pte_zero s" "pte_one t = pte_one s" "addr_pde t = addr_pde s"
    "addr_pte_zero t = addr_pte_zero s" "addr_pte_one t = addr_pte_one s" "cr3 t = cr3 s" "pde_arr t = pde_arr s"
  shows "in_program k a n t = in_program k a n s"
  using assms by (simp add: in_program_def paging_inv_def paging_ok_def maps_kernel_def slot_directory_def)

lemma text_cell_low: "b \<in> text_pages \<Longrightarrow> j < 2000 \<Longrightarrow> unat (cell b (int j)) < 8388608"
  using unat_cell [of b j] by (auto simp: text_pages_def)

text \<open>A user's buffer meets both contracts: that of \<open>terminal_read\<close> and that of the file system.\<close>

interpretation program_buffer: user_buffer "user_get a" "user_put a" "in_program k a n" n for a k n
proof
  fix s :: "'a paging_scheme" and i x
  assume m: "in_program k a n s" "i < n"
  let ?m = "(phys s)(program_byte k a i := x)"
  have "cell b (int j) \<noteq> program_byte k a i" if "b \<in> text_pages" "j < 2000" for b j
  proof -
    have "unat (cell b (int j)) < 8388608" using that by (rule text_cell_low)
    from program_byte_high [OF m this] show ?thesis by simp
  qed
  then have "\<forall>b\<in>text_pages. page b ?m = page b (phys s)" by (auto simp: page_def fun_eq_iff)
  moreover have "\<forall>j<n. user_get a (s\<lparr>phys := ?m\<rparr>) j = (if j = i then Some x else user_get a s j)"
    using m program_byte_eq [OF m(1) _ m(2)] by (simp add: user_get_program [OF m(1)] user_get_program [of k a n "s\<lparr>phys := ?m\<rparr>"])
  ultimately show "\<exists>m. user_put a s i x = Some (s\<lparr>phys := m\<rparr>) \<and> in_program k a n (s\<lparr>phys := m\<rparr>)
      \<and> (\<forall>b\<in>text_pages. page b m = page b (phys s))
      \<and> (\<forall>j<n. user_get a (s\<lparr>phys := m\<rparr>) j = (if j = i then Some x else user_get a s j))"
    using m user_put_program [OF m] by auto
next
  fix t s :: "'a paging_scheme"
  assume "phys t = phys s" "console.more t = console.more s"
  then show "in_program k a n t = in_program k a n s \<and> user_get a t = user_get a s"
    using paging_of_more [of t s] in_program_cong [of t s] user_get_cong [of t s] by auto
qed

interpretation program_destination: fs_destination "user_put a"
    "\<lambda>s. in_program k a limit s \<and> (\<forall>x\<in>image. phys s x = m x \<and> unat x < 8388608)" image m limit "user_get a"
    for a k image m limit
proof
  fix s s' :: "'a paging_scheme" and i x
  assume ok: "in_program k a limit s \<and> (\<forall>x\<in>image. phys s x = m x \<and> unat x < 8388608)" and i: "i < limit"
  show "\<exists>s'. user_put a s i x = Some s'" using user_put_program [of k a limit s i] ok i by auto
  assume p: "user_put a s i x = Some s'"
  then have s': "s' = s\<lparr>phys := (phys s)(program_byte k a i := x)\<rparr>" using user_put_program [of k a limit s i] ok i by simp
  then show "in_program k a limit s' \<and> (\<forall>x\<in>image. phys s' x = m x \<and> unat x < 8388608)"
    using ok program_byte_high [of k a limit s i] i by auto
  show "user_get a s' j = (if j = i then Some x else user_get a s j)" if "j < limit" for j
    using ok that i program_byte_eq [of k a limit s j i]
    by (simp add: s' user_get_program [of k a limit] )
next
  fix s s' :: "'a paging_scheme" and i x
  assume "user_put a s i x = Some s'"
  then show "\<exists>m. s' = s\<lparr>phys := m\<rparr>"
    by (auto simp: user_put_def split: Option.bind_splits if_splits)
next
  fix s :: "'a paging_scheme" and d v k'
  show "user_get a (s\<lparr>curr_dir_dentry := d, last_round := v, directory_index := k'\<rparr>) = user_get a s"
    by (rule user_get_cong) simp_all
next
  fix s :: "'a paging_scheme" and d v k'
  assume "in_program k a limit s \<and> (\<forall>x\<in>image. phys s x = m x \<and> unat x < 8388608)"
  then show "in_program k a limit (s\<lparr>curr_dir_dentry := d, last_round := v, directory_index := k'\<rparr>)
      \<and> (\<forall>x\<in>image. phys (s\<lparr>curr_dir_dentry := d, last_round := v, directory_index := k'\<rparr>) x = m x \<and> unat x < 8388608)"
    using in_program_cong [of "s\<lparr>curr_dir_dentry := d, last_round := v, directory_index := k'\<rparr>" s] by simp
qed simp

section \<open>The process table\<close>

text \<open>The processes of a terminal, the shell first: the entries of \<open>phys_mem_idx\<close> before the first \<open>-1\<close>.\<close>

definition stack_of :: "terminal_t \<Rightarrow> int list" where
  "stack_of t = takeWhile (\<lambda>x. x \<noteq> -1) (phys_mem_idx t)"

definition stack_ok :: "terminal_t \<Rightarrow> bool" where
  "stack_ok t \<longleftrightarrow> length (stack_of t) \<le> 6 \<and> phys_mem_idx t = stack_of t @ replicate (6 - length (stack_of t)) (-1)"

abbreviation stack :: "'z console_scheme \<Rightarrow> nat \<Rightarrow> int list" where
  "stack s i \<equiv> stack_of (terminals s ! i)"

definition pcb_ok :: "PCB_t \<Rightarrow> bool" where
  "pcb_ok p \<longleftrightarrow> length (file_descriptor_tabele p) = 8 \<and> length (arg p) = 1024 \<and> 0 \<in> set (arg p)
     \<and> (\<forall>d\<in>set (file_descriptor_tabele p). fd_flags d \<noteq> 0 \<longrightarrow> file_operation_table_ptr d \<noteq> None)"

definition stacks_ok :: "'z console_scheme \<Rightarrow> bool" where
  "stacks_ok s \<longleftrightarrow> length (terminals s) = 3 \<and> curr_running_terminal_idx s \<in> {0, 1, 2} \<and> curr_terminal_idx s \<in> {0, 1, 2}
     \<and> (\<forall>i<3. stack_ok (terminals s ! i) \<and> distinct (stack s i) \<and> set (stack s i) \<subseteq> {0..<6})
     \<and> (\<forall>i<3. \<forall>j<3. i \<noteq> j \<longrightarrow> set (stack s i) \<inter> set (stack s j) = {})"

definition procs_ok :: "'z process_scheme \<Rightarrow> bool" where
  "procs_ok s \<longleftrightarrow> stacks_ok s \<and> length (phys_addr_available s) = 6
     \<and> (\<forall>k<6. phys_addr_available s ! k = 0 \<longleftrightarrow> (\<exists>i<3. int k \<in> set (stack s i)))
     \<and> length (pcbs s) = 6 \<and> (\<forall>p\<in>set (pcbs s). pcb_ok p)"

text \<open>The running terminal.\<close>

definition run_idx :: "'z console_scheme \<Rightarrow> nat" where
  "run_idx s = nat (curr_running_terminal_idx s)"

lemma first_index_takeWhile: "first_index p xs = length (takeWhile (\<lambda>x. \<not> p x) xs)"
  by (induction xs) auto

lemma stack_ofI: "phys_mem_idx t = xs @ replicate n (-1) \<Longrightarrow> -1 \<notin> set xs \<Longrightarrow> stack_of t = xs"
proof -
  assume p: "phys_mem_idx t = xs @ replicate n (-1)" "-1 \<notin> set xs"
  from p(2) have "takeWhile (\<lambda>x. x \<noteq> -1) (xs @ replicate n (-1)) = xs"
    by (induction xs) (auto simp: takeWhile_replicate)
  with p(1) show ?thesis by (simp add: stack_of_def)
qed

lemma stack_no_mark: "-1 \<notin> set (stack_of t)"
  unfolding stack_of_def by (auto dest: set_takeWhileD)

lemma stack_ok_length: "stack_ok t \<Longrightarrow> length (phys_mem_idx t) = 6"
  by (metis add_diff_inverse_nat length_append length_replicate not_less stack_ok_def)

lemma process_depth_eq: "stack_ok t \<Longrightarrow> process_depth t = int (length (stack_of t))"
  using stack_ok_length [of t] by (simp add: process_depth_def first_index_takeWhile stack_of_def)

lemma top_process_eq:
  assumes "stack_ok t"
  shows "top_process t = (if stack_of t = [] then None else Some (last (stack_of t)))"
proof -
  let ?xs = "stack_of t"
  have "phys_mem_idx t ! (length ?xs - 1) = last ?xs" if "?xs \<noteq> []"
    using assms that by (metis diff_less last_conv_nth length_greater_0_conv less_one nth_append stack_ok_def zero_less_one)
  moreover have "nat (int n - 1) = n - 1" for n by linarith
  ultimately show ?thesis
    using assms stack_ok_length [OF assms] unfolding top_process_def process_depth_eq [OF assms] aget_def stack_ok_def
    by auto
qed

lemma stack_push:
  assumes "stack_ok t" "length (stack_of t) < 6" "v \<noteq> -1"
  shows "stack_of (t\<lparr>phys_mem_idx := (phys_mem_idx t)[length (stack_of t) := v]\<rparr>) = stack_of t @ [v]"
    "stack_ok (t\<lparr>phys_mem_idx := (phys_mem_idx t)[length (stack_of t) := v]\<rparr>)"
proof -
  let ?xs = "stack_of t" and ?t = "t\<lparr>phys_mem_idx := (phys_mem_idx t)[length (stack_of t) := v]\<rparr>"
  obtain n where n: "6 - length ?xs = Suc n" using assms(2) by (metis Suc_diff_Suc)
  have "phys_mem_idx t = ?xs @ replicate (Suc n) (-1)" using assms(1) n by (simp add: stack_ok_def)
  then have "(phys_mem_idx t)[length ?xs := v] = ?xs @ (replicate (Suc n) (-1))[0 := v]"
    by (metis diff_self_eq_0 less_irrefl list_update_append)
  then have p: "phys_mem_idx ?t = (?xs @ [v]) @ replicate n (-1)" by simp
  show st: "stack_of ?t = ?xs @ [v]" using stack_ofI [OF p] assms(3) stack_no_mark by simp
  have "6 - length (?xs @ [v]) = n" using n by simp
  then show "stack_ok ?t" unfolding stack_ok_def st using p assms(2) by simp
qed

lemma stack_pop:
  assumes "stack_ok t" "stack_of t = xs @ [v]"
  shows "stack_of (t\<lparr>phys_mem_idx := (phys_mem_idx t)[length xs := -1]\<rparr>) = xs"
    "stack_ok (t\<lparr>phys_mem_idx := (phys_mem_idx t)[length xs := -1]\<rparr>)"
proof -
  let ?t = "t\<lparr>phys_mem_idx := (phys_mem_idx t)[length xs := -1]\<rparr>"
  have "phys_mem_idx t = xs @ v # replicate (6 - Suc (length xs)) (-1)" and l: "length xs < 6"
    using assms by (auto simp: stack_ok_def)
  then have p: "phys_mem_idx ?t = xs @ replicate (6 - length xs) (-1)"
  proof -
    have "6 - length xs = Suc (6 - Suc (length xs))" using l by simp
    then show ?thesis using \<open>phys_mem_idx t = _\<close> by (simp add: list_update_append)
  qed
  have "-1 \<notin> set xs" using stack_no_mark [of t] assms(2) by simp
  then show st: "stack_of ?t = xs" using stack_ofI [OF p] by simp
  show "stack_ok ?t" unfolding stack_ok_def st using p l by simp
qed

lemma upd_pcb_eq:
  "0 \<le> k \<Longrightarrow> nat k < length (pcbs s) \<Longrightarrow> f (pcbs s ! nat k) = Some p \<Longrightarrow>
   upd_pcb k f s = Some (s\<lparr>pcbs := (pcbs s)[nat k := p]\<rparr>)"
  by (simp add: upd_pcb_def aget_def aset_def)

lemma running_process_eq:
  assumes "stacks_ok s"
  shows "run_idx s < 3" "running_terminal s = Some (terminals s ! run_idx s)"
    "running_process s = (if stack s (run_idx s) = [] then None else Some (last (stack s (run_idx s))))"
proof -
  show r: "run_idx s < 3" using assms by (auto simp: stacks_ok_def run_idx_def)
  show t: "running_terminal s = Some (terminals s ! run_idx s)"
    using assms by (auto simp: stacks_ok_def run_idx_def aget_def)
  show "running_process s = (if stack s (run_idx s) = [] then None else Some (last (stack s (run_idx s))))"
    using assms r by (simp add: running_process_def t top_process_eq stacks_ok_def)
qed

section \<open>Descriptors\<close>

definition fs_ready :: "'z file_system_scheme \<Rightarrow> bool" where
  "fs_ready s \<longleftrightarrow> directory_ok (boot_block s) (phys s) \<and> length (file_name (curr_dir_dentry s)) = 32
     \<and> length (file_name (curr_file_dentry s)) = 32"

text \<open>The index of the entry that \<open>read_dentry_by_name\<close> finds, the number of entries if there is none.\<close>

definition lookup :: "'z file_system_scheme \<Rightarrow> u8 list \<Rightarrow> nat" where
  "lookup s name = first_index (\<lambda>j. entry_name (boot_block s) (phys s) j = take 32 name)
     [0..<unat (dir_num (boot_block s) (phys s))]"

definition found :: "'z file_system_scheme \<Rightarrow> u8 list \<Rightarrow> bool" where
  "found s name \<longleftrightarrow> lookup s name < unat (dir_num (boot_block s) (phys s))"

definition entry_of :: "'z file_system_scheme \<Rightarrow> u8 list \<Rightarrow> dentry_t" where
  "entry_of s name = dentry_at (boot_block s) (phys s) (lookup s name) local_dentry"

lemma dentry_at_fields [simp]:
  "file_type (dentry_at bb m i d) = sint (load32 m (dir_entry bb i + 32))"
  "inode_idx (dentry_at bb m i d) = load32 m (dir_entry bb i + 36)"
  by (simp_all add: dentry_at_def)

lemma lookup_eq:
  assumes "directory_ok (boot_block s) (phys s)" "is_cstr name xs" "length (file_name d) = 32"
  shows "read_dentry_by_name (boot_block s) (phys s) False name d
    = Some (if found s xs then (0, dentry_at (boot_block s) (phys s) (lookup s xs) d) else (-1, d))"
  using read_dentry_by_name_eq [OF assms(1-3) refl] by (simp add: found_def lookup_def)

text \<open>The descriptor that \<open>open\<close> makes for a directory entry: the type picks the driver.\<close>

definition descriptor_for :: "dentry_t \<Rightarrow> file_descriptor_t" where
  "descriptor_for d =
     (if file_type d = 0 then open_descriptor RTC_jumptable 0
      else if file_type d = 1 then open_descriptor DIR_jumptable 0
      else open_descriptor FILE_jumptable (inode_idx d))"

definition running_pcb :: "'z process_scheme \<Rightarrow> PCB_t" where
  "running_pcb s = pcbs s ! nat (last (stack s (run_idx s)))"

definition with_running_pcb :: "PCB_t \<Rightarrow> 'z process_scheme \<Rightarrow> PCB_t list" where
  "with_running_pcb p s = (pcbs s)[nat (last (stack s (run_idx s))) := p]"

definition with_fd :: "nat \<Rightarrow> file_descriptor_t \<Rightarrow> PCB_t \<Rightarrow> PCB_t" where
  "with_fd i d p = p\<lparr>file_descriptor_tabele := (file_descriptor_tabele p)[i := d]\<rparr>"

lemma last_stack_range:
  assumes "stacks_ok s" "i < 3" "stack s i \<noteq> []"
  shows "0 \<le> last (stack s i)" "nat (last (stack s i)) < 6"
proof -
  have "last (stack s i) \<in> {0..<6}"
    using assms(1,2) last_in_set [OF assms(3)] unfolding stacks_ok_def by blast
  then show "0 \<le> last (stack s i)" "nat (last (stack s i)) < 6" by auto
qed

lemma running_pcb_eq:
  assumes "procs_ok s" "stack s (run_idx s) \<noteq> []"
  obtains k where "running_process s = Some (int k)" "k < 6" "aget (pcbs s) (int k) = Some (running_pcb s)"
    "k = nat (last (stack s (run_idx s)))" "pcb_ok (running_pcb s)" "length (pcbs s) = 6"
proof -
  let ?l = "last (stack s (run_idx s))"
  have st: "stacks_ok s" "length (pcbs s) = 6" using assms(1) by (simp_all add: procs_ok_def)
  note r = running_process_eq [OF st(1)]
  have l: "0 \<le> ?l" "nat ?l < 6" using last_stack_range [OF st(1) r(1) assms(2)] by auto
  have "running_process s = Some (int (nat ?l))" using r(3) assms(2) l by simp
  moreover have "aget (pcbs s) (int (nat ?l)) = Some (running_pcb s)" using l st(2) by (simp add: aget_in running_pcb_def)
  moreover have "pcb_ok (running_pcb s)" using assms(1) l by (simp add: procs_ok_def running_pcb_def)
  ultimately show ?thesis using that l st(2) by blast
qed

lemma procs_ok_pcbs:
  assumes "procs_ok s" "pcb_ok p" "pcbs s' = (pcbs s)[k := p]" "terminals s' = terminals s"
    "phys_addr_available s' = phys_addr_available s" "curr_running_terminal_idx s' = curr_running_terminal_idx s"
    "curr_terminal_idx s' = curr_terminal_idx s"
  shows "procs_ok s'"
proof -
  have "\<forall>q\<in>set ((pcbs s)[k := p]). pcb_ok q"
    using assms(1,2) by (auto simp: procs_ok_def dest!: set_update_subset_insert [THEN subsetD])
  then show ?thesis using assms by (simp add: procs_ok_def stacks_ok_def)
qed

lemma pcb_ok_with_fd: "pcb_ok p \<Longrightarrow> fd_flags d = 0 \<or> file_operation_table_ptr d \<noteq> None \<Longrightarrow> pcb_ok (with_fd i d p)"
  by (auto simp: pcb_ok_def with_fd_def dest!: set_update_subset_insert [THEN subsetD])

lemma set_fd_eq: "i < length (file_descriptor_tabele p) \<Longrightarrow> set_fd (int i) d p = Some (with_fd i d p)"
  by (simp add: set_fd_def aset_in with_fd_def)

lemma driver_open_frame:
  assumes "fs_ready s" "is_cstr name xs" "table \<in> {RTC_jumptable, DIR_jumptable, FILE_jumptable}"
  shows "\<exists>r s'. driver_open table name s = Some (r, s') \<and> pcbs s' = pcbs s \<and> terminals s' = terminals s
    \<and> phys_addr_available s' = phys_addr_available s \<and> phys s' = phys s
    \<and> curr_running_terminal_idx s' = curr_running_terminal_idx s \<and> curr_terminal_idx s' = curr_terminal_idx s
    \<and> fs_ready s'"
proof -
  have d: "directory_ok (boot_block s) (phys s)" "length (file_name (curr_dir_dentry s)) = 32" "length (file_name (curr_file_dentry s)) = 32"
    using assms(1) by (simp_all add: fs_ready_def)
  have len: "length (file_name (dentry_at bb m i e)) = 32" for bb m i e by (simp add: dentry_at_def)
  show ?thesis
    using assms(3) lookup_eq [OF d(1) assms(2) d(2)] lookup_eq [of "s\<lparr>last_round := 0\<rparr>", OF _ assms(2) d(3)] d len
    by (auto simp: driver_open_def dir_open_def file_open_def RTC_open_def fs_ready_def Let_def)
qed

lemma sys_open_eq:
  assumes ok: "procs_ok s" "stack s (run_idx s) \<noteq> []" and fs: "fs_ready s" and name: "is_cstr name xs"
    and i: "i = first_index (\<lambda>d. fd_flags d = 0) (file_descriptor_tabele (running_pcb s))"
  shows "found s xs \<and> i < 8 \<Longrightarrow> \<exists>s'. sys_open False name s = Some (int i, s')
      \<and> pcbs s' = with_running_pcb (with_fd i (descriptor_for (entry_of s xs)) (running_pcb s)) s
      \<and> terminals s' = terminals s \<and> phys_addr_available s' = phys_addr_available s \<and> phys s' = phys s
      \<and> curr_running_terminal_idx s' = curr_running_terminal_idx s \<and> curr_terminal_idx s' = curr_terminal_idx s
      \<and> procs_ok s' \<and> fs_ready s'"
    and "\<not> (found s xs \<and> i < 8) \<Longrightarrow> sys_open False name s = Some (-1, cli s)"
proof -
  define c where "c = cli s"
  have c: "pcbs c = pcbs s" "terminals c = terminals s" "phys c = phys s" "boot_block c = boot_block s"
    "phys_addr_available c = phys_addr_available s" "curr_running_terminal_idx c = curr_running_terminal_idx s"
    "curr_terminal_idx c = curr_terminal_idx s" "curr_dir_dentry c = curr_dir_dentry s" "curr_file_dentry c = curr_file_dentry s"
    by (simp_all add: c_def cli_def)
  have same: "procs_ok c" "stack c (run_idx c) \<noteq> []" "fs_ready c" "running_pcb c = running_pcb s"
    using ok fs by (simp_all add: procs_ok_def stacks_ok_def fs_ready_def run_idx_def running_pcb_def c)
  have dir: "directory_ok (boot_block c) (phys c)" using same(3) by (simp add: fs_ready_def)
  have look: "read_dentry_by_name (boot_block c) (phys c) False name local_dentry
      = Some (if found s xs then (0, entry_of s xs) else (-1, local_dentry))"
    using lookup_eq [OF dir name, of local_dentry] by (simp add: found_def lookup_def entry_of_def local_dentry_def c)
  obtain k where k: "running_process c = Some (int k)" "k < 6" "aget (pcbs c) (int k) = Some (running_pcb c)"
    "k = nat (last (stack c (run_idx c)))" "pcb_ok (running_pcb c)" "length (pcbs c) = 6"
    using running_pcb_eq [OF same(1,2)] .
  have len: "length (file_descriptor_tabele (running_pcb s)) = 8" using k(5) same(4) by (simp add: pcb_ok_def)
  define d where "d = descriptor_for (entry_of s xs)"
  define t where "t = the (file_operation_table_ptr d)"
  have d: "file_operation_table_ptr d = Some t" "t \<in> {RTC_jumptable, DIR_jumptable, FILE_jumptable}"
    by (simp_all add: d_def descriptor_for_def t_def)
  have body: "sys_open False name s = (if \<not> found s xs then Some (-1, c) else if i \<ge> 8 then Some (-1, c)
      else do { s \<leftarrow> upd_pcb (int k) (set_fd (int i) d) c; (_, s) \<leftarrow> driver_open t name s; Some (int i, s) })"
    using look k(1,3) same(4) d(1) i len
    by (simp add: sys_open_def c_def [symmetric] Let_def d_def descriptor_for_def)
  show "sys_open False name s = Some (-1, cli s)" if "\<not> (found s xs \<and> i < 8)"
    using that body by (auto simp: c_def)
  assume f: "found s xs \<and> i < 8"
  define s1 where "s1 = c\<lparr>pcbs := (pcbs c)[k := with_fd i d (running_pcb s)]\<rparr>"
  have "pcbs c ! k = running_pcb s" using k(2,3,6) same(4) by (simp add: aget_in)
  then have u: "upd_pcb (int k) (set_fd (int i) d) c = Some s1"
    using k(2,6) f len set_fd_eq [of i "running_pcb s" d] by (simp add: upd_pcb_eq s1_def)
  have fs1: "fs_ready s1" using same(3) by (simp add: fs_ready_def s1_def)
  obtain r s' where s': "driver_open t name s1 = Some (r, s')" "pcbs s' = pcbs s1" "terminals s' = terminals s1"
    "phys_addr_available s' = phys_addr_available s1" "phys s' = phys s1"
    "curr_running_terminal_idx s' = curr_running_terminal_idx s1" "curr_terminal_idx s' = curr_terminal_idx s1" "fs_ready s'"
    using driver_open_frame [OF fs1 name d(2)] by blast
  have "procs_ok s'"
    using s' d(1) k(5) same(4) c
    by (intro procs_ok_pcbs [OF ok(1), of "with_fd i d (running_pcb s)" _ k] pcb_ok_with_fd) (simp_all add: s1_def)
  then show "\<exists>s'. sys_open False name s = Some (int i, s')
      \<and> pcbs s' = with_running_pcb (with_fd i (descriptor_for (entry_of s xs)) (running_pcb s)) s
      \<and> terminals s' = terminals s \<and> phys_addr_available s' = phys_addr_available s \<and> phys s' = phys s
      \<and> curr_running_terminal_idx s' = curr_running_terminal_idx s \<and> curr_terminal_idx s' = curr_terminal_idx s
      \<and> procs_ok s' \<and> fs_ready s'"
    using f body u s' k(4) c by (auto simp: s1_def with_running_pcb_def d_def [symmetric] run_idx_def)
qed

lemma sys_close_eq:
  assumes ok: "procs_ok s" "stack s (run_idx s) \<noteq> []" and i: "2 \<le> i" "i < 8"
    and open': "fd_flags (file_descriptor_tabele (running_pcb s) ! i) \<noteq> 0"
  shows "sys_close (int i) s = Some (0, s\<lparr>pcbs := with_running_pcb (with_fd i closed_descriptor (running_pcb s)) s\<rparr>)"
proof -
  obtain k where k: "running_process s = Some (int k)" "k < 6" "aget (pcbs s) (int k) = Some (running_pcb s)"
    "k = nat (last (stack s (run_idx s)))" "pcb_ok (running_pcb s)" "length (pcbs s) = 6"
    using running_pcb_eq [OF ok] .
  have len: "length (file_descriptor_tabele (running_pcb s)) = 8" using k(5) by (simp add: pcb_ok_def)
  have "pcbs s ! k = running_pcb s" using k(2,3,6) by (simp add: aget_in)
  then have "upd_pcb (int k) (set_fd (int i) closed_descriptor) s
      = Some (s\<lparr>pcbs := (pcbs s)[k := with_fd i closed_descriptor (running_pcb s)]\<rparr>)"
    using k(2,6) i len by (simp add: upd_pcb_eq set_fd_eq)
  then show ?thesis
    using i len open' k(1,3) by (simp add: sys_close_def aget_in with_running_pcb_def k(4) [symmetric])
qed

end
