(* ===== verification/Sample.thy ===== *)
theory Sample
  imports Process
begin

text \<open>
  A small machine on which the theorems about processes are instantiated: three shells in slots 0, 1 and
  2, one per terminal, the first one running, and a file system with the entries \<open>.\<close>, \<open>shell\<close> (an ELF
  file of 28 bytes with entry point \<open>0x08048018\<close>), \<open>a\<close> (three bytes of text) and \<open>rtc\<close>. The boot loader's
  structure at 0x9000 names one module, that file system at 0x10000.
\<close>

definition image :: mem where
  "image = (\<lambda>_. 0)(0x9000 := 8, 0x9014 := 1, 0x9019 := 0x91, 0x9102 := 1,
     0x10000 := 4, 0x10004 := 2, 0x10008 := 2,
     0x10040 := 46, 0x10060 := 1,
     0x10080 := 115, 0x10081 := 104, 0x10082 := 101, 0x10083 := 108, 0x10084 := 108, 0x100A0 := 2,
     0x100C0 := 97, 0x100E0 := 2, 0x100E4 := 1,
     0x10100 := 114, 0x10101 := 116, 0x10102 := 99,
     0x11000 := 28, 0x12000 := 3, 0x12004 := 1,
     0x13000 := 0x7F, 0x13001 := 0x45, 0x13002 := 0x4C, 0x13003 := 0x46,
     0x13018 := 0x18, 0x13019 := 0x80, 0x1301A := 0x04, 0x1301B := 0x08,
     0x14000 := 104, 0x14001 := 105, 0x14002 := 10)"

lemma image_load [simp]:
  "dir_num 0x10000 image = 4" "inode_num 0x10000 image = 2" "data_block_num 0x10000 image = 2"
  "inode_length 0x11000 0 image = 28" "inode_length 0x11000 1 image = 3"
  "data_block_idx 0x11000 0 0 image = 0" "data_block_idx 0x11000 1 0 image = 1"
  by (simp_all add: dir_num_def inode_num_def data_block_num_def inode_length_def data_block_idx_def
      inode_block_def load32_def image_def)

lemma image_ok: "directory_ok 0x10000 image" "inode_ok 0x10000 0x11000 0 image" "inode_ok 0x10000 0x11000 1 image"
proof -
  have "image (dir_entry 0x10000 i + of_nat 31) = 0" if "i < 4" for i
  proof -
    from that have "i \<in> {0, 1, 2, 3}" by auto
    then show ?thesis by (auto simp: dir_entry_def image_def)
  qed
  then show "directory_ok 0x10000 image"
    unfolding directory_ok_def by (auto intro!: exI [of _ 31])
  show "inode_ok 0x10000 0x11000 0 image" "inode_ok 0x10000 0x11000 1 image"
    by (simp_all add: inode_ok_def)
qed

lemma image_names:
  "entry_name 0x10000 image 0 = [46]" "entry_name 0x10000 image (Suc 0) = [115, 104, 101, 108, 108]"
  "entry_name 0x10000 image 2 = [97]" "entry_name 0x10000 image 3 = [114, 116, 99]"
  by (simp_all add: entry_name_def dir_entry_def upt_rec) (simp_all add: image_def)

definition shell_pcb :: PCB_t where
  "shell_pcb = \<lparr>file_descriptor_tabele = [open_descriptor stdin_jumptable 0, open_descriptor stdout_jumptable 0]
       @ replicate 6 closed_descriptor,
     arg = [97] @ replicate 1023 0, parent_esp0 = 0x800000, parent_ss0 = 0x18, parent_ebp = 0, parent_esp = 0,
     parent_PDBR = 0x501000, curr_ebp = 0, curr_esp = 0, curr_PDBR = 0x501000, curr_esp0 = 0x800000\<rparr>"

text \<open>The machine before paging is on.\<close>

definition unpaged :: process where
  "unpaged = paging.extend (paging0\<lparr>phys := image,
       terminals := map (\<lambda>i. (terminal0 i)\<lparr>phys_mem_idx := int i # replicate 5 (-1)\<rparr>) [0, 1, 2],
       phys_addr_available := [0, 0, 0, 1, 1, 1], curr_terminal_idx := 0, curr_running_terminal_idx := 0\<rparr>)
     (process.fields (replicate 6 shell_pcb) 0x18 0x800000 0 0x7FFE00 0x7FFD00 (\<lambda>a. (a - 4, a - 64)) (replicate 4 0))"

lemma unpaged_simps [simp]:
  "phys unpaged = image" "curr_terminal_idx unpaged = 0" "curr_running_terminal_idx unpaged = 0"
  "terminals unpaged = map (\<lambda>i. (terminal0 i)\<lparr>phys_mem_idx := int i # replicate 5 (-1)\<rparr>) [0, 1, 2]"
  "phys_addr_available unpaged = [0, 0, 0, 1, 1, 1]" "boot_block unpaged = 0x10000" "inode_addr unpaged = 0x11000"
  "curr_dir_dentry unpaged = some_dentry" "curr_file_dentry unpaged = some_dentry" "last_round unpaged = 0"
  "pcbs unpaged = replicate 6 shell_pcb" "exception_flag unpaged = 0" "stack_junk unpaged = replicate 4 0"
  "addr_pde unpaged = (\<lambda>k. of_nat (0x500000 + k * 4096))"
  by (simp_all add: unpaged_def paging.defs process.defs paging0_def file_system.defs fs0_def terminal_state.defs)

lemma unpaged_boot: "paging_boot unpaged"
  using paging0_boot
  by (simp add: paging_boot_def paging_ok_def unpaged_def paging.defs process.defs)

definition paged :: process where
  "paged = the (map_page_init unpaged)"

definition machine0 :: process where
  "machine0 = the (set_page 32 (slot_base 0) (int (Suc 0)) False (-1) paged)"

lemma paged_inv: "paging_inv paged" "map_page_init unpaged = Some paged"
  using map_page_init_inv [OF unpaged_boot] by (auto simp: paged_def)

lemma paged_simps [simp]:
  "phys paged = image" "curr_terminal_idx paged = 0" "curr_running_terminal_idx paged = 0"
  "terminals paged = terminals unpaged"
  "phys_addr_available paged = [0, 0, 0, 1, 1, 1]" "boot_block paged = 0x10000" "inode_addr paged = 0x11000"
  "curr_dir_dentry paged = some_dentry" "curr_file_dentry paged = some_dentry" "last_round paged = 0"
  "pcbs paged = replicate 6 shell_pcb" "exception_flag paged = 0" "stack_junk paged = replicate 4 0"
  using unpaged_boot by (simp_all add: paged_def map_page_init_eq paging_boot_def loaded_def)

lemma machine0_paging:
  "set_page 32 (slot_base 0) (int (Suc 0)) False (-1) paged = Some machine0" "paging_inv machine0"
  "cr3 machine0 = addr_pde machine0 (Suc 0)" "slot_directory machine0 0 (pdes machine0 ! Suc 0)"
  "machine0 = loaded (Suc 0) (paged\<lparr>pte_zero := identity_table,
      pdes := (pdes paged)[Suc 0 := (kernel_entries paged (pdes paged ! Suc 0))[32 := slot_base 0 OR 0x87]]\<rparr>)"
  using set_page_inv [OF paged_inv(1), of 0 "-1"] by (auto simp: machine0_def)

lemma machine0_simps [simp]:
  "phys machine0 = image" "curr_terminal_idx machine0 = 0" "curr_running_terminal_idx machine0 = 0"
  "terminals machine0 = terminals unpaged"
  "phys_addr_available machine0 = [0, 0, 0, 1, 1, 1]" "boot_block machine0 = 0x10000" "inode_addr machine0 = 0x11000"
  "curr_dir_dentry machine0 = some_dentry" "curr_file_dentry machine0 = some_dentry" "last_round machine0 = 0"
  "pcbs machine0 = replicate 6 shell_pcb" "exception_flag machine0 = 0" "stack_junk machine0 = replicate 4 0"
  unfolding machine0_paging(5) by (simp_all add: loaded_def)

lemma machine0_stack [simp]: "i < 3 \<Longrightarrow> stack machine0 i = [int i]" "run_idx machine0 = 0"
proof -
  assume "i < 3"
  then have "i \<in> {0, 1, 2}" by auto
  then show "stack machine0 i = [int i]" by (auto simp: stack_of_def)
qed (simp add: run_idx_def)

lemma shell_pcb_ok: "pcb_ok shell_pcb"
  by (simp add: pcb_ok_def shell_pcb_def)

lemma machine0_procs: "procs_ok machine0" "fs_ready machine0"
proof -
  have three: "(\<forall>i<3. P i) \<longleftrightarrow> P 0 \<and> P 1 \<and> P (2::nat)" "(\<exists>i<3. P i) \<longleftrightarrow> P 0 \<or> P 1 \<or> P (2::nat)" for P
    by (auto simp: numeral_3_eq_3 numeral_2_eq_2 less_Suc_eq)
  have "stack_ok (terminals machine0 ! i)" if "i \<in> {0, 1, 2}" for i
    using that by (auto simp: stack_ok_def stack_of_def)
  from this [of 0] this [of 1] this [of 2] have "stacks_ok machine0"
    by (simp add: stacks_ok_def three stack_of_def)
  moreover have "phys_addr_available machine0 ! k = 0 \<longleftrightarrow> (\<exists>i<3. int k \<in> set (stack machine0 i))" if "k < 6" for k
  proof -
    from that have "k \<in> {0, 1, 2, 3, 4, 5}" by auto
    then show ?thesis unfolding three by (auto simp: stack_of_def)
  qed
  ultimately show "procs_ok machine0" using shell_pcb_ok by (simp add: procs_ok_def)
  show "fs_ready machine0" using image_ok(1) by (simp add: fs_ready_def some_dentry_def)
qed

lemma machine0_buffer: "in_program 0 0x08050000 4096 machine0"
  using machine0_paging by (simp add: in_program_def)

end
