(* ===== verification/SystemCalls.thy ===== *)
theory SystemCalls
  imports Sample
begin

text \<open>
  What the system calls of \<open>system_call_handler.c\<close> do for the running process: descriptors, \<open>getargs\<close>,
  \<open>vidmap\<close>, reading and writing through a descriptor.
\<close>

text \<open>Of the terminals, the process table depends on the stacks only.\<close>

lemma procs_ok_stacks:
  assumes "procs_ok s" "length (terminals s') = 3"
    "\<And>i. i < 3 \<Longrightarrow> phys_mem_idx (terminals s' ! i) = phys_mem_idx (terminals s ! i)"
    "pcbs s' = pcbs s" "phys_addr_available s' = phys_addr_available s"
    "curr_running_terminal_idx s' \<in> {0, 1, 2}" "curr_terminal_idx s' \<in> {0, 1, 2}"
  shows "procs_ok s'"
proof -
  have "stack s' i = stack s i \<and> stack_ok (terminals s' ! i) = stack_ok (terminals s ! i)" if "i < 3" for i
    using assms(3) [OF that] by (simp add: stack_of_def stack_ok_def)
  then show ?thesis
    using assms unfolding procs_ok_def stacks_ok_def by (simp cong: conj_cong)
qed

section \<open>What the descriptor calls do\<close>

text \<open>C14. \<open>open\<close> on the running process: if the directory has the name and a descriptor is free, the lowest
  free descriptor is returned and now holds the driver that the file's type calls for, at position 0,
  and no other descriptor, process or byte of memory changes; otherwise the result is \<open>-1\<close> and only the
  interrupt flag changes. Closing the descriptor again restores the table.\<close>

theorem open_then_close:
  assumes "procs_ok s" "stack s (run_idx s) \<noteq> []" "fs_ready s" "is_cstr name xs"
    and "i = first_index (\<lambda>d. fd_flags d = 0) (file_descriptor_tabele (running_pcb s))"
  shows "if found s xs \<and> i < 8
    then \<exists>s'. sys_open False name s = Some (int i, s') \<and> procs_ok s' \<and> phys s' = phys s
      \<and> pcbs s' = with_running_pcb (with_fd i (descriptor_for (entry_of s xs)) (running_pcb s)) s
      \<and> (2 \<le> i \<and> file_descriptor_tabele (running_pcb s) ! i = closed_descriptor \<longrightarrow>
          (\<exists>s''. sys_close (int i) s' = Some (0, s'') \<and> pcbs s'' = pcbs s \<and> procs_ok s''))
    else sys_open False name s = Some (-1, cli s)"
proof (cases "found s xs \<and> i < 8")
  case True
  obtain s' where s': "sys_open False name s = Some (int i, s')"
      "pcbs s' = with_running_pcb (with_fd i (descriptor_for (entry_of s xs)) (running_pcb s)) s"
      "terminals s' = terminals s" "phys_addr_available s' = phys_addr_available s" "phys s' = phys s"
      "curr_running_terminal_idx s' = curr_running_terminal_idx s" "curr_terminal_idx s' = curr_terminal_idx s" "procs_ok s'"
    using sys_open_eq(1) [OF assms True] by blast
  have run: "run_idx s' = run_idx s" "stack s' (run_idx s') \<noteq> []" using s' assms(2) by (simp_all add: run_idx_def)
  obtain k where k: "k < 6" "aget (pcbs s) (int k) = Some (running_pcb s)" "k = nat (last (stack s (run_idx s)))"
    "pcb_ok (running_pcb s)" "length (pcbs s) = 6"
    using running_pcb_eq [OF assms(1,2)] by blast
  have len: "length (file_descriptor_tabele (running_pcb s)) = 8" using k(4) by (simp add: pcb_ok_def)
  have rp: "running_pcb s' = with_fd i (descriptor_for (entry_of s xs)) (running_pcb s)"
    using s' run k(1,3,5) by (simp add: running_pcb_def with_running_pcb_def run_idx_def)
  have "\<exists>s''. sys_close (int i) s' = Some (0, s'') \<and> pcbs s'' = pcbs s \<and> procs_ok s''"
    if c: "2 \<le> i" "file_descriptor_tabele (running_pcb s) ! i = closed_descriptor"
  proof -
    have "fd_flags (file_descriptor_tabele (running_pcb s') ! i) \<noteq> 0"
      using True len by (simp add: rp with_fd_def descriptor_for_def)
    from sys_close_eq [OF s'(8) run(2) c(1) _ this] True
    have "sys_close (int i) s' = Some (0, s'\<lparr>pcbs := with_running_pcb (with_fd i closed_descriptor (running_pcb s')) s'\<rparr>)"
      by simp
    moreover have "with_fd i closed_descriptor (running_pcb s') = running_pcb s"
      using c(2) list_update_id [of "file_descriptor_tabele (running_pcb s)" i]
      by (cases "running_pcb s") (simp add: rp with_fd_def)
    moreover have "with_running_pcb (running_pcb s) s' = pcbs s"
      using s' k by (simp add: with_running_pcb_def run_idx_def running_pcb_def)
    moreover have "procs_ok (s'\<lparr>pcbs := pcbs s\<rparr>)"
      using assms(1) s' by (simp add: procs_ok_def stacks_ok_def)
    ultimately show ?thesis by auto
  qed
  then show ?thesis using True s' by auto
next
  case False
  then show ?thesis using sys_open_eq(2) [OF assms False] by simp
qed

section \<open>getargs and vidmap\<close>

text \<open>The frame and the content of a run of stores into the running program's memory.\<close>

lemma put_list_program:
  assumes "in_program k a n s" "length xs \<le> n"
  shows "\<exists>m. put_list (user_put a) s 0 xs = Some (s\<lparr>phys := m\<rparr>)
    \<and> (\<forall>j<n. user_get a (s\<lparr>phys := m\<rparr>) j = (if j < length xs then Some (xs ! j) else user_get a s j))"
proof -
  obtain s' m where "put_list (user_put a) s 0 xs = Some s'" "s' = s\<lparr>phys := m\<rparr>"
    "\<forall>j<n. user_get a s' j = (if 0 \<le> j \<and> j < 0 + length xs then Some (xs ! (j - 0)) else user_get a s j)"
    using program_destination.put_list_stored [where s = s and k = k and limit = n and a = a and i = 0 and xs = xs
        and image = "{}" and m = "phys s"] assms by auto
  then show ?thesis by auto
qed

text \<open>C36. \<open>getargs\<close> returns the argument of the running process, but its test is the wrong way round: a buffer
  of \<open>nbytes\<close> bytes that is too small is written with the whole argument and its NUL, past its end,
  while one that is large enough is filled to exactly \<open>nbytes\<close>. A process without argument gets \<open>-1\<close>.\<close>

theorem getargs_copies_argument:
  assumes "procs_ok s" "stack s (run_idx s) \<noteq> []" "is_cstr (arr_get (arg (running_pcb s))) xs"
    and "in_program k buf room s" "length xs < room" "n \<le> room" "n < 4294967296"
  shows "if xs = [] then getargs buf (int n) s = Some (-1, cli s)
    else \<exists>m. getargs buf (int n) s = Some (0, sti (cli s)\<lparr>phys := m\<rparr>)
      \<and> (if n < length xs then \<forall>j\<le>length xs. user_get buf (s\<lparr>phys := m\<rparr>) j = Some ((xs @ [0]) ! j)
         else \<forall>j<n. user_get buf (s\<lparr>phys := m\<rparr>) j = Some (if j < length xs then xs ! j else 0))"
proof -
  define c where "c = cli s"
  have c: "pcbs c = pcbs s" "terminals c = terminals s" "curr_running_terminal_idx c = curr_running_terminal_idx s"
    by (simp_all add: c_def cli_def)
  obtain l where l: "running_process s = Some (int l)" "aget (pcbs s) (int l) = Some (running_pcb s)" "pcb_ok (running_pcb s)"
    using running_pcb_eq [OF assms(1,2)] by blast
  have rc: "running_process c = Some (int l)" using l(1) by (simp add: running_process_def c)
  have a0: "aget (arg (running_pcb s)) 0 = Some (if xs = [] then 0 else xs ! 0)"
    using l(3) is_cstrD [OF assms(3)] by (auto simp: pcb_ok_def aget_def arr_get_def split: if_splits)
  have len: "length xs < 4294967296"
  proof -
    have "arr_get (arg (running_pcb s)) (length xs) = Some 0" using assms(3) by (simp add: is_cstr_def)
    then have "length xs < 1024" using l(3) by (simp add: arr_get_def pcb_ok_def split: if_splits)
    then show ?thesis by simp
  qed
  have in_c: "in_program k buf room c" using assms(4) in_program_cong [of c s] by (simp add: c_def cli_def)
  have get_c: "user_get buf (c\<lparr>phys := m\<rparr>) = user_get buf (s\<lparr>phys := m\<rparr>)" for m
    by (rule user_get_cong) (simp_all add: c_def cli_def)
  have cmp: "(word_of_int (int n) :: u32) < of_nat (length xs) \<longleftrightarrow> n < length xs"
    using assms(7) len by (simp add: word_less_nat_alt)
  have e: "(0 \<in> set xs) = False" using assms(3) by (simp add: is_cstr_def)
  define ys where "ys = (if n < length xs then xs @ [0] else take n xs @ replicate (n - length xs) 0)"
  have ys: "length ys \<le> room" using assms(5,6) by (auto simp: ys_def)
  obtain m where m: "put_list (user_put buf) c 0 ys = Some (c\<lparr>phys := m\<rparr>)"
    "\<forall>j<room. user_get buf (c\<lparr>phys := m\<rparr>) j = (if j < length ys then Some (ys ! j) else user_get buf c j)"
    using put_list_program [OF in_c ys] by blast
  have sl: "strlen (arr_get (arg (running_pcb s))) = Some (length xs)"
    by (rule strlen_cstr [OF assms(3)])
  have run: "getargs buf (int n) s = (if xs = [] then Some (-1, c) else Some (0, sti (c\<lparr>phys := m\<rparr>)))"
    using rc l(2) a0 c m(1) cmp assms(7) is_cstrD [OF assms(3)]
    by (auto simp: getargs_def c_def [symmetric] Let_def sl strcpy_eq [OF assms(3)] strncpy_eq [OF assms(3)] ys_def unat_of_nat_u32)
  have "sti (c\<lparr>phys := m\<rparr>) = sti c\<lparr>phys := m\<rparr>" by (simp add: sti_def)
  then show ?thesis
    using run m(2) ys get_c unfolding ys_def c_def
    apply (auto simp: nth_append)
    done
qed

section \<open>Reading a file through a descriptor\<close>

text \<open>The running program may read \<open>n\<close> bytes of the file of inode \<open>ino\<close> into its buffer: the image of
  the file system, which is \<open>m\<close> on the bytes that matter, lies in the kernel's memory.\<close>

definition readable :: "nat \<Rightarrow> u32 \<Rightarrow> nat \<Rightarrow> u32 \<Rightarrow> mem \<Rightarrow> 'z file_system_scheme \<Rightarrow> bool" where
  "readable k buf n ino m s \<longleftrightarrow> inode_ok (boot_block s) (inode_addr s) ino m
     \<and> (\<forall>x\<in>footprint (boot_block s) (inode_addr s) ino m. phys s x = m x \<and> unat x < 8388608)"

definition fd_of :: "nat \<Rightarrow> 'z process_scheme \<Rightarrow> file_descriptor_t" where
  "fd_of i s = file_descriptor_tabele (running_pcb s) ! i"

abbreviation open_file :: "nat \<Rightarrow> 'z process_scheme \<Rightarrow> bool" where
  "open_file i s \<equiv> i < 8 \<and> i \<noteq> 1 \<and> fd_flags (fd_of i s) \<noteq> 0 \<and> file_operation_table_ptr (fd_of i s) = Some FILE_jumptable"

lemma sys_read_file_eq:
  assumes ok: "procs_ok s" "stack s (run_idx s) \<noteq> []" and i: "open_file i s"
    and buf: "in_program k buf n s" and img0: "readable k buf n (fd_inode (fd_of i s)) m s"
    and F: "F = file_contents (boot_block s) (inode_addr s) (fd_inode (fd_of i s)) m"
    and pos: "pos = unat (file_position (fd_of i s))" "pos \<le> length F"
    and n: "0 < n" "n \<le> 2147483647" and round: "last_round s \<in> {0, 1}"
  shows "\<exists>s'. sys_read (int i) buf (int n) irqs s
      = Some (if pos + n \<le> length F then int n else if last_round s = 0 then int (length F - pos) else 0, s')
    \<and> (\<forall>j<min n (length F - pos). user_get buf s' j = Some (F ! (pos + j)))
    \<and> pcbs s' = with_running_pcb (with_fd i ((fd_of i s)\<lparr>file_position := of_nat (if pos + n \<le> length F then pos + n else pos)\<rparr>)
        (running_pcb s)) s
    \<and> last_round s' = (if pos + n \<le> length F then last_round s else if last_round s = 0 then 1 else 0)
    \<and> terminals s' = terminals s \<and> boot_block s' = boot_block s \<and> inode_addr s' = inode_addr s
    \<and> procs_ok s' \<and> in_program k buf n s' \<and> readable k buf n (fd_inode (fd_of i s)) m s'
    \<and> curr_running_terminal_idx s' = curr_running_terminal_idx s"
proof -
  define c where "c = cli s"
  have c: "pcbs c = pcbs s" "terminals c = terminals s" "curr_running_terminal_idx c = curr_running_terminal_idx s"
    "boot_block c = boot_block s" "inode_addr c = inode_addr s" "phys c = phys s" "last_round c = last_round s"
    by (simp_all add: c_def cli_def)
  obtain l where l: "running_process s = Some (int l)" "l < 6" "aget (pcbs s) (int l) = Some (running_pcb s)"
    "l = nat (last (stack s (run_idx s)))" "pcb_ok (running_pcb s)" "length (pcbs s) = 6"
    using running_pcb_eq [OF ok] .
  have rc: "running_process c = Some (int l)" using l(1) by (simp add: running_process_def c)
  have len: "length (file_descriptor_tabele (running_pcb s)) = 8" using l(5) by (simp add: pcb_ok_def)
  have in_c: "in_program k buf n c" using buf in_program_cong [of c s] by (simp add: c_def cli_def)
  define fd where "fd = fd_of i s"
  define image where "image = footprint (boot_block s) (inode_addr s) (fd_inode fd) m"
  have inode: "inode_ok (boot_block c) (inode_addr c) (fd_inode fd) m" and img: "\<forall>x\<in>image. phys c x = m x \<and> unat x < 8388608"
    using img0 by (simp_all add: readable_def fd_def image_def c)
  have "\<exists>s1 m1. s1 = c\<lparr>phys := m1\<rparr> \<and> (in_program k buf n s1 \<and> (\<forall>x\<in>image. phys s1 x = m x \<and> unat x < 8388608))
    \<and> (\<forall>j<length (take n (drop pos F)). user_get buf s1 j = Some (take n (drop pos F) ! j)) \<and>
    file_read (user_put buf) (int n) fd c
      = Some (if pos + n \<le> length F then (int n, fd\<lparr>file_position := of_nat (pos + n)\<rparr>, s1)
          else if last_round c = 0 then (int (length F - pos), fd, s1\<lparr>last_round := 1\<rparr>)
          else (0, fd, s1\<lparr>last_round := 0\<rparr>))"
  proof (rule program_destination.file_read_eq [where m = m and image = image and limit = n])
    show "in_program k buf n c \<and> (\<forall>x\<in>image. phys c x = m x \<and> unat x < 8388608)" using in_c img by simp
    show "length F = unat (inode_length (inode_addr c) (fd_inode fd) m)" by (simp add: F c fd_def)
    show "take n (drop pos F) = take n (drop pos (file_contents (boot_block c) (inode_addr c) (fd_inode fd) m))"
      by (simp add: F c fd_def)
  qed (use inode pos n round in \<open>simp_all add: image_def c fd_def\<close>)
  then obtain s1 m1 where s1: "s1 = c\<lparr>phys := m1\<rparr>" "in_program k buf n s1 \<and> (\<forall>x\<in>image. phys s1 x = m x \<and> unat x < 8388608)"
    "\<forall>j<length (take n (drop pos F)). user_get buf s1 j = Some (take n (drop pos F) ! j)"
    "file_read (user_put buf) (int n) fd c
      = Some (if pos + n \<le> length F then (int n, fd\<lparr>file_position := of_nat (pos + n)\<rparr>, s1)
          else if last_round c = 0 then (int (length F - pos), fd, s1\<lparr>last_round := 1\<rparr>)
          else (0, fd, s1\<lparr>last_round := 0\<rparr>))"
    by (elim exE conjE) (rule that, assumption, rule conjI, assumption+)
  define fd' where "fd' = fd\<lparr>file_position := of_nat (if pos + n \<le> length F then pos + n else pos)\<rparr>"
  define s2 where "s2 = (if pos + n \<le> length F then s1 else if last_round c = 0 then s1\<lparr>last_round := 1\<rparr> else s1\<lparr>last_round := 0\<rparr>)"
  have fd_same: "fd\<lparr>file_position := of_nat pos\<rparr> = fd" using pos(1) by (simp add: fd_def)
  have s2: "pcbs s2 = pcbs s" "terminals s2 = terminals s" "phys s2 = m1" "boot_block s2 = boot_block s" "inode_addr s2 = inode_addr s"
    "last_round s2 = (if pos + n \<le> length F then last_round s else if last_round s = 0 then 1 else 0)"
    "phys_addr_available s2 = phys_addr_available s" "curr_running_terminal_idx s2 = curr_running_terminal_idx s"
    "curr_terminal_idx s2 = curr_terminal_idx s" "in_program k buf n s2 = in_program k buf n s1" "user_get buf s2 = user_get buf s1"
    using in_program_cong [of s2 s1] user_get_cong [of s2 s1] c by (auto simp: s2_def s1(1) c_def cli_def)
  have read: "file_read (user_put buf) (int n) fd c
      = Some (if pos + n \<le> length F then int n else if last_round s = 0 then int (length F - pos) else 0, fd', s2)"
    using s1(4) fd_same by (simp add: fd'_def s2_def c)
  define s' where "s' = s2\<lparr>pcbs := (pcbs s)[l := with_fd i fd' (running_pcb s)]\<rparr>"
  have "pcbs s ! l = running_pcb s" using l(2,3,6) by (simp add: aget_in)
  then have upd: "upd_pcb (int l) (set_fd (int i) fd') s2 = Some s'"
    using l(2,6) i len set_fd_eq [of i "running_pcb s" fd'] by (simp add: upd_pcb_eq s2(1) s'_def)
  have "sys_read (int i) buf (int n) irqs s
      = Some (if pos + n \<le> length F then int n else if last_round s = 0 then int (length F - pos) else 0, s')"
    using i len read upd rc l(3)
    by (simp add: sys_read_def c_def [symmetric] c(1) aget_in fd_of_def [symmetric] fd_def [symmetric] driver_read_def)
  moreover have "procs_ok s'"
    using i l(5) by (intro procs_ok_pcbs [OF ok(1), of "with_fd i fd' (running_pcb s)" _ l] pcb_ok_with_fd)
      (simp_all add: s'_def s2 fd'_def fd_def)
  moreover have "in_program k buf n s' = in_program k buf n s2" "user_get buf s' = user_get buf s2"
    by (rule in_program_cong user_get_cong; simp add: s'_def)+
  moreover have "readable k buf n (fd_inode fd) m s'"
    using inode s1 by (simp add: readable_def s'_def s2 image_def c)
  ultimately show ?thesis
    using s1 s2 pos by (auto simp: s'_def with_running_pcb_def l(4) [symmetric] fd'_def fd_def)
qed

text \<open>A user program that reads an open file to its end, \<open>n\<close> bytes at a time.\<close>

fun cat :: "nat \<Rightarrow> nat \<Rightarrow> u32 \<Rightarrow> nat \<Rightarrow> 'z process_scheme \<Rightarrow> (u8 list \<times> 'z process_scheme) option" where
  "cat 0 i buf n s = None"
| "cat (Suc fuel) i buf n s =
     do { (r, s) \<leftarrow> sys_read (int i) buf (int n) [] s;
          if r \<le> 0 then Some ([], s)
          else do { (xs, s') \<leftarrow> cat fuel i buf n s;
                    Some (map (\<lambda>j. the (user_get buf s j)) [0..<nat r] @ xs, s') } }"

lemma fd_of_updated:
  assumes "procs_ok s" "stack s (run_idx s) \<noteq> []" "i < 8" "pcbs s' = with_running_pcb (with_fd i d (running_pcb s)) s"
    "terminals s' = terminals s" "curr_running_terminal_idx s' = curr_running_terminal_idx s"
  shows "fd_of i s' = d" "stack s' (run_idx s') \<noteq> []"
proof -
  obtain k where k: "k < 6" "k = nat (last (stack s (run_idx s)))" "pcb_ok (running_pcb s)" "length (pcbs s) = 6"
    using running_pcb_eq [OF assms(1,2)] by metis
  then show "fd_of i s' = d"
    using assms(3-6) by (simp add: fd_of_def running_pcb_def with_running_pcb_def run_idx_def with_fd_def pcb_ok_def)
  show "stack s' (run_idx s') \<noteq> []" using assms by (simp add: run_idx_def)
qed

lemma cat_eq:
  assumes n: "0 < n" "n \<le> 2147483647"
  shows "procs_ok s \<Longrightarrow> stack s (run_idx s) \<noteq> [] \<Longrightarrow> open_file i s \<Longrightarrow> in_program k buf n s \<Longrightarrow>
    readable k buf n (fd_inode (fd_of i s)) m s \<Longrightarrow>
    F = file_contents (boot_block s) (inode_addr s) (fd_inode (fd_of i s)) m \<Longrightarrow>
    pos = unat (file_position (fd_of i s)) \<Longrightarrow> pos \<le> length F \<Longrightarrow> last_round s = 0 \<Longrightarrow>
    (length F - pos) div n + 2 \<le> fuel \<Longrightarrow>
    \<exists>s'. cat fuel i buf n s = Some (drop pos F, s') \<and> procs_ok s'"
proof (induction fuel arbitrary: pos s)
  case (Suc fuel)
  have F: "length F \<le> 4190208" using Suc.prems by (simp add: readable_def inode_ok_def)
  note step = sys_read_file_eq [OF _ _ _ _ _ _ _ _ n, where i = i and irqs = "[]"]
  obtain s1 where s1: "sys_read (int i) buf (int n) [] s = Some (if pos + n \<le> length F then int n else int (length F - pos), s1)"
    "\<forall>j<min n (length F - pos). user_get buf s1 j = Some (F ! (pos + j))"
    "pcbs s1 = with_running_pcb (with_fd i ((fd_of i s)\<lparr>file_position := of_nat (if pos + n \<le> length F then pos + n else pos)\<rparr>)
        (running_pcb s)) s"
    "last_round s1 = (if pos + n \<le> length F then 0 else 1)"
    "terminals s1 = terminals s" "boot_block s1 = boot_block s" "inode_addr s1 = inode_addr s"
    "procs_ok s1" "in_program k buf n s1" "readable k buf n (fd_inode (fd_of i s)) m s1"
    "curr_running_terminal_idx s1 = curr_running_terminal_idx s"
    using step [OF Suc.prems(1-8)] Suc.prems(9) by (auto split: if_splits)
  have i: "i < 8" using Suc.prems(3) by simp
  note fd1 = fd_of_updated [OF Suc.prems(1,2) i s1(3,5,11)]
  have chunk: "map (\<lambda>j. the (user_get buf s1 j)) [0..<min n (length F - pos)] = take n (drop pos F)"
    using s1(2) by (intro nth_equalityI) auto
  have open1: "open_file i s1" using Suc.prems(3) by (simp add: fd1(1))
  have ino1: "readable k buf n (fd_inode (fd_of i s1)) m s1"
    "F = file_contents (boot_block s1) (inode_addr s1) (fd_inode (fd_of i s1)) m"
    using s1(10,6,7) Suc.prems(6) by (simp_all add: fd1(1))
  show ?case
  proof (cases "pos + n \<le> length F")
    case True
    have "(length F - pos) div n = Suc ((length F - (pos + n)) div n)"
      using True n(1) by (simp add: div_if)
    then obtain s' where s': "cat fuel i buf n s1 = Some (drop (pos + n) F, s')" "procs_ok s'"
      using Suc.IH [OF s1(8) fd1(2) open1 s1(9) ino1, of "pos + n"] True F Suc.prems s1(4) fd1(1)
      by (auto simp del: of_nat_add)
    have "take n (drop pos F) @ drop (pos + n) F = drop pos F" by (metis append_take_drop_id drop_drop add.commute)
    then show ?thesis using True s1(1) s' n(1) chunk by (auto simp: min_def split: if_splits)
  next
    case False
    show ?thesis
    proof (cases "pos = length F")
      case True
      then show ?thesis using False s1(1,8) by simp
    next
      case False': False
      have "0 < fuel" using Suc.prems(10) by simp
      then obtain f where f: "fuel = Suc f" by (metis gr0_conv_Suc)
      have fp: "pos = unat (file_position (fd_of i s1))" using F False fd1(1) Suc.prems(8) by simp
      obtain s2 where s2: "sys_read (int i) buf (int n) [] s1 = Some (0, s2)" "procs_ok s2"
        using step [OF s1(8) fd1(2) open1 s1(9) ino1 fp Suc.prems(8)] False s1(4) by auto
      have "take n (drop pos F) = drop pos F" using False by simp
      moreover have "nat (int (length F) - int pos) = length F - pos" by linarith
      ultimately show ?thesis using False False' Suc.prems(8) s1(1) s2 chunk f by (auto simp: min_def split: if_splits)
    qed
  qed
qed simp

text \<open>C10. A program that has opened a file (its position is \<open>0\<close> and no other read is half done) and calls \<open>read\<close>
  with any count until it returns \<open>0\<close> receives exactly the bytes of the file, after at most
  \<open>length div n + 2\<close> calls. The bytes come through the page tables into its own memory, so the file
  system image in the kernel's memory is safe from them.\<close>

theorem program_reads_file:
  assumes "procs_ok s" "stack s (run_idx s) \<noteq> []" "open_file i s" "in_program k buf n s"
    and "readable k buf n (fd_inode (fd_of i s)) (phys s) s" "file_position (fd_of i s) = 0" "last_round s = 0"
    and "0 < n" "n \<le> 2147483647" "F = file_contents (boot_block s) (inode_addr s) (fd_inode (fd_of i s)) (phys s)"
  shows "\<exists>s'. cat (length F div n + 2) i buf n s = Some (F, s') \<and> procs_ok s'"
  using cat_eq [OF assms(8,9,1-5,10), of 0 "length F div n + 2"] assms(6,7) by simp

section \<open>vidmap and writing to the screen\<close>

lemma put_list_program_frame:
  "in_program k a n s \<Longrightarrow> i + length xs \<le> n \<Longrightarrow> put_list (user_put a) s i xs = Some s' \<Longrightarrow>
   x \<notin> program_byte k a ` {..<n} \<Longrightarrow> phys s' x = phys s x"
proof (induction xs arbitrary: s i)
  case (Cons y ys)
  then have i: "i < n" by simp
  have p: "put_list (user_put a) (s\<lparr>phys := (phys s)(program_byte k a i := y)\<rparr>) (Suc i) ys = Some s'"
    using Cons.prems(3) by (simp add: user_put_program [OF Cons.prems(1) i])
  from Cons.IH [OF _ _ p Cons.prems(4)] show ?case using Cons.prems(1,2,4) i by auto
qed simp

lemma user_store32_eq:
  assumes "in_program k a 4 s"
  shows "\<exists>m. user_store32 a v s = Some (s\<lparr>phys := m\<rparr>)
    \<and> (\<forall>j<4. user_get a (s\<lparr>phys := m\<rparr>) j = Some (word_bytes v ! j))
    \<and> (\<forall>x. x \<notin> program_byte k a ` {..<4} \<longrightarrow> m x = phys s x)"
proof -
  have len: "length (word_bytes v) = 4" by (simp add: word_bytes_def)
  obtain m where m: "put_list (user_put a) s 0 (word_bytes v) = Some (s\<lparr>phys := m\<rparr>)"
    "\<forall>j<4. user_get a (s\<lparr>phys := m\<rparr>) j = Some (word_bytes v ! j)"
    using put_list_program [OF assms, of "word_bytes v"] by (auto simp: len)
  have "user_store32 a v s = put_list (user_put a) s 0 (word_bytes v)"
  proof -
    have e: "Suc 0 = 1" "Suc 1 = 2" "Suc 2 = 3" by simp_all
    show ?thesis by (simp only: user_store32_def word_bytes_def put_list.simps e Option.bind_runit)
  qed
  moreover have "m x = phys s x" if "x \<notin> program_byte k a ` {..<4}" for x
    using put_list_program_frame [OF assms _ m(1) that] by (simp add: len)
  ultimately show ?thesis using m by metis
qed

lemma vidmap_range: "ptr < 0x08000000 \<or> ptr \<ge> 0x08400000 \<longleftrightarrow> unat (ptr :: u32) div 4194304 \<noteq> 32"
proof -
  have "ptr < 0x08000000 \<or> ptr \<ge> 0x08400000 \<longleftrightarrow> unat ptr < 134217728 \<or> unat ptr \<ge> 138412032"
    by (simp add: word_less_nat_alt word_le_nat_alt)
  then show ?thesis by auto
qed

lemma displayed_process:
  assumes "procs_ok s" "t = nat (curr_terminal_idx s)" "stack s t \<noteq> []" "k = nat (last (stack s t))"
  shows "t < 3" "curr_terminal_idx s = int t" "length (terminals s) = 3" "k < 6" "top_process (terminals s ! t) = Some (int k)"
proof -
  have st: "stacks_ok s" using assms(1) by (simp add: procs_ok_def)
  show t3: "t < 3" and "curr_terminal_idx s = int t" and "length (terminals s) = 3"
    using st assms(2) by (auto simp: stacks_ok_def)
  show "k < 6" using last_stack_range [OF st t3 assms(3)] assms(4) by simp
  have "last (stack s t) = int k" using last_stack_range [OF st t3 assms(3)] assms(4) by simp
  then show "top_process (terminals s ! t) = Some (int k)"
    using top_process_eq [of "terminals s ! t"] st t3 assms(3) by (simp add: stacks_ok_def)
qed

text \<open>C24. \<open>vidmap\<close> accepts pointers into the user's 4 MB page only. It then works for the program on top of the
  terminal that is on the screen, whoever calls it: it loads that program's page directory, maps the
  terminal's own video page into it, stores the page's address through the pointer into that
  program's memory and touches nothing else in memory.\<close>

theorem vidmap_maps_displayed_terminal:
  assumes ok: "procs_ok s" "paging_inv s" and t: "t = nat (curr_terminal_idx s)" "stack s t \<noteq> []"
    and k: "k = nat (last (stack s t))" and ptr: "unat ptr mod 4194304 + 4 \<le> 4194304"
  shows "if unat ptr div 4194304 \<noteq> 32 then vidmap ptr s = Some (-1, s)
    else \<exists>s'. vidmap ptr s = Some (0, s') \<and> paging_inv s' \<and> procs_ok s' \<and> cr3 s' = addr_pde s' (Suc k)
      \<and> (\<forall>o'<4096. translate True (0x08801000 + of_nat t * 4096 + of_nat o') s' = Some (backup t + of_nat o'))
      \<and> (\<forall>j<4. user_get ptr s' j = Some (word_bytes (0x08801000 + of_nat t * 4096) ! j))
      \<and> (\<forall>x. x \<notin> program_byte k ptr ` {..<4} \<longrightarrow> phys s' x = phys s x)"
proof -
  note range = vidmap_range [of ptr]
  note d = displayed_process [OF ok(1) t k]
  define s1 where "s1 = s\<lparr>terminals := (terminals s)[t := (terminals s ! t)\<lparr>vid_on := 1\<rparr>]\<rparr>"
  have s1: "upd_curr (\<lambda>t. Some (t\<lparr>vid_on := 1\<rparr>)) s = Some s1" "curr_terminal s = Some (terminals s ! t)"
    using d(1,3) by (simp_all add: d(2) upd_terminal_eq s1_def aget_in)
  have inv1: "paging_inv s1" "phys s1 = phys s" "curr_terminal_idx s1 = int t"
    using ok(2) by (simp_all add: s1_def paging_inv_def paging_ok_def maps_kernel_def slot_directory_def d(2))
  have "procs_ok s1"
    using ok(1) d(1,3) by (intro procs_ok_stacks [OF ok(1)]) (auto simp: s1_def nth_list_update stacks_ok_def procs_ok_def)
  obtain s2 where s2: "set_page_1 32 (slot_base k) (int (Suc k)) True (-1) (int t) s1 = Some s2" "paging_inv s2" "cr3 s2 = addr_pde s2 (Suc k)"
    and eq: "s2 = loaded (Suc k) (s1\<lparr>pte_zero := identity_table,
        pdes := (pdes s1)[Suc k := (kernel_entries s1 (pdes s1 ! Suc k))[32 := slot_base k OR 0x87, 34 := addr_pte_one s1 OR 7]],
        pte_one := (pte_one s1)[Suc t := backup t OR 7]\<rparr>)"
    and dir: "slot_directory s2 k (pdes s2 ! Suc k)"
    using set_page_1_inv [OF inv1(1) d(4,1)] by blast
  have len: "length (pdes s1) = 7" "length (pdes s1 ! Suc k) = 1024" "length (pte_one s1) = 1024"
    using inv1(1) d(4) by (simp_all add: paging_inv_def paging_ok_def)
  have ent: "pdes s2 ! Suc k ! 34 = addr_pte_one s2 OR 7" "pte_one s2 ! Suc t = backup t OR 7"
    using len d(4,1) by (simp_all add: eq loaded_def kernel_entries_def)
  have base: "0x800000 + word_of_int (int k * 0x400000) = slot_base k" by (simp add: slot_base_def)
  show ?thesis
  proof (cases "unat ptr div 4194304 = 32")
    case True
    then have buf: "in_program k ptr 4 s2" using s2 dir d(4) ptr by (simp add: in_program_def)
    have arg: "curr_terminal_idx s2 = int t" by (simp add: eq loaded_def inv1(3))
    obtain m where m: "user_store32 ptr (0x08801000 + of_nat t * 4096) s2 = Some (s2\<lparr>phys := m\<rparr>)"
      "\<forall>j<4. user_get ptr (s2\<lparr>phys := m\<rparr>) j = Some (word_bytes (0x08801000 + of_nat t * 4096) ! j)"
      "\<forall>x. x \<notin> program_byte k ptr ` {..<4} \<longrightarrow> m x = phys s2 x"
      using user_store32_eq [OF buf] by blast
    have "vidmap ptr s = Some (0, s2\<lparr>phys := m\<rparr>)"
      using True range s1 d(5) s2(1) m(1) arg inv1(3) base by (simp add: vidmap_def add.commute mult.commute [of _ "4096 :: u32"])
    moreover have "phys s2 = phys s" by (simp add: eq loaded_def inv1(2))
    moreover have "procs_ok (s2\<lparr>phys := m\<rparr>)"
      using \<open>procs_ok s1\<close> by (simp add: eq loaded_def procs_ok_def stacks_ok_def)
    moreover have "paging_inv (s2\<lparr>phys := m\<rparr>)"
      using s2(2) by (simp add: paging_inv_def paging_ok_def maps_kernel_def slot_directory_def)
    moreover have "translate True (0x08801000 + of_nat t * 4096 + of_nat o') (s2\<lparr>phys := m\<rparr>) = Some (backup t + of_nat o')"
      if "o' < 4096" for o'
      using vidmap_translates [OF s2(2) d(4) s2(3) ent(1) d(1) ent(2) that] translate_cong [of "s2\<lparr>phys := m\<rparr>" s2] by simp
    ultimately show ?thesis using True m s2(3) by auto
  next
    case False
    then show ?thesis using range by (simp add: vidmap_def)
  qed
qed

text \<open>Drawing on the screen does not change what a program sees in its buffer.\<close>

lemma user_get_screen:
  assumes "in_program k buf n s" "j < n" "i < 3" "same_but_cells {VIDEO, backup i} (phys s) (phys t)"
    "console.more t = console.more s"
  shows "user_get buf t j = user_get buf s j"
proof -
  have "translate False (buf + of_nat j) t = Some (program_byte k buf j)"
    using translate_cong [of t s] translate_program [OF assms(1,2)] paging_of_more [OF assms(5)] by simp
  moreover have "b \<in> text_pages" if "b \<in> {VIDEO, backup i}" for b using that assms(3) by auto
  then have "program_byte k buf j \<noteq> cell b (int l)" if "b \<in> {VIDEO, backup i}" "l < 2000" for b l
    using program_byte_high [OF assms(1,2) text_cell_low [OF _ that(2)]] that(1) by blast
  then have "phys t (program_byte k buf j) = phys s (program_byte k buf j)"
    using assms(4) by (simp add: same_but_cells_def)
  ultimately show ?thesis using user_get_program [OF assms(1,2)] by (simp add: user_get_def)
qed

text \<open>C17. \<open>write\<close> to a descriptor that is open on the screen, from a buffer of the program's own memory: the
  bytes appear on the terminal of the running process, whatever terminal is displayed, the call
  returns their number, and neither the process table nor the program's memory changes.\<close>

theorem screen_write_prints:
  assumes ok: "procs_ok s" "console_ok s" "stack s (run_idx s) \<noteq> []"
    and shown: "curr_terminal_idx s = curr_running_terminal_idx s \<longrightarrow> display_shows s"
    and fd: "0 < i" "i < 8" "fd_flags (fd_of i s) \<noteq> 0" "file_operation_table_ptr (fd_of i s) = Some stdout_jumptable"
    and buf: "in_program k buf (length tx) s" "\<forall>j<length tx. user_get buf s j = Some (tx ! j)" "length tx \<noteq> 128"
  shows "\<exists>s'. sys_write (int i) buf (int (length tx)) s = Some (int (length tx), s') \<and> procs_ok s' \<and> console_ok s'
    \<and> screen_of s' (run_idx s) = fold (screen_put (curr_terminal_idx s = curr_running_terminal_idx s)) tx (screen_of s (run_idx s))
    \<and> (\<forall>j<3. j \<noteq> run_idx s \<longrightarrow> screen_of s' j = screen_of s j)
    \<and> pcbs s' = pcbs s \<and> (\<forall>j<length tx. user_get buf s' j = Some (tx ! j))"
proof -
  define c where "c = cli s"
  have c: "pcbs c = pcbs s" "terminals c = terminals s" "curr_running_terminal_idx c = curr_running_terminal_idx s" "phys c = phys s"
    "curr_terminal_idx c = curr_terminal_idx s" "console.more c = console.more s" "temp_curr_running_terminal_idx c = temp_curr_running_terminal_idx s"
    by (simp_all add: c_def cli_def)
  obtain l where l: "running_process s = Some (int l)" "aget (pcbs s) (int l) = Some (running_pcb s)" "pcb_ok (running_pcb s)"
    using running_pcb_eq [OF ok(1,3)] by metis
  have rc: "running_process c = Some (int l)" using l(1) by (simp add: running_process_def c)
  have len: "length (file_descriptor_tabele (running_pcb s)) = 8" using l(3) by (simp add: pcb_ok_def)
  have get: "user_get buf t j = Some (tx ! j)"
    if "j < length tx" "same_but_cells {0xB8000, backup (run_idx s)} (phys c) (phys t)" "console.more t = console.more c"
    for t :: "'a process_scheme" and j
    using user_get_screen [OF buf(1) that(1), of "run_idx s" t] that ok(1) running_process_eq(1) [of s] buf(2) by (simp add: c procs_ok_def)
  have cok: "console_ok c" "curr_terminal_idx c = curr_running_terminal_idx c \<longrightarrow> display_shows c"
    using ok(2) shown by (simp_all add: console_ok_def c display_shows_def display_def screen_of_def)
  obtain s' where s': "terminal_write (user_get buf) False (int (length tx)) c = Some (int (length tx), s')" "console_ok s'"
    "screen_of s' (run_idx s) = fold (screen_put (curr_terminal_idx c = curr_running_terminal_idx c)) tx (screen_of c (run_idx s))"
    "\<forall>j<3. j \<noteq> run_idx s \<longrightarrow> screen_of s' j = screen_of c j"
    "\<exists>x y. terminals s' = (terminals c)[run_idx s := (terminals c ! run_idx s)\<lparr>screen_x := x, screen_y := y\<rparr>]"
    "same_but_cells {VIDEO, backup (run_idx s)} (phys c) (phys s')"
    "curr_terminal_idx s' = curr_terminal_idx c" "curr_running_terminal_idx s' = curr_running_terminal_idx c"
    "console.more s' = console.more c"
    using terminal_write_out [where get = "user_get buf" and s = c and k = "run_idx s" and tx = tx, OF cok(1) _ cok(2) buf(3) get]
    by (auto simp: run_idx_def c)
  have "buf \<noteq> 0" using buf(1) by (auto simp: in_program_def)
  then have w: "sys_write (int i) buf (int (length tx)) s = Some (int (length tx), s')"
    using fd len l(2) rc s'(1) by (simp add: sys_write_def c_def [symmetric] c(1) aget_in fd_of_def driver_write_def)
  have more: "pcbs s' = pcbs s" "phys_addr_available s' = phys_addr_available s"
    using s'(9) c(6) by (cases s', cases c, cases s, simp)+
  obtain x y where t': "terminals s' = (terminals s)[run_idx s := (terminals s ! run_idx s)\<lparr>screen_x := x, screen_y := y\<rparr>]"
    using s'(5) c(2) by auto
  have "procs_ok s'"
  proof (rule procs_ok_stacks [OF ok(1)])
    show "length (terminals s') = 3" using ok(2) by (simp add: t' console_ok_def)
    then show "phys_mem_idx (terminals s' ! j) = phys_mem_idx (terminals s ! j)" if "j < 3" for j
      using that by (cases "j = run_idx s") (simp_all add: t')
  qed (use ok(2) s'(7,8) more in \<open>simp_all add: c console_ok_def\<close>)
  moreover have "\<forall>j<length tx. user_get buf s' j = Some (tx ! j)" using get s'(6,9) by blast
  ultimately show ?thesis using w s' more by (auto simp: c screen_of_def)
qed

section \<open>Examples\<close>

text \<open>The shell of slot 0 opens the file \<open>a\<close>.\<close>

lemma machine0_running: "stack machine0 (run_idx machine0) \<noteq> []" "running_pcb machine0 = shell_pcb"
  by (simp_all add: running_pcb_def del: machine0_simps(4))

lemma machine0_found: "found machine0 [97]" "lookup machine0 [97] = 2"
proof -
  show "lookup machine0 [97] = 2"
    by (simp add: lookup_def upt_rec image_names numeral_2_eq_2 [symmetric])
  then show "found machine0 [97]" by (simp add: found_def)
qed

theorem open_then_close_witness:
  "\<exists>s' s''. sys_open False (arr_get [97, 0]) machine0 = Some (2, s') \<and> sys_close 2 s' = Some (0, s'')
    \<and> pcbs s'' = pcbs machine0 \<and> procs_ok s''"
proof -
  have i: "first_index (\<lambda>d. fd_flags d = 0) (file_descriptor_tabele (running_pcb machine0)) = 2"
    by (simp add: machine0_running shell_pcb_def eval_nat_numeral)
  have c: "file_descriptor_tabele (running_pcb machine0) ! 2 = closed_descriptor"
    by (simp add: machine0_running shell_pcb_def)
  have "is_cstr (arr_get [97, 0]) [97]" using is_cstr_append_arr [of "[97]" "[]"] by simp
  from open_then_close [OF machine0_procs(1) machine0_running(1) machine0_procs(2) this i [symmetric]]
  show ?thesis using machine0_found c by auto
qed

theorem getargs_copies_argument_witness:
  "\<exists>m. getargs 0x08050000 2 machine0 = Some (0, sti (cli machine0)\<lparr>phys := m\<rparr>)
    \<and> user_get 0x08050000 (machine0\<lparr>phys := m\<rparr>) 0 = Some 97 \<and> user_get 0x08050000 (machine0\<lparr>phys := m\<rparr>) 1 = Some 0"
proof -
  have "is_cstr (arr_get (arg (running_pcb machine0))) [97]"
    using is_cstr_append_arr [of "[97]" "replicate 1022 0"] by (simp add: machine0_running shell_pcb_def replicate_Suc [symmetric])
  from getargs_copies_argument [OF machine0_procs(1) machine0_running(1) this machine0_buffer, of 2]
  show ?thesis by (auto simp del: machine0_simps)
qed

text \<open>The shell of slot 0 with the file \<open>a\<close> open on descriptor 2.\<close>

definition machine1 :: process where
  "machine1 = machine0\<lparr>pcbs := with_running_pcb (with_fd 2 (open_descriptor FILE_jumptable 1) shell_pcb) machine0\<rparr>"

lemma machine1_ok: "procs_ok machine1" "stack machine1 (run_idx machine1) \<noteq> []"
    "fd_of 2 machine1 = open_descriptor FILE_jumptable 1" "in_program 0 0x08050000 4096 machine1"
proof -
  have p: "pcbs machine1 = with_running_pcb (with_fd 2 (open_descriptor FILE_jumptable 1) (running_pcb machine0)) machine0"
    by (simp add: machine1_def machine0_running)
  have "pcb_ok (with_fd 2 (open_descriptor FILE_jumptable 1) shell_pcb)" by (rule pcb_ok_with_fd [OF shell_pcb_ok]) simp
  then show "procs_ok machine1"
    unfolding machine1_def with_running_pcb_def by (rule procs_ok_pcbs [OF machine0_procs(1)]) simp_all
  show "fd_of 2 machine1 = open_descriptor FILE_jumptable 1" "stack machine1 (run_idx machine1) \<noteq> []"
    using fd_of_updated [OF machine0_procs(1) machine0_running(1) _ p] by (simp_all add: machine1_def del: machine0_simps)
  show "in_program 0 0x08050000 4096 machine1"
    using machine0_buffer in_program_cong [of machine1 machine0] by (simp add: machine1_def del: machine0_simps)
qed

lemma machine1_contents: "file_contents 0x10000 0x11000 1 image = [104, 105, 10]"
  by (simp add: file_contents_def file_address_def upt_rec) (simp add: image_def)

lemma image_low:
  assumes "x \<in> footprint 0x10000 0x11000 1 image"
  shows "unat x < 8388608"
proof -
  have low: "unat (0x10000 + of_nat j :: u32) < 8388608" if "j < 0x10000" for j
  proof -
    have "(0x10000 + of_nat j :: u32) = of_nat (0x10000 + j)" by simp
    then show ?thesis using that unat_of_nat_u32 [of "0x10000 + j"] by simp
  qed
  have "(\<exists>j<12. x = 0x10000 + of_nat j) \<or> (\<exists>j<4096. x = 0x12000 + of_nat j) \<or> (\<exists>j<3. x = 0x14000 + of_nat j)"
    using assms by (auto simp: footprint_def inode_block_def file_address_def)
  then show ?thesis
  proof (elim disjE exE conjE)
    show "unat x < 8388608" if "j < 12" "x = 0x10000 + of_nat j" for j using low [of j] that by simp
    show "unat x < 8388608" if "j < 4096" "x = 0x12000 + of_nat j" for j using low [of "0x2000 + j"] that by simp
    show "unat x < 8388608" if "j < 3" "x = 0x14000 + of_nat j" for j using low [of "0x4000 + j"] that by simp
  qed
qed

theorem program_reads_file_witness:
  "\<exists>s'. cat 3 2 0x08050000 2 machine1 = Some ([104, 105, 10], s') \<and> procs_ok s'"
proof -
  have f: "phys machine1 = image" "boot_block machine1 = 0x10000" "inode_addr machine1 = 0x11000" "last_round machine1 = 0"
    by (simp_all add: machine1_def)
  have "\<exists>s'. cat (length [104, 105, 10 :: u8] div 2 + 2) 2 0x08050000 2 machine1 = Some ([104, 105, 10], s') \<and> procs_ok s'"
  proof (rule program_reads_file [OF machine1_ok(1,2)])
    show "in_program 0 0x08050000 2 machine1" using machine1_ok(4) by (simp add: in_program_def)
  qed (use image_ok(3) image_low machine1_contents in \<open>auto simp: machine1_ok(3) readable_def f\<close>)
  then show ?thesis by (simp add: numeral_3_eq_3 [symmetric] del: cat.simps)
qed

theorem vidmap_maps_displayed_terminal_witness:
  "\<exists>s'. vidmap 0x08050000 machine0 = Some (0, s') \<and> user_get 0x08050000 s' 1 = Some 0x10
    \<and> translate True 0x08801000 s' = Some 0xB9000"
proof -
  have "stack machine0 0 = [0]" using machine0_stack(1) [of 0] by simp
  then obtain s' where "vidmap 0x08050000 machine0 = Some (0, s')"
    "\<forall>o'<4096. translate True (0x08801000 + of_nat 0 * 4096 + of_nat o') s' = Some (backup 0 + of_nat o')"
    "\<forall>j<4. user_get 0x08050000 s' j = Some (word_bytes (0x08801000 + of_nat 0 * 4096) ! j)"
    using vidmap_maps_displayed_terminal [where s = machine0 and t = 0 and k = 0 and ptr = "0x08050000"]
      machine0_procs(1) machine0_paging(2) by auto
  note facts = this
  have "translate True 0x08801000 s' = Some 0xB9000"
    using facts(2) [rule_format, of 0] by (simp add: backup_def)
  moreover have "user_get 0x08050000 s' 1 = Some 0x10"
    using facts(3) [rule_format, of 1] by (simp add: word_bytes_def)
  ultimately show ?thesis using facts(1) by blast
qed

text \<open>The shell of slot 0 has put an \<open>h\<close> into its buffer.\<close>

definition machine2 :: process where
  "machine2 = machine0\<lparr>phys := image(0x850000 := 104), temp_curr_running_terminal_idx := 0\<rparr>"

lemma machine2_ok: "procs_ok machine2" "console_ok machine2" "display_shows machine2"
    "stack machine2 (run_idx machine2) \<noteq> []" "running_pcb machine2 = shell_pcb" "in_program 0 0x08050000 1 machine2"
    "user_get 0x08050000 machine2 0 = Some 104"
proof -
  show p: "procs_ok machine2"
    by (rule procs_ok_stacks [OF machine0_procs(1)]) (simp_all add: machine2_def)
  show "console_ok machine2"
    by (auto simp: console_ok_def machine2_def terminal_ok_def cursor_ok_def terminal0_def less_Suc_eq numeral_3_eq_3)
  have "image (cell b (int j)) = 0 \<and> cell b (int j) \<noteq> 0x850000" if "b \<in> {VIDEO, backup 0}" "j < 2000" for b j
  proof -
    have "unat (cell b (int j)) = unat b + 2 * j" using that unat_cell [of b j] by auto
    then have "0xB8000 \<le> unat (cell b (int j)) \<and> unat (cell b (int j)) < 0x100000" using that by (auto simp: backup_def)
    then have "cell b (int j) \<ge> 0xB8000 \<and> cell b (int j) < 0x100000" by (simp add: word_le_nat_alt word_less_nat_alt)
    then show ?thesis by (auto simp: image_def)
  qed
  then show "display_shows machine2"
    by (simp add: display_shows_def display_def screen_of_def page_def machine2_def Let_def)
  show "stack machine2 (run_idx machine2) \<noteq> []" "running_pcb machine2 = shell_pcb"
    using machine0_running by (simp_all add: machine2_def run_idx_def running_pcb_def)
  show "in_program 0 0x08050000 1 machine2"
  proof -
    have "in_program 0 0x08050000 1 machine0" using machine0_buffer by (simp add: in_program_def)
    then show ?thesis using in_program_cong [of machine2 machine0] by (simp add: machine2_def)
  qed
  then show "user_get 0x08050000 machine2 0 = Some 104"
    by (simp add: user_get_program program_byte_def slot_base_def machine2_def)
qed

theorem screen_write_prints_witness:
  "\<exists>s'. sys_write 1 0x08050000 1 machine2 = Some (1, s') \<and> cells (screen_of s' 0) 0 = 104"
proof -
  have fd: "fd_of 1 machine2 = open_descriptor stdout_jumptable 0"
    using machine2_ok(5) by (simp add: fd_of_def shell_pcb_def)
  have r: "run_idx machine2 = 0" by (simp add: machine2_def run_idx_def)
  have "col (screen_of machine2 0) = 0 \<and> row (screen_of machine2 0) = 0"
    by (simp add: screen_of_def machine2_def terminal0_def Let_def)
  then have "cells (fold (screen_put True) [104] (screen_of machine2 0)) 0 = 104"
    by (simp add: screen_put_def newline_def Let_def)
  moreover have "curr_terminal_idx machine2 = curr_running_terminal_idx machine2" by (simp add: machine2_def)
  ultimately show ?thesis
    using screen_write_prints [of machine2 1 0 "0x08050000" "[104]"] machine2_ok fd r by auto
qed

end
