(* ===== verification/Execute.thy ===== *)
theory Execute
  imports SystemCalls
begin

text \<open>
  \<open>execute\<close> and \<open>halt\<close> of \<open>system_call_handler.c\<close>, one definition per part of each, and what they do to the
  process table: which slot a program gets, what its memory and registers hold when it starts, and that
  \<open>halt\<close> undoes \<open>execute\<close>.
\<close>

section \<open>execute\<close>

text \<open>The first word of the command goes to \<open>filename\<close>; the result is its length.\<close>

definition command_ends :: "u8 \<Rightarrow> bool" where
  "command_ends c \<longleftrightarrow> c = 0 \<or> c = 10 \<or> c = 32"

function filename_loop :: "cstr \<Rightarrow> nat \<Rightarrow> nat \<Rightarrow> u8 list \<Rightarrow> (nat \<times> u8 list) option" where
  "filename_loop command i len filename =
     (if i < len then
        do { c \<leftarrow> command i;
             if command_ends c then Some (i, filename)
             else do { filename \<leftarrow> arr_put filename i c; filename_loop command (Suc i) len filename } }
      else Some (i, filename))"
  by pat_completeness auto
termination
  by (relation "measure (\<lambda>(command, i, len, filename). len - i)") auto

declare filename_loop.simps [simp del]

definition parse_filename :: "cstr \<Rightarrow> nat \<Rightarrow> (nat \<times> u8 list) option" where
  "parse_filename command len =
     do { (i, filename) \<leftarrow> filename_loop command 0 len (replicate 128 0);
          filename \<leftarrow> arr_put filename i 0;
          Some (i, filename) }"

text \<open>What follows the separator goes to \<open>curr_arg\<close>; there is none if the name is the whole command.\<close>

definition parse_arg :: "cstr \<Rightarrow> nat \<Rightarrow> nat \<Rightarrow> u8 list option option" where
  "parse_arg command filename_len len =
     (if filename_len = len then Some None
      else
        do { curr_arg \<leftarrow> for_opt (filename_len + 1) len
               (\<lambda>i curr_arg. do { c \<leftarrow> command i; arr_put curr_arg (i - filename_len - 1) c }) (replicate 128 0);
             curr_arg \<leftarrow> arr_put curr_arg (len - filename_len - 1) 0;
             Some (Some curr_arg) })"

text \<open>\<open>strncmp(command, name, strlen(command)) == 0\<close>: the command is a prefix of the name.\<close>

definition is_prefix_of :: "cstr \<Rightarrow> nat \<Rightarrow> u8 list \<Rightarrow> bool option" where
  "is_prefix_of command len name = do { r \<leftarrow> strncmp command (arr_get (name @ [0])) len; Some (r = 0) }"

definition mark_hello :: "cstr \<Rightarrow> nat \<Rightarrow> 'z console_scheme \<Rightarrow> 'z console_scheme option" where
  "mark_hello command len s =
     do { hello \<leftarrow> is_prefix_of command len [104, 101, 108, 108, 111];
          match \<leftarrow> (if hello then Some True
                    else is_prefix_of command len [99, 111, 117, 110, 116, 101, 114]);
          if match then upd_curr (\<lambda>t. Some (t\<lparr>hello_flag := 1\<rparr>)) s else Some s }"

text \<open>The four magic bytes of an ELF file; bytes that \<open>read_data\<close> did not store are stack junk.\<close>

definition elf_magic :: "u8 list" where
  "elf_magic = [0x7F, 0x45, 0x4C, 0x46]"

definition read_header :: "'z process_scheme \<Rightarrow> u32 \<Rightarrow> u32 \<Rightarrow> u8 list option" where
  "read_header s ino offset =
     do { (r, buf) \<leftarrow> read_data (\<lambda>_. phys s) arr_put (boot_block s) (inode_addr s) ino offset 4 (stack_junk s);
          Some buf }"

text \<open>The first free slot is taken and noted at the first free place of the running terminal, if there is
  one.\<close>

definition allocate_slot :: "'z process_scheme \<Rightarrow> (int option \<times> 'z process_scheme) option" where
  "allocate_slot s =
     (let i = first_index (\<lambda>v. v \<noteq> 0) (take 6 (phys_addr_available s)) in
      if i \<ge> 6 then Some (None, s)
      else
        do { av \<leftarrow> aset (phys_addr_available s) (int i) 0;
             let s = s\<lparr>phys_addr_available := av\<rparr>;
             s \<leftarrow> upd_running (\<lambda>t.
               if process_depth t < 6 then
                 do { ph \<leftarrow> aset (phys_mem_idx t) (process_depth t) (int i); Some (t\<lparr>phys_mem_idx := ph\<rparr>) }
               else Some t) s;
             Some (Some (int i), s) })"

definition init_descriptors :: "PCB_t \<Rightarrow> PCB_t option" where
  "init_descriptors p =
     do { p \<leftarrow> set_fd 0 (open_descriptor stdin_jumptable 0) p;
          p \<leftarrow> set_fd 1 (open_descriptor stdout_jumptable 0) p;
          for_opt 2 8 (\<lambda>i. set_fd (int i) closed_descriptor) p }"

definition init_pcb :: "u8 list option \<Rightarrow> u32 \<Rightarrow> u32 \<Rightarrow> PCB_t \<Rightarrow> PCB_t option" where
  "init_pcb curr_arg ebp' esp' p =
     do { let p = p\<lparr>parent_ebp := ebp', parent_esp := esp'\<rparr>;
          a \<leftarrow> (case curr_arg of
                  None \<Rightarrow> aset (arg p) 0 0
                | Some curr_arg \<Rightarrow> strcpy arr_put (arg p) (arr_get curr_arg));
          init_descriptors (p\<lparr>arg := a\<rparr>) }"

text \<open>The parent's page directory and kernel stack; a shell is its own parent.\<close>

definition save_parent :: "int \<Rightarrow> 'z process_scheme \<Rightarrow> 'z process_scheme option" where
  "save_parent curr_idx s =
     (if curr_idx > 2 then
        upd_pcb curr_idx (\<lambda>p. Some (p\<lparr>parent_PDBR := cr3 s, parent_esp0 := tss_esp0 s, parent_ss0 := tss_ss0 s\<rparr>)) s
      else
        upd_pcb curr_idx (\<lambda>p. Some (p\<lparr>parent_esp0 := 0x800000 - word_of_int (curr_idx * 0x2000),
          parent_ss0 := KERNEL_DS\<rparr>)) s)"

definition entry_point :: "u8 list \<Rightarrow> u32" where
  "entry_point b = push_bit 24 (ucast (b ! 3)) OR push_bit 16 (ucast (b ! 2)) OR push_bit 8 (ucast (b ! 1))
     OR ucast (b ! 0)"

text \<open>From the allocated slot to the \<open>iret\<close>.\<close>

definition start_program :: "int \<Rightarrow> u8 list option \<Rightarrow> u32 \<Rightarrow> 'z process_scheme \<Rightarrow> (control \<times> 'z process_scheme) option" where
  "start_program curr_idx curr_arg ino s =
     do { s \<leftarrow> upd_pcb curr_idx (init_pcb curr_arg (ebp s) (esp s)) s;
          s \<leftarrow> save_parent curr_idx s;
          s \<leftarrow> set_page 32 (0x800000 + word_of_int (curr_idx * 0x400000)) (curr_idx + 1) False (-1) s;
          s \<leftarrow> (if curr_idx < 3 then upd_pcb curr_idx (\<lambda>p. Some (p\<lparr>parent_PDBR := cr3 s\<rparr>)) s else Some s);
          let file_size = get_file_size (inode_addr s) ino (phys s);
          (r, s) \<leftarrow> read_data phys (user_put VMSTART) (boot_block s) (inode_addr s) ino 0 (word_of_int file_size) s;
          let s = s\<lparr>tss_ss0 := KERNEL_DS, tss_esp0 := 0x800000 - word_of_int (curr_idx * 0x2000)\<rparr>;
          instruct_start \<leftarrow> read_header s ino 24;
          Some (Enter_user (entry_point instruct_start) 0x083FFFFC, s) }"

definition execute :: "bool \<Rightarrow> cstr \<Rightarrow> 'z process_scheme \<Rightarrow> (control \<times> 'z process_scheme) option" where
  "execute is_null command s =
     (let s = cli s in
      if is_null then Some (Return (-1), s)
      else
        do { let s = s\<lparr>exception_flag := 0\<rparr>;
             len \<leftarrow> strlen command;
             let s = enable_irq 0 s;
             s \<leftarrow> mark_hello command len s;
             (filename_len, filename) \<leftarrow> parse_filename command len;
             curr_arg \<leftarrow> parse_arg command filename_len len;
             (exist, curr_dentry) \<leftarrow> read_dentry_by_name (boot_block s) (phys s) False (arr_get filename) local_dentry;
             if exist = -1 then Some (Return (-1), s)
             else
               do { buf_elf \<leftarrow> read_header s (inode_idx curr_dentry) 0;
                    if buf_elf \<noteq> elf_magic then Some (Return (-1), s)
                    else
                      do { (slot, s) \<leftarrow> allocate_slot s;
                           case slot of
                             None \<Rightarrow> Some (Return (-1), s)
                           | Some curr_idx \<Rightarrow> start_program curr_idx curr_arg (inode_idx curr_dentry) s } } })"

section \<open>halt\<close>

definition shell_command :: "u8 list" where
  "shell_command = [115, 104, 101, 108, 108, 0]"

definition halt :: "u8 \<Rightarrow> 'z process_scheme \<Rightarrow> (control \<times> 'z process_scheme) option" where
  "halt status s =
     do { let s = cli s;
          let status = (if exception_flag s = 1 then 255 else status);
          t \<leftarrow> running_terminal s;
          let terminal_halt = process_depth t - 1;
          curr_halt \<leftarrow> aget (phys_mem_idx t) terminal_halt;
          s \<leftarrow> (if curr_halt > 2 then
                 upd_pcb curr_halt (\<lambda>p. for_opt 0 8 (\<lambda>i. set_fd (int i) closed_descriptor) p) s
               else Some s);
          p \<leftarrow> aget (pcbs s) curr_halt;
          let s = s\<lparr>tss_ss0 := parent_ss0 p, tss_esp0 := parent_esp0 p\<rparr>;
          let halt_esp = parent_esp p;
          let halt_ebp = parent_ebp p;
          s \<leftarrow> upd_pcb curr_halt (\<lambda>p. Some (p\<lparr>parent_ss0 := 0, parent_esp0 := 0, parent_ebp := 0, parent_esp := 0\<rparr>)) s;
          av \<leftarrow> aset (phys_addr_available s) curr_halt 1;
          let s = s\<lparr>phys_addr_available := av\<rparr>;
          s \<leftarrow> upd_running (\<lambda>t. do { ph \<leftarrow> aset (phys_mem_idx t) terminal_halt (-1); Some (t\<lparr>phys_mem_idx := ph\<rparr>) }) s;
          s \<leftarrow> upd_running (\<lambda>t. Some (t\<lparr>vid_on := 0\<rparr>)) s;
          p \<leftarrow> aget (pcbs s) curr_halt;
          let s = s\<lparr>cr3 := parent_PDBR p\<rparr>;
          s \<leftarrow> upd_pcb curr_halt (\<lambda>p. Some (p\<lparr>parent_PDBR := 0\<rparr>)) s;
          (c, s) \<leftarrow> (if curr_halt < 3 then
                       do { let (ebp', esp') = execute_frame s (halt_ebp + 8);
                            let s = s\<lparr>ebp := ebp', esp := esp'\<rparr>;
                            execute False (arr_get shell_command) s }
                     else Some (Return 0, s));
          case c of
            Return _ \<Rightarrow> Some (Resume (ucast status + word_of_int (exception_flag s)) halt_ebp,
                          s\<lparr>esp := halt_esp, ebp := halt_ebp\<rparr>)
          | _ \<Rightarrow> Some (c, s) }"

section \<open>Parsing the command\<close>

text \<open>The words of a command: the name of the program and its argument, which is everything after the
  first separator.\<close>

definition command_name :: "u8 list \<Rightarrow> u8 list" where
  "command_name xs = takeWhile (\<lambda>c. \<not> command_ends c) xs"

definition command_arg :: "u8 list \<Rightarrow> u8 list" where
  "command_arg xs = drop (Suc (length (command_name xs))) xs"

lemma command_name_le: "length (command_name xs) \<le> length xs"
  by (simp add: command_name_def length_takeWhile_le)

lemma filename_loop_eq:
  assumes "is_cstr command xs" "length (command_name xs) \<le> length filename"
  shows "i \<le> length (command_name xs) \<Longrightarrow> length f = length filename \<Longrightarrow> filename_loop command i (length xs) f
    = Some (length (command_name xs), take i f @ drop i (command_name xs) @ drop (length (command_name xs)) f)"
proof (induction "length (command_name xs) - i" arbitrary: i f)
  case 0
  let ?w = "command_name xs"
  have i: "i = length ?w" using 0 by simp
  have "command_ends (xs ! i)" if "i < length xs"
    using nth_length_takeWhile [of "\<lambda>c. \<not> command_ends c" xs] that by (simp add: i command_name_def)
  then show ?case using is_cstrD(1) [OF assms(1)] 0 by (subst filename_loop.simps) (simp add: i)
next
  case (Suc d)
  let ?w = "command_name xs"
  have i: "i < length ?w" using Suc.hyps(2) by simp
  then have x: "i < length xs" "?w ! i = xs ! i" "\<not> command_ends (xs ! i)"
    using command_name_le [of xs] takeWhile_nth [of i "\<lambda>c. \<not> command_ends c" xs] nth_mem [OF i]
    by (auto simp: command_name_def dest: set_takeWhileD)
  have f: "arr_put f i (xs ! i) = Some (f[i := xs ! i])" using i Suc.prems assms(2) by (simp add: arr_put_def)
  have l: "i < length f" using i Suc.prems assms(2) by simp
  have "filename_loop command (Suc i) (length xs) (f[i := xs ! i])
      = Some (length ?w, take (Suc i) (f[i := xs ! i]) @ drop (Suc i) ?w @ drop (length ?w) (f[i := xs ! i]))"
    using Suc i by simp
  moreover have "take (Suc i) (f[i := xs ! i]) = take i f @ [?w ! i]" using l x(2) by (simp add: take_Suc_update)
  moreover have "drop i ?w = ?w ! i # drop (Suc i) ?w" using i by (simp add: Cons_nth_drop_Suc)
  moreover have "drop (length ?w) (f[i := xs ! i]) = drop (length ?w) f" using i by simp
  ultimately show ?case
    using x is_cstrD(1) [OF assms(1) x(1)] f by (simp add: filename_loop.simps [of command i])
qed

lemma parse_filename_eq:
  assumes "is_cstr command xs" "length (command_name xs) < 128"
  shows "parse_filename command (length xs)
    = Some (length (command_name xs), command_name xs @ replicate (128 - length (command_name xs)) 0)"
proof -
  let ?w = "command_name xs"
  have "filename_loop command 0 (length xs) (replicate 128 0) = Some (length ?w, ?w @ replicate (128 - length ?w) 0)"
    using filename_loop_eq [OF assms(1), of "replicate 128 0" 0 "replicate 128 0"] assms(2) by simp
  moreover have "arr_put (?w @ replicate (128 - length ?w) 0) (length ?w) 0 = Some (?w @ replicate (128 - length ?w) 0)"
  proof -
    obtain m where "128 - length ?w = Suc m" using assms(2) by (metis Suc_diff_Suc)
    then show ?thesis by (simp add: arr_put_def)
  qed
  ultimately show ?thesis by (simp add: parse_filename_def)
qed

lemma parse_filename_cstr:
  assumes "is_cstr command xs" "length (command_name xs) < 128"
  shows "is_cstr (arr_get (command_name xs @ replicate (128 - length (command_name xs)) 0)) (command_name xs)"
proof -
  obtain n where "128 - length (command_name xs) = Suc n" using assms(2) by (metis Suc_diff_Suc)
  moreover have "0 \<notin> set (command_name xs)"
    using assms(1) by (auto simp: command_name_def is_cstr_def dest: set_takeWhileD)
  ultimately show ?thesis using is_cstr_append_arr [of "command_name xs" "replicate n 0"] by simp
qed

definition arg_array :: "u8 list \<Rightarrow> u8 list option" where
  "arg_array xs = (if command_name xs = xs then None
     else Some (command_arg xs @ replicate (128 - length (command_arg xs)) 0))"

lemma parse_arg_eq:
  assumes "is_cstr command xs" "length (command_arg xs) < 128"
  shows "parse_arg command (length (command_name xs)) (length xs) = Some (arg_array xs)"
proof (cases "command_name xs = xs")
  case True
  then show ?thesis by (simp add: parse_arg_def arg_array_def)
next
  case False
  let ?n = "length (command_name xs)" and ?r = "command_arg xs"
  have pre: "command_name xs = take ?n xs" unfolding command_name_def by (rule takeWhile_eq_take)
  have n: "?n < length xs" using False pre command_name_le [of xs] by (metis le_neq_implies_less take_all order_refl)
  have len: "length ?r = length xs - Suc ?n" by (simp add: command_arg_def)
  have loop: "for_opt (?n + 1) k (\<lambda>i curr_arg. do { c \<leftarrow> command i; arr_put curr_arg (i - ?n - 1) c }) (replicate 128 0)
      = Some (take (k - Suc ?n) ?r @ replicate (128 - (k - Suc ?n)) 0)" if "Suc ?n \<le> k" "k \<le> length xs" for k
    using that
  proof (induction k rule: dec_induct)
    case (step k)
    define j where "j = k - Suc ?n"
    have j: "j < length ?r" "k = Suc ?n + j" "?r ! j = xs ! k" "k < length xs"
      using step.hyps step.prems len by (auto simp: j_def command_arg_def)
    obtain m where m: "128 - j = Suc m" using j(1) assms(2) by (metis Suc_diff_Suc order_less_trans)
    have "arr_put (take j ?r @ replicate (128 - j) 0) j (xs ! k) = Some (take j ?r @ xs ! k # replicate m 0)"
      using j(1) m by (simp add: arr_put_def list_update_append)
    moreover have "take (Suc j) ?r = take j ?r @ [xs ! k]" "m = 128 - Suc j"
      using j m by (simp_all add: take_Suc_conv_app_nth)
    ultimately show ?case
      using step j is_cstrD(1) [OF assms(1) j(4)] by (simp add: for_opt_Suc Suc_diff_le)
  qed simp
  obtain m where m: "128 - length ?r = Suc m" using assms(2) by (metis Suc_diff_Suc)
  have "arr_put (?r @ replicate (128 - length ?r) 0) (length xs - ?n - 1) 0 = Some (?r @ replicate (128 - length ?r) 0)"
  proof -
    have e: "length xs - ?n - 1 = length ?r" using len by simp
    show ?thesis unfolding e by (simp add: arr_put_def m)
  qed
  then show ?thesis
    using loop [of "length xs"] n False len pre by (auto simp: parse_arg_def arg_array_def)
qed

section \<open>The steps of execute\<close>

lemma is_prefix_of_eq:
  assumes "is_cstr command xs" "0 \<notin> set name"
  shows "is_prefix_of command (length xs) name = Some (xs = take (length xs) name)"
proof -
  have "is_cstr (arr_get (name @ [0])) name" using is_cstr_append_arr [OF assms(2), of "[]"] by simp
  then obtain r where "strncmp command (arr_get (name @ [0])) (length xs) = Some r"
    "r = 0 \<longleftrightarrow> take (length xs) xs = take (length xs) name"
    using strncmp_spec [OF assms(1)] by blast
  then show ?thesis by (simp add: is_prefix_of_def)
qed

lemma mark_hello_eq:
  assumes "is_cstr command xs" "stacks_ok s"
  shows "\<exists>v. mark_hello command (length xs) s = Some (s\<lparr>terminals :=
    (terminals s)[nat (curr_terminal_idx s) := (terminals s ! nat (curr_terminal_idx s))\<lparr>hello_flag := v\<rparr>]\<rparr>)"
proof -
  let ?k = "nat (curr_terminal_idx s)"
  have k: "0 \<le> curr_terminal_idx s" "?k < length (terminals s)" using assms(2) by (auto simp: stacks_ok_def)
  have u: "upd_curr (\<lambda>t. Some (t\<lparr>hello_flag := 1\<rparr>)) s = Some (s\<lparr>terminals := (terminals s)[?k := (terminals s ! ?k)\<lparr>hello_flag := 1\<rparr>]\<rparr>)"
    by (rule upd_terminal_eq [OF k]) simp
  have "s = s\<lparr>terminals := (terminals s)[?k := (terminals s ! ?k)\<lparr>hello_flag := hello_flag (terminals s ! ?k)\<rparr>]\<rparr>"
    by simp
  moreover have "mark_hello command (length xs) s \<in> {upd_curr (\<lambda>t. Some (t\<lparr>hello_flag := 1\<rparr>)) s, Some s}"
    using is_prefix_of_eq [OF assms(1)] by (simp add: mark_hello_def)
  ultimately show ?thesis using u by (metis insertE singletonD)
qed

lemma read_header_eq:
  assumes "inode_ok (boot_block s) (inode_addr s) ino (phys s)" "length (stack_junk s) = 4"
    and F: "F = file_contents (boot_block s) (inode_addr s) ino (phys s)" and "unat off \<le> length F"
  shows "read_header s ino off = Some (take 4 (drop (unat off) F) @ drop (length F - unat off) (stack_junk s))"
proof -
  let ?d = "take 4 (drop (unat off) F)"
  have "put_list arr_put (stack_junk s) 0 ?d = Some (?d @ drop (length ?d) (stack_junk s))"
    using arr_put_list_eq [of 0 ?d "stack_junk s"] assms(2) by simp
  moreover have "drop (length ?d) (stack_junk s) = drop (length F - unat off) (stack_junk s)"
    using assms(2) by (simp add: min_def)
  ultimately show ?thesis
    using array_buffer.read_data_eq [OF assms(1) subset_UNIV TrueI, of off 4 4 "stack_junk s"] assms(4) F
    by (simp add: read_header_def)
qed

lemma free_slot_depth:
  assumes "procs_ok s" "i < 3" "k < 6" "phys_addr_available s ! k \<noteq> 0"
  shows "length (stack s i) < 6" "int k \<notin> set (stack s i)"
proof -
  show k: "int k \<notin> set (stack s i)" using assms by (auto simp: procs_ok_def)
  have "distinct (stack s i)" "set (stack s i) \<subseteq> {0..<6}" using assms(1,2) by (auto simp: procs_ok_def stacks_ok_def)
  with k have "set (stack s i) \<subseteq> {0..<6} - {int k}" by blast
  then have "card (set (stack s i)) \<le> card ({0..<6} - {int k})" by (intro card_mono) simp_all
  also have "\<dots> = 5" using assms(3) by (simp add: card_Diff_singleton)
  finally show "length (stack s i) < 6" using \<open>distinct (stack s i)\<close> by (simp add: distinct_card)
qed

text \<open>Pushing a free slot on a stack, and popping the top one, keep the process table consistent.\<close>

lemma procs_ok_push:
  assumes ok: "procs_ok s" and r: "r < 3" and k: "k < 6" "phys_addr_available s ! k \<noteq> 0"
    and t: "terminals s' = (terminals s)[r := t]" "stack_ok t" "stack_of t = stack s r @ [int k]"
    and s': "phys_addr_available s' = (phys_addr_available s)[k := 0]" "length (pcbs s') = 6" "\<forall>p\<in>set (pcbs s'). pcb_ok p"
      "curr_running_terminal_idx s' \<in> {0, 1, 2}" "curr_terminal_idx s' \<in> {0, 1, 2}"
  shows "procs_ok s'"
proof -
  have lent: "length (terminals s) = 3" "length (phys_addr_available s) = 6" using ok by (simp_all add: procs_ok_def stacks_ok_def)
  have st: "stack s' i = (if i = r then stack s r @ [int k] else stack s i)" for i
    using t r lent by (simp add: nth_list_update)
  have old: "stack_ok (terminals s ! i)" "distinct (stack s i)" "set (stack s i) \<subseteq> {0..<6}" "int k \<notin> set (stack s i)" if "i < 3" for i
    using ok that free_slot_depth(2) [OF ok that k] by (simp_all add: procs_ok_def stacks_ok_def)
  have apart: "set (stack s i) \<inter> set (stack s j) = {}" if "i < 3" "j < 3" "i \<noteq> j" for i j
    using ok that by (simp add: procs_ok_def stacks_ok_def)
  have sok: "stack_ok (terminals s' ! i)" if "i < 3" for i
    using old(1) [OF that] t r lent by (simp add: nth_list_update)
  have d: "distinct (stack s' i) \<and> set (stack s' i) \<subseteq> {0..<6}" if "i < 3" for i
    using old [OF that] k(1) by (auto simp: st)
  have a: "set (stack s' i) \<inter> set (stack s' j) = {}" if "i < 3" "j < 3" "i \<noteq> j" for i j
    using apart [OF that] old(4) [OF that(1)] old(4) [OF that(2)] that(3) by (auto simp: st)
  have av: "phys_addr_available s' ! j = 0 \<longleftrightarrow> (\<exists>i<3. int j \<in> set (stack s' i))" if "j < 6" for j
  proof (cases "j = k")
    case True
    then show ?thesis using r k lent s'(1) by (auto simp: st)
  next
    case False
    then have "int j \<in> set (stack s' i) \<longleftrightarrow> int j \<in> set (stack s i)" for i by (auto simp: st)
    then show ?thesis using False ok that s'(1) by (simp add: procs_ok_def)
  qed
  show ?thesis
    unfolding procs_ok_def stacks_ok_def using sok d a av s' t(1) lent by simp
qed

lemma procs_ok_pop:
  assumes ok: "procs_ok s" and r: "r < 3" and k: "k < 6" "stack s r = xs @ [int k]"
    and t: "terminals s' = (terminals s)[r := t]" "stack_ok t" "stack_of t = xs"
    and s': "phys_addr_available s' = (phys_addr_available s)[k := 1]" "length (pcbs s') = 6" "\<forall>p\<in>set (pcbs s'). pcb_ok p"
      "curr_running_terminal_idx s' \<in> {0, 1, 2}" "curr_terminal_idx s' \<in> {0, 1, 2}"
  shows "procs_ok s'"
proof -
  have lent: "length (terminals s) = 3" "length (phys_addr_available s) = 6" using ok by (simp_all add: procs_ok_def stacks_ok_def)
  have st: "stack s' i = (if i = r then xs else stack s i)" for i
    using t r lent by (simp add: nth_list_update)
  have old: "stack_ok (terminals s ! i)" "distinct (stack s i)" "set (stack s i) \<subseteq> {0..<6}" if "i < 3" for i
    using ok that by (simp_all add: procs_ok_def stacks_ok_def)
  have apart: "set (stack s i) \<inter> set (stack s j) = {}" if "i < 3" "j < 3" "i \<noteq> j" for i j
    using ok that by (simp add: procs_ok_def stacks_ok_def)
  have sub: "set (stack s' i) = set (stack s i) - {int k}" if "i < 3" for i
  proof (cases "i = r")
    case True
    then show ?thesis using old(2) [OF r] k(2) by (auto simp: st)
  next
    case False
    then show ?thesis using apart [OF that r] k(2) by (auto simp: st)
  qed
  have sok: "stack_ok (terminals s' ! i)" if "i < 3" for i
    using old(1) [OF that] t r lent by (simp add: nth_list_update)
  have d: "distinct (stack s' i) \<and> set (stack s' i) \<subseteq> {0..<6}" if "i < 3" for i
    using old [OF that] old(2) [OF r] k(2) sub [OF that] by (auto simp: st)
  have a: "set (stack s' i) \<inter> set (stack s' j) = {}" if "i < 3" "j < 3" "i \<noteq> j" for i j
    using apart [OF that] sub [OF that(1)] sub [OF that(2)] by auto
  have av: "phys_addr_available s' ! j = 0 \<longleftrightarrow> (\<exists>i<3. int j \<in> set (stack s' i))" if "j < 6" for j
  proof (cases "j = k")
    case True
    then show ?thesis using lent s'(1) that sub by auto
  next
    case False
    then have "int j \<in> set (stack s' i) \<longleftrightarrow> int j \<in> set (stack s i)" if "i < 3" for i using sub [OF that] by auto
    then have "(\<exists>i<3. int j \<in> set (stack s' i)) \<longleftrightarrow> (\<exists>i<3. int j \<in> set (stack s i))" by blast
    then show ?thesis using False ok that s'(1) by (simp add: procs_ok_def)
  qed
  show ?thesis
    unfolding procs_ok_def stacks_ok_def using sok d a av s' t(1) lent by simp
qed

lemma allocate_slot_eq:
  assumes ok: "procs_ok s" and k: "k = first_index (\<lambda>v. v \<noteq> 0) (phys_addr_available s)"
  shows "6 \<le> k \<Longrightarrow> allocate_slot s = Some (None, s)"
    and "k < 6 \<Longrightarrow> \<exists>s' t. allocate_slot s = Some (Some (int k), s')
      \<and> s' = s\<lparr>phys_addr_available := (phys_addr_available s)[k := 0], terminals := (terminals s)[run_idx s := t]\<rparr>
      \<and> stack_of t = stack s (run_idx s) @ [int k] \<and> procs_ok s'"
proof -
  have len: "length (phys_addr_available s) = 6" using ok by (simp add: procs_ok_def)
  show "allocate_slot s = Some (None, s)" if "6 \<le> k"
    using that k len by (simp add: allocate_slot_def)
  assume k6: "k < 6"
  have free: "phys_addr_available s ! k \<noteq> 0" using first_index_nth [of "\<lambda>v. v \<noteq> 0" "phys_addr_available s"] k k6 len by simp
  have st: "stacks_ok s" using ok by (simp add: procs_ok_def)
  note r = running_process_eq(1) [OF st]
  have lent: "length (terminals s) = 3" and ri: "0 \<le> curr_running_terminal_idx s" "nat (curr_running_terminal_idx s) = run_idx s"
    using st by (auto simp: stacks_ok_def run_idx_def)
  let ?t = "terminals s ! run_idx s" and ?x = "stack s (run_idx s)"
  have tok: "stack_ok ?t" using st r by (simp add: stacks_ok_def)
  note d = free_slot_depth [OF ok r k6 free]
  have depth: "process_depth ?t = int (length ?x)" by (rule process_depth_eq [OF tok])
  define t where "t = ?t\<lparr>phys_mem_idx := (phys_mem_idx ?t)[length ?x := int k]\<rparr>"
  have push: "stack_of t = ?x @ [int k]" "stack_ok t"
    using stack_push [OF tok d(1), of "int k"] by (simp_all add: t_def)
  define s1 where "s1 = s\<lparr>phys_addr_available := (phys_addr_available s)[k := 0]\<rparr>"
  have "upd_running (\<lambda>t. if process_depth t < 6
      then do { ph \<leftarrow> aset (phys_mem_idx t) (process_depth t) (int k); Some (t\<lparr>phys_mem_idx := ph\<rparr>) } else Some t) s1
    = Some (s1\<lparr>terminals := (terminals s1)[nat (curr_running_terminal_idx s1) := t]\<rparr>)"
    using ri lent r d(1) stack_ok_length [OF tok]
    by (intro upd_terminal_eq) (simp_all add: s1_def depth t_def aset_in)
  then have "allocate_slot s = Some (Some (int k), s1\<lparr>terminals := (terminals s1)[run_idx s := t]\<rparr>)"
    using k6 len ri by (simp add: allocate_slot_def aset_in s1_def Let_def k [symmetric])
  moreover have "procs_ok (s1\<lparr>terminals := (terminals s1)[run_idx s := t]\<rparr>)"
    using ok by (intro procs_ok_push [OF ok r k6 free _ push(2,1)]) (auto simp: s1_def procs_ok_def stacks_ok_def)
  ultimately show "\<exists>s' t. allocate_slot s = Some (Some (int k), s')
      \<and> s' = s\<lparr>phys_addr_available := (phys_addr_available s)[k := 0], terminals := (terminals s)[run_idx s := t]\<rparr>
      \<and> stack_of t = ?x @ [int k] \<and> procs_ok s'"
    using push by (auto simp: s1_def)
qed

text \<open>The descriptors of a new program: standard input and output, the rest closed.\<close>

definition fresh_descriptors :: "file_descriptor_t list" where
  "fresh_descriptors = [open_descriptor stdin_jumptable 0, open_descriptor stdout_jumptable 0] @ replicate 6 closed_descriptor"

lemma fill_descriptors:
  assumes "length (file_descriptor_tabele p) = 8" "a \<le> b" "b \<le> 8"
  shows "for_opt a b (\<lambda>i. set_fd (int i) closed_descriptor) p
    = Some (p\<lparr>file_descriptor_tabele := take a (file_descriptor_tabele p) @ replicate (b - a) closed_descriptor
        @ drop b (file_descriptor_tabele p)\<rparr>)"
  using assms(2,3)
proof (induction b rule: dec_induct)
  case (step n)
  have "(take a (file_descriptor_tabele p) @ replicate (n - a) closed_descriptor @ drop n (file_descriptor_tabele p))[n := closed_descriptor]
    = take a (file_descriptor_tabele p) @ replicate (n - a) closed_descriptor @ (drop n (file_descriptor_tabele p))[0 := closed_descriptor]"
    using step.hyps step.prems assms(1) by (simp add: list_update_append)
  moreover have "(drop n (file_descriptor_tabele p))[0 := closed_descriptor] = closed_descriptor # drop (Suc n) (file_descriptor_tabele p)"
    using step.prems assms(1) by (simp add: Cons_nth_drop_Suc [symmetric])
  ultimately show ?case
    using step assms(1) by (simp add: for_opt_Suc set_fd_eq with_fd_def Suc_diff_le replicate_append_same)
qed simp

lemma init_descriptors_eq:
  assumes "length (file_descriptor_tabele p) = 8"
  shows "init_descriptors p = Some (p\<lparr>file_descriptor_tabele := fresh_descriptors\<rparr>)"
proof -
  let ?d = "[open_descriptor stdin_jumptable 0, open_descriptor stdout_jumptable 0]"
  obtain a b ds where f: "file_descriptor_tabele p = a # b # ds" "length ds = 6"
    using assms by (auto simp: numeral_eq_Suc length_Suc_conv)
  define p2 where "p2 = with_fd 1 (open_descriptor stdout_jumptable 0) (with_fd 0 (open_descriptor stdin_jumptable 0) p)"
  have p2: "file_descriptor_tabele p2 = ?d @ ds" by (simp add: p2_def with_fd_def f)
  have "init_descriptors p = for_opt 2 8 (\<lambda>i. set_fd (int i) closed_descriptor) p2"
    using set_fd_eq [of 0 p] set_fd_eq [of 1 "with_fd 0 (open_descriptor stdin_jumptable 0) p"] assms
    by (simp add: init_descriptors_def p2_def with_fd_def)
  then show ?thesis
    using fill_descriptors [of p2 2 8] f(2) by (simp add: p2 fresh_descriptors_def) (simp add: p2_def with_fd_def)
qed

text \<open>The argument array of a new program.\<close>

definition set_arg :: "u8 list \<Rightarrow> u8 list \<Rightarrow> u8 list" where
  "set_arg xs old = (if command_name xs = xs then old[0 := 0]
     else command_arg xs @ 0 # drop (Suc (length (command_arg xs))) old)"

lemma init_pcb_eq:
  assumes "pcb_ok p" "0 \<notin> set xs" "length (command_arg xs) < 128"
  shows "init_pcb (arg_array xs) e1 e2 p = Some (p\<lparr>parent_ebp := e1, parent_esp := e2, arg := set_arg xs (arg p),
    file_descriptor_tabele := fresh_descriptors\<rparr>)"
proof (cases "command_name xs = xs")
  case True
  then show ?thesis
    using assms(1) by (simp add: init_pcb_def arg_array_def set_arg_def pcb_ok_def aset_in init_descriptors_eq)
next
  case False
  have no: "0 \<notin> set (command_arg xs)" using assms(2) by (auto simp: command_arg_def dest: in_set_dropD)
  obtain n where n: "128 - length (command_arg xs) = Suc n" using assms(3) by (metis Suc_diff_Suc)
  have cs: "is_cstr (arr_get (command_arg xs @ replicate (128 - length (command_arg xs)) 0)) (command_arg xs)"
    using is_cstr_append_arr [OF no, of "replicate n 0"] n by simp
  have "strcpy arr_put (arg p) (arr_get (command_arg xs @ replicate (128 - length (command_arg xs)) 0)) = Some (set_arg xs (arg p))"
    using arr_put_list_eq [of 0 "command_arg xs @ [0]" "arg p"] assms(1,3) False by (simp add: strcpy_eq [OF cs] set_arg_def pcb_ok_def)
  then show ?thesis
    using assms(1) False by (simp add: init_pcb_def arg_array_def init_descriptors_eq pcb_ok_def)
qed

lemma set_arg_ok:
  assumes "pcb_ok p" "0 \<notin> set xs" "length (command_arg xs) < 128"
  shows "length (set_arg xs (arg p)) = 1024" "0 \<in> set (set_arg xs (arg p))"
    "is_cstr (arr_get (set_arg xs (arg p))) (if command_name xs = xs then [] else command_arg xs)"
proof -
  obtain a as where a: "arg p = a # as" using assms(1) by (cases "arg p") (auto simp: pcb_ok_def)
  have no: "0 \<notin> set (command_arg xs)" using assms(2) by (auto simp: command_arg_def dest: in_set_dropD)
  show "length (set_arg xs (arg p)) = 1024" "0 \<in> set (set_arg xs (arg p))"
    using assms(1,3) a by (auto simp: set_arg_def pcb_ok_def)
  show "is_cstr (arr_get (set_arg xs (arg p))) (if command_name xs = xs then [] else command_arg xs)"
    using is_cstr_append_arr [of "[]" as] is_cstr_append_arr [OF no] a by (simp add: set_arg_def)
qed

section \<open>Starting the program\<close>

text \<open>What a process keeps of its parent: the frame of the \<open>execute\<close> call, the page directory and the kernel
  stack. A shell keeps its own.\<close>

definition parent_of :: "PCB_t \<Rightarrow> u32 \<times> u32 \<times> u32 \<times> u32 \<times> u16" where
  "parent_of p = (parent_ebp p, parent_esp p, parent_PDBR p, parent_esp0 p, parent_ss0 p)"

definition kernel_stack :: "nat \<Rightarrow> u32" where
  "kernel_stack k = 0x800000 - word_of_int (int k * 0x2000)"

definition parent_saved :: "nat \<Rightarrow> 'z process_scheme \<Rightarrow> u32 \<times> u32 \<times> u32 \<times> u32 \<times> u16" where
  "parent_saved k s = (ebp s, esp s, if k < 3 then addr_pde s (Suc k) else cr3 s,
     if k < 3 then kernel_stack k else tss_esp0 s, if k < 3 then KERNEL_DS else tss_ss0 s)"

text \<open>What \<open>execute\<close> leaves alone.\<close>

definition kept :: "'z process_scheme \<Rightarrow> 'z process_scheme \<Rightarrow> bool" where
  "kept s s' \<longleftrightarrow> curr_terminal_idx s' = curr_terminal_idx s \<and> curr_running_terminal_idx s' = curr_running_terminal_idx s
     \<and> boot_block s' = boot_block s \<and> inode_addr s' = inode_addr s \<and> curr_dir_dentry s' = curr_dir_dentry s
     \<and> curr_file_dentry s' = curr_file_dentry s \<and> stack_junk s' = stack_junk s \<and> flag_first_execute s' = flag_first_execute s
     \<and> process.more s' = process.more s"

lemma upd_pcb_at:
  assumes "k < length (pcbs s)" "f (pcbs s ! k) = Some p"
  shows "upd_pcb (int k) f s = Some (s\<lparr>pcbs := (pcbs s)[k := p]\<rparr>)"
  using assms by (simp add: upd_pcb_eq)

lemma file_agree:
  assumes "inode_ok bb ia ino m" "\<And>x. x \<in> footprint bb ia ino m \<Longrightarrow> m' x = m x"
  shows "file_contents bb ia ino m' = file_contents bb ia ino m" "inode_ok bb ia ino m'"
proof -
  note f = footprint_agree [OF assms(2)]
  have "file_address bb ia ino m' j = file_address bb ia ino m j \<and> m' (file_address bb ia ino m j) = m (file_address bb ia ino m j)"
    if "j < unat (inode_length ia ino m)" for j
  proof -
    have "j div 4096 < 1023" using that assms(1) by (auto simp: inode_ok_def)
    then have "file_address bb ia ino m' j = file_address bb ia ino m j" by (simp add: file_address_def f)
    moreover have "file_address bb ia ino m j \<in> footprint bb ia ino m" using that by (simp add: footprint_def)
    ultimately show ?thesis using assms(2) by simp
  qed
  then show "file_contents bb ia ino m' = file_contents bb ia ino m"
    by (simp add: file_contents_def f)
  have "k div 4096 < 1023" if "k < unat (inode_length ia ino m)" for k using that assms(1) by (auto simp: inode_ok_def)
  then show "inode_ok bb ia ino m'" using assms(1) by (simp add: inode_ok_def f)
qed

lemma start_program_eq:
  assumes ok: "paging_inv s" "length (pcbs s) = 6" "\<forall>p\<in>set (pcbs s). pcb_ok p" and k: "k < 6"
    and xs: "0 \<notin> set xs" "length (command_arg xs) < 128"
    and inode: "inode_ok (boot_block s) (inode_addr s) ino (phys s)"
    and low: "\<forall>x\<in>footprint (boot_block s) (inode_addr s) ino (phys s). unat x < 8388608"
    and F: "F = file_contents (boot_block s) (inode_addr s) ino (phys s)" "28 \<le> length F" "length F \<le> 3899392"
    and junk: "length (stack_junk s) = 4"
  shows "\<exists>s' p. start_program (int k) (arg_array xs) ino s = Some (Enter_user (entry_point (take 4 (drop 24 F))) 0x083FFFFC, s')
    \<and> pcbs s' = (pcbs s)[k := p] \<and> pcb_ok p \<and> file_descriptor_tabele p = fresh_descriptors
    \<and> is_cstr (arr_get (arg p)) (if command_name xs = xs then [] else command_arg xs)
    \<and> parent_of p = parent_saved k s
    \<and> paging_inv s' \<and> in_program k VMSTART 3899392 s' \<and> (\<forall>j<length F. user_get VMSTART s' j = Some (F ! j))
    \<and> (\<forall>x. unat x < 8388608 \<longrightarrow> phys s' x = phys s x)
    \<and> tss_ss0 s' = KERNEL_DS \<and> tss_esp0 s' = kernel_stack k \<and> intr_flag s' = intr_flag s
    \<and> terminals s' = terminals s \<and> phys_addr_available s' = phys_addr_available s
    \<and> curr_running_terminal_idx s' = curr_running_terminal_idx s \<and> curr_terminal_idx s' = curr_terminal_idx s
    \<and> exception_flag s' = exception_flag s \<and> kept s s'"
proof -
  define p0 where "p0 = pcbs s ! k"
  have p0: "pcb_ok p0" using ok(2,3) k by (simp add: p0_def)
  define p1 where "p1 = p0\<lparr>parent_ebp := ebp s, parent_esp := esp s, arg := set_arg xs (arg p0), file_descriptor_tabele := fresh_descriptors\<rparr>"
  define p2 where "p2 = (if 2 < k then p1\<lparr>parent_PDBR := cr3 s, parent_esp0 := tss_esp0 s, parent_ss0 := tss_ss0 s\<rparr>
    else p1\<lparr>parent_esp0 := kernel_stack k, parent_ss0 := KERNEL_DS\<rparr>)"
  define p3 where "p3 = (if k < 3 then p2\<lparr>parent_PDBR := addr_pde s (Suc k)\<rparr> else p2)"
  define s2 where "s2 = s\<lparr>pcbs := (pcbs s)[k := p2]\<rparr>"
  have u1: "upd_pcb (int k) (init_pcb (arg_array xs) (ebp s) (esp s)) s = Some (s\<lparr>pcbs := (pcbs s)[k := p1]\<rparr>)"
    using init_pcb_eq [OF p0 xs] ok(2) k by (intro upd_pcb_at) (simp_all add: p0_def p1_def)
  have u2: "save_parent (int k) (s\<lparr>pcbs := (pcbs s)[k := p1]\<rparr>) = Some s2"
    using ok(2) k upd_pcb_at [of k "s\<lparr>pcbs := (pcbs s)[k := p1]\<rparr>"]
    by (simp add: save_parent_def s2_def p2_def kernel_stack_def)
  have inv2: "paging_inv s2"
    using ok(1) by (simp add: s2_def paging_inv_def paging_ok_def maps_kernel_def slot_directory_def)
  obtain s3 where s3: "set_page 32 (slot_base k) (int (Suc k)) False (-1) s2 = Some s3" "paging_inv s3" "cr3 s3 = addr_pde s3 (Suc k)"
    "slot_directory s3 k (pdes s3 ! Suc k)"
    and eq3: "s3 = loaded (Suc k) (s2\<lparr>pte_zero := identity_table,
        pdes := (pdes s2)[Suc k := (kernel_entries s2 (pdes s2 ! Suc k))[32 := slot_base k OR 0x87]]\<rparr>)"
    using set_page_inv [OF inv2 k] by blast
  define s4 where "s4 = s3\<lparr>pcbs := (pcbs s)[k := p3]\<rparr>"
  have pc3: "pcbs s3 = (pcbs s)[k := p2]" "cr3 s3 = addr_pde s (Suc k)" by (simp_all add: eq3 loaded_def s2_def)
  have u4: "(if int k < 3 then upd_pcb (int k) (\<lambda>p. Some (p\<lparr>parent_PDBR := cr3 s3\<rparr>)) s3 else Some s3) = Some s4"
  proof (cases "k < 3")
    case True
    have "upd_pcb (int k) (\<lambda>p. Some (p\<lparr>parent_PDBR := cr3 s3\<rparr>)) s3 = Some (s3\<lparr>pcbs := (pcbs s3)[k := p3]\<rparr>)"
      using True ok(2) k by (intro upd_pcb_at) (simp_all add: pc3 p3_def)
    then show ?thesis using True by (simp add: s4_def pc3(1))
  next
    case False
    then show ?thesis by (simp add: s4_def p3_def pc3(1) [symmetric])
  qed
  have same4: "phys s4 = phys s" "boot_block s4 = boot_block s" "inode_addr s4 = inode_addr s" "terminals s4 = terminals s"
    "phys_addr_available s4 = phys_addr_available s" "curr_running_terminal_idx s4 = curr_running_terminal_idx s"
    "curr_terminal_idx s4 = curr_terminal_idx s" "exception_flag s4 = exception_flag s" "stack_junk s4 = stack_junk s"
    "intr_flag s4 = intr_flag s" "pcbs s4 = (pcbs s)[k := p3]"
    by (simp_all add: s4_def eq3 loaded_def s2_def)
  have in4: "in_program k VMSTART 3899392 s4"
    using s3 k by (simp add: in_program_def s4_def paging_inv_def paging_ok_def maps_kernel_def slot_directory_def)
  obtain m where m: "put_list (user_put VMSTART) s4 0 F = Some (s4\<lparr>phys := m\<rparr>)"
    "\<forall>j<3899392. user_get VMSTART (s4\<lparr>phys := m\<rparr>) j = (if j < length F then Some (F ! j) else user_get VMSTART s4 j)"
    using put_list_program [OF in4 F(3)] by blast
  have keep: "m x = phys s x" if "unat x < 8388608" for x
  proof -
    have "x \<notin> program_byte k VMSTART ` {..<3899392}" using program_byte_high [OF in4 _ that] by auto
    from put_list_program_frame [OF in4 _ m(1) this] F(3) show ?thesis by (simp add: same4)
  qed
  have L: "length F = unat (inode_length (inode_addr s) ino (phys s))" "length F \<le> 4190208"
    using F(1) inode by (simp_all add: inode_ok_def)
  have size: "get_file_size (inode_addr s4) ino (phys s4) = int (length F)"
    using L by (simp add: get_file_size_def same4 sint_small)
  have load: "read_data phys (user_put VMSTART) (boot_block s4) (inode_addr s4) ino 0 (word_of_int (int (length F))) s4
      = Some (int (length F), s4\<lparr>phys := m\<rparr>)"
    using program_destination.read_data_eq [where a = VMSTART and k = k and limit = 3899392 and b = s4 and m = "phys s"
        and image = "footprint (boot_block s) (inode_addr s) ino (phys s)" and off = 0 and n = "word_of_int (int (length F))",
        OF inode order_refl] in4 low L m(1) F same4
    by simp
  define s6 where "s6 = s4\<lparr>phys := m, tss_ss0 := KERNEL_DS, tss_esp0 := kernel_stack k\<rparr>"
  have agree: "m x = phys s x" if "x \<in> footprint (boot_block s) (inode_addr s) ino (phys s)" for x
    using keep low that by blast
  have header: "read_header s6 ino 24 = Some (take 4 (drop 24 F))"
  proof -
    have "file_contents (boot_block s6) (inode_addr s6) ino (phys s6) = F" "inode_ok (boot_block s6) (inode_addr s6) ino (phys s6)"
      using file_agree [OF inode, of m] agree inode F(1) by (simp_all add: s6_def same4)
    then show ?thesis
      using read_header_eq [of s6 ino F 24] junk F(2) by (simp add: s6_def same4)
  qed
  have run: "start_program (int k) (arg_array xs) ino s = Some (Enter_user (entry_point (take 4 (drop 24 F))) 0x083FFFFC, s6)"
  proof -
    have base: "0x800000 + word_of_int (int k * 0x400000) = slot_base k" by (simp add: slot_base_def)
    show ?thesis
      unfolding start_program_def u1 Option.bind.bind_lunit u2 base
      using s3(1) u4 size load header
      by (simp add: s6_def kernel_stack_def add.commute)
  qed
  have frame: "pcbs s6 = (pcbs s)[k := p3]" "terminals s6 = terminals s" "phys_addr_available s6 = phys_addr_available s"
    "curr_running_terminal_idx s6 = curr_running_terminal_idx s" "curr_terminal_idx s6 = curr_terminal_idx s"
    "exception_flag s6 = exception_flag s" "phys s6 = m" "tss_ss0 s6 = KERNEL_DS" "tss_esp0 s6 = kernel_stack k" "intr_flag s6 = intr_flag s"
    by (simp_all add: s6_def same4)
  have kept: "kept s s6" by (simp add: kept_def s6_def s4_def eq3 loaded_def s2_def)
  have pcb: "pcb_ok p3" "file_descriptor_tabele p3 = fresh_descriptors" "arg p3 = set_arg xs (arg p0)" "parent_of p3 = parent_saved k s"
    using set_arg_ok [OF p0 xs] by (auto simp: pcb_ok_def p3_def p2_def p1_def fresh_descriptors_def parent_of_def parent_saved_def)
  have "in_program k VMSTART 3899392 s6" "user_get VMSTART s6 = user_get VMSTART (s4\<lparr>phys := m\<rparr>)"
    using in_program_cong [of s6 s4] user_get_cong [of s6 "s4\<lparr>phys := m\<rparr>"] in4 by (simp_all add: s6_def)
  moreover from this(1) have "paging_inv s6" by (simp add: in_program_def)
  ultimately show ?thesis
    using run frame pcb set_arg_ok(3) [OF p0 xs] m(2) F(3) keep
    by (intro exI [of _ s6] exI [of _ p3]) (simp add: pcb kept)
qed

section \<open>execute as a whole\<close>

text \<open>Before the directory is searched, \<open>execute\<close> has masked interrupts, unmasked the timer line, cleared
  \<open>exception_flag\<close> and perhaps set the displayed terminal's \<open>hello_flag\<close>.\<close>

definition prepared :: "'z process_scheme \<Rightarrow> 'z process_scheme \<Rightarrow> bool" where
  "prepared s s0 \<longleftrightarrow> \<not> intr_flag s0 \<and> phys s0 = phys s \<and> curr_terminal_idx s0 = curr_terminal_idx s
     \<and> curr_running_terminal_idx s0 = curr_running_terminal_idx s
     \<and> console.more s0 = console.more (s\<lparr>exception_flag := 0\<rparr>)
     \<and> (\<exists>v. terminals s0 = (terminals s)[nat (curr_terminal_idx s) := (terminals s ! nat (curr_terminal_idx s))\<lparr>hello_flag := v\<rparr>])"

lemma more_fields:
  assumes "console.more s0 = console.more (s\<lparr>exception_flag := 0\<rparr>)"
  shows "pcbs s0 = pcbs s" "phys_addr_available s0 = phys_addr_available s" "boot_block s0 = boot_block s" "inode_addr s0 = inode_addr s"
    "curr_dir_dentry s0 = curr_dir_dentry s" "curr_file_dentry s0 = curr_file_dentry s" "tss_ss0 s0 = tss_ss0 s" "tss_esp0 s0 = tss_esp0 s"
    "exception_flag s0 = 0" "ebp s0 = ebp s" "esp s0 = esp s" "execute_frame s0 = execute_frame s" "stack_junk s0 = stack_junk s"
    "pdes s0 = pdes s" "pte_zero s0 = pte_zero s" "pte_one s0 = pte_one s" "addr_pde s0 = addr_pde s"
    "addr_pte_zero s0 = addr_pte_zero s" "addr_pte_one s0 = addr_pte_one s" "cr3 s0 = cr3 s" "pde_arr s0 = pde_arr s"
  using assms by (cases s0, cases s, simp)+

lemma more_fields_more:
  assumes "console.more s0 = console.more (s\<lparr>exception_flag := 0\<rparr>)"
  shows "flag_first_execute s0 = flag_first_execute s" "process.more s0 = process.more s"
  using assms by (cases s0, cases s, simp)+

lemma prepared_ok:
  assumes "prepared s s0"
  shows "procs_ok s \<Longrightarrow> procs_ok s0 \<and> (\<forall>i<3. stack s0 i = stack s i)" "fs_ready s \<Longrightarrow> fs_ready s0" "paging_inv s \<Longrightarrow> paging_inv s0"
    "run_idx s0 = run_idx s"
proof -
  note f = more_fields [of s0 s]
  have p: "console.more s0 = console.more (s\<lparr>exception_flag := 0\<rparr>)" "phys s0 = phys s"
    "curr_running_terminal_idx s0 = curr_running_terminal_idx s" "curr_terminal_idx s0 = curr_terminal_idx s"
    using assms by (simp_all add: prepared_def)
  show "procs_ok s0 \<and> (\<forall>i<3. stack s0 i = stack s i)" if ok: "procs_ok s"
  proof -
    obtain v where v: "terminals s0 = (terminals s)[nat (curr_terminal_idx s) := (terminals s ! nat (curr_terminal_idx s))\<lparr>hello_flag := v\<rparr>]"
      using assms by (auto simp: prepared_def)
    have len: "length (terminals s) = 3" "curr_running_terminal_idx s \<in> {0, 1, 2}" "curr_terminal_idx s \<in> {0, 1, 2}"
      using ok by (simp_all add: procs_ok_def stacks_ok_def)
    have ph: "phys_mem_idx (terminals s0 ! i) = phys_mem_idx (terminals s ! i)" if "i < 3" for i
      using len(1) that by (cases "i = nat (curr_terminal_idx s)") (simp_all add: v)
    have "procs_ok s0"
      using ph len v p f by (intro procs_ok_stacks [OF ok]) simp_all
    then show ?thesis using ph by (simp add: stack_of_def)
  qed
  show "fs_ready s \<Longrightarrow> fs_ready s0" using p f by (simp add: fs_ready_def)
  show "paging_inv s \<Longrightarrow> paging_inv s0"
    using p f by (simp add: paging_inv_def paging_ok_def maps_kernel_def slot_directory_def)
  show "run_idx s0 = run_idx s" using p by (simp add: run_idx_def)
qed

lemma execute_prepared:
  assumes ok: "procs_ok s" "fs_ready s" and xs: "is_cstr command xs" "length (command_name xs) < 128" "length (command_arg xs) < 128"
  shows "\<exists>s0. prepared s s0 \<and> execute False command s =
    (if \<not> found s (command_name xs) then Some (Return (-1), s0)
     else do { buf_elf \<leftarrow> read_header s0 (inode_idx (entry_of s (command_name xs))) 0;
               if buf_elf \<noteq> elf_magic then Some (Return (-1), s0)
               else do { (slot, s') \<leftarrow> allocate_slot s0;
                         case slot of None \<Rightarrow> Some (Return (-1), s')
                         | Some curr_idx \<Rightarrow> start_program curr_idx (arg_array xs) (inode_idx (entry_of s (command_name xs))) s' } })"
proof -
  define c where "c = enable_irq 0 ((cli s)\<lparr>exception_flag := 0\<rparr>)"
  have "sound.more c = sound.more ((cli s)\<lparr>exception_flag := 0\<rparr>)" by (simp add: c_def)
  note f = console_frame [OF this]
  have m: "console.more (cli t) = console.more t" for t :: "'a process_scheme" by (cases t) (simp add: cli_def)
  have e: "(cli s)\<lparr>exception_flag := 0\<rparr> = cli (s\<lparr>exception_flag := 0\<rparr>)" by (simp add: cli_def)
  have i: "\<not> intr_flag c" by (simp add: c_def e)
  have c: "terminals c = terminals s" "phys c = phys s" "curr_terminal_idx c = curr_terminal_idx s"
    "curr_running_terminal_idx c = curr_running_terminal_idx s" "console.more c = console.more (s\<lparr>exception_flag := 0\<rparr>)" "\<not> intr_flag c"
    using f i m [of "s\<lparr>exception_flag := 0\<rparr>"] unfolding e by simp_all
  have "stacks_ok c" using ok(1) c by (simp add: procs_ok_def stacks_ok_def)
  then obtain v where v: "mark_hello command (length xs) c = Some (c\<lparr>terminals :=
      (terminals c)[nat (curr_terminal_idx c) := (terminals c ! nat (curr_terminal_idx c))\<lparr>hello_flag := v\<rparr>]\<rparr>)"
    using mark_hello_eq [OF xs(1)] by blast
  define s0 where "s0 = c\<lparr>terminals := (terminals c)[nat (curr_terminal_idx c) := (terminals c ! nat (curr_terminal_idx c))\<lparr>hello_flag := v\<rparr>]\<rparr>"
  have prep: "prepared s s0" using c by (auto simp: prepared_def s0_def)
  have bb: "boot_block s0 = boot_block s" "phys s0 = phys s" using prep more_fields [of s0 s] by (auto simp: prepared_def)
  have dir: "directory_ok (boot_block s0) (phys s0)" using ok(2) bb by (simp add: fs_ready_def)
  have look: "read_dentry_by_name (boot_block s0) (phys s0) False (arr_get (command_name xs @ replicate (128 - length (command_name xs)) 0)) local_dentry
    = Some (if found s (command_name xs) then (0, entry_of s (command_name xs)) else (-1, local_dentry))"
    using lookup_eq [OF dir parse_filename_cstr [OF xs(1,2)], of local_dentry] bb
    by (simp add: found_def lookup_def entry_of_def local_dentry_def)
  show ?thesis
    using prep look v strlen_cstr [OF xs(1)] parse_filename_eq [OF xs(1,2)] parse_arg_eq [OF xs(1,3)]
    by (intro exI [of _ s0]) (simp add: execute_def c_def [symmetric] s0_def [symmetric])
qed

text \<open>The program that a command names, as a file of the image.\<close>

definition program_inode :: "'z file_system_scheme \<Rightarrow> u8 list \<Rightarrow> u32" where
  "program_inode s xs = inode_idx (entry_of s (command_name xs))"

definition program_file :: "'z file_system_scheme \<Rightarrow> u8 list \<Rightarrow> u8 list" where
  "program_file s xs = file_contents (boot_block s) (inode_addr s) (program_inode s xs) (phys s)"

text \<open>A file that can be loaded: it is well formed, lies in the kernel's memory, and has a header and at most
  the room from \<open>VMSTART\<close> to the end of the page.\<close>

definition loadable :: "'z file_system_scheme \<Rightarrow> u8 list \<Rightarrow> bool" where
  "loadable s xs \<longleftrightarrow> inode_ok (boot_block s) (inode_addr s) (program_inode s xs) (phys s)
     \<and> (\<forall>x\<in>footprint (boot_block s) (inode_addr s) (program_inode s xs) (phys s). unat x < 8388608)
     \<and> 28 \<le> length (program_file s xs) \<and> length (program_file s xs) \<le> 3899392"

definition command_ok :: "cstr \<Rightarrow> u8 list \<Rightarrow> bool" where
  "command_ok command xs \<longleftrightarrow> is_cstr command xs \<and> length (command_name xs) < 128 \<and> length (command_arg xs) < 128"

definition free_slot :: "'z terminal_state_scheme \<Rightarrow> nat" where
  "free_slot s = first_index (\<lambda>v. v \<noteq> 0) (phys_addr_available s)"

lemma execute_eq:
  assumes ok: "procs_ok s" "fs_ready s" "paging_inv s" "length (stack_junk s) = 4" and cmd: "command_ok command xs"
    and prog: "found s (command_name xs)" "loadable s xs"
  shows "take 4 (program_file s xs) = elf_magic \<Longrightarrow> free_slot s < 6 \<Longrightarrow>
      \<exists>s' p. execute False command s = Some (Enter_user (entry_point (take 4 (drop 24 (program_file s xs)))) 0x083FFFFC, s')
        \<and> pcbs s' = (pcbs s)[free_slot s := p] \<and> pcb_ok p \<and> file_descriptor_tabele p = fresh_descriptors
        \<and> is_cstr (arr_get (arg p)) (if command_name xs = xs then [] else command_arg xs)
        \<and> parent_of p = parent_saved (free_slot s) s \<and> procs_ok s' \<and> run_idx s' = run_idx s
        \<and> (\<forall>i<3. stack s' i = (if i = run_idx s then stack s i @ [int (free_slot s)] else stack s i))
        \<and> phys_addr_available s' = (phys_addr_available s)[free_slot s := 0]
        \<and> in_program (free_slot s) VMSTART 3899392 s' \<and> (\<forall>j<length (program_file s xs). user_get VMSTART s' j = Some (program_file s xs ! j))
        \<and> (\<forall>x. unat x < 8388608 \<longrightarrow> phys s' x = phys s x)
        \<and> tss_ss0 s' = KERNEL_DS \<and> tss_esp0 s' = kernel_stack (free_slot s) \<and> \<not> intr_flag s' \<and> exception_flag s' = 0 \<and> kept s s'"
    and "take 4 (program_file s xs) \<noteq> elf_magic \<or> 6 \<le> free_slot s \<Longrightarrow>
      \<exists>s0. execute False command s = Some (Return (-1), s0) \<and> prepared s s0"
proof -
  let ?F = "program_file s xs" and ?k = "free_slot s"
  have cs: "is_cstr command xs" "length (command_name xs) < 128" "length (command_arg xs) < 128" "0 \<notin> set xs"
    using cmd by (simp_all add: command_ok_def is_cstr_def)
  obtain s0 where prep: "prepared s s0" and run: "execute False command s =
      do { buf_elf \<leftarrow> read_header s0 (program_inode s xs) 0;
               if buf_elf \<noteq> elf_magic then Some (Return (-1), s0)
               else do { (slot, s') \<leftarrow> allocate_slot s0;
                         case slot of None \<Rightarrow> Some (Return (-1), s')
                         | Some curr_idx \<Rightarrow> start_program curr_idx (arg_array xs) (program_inode s xs) s' } }"
    using execute_prepared [OF ok(1,2) cs(1-3)] prog(1) unfolding program_inode_def by auto
  have f: "phys s0 = phys s" "\<not> intr_flag s0" "curr_running_terminal_idx s0 = curr_running_terminal_idx s"
    and mf: "console.more s0 = console.more (s\<lparr>exception_flag := 0\<rparr>)"
    using prep by (simp_all add: prepared_def)
  note g = more_fields [OF mf]
  note p0 = prepared_ok [OF prep]
  have ok0: "procs_ok s0" "paging_inv s0" "run_idx s0 = run_idx s" "\<And>i. i < 3 \<Longrightarrow> stack s0 i = stack s i" using p0 ok by auto
  have inode: "inode_ok (boot_block s) (inode_addr s) (program_inode s xs) (phys s)" and len: "28 \<le> length ?F" "length ?F \<le> 3899392"
    and low: "\<forall>x\<in>footprint (boot_block s) (inode_addr s) (program_inode s xs) (phys s). unat x < 8388608"
    using prog(2) by (simp_all add: loadable_def)
  have hd: "read_header s0 (program_inode s xs) 0 = Some (take 4 ?F)"
    using read_header_eq [of s0 "program_inode s xs" ?F 0] inode ok(4) len(1) by (simp add: f g program_file_def)
  have k0: "?k = first_index (\<lambda>v. v \<noteq> 0) (phys_addr_available s0)" by (simp add: free_slot_def g)
  show "\<exists>s0. execute False command s = Some (Return (-1), s0) \<and> prepared s s0"
    if "take 4 ?F \<noteq> elf_magic \<or> 6 \<le> ?k"
    using that run hd allocate_slot_eq(1) [OF ok0(1) k0] prep by auto
  assume elf: "take 4 ?F = elf_magic" and k: "?k < 6"
  obtain s1 t where s1: "allocate_slot s0 = Some (Some (int ?k), s1)"
    "s1 = s0\<lparr>phys_addr_available := (phys_addr_available s0)[?k := 0], terminals := (terminals s0)[run_idx s0 := t]\<rparr>"
    "stack_of t = stack s0 (run_idx s0) @ [int ?k]" "procs_ok s1"
    using allocate_slot_eq(2) [OF ok0(1) k0 k] by blast
  have f1: "phys s1 = phys s" "boot_block s1 = boot_block s" "inode_addr s1 = inode_addr s" "pcbs s1 = pcbs s" "stack_junk s1 = stack_junk s"
    "intr_flag s1 = intr_flag s0" "exception_flag s1 = 0" "phys_addr_available s1 = (phys_addr_available s)[?k := 0]"
    "parent_saved ?k s1 = parent_saved ?k s" "curr_running_terminal_idx s1 = curr_running_terminal_idx s"
    by (simp_all add: s1(2) f g parent_saved_def)
  have inv1: "paging_inv s1"
    using ok0(2) by (simp add: s1(2) paging_inv_def paging_ok_def maps_kernel_def slot_directory_def)
  have pok: "length (pcbs s1) = 6" "\<forall>p\<in>set (pcbs s1). pcb_ok p" using s1(4) by (simp_all add: procs_ok_def)
  obtain s' p where s': "start_program (int ?k) (arg_array xs) (program_inode s xs) s1
      = Some (Enter_user (entry_point (take 4 (drop 24 ?F))) 0x083FFFFC, s')"
    "pcbs s' = (pcbs s)[?k := p]" "pcb_ok p" "file_descriptor_tabele p = fresh_descriptors"
    "is_cstr (arr_get (arg p)) (if command_name xs = xs then [] else command_arg xs)" "parent_of p = parent_saved ?k s"
    "in_program ?k VMSTART 3899392 s'" "\<forall>j<length ?F. user_get VMSTART s' j = Some (?F ! j)"
    "\<forall>x. unat x < 8388608 \<longrightarrow> phys s' x = phys s x"
    "tss_ss0 s' = KERNEL_DS" "tss_esp0 s' = kernel_stack ?k" "intr_flag s' = intr_flag s0"
    "terminals s' = terminals s1" "phys_addr_available s' = (phys_addr_available s)[?k := 0]"
    "curr_running_terminal_idx s' = curr_running_terminal_idx s" "curr_terminal_idx s' = curr_terminal_idx s1" "exception_flag s' = 0"
    "kept s1 s'"
    using start_program_eq [OF inv1 pok k cs(4,3), of "program_inode s xs" ?F] inode low len ok(4)
    unfolding f1 program_file_def by metis
  have "kept s s'"
    using s'(18) mf prep by (simp add: kept_def s1(2) f g more_fields_more [OF mf] prepared_def)
  moreover have "procs_ok s'"
    using s' by (intro procs_ok_pcbs [OF s1(4) s'(3)]) (simp_all add: f1)
  moreover have "stack s' i = (if i = run_idx s then stack s i @ [int ?k] else stack s i)" if "i < 3" for i
  proof -
    have "length (terminals s0) = 3" using ok0(1) by (simp add: procs_ok_def stacks_ok_def)
    then show ?thesis using s1(3) ok0(3,4) that by (cases "i = run_idx s") (simp_all add: s'(13) s1(2))
  qed
  ultimately show "\<exists>s' p. execute False command s = Some (Enter_user (entry_point (take 4 (drop 24 ?F))) 0x083FFFFC, s')
        \<and> pcbs s' = (pcbs s)[?k := p] \<and> pcb_ok p \<and> file_descriptor_tabele p = fresh_descriptors
        \<and> is_cstr (arr_get (arg p)) (if command_name xs = xs then [] else command_arg xs)
        \<and> parent_of p = parent_saved ?k s \<and> procs_ok s' \<and> run_idx s' = run_idx s
        \<and> (\<forall>i<3. stack s' i = (if i = run_idx s then stack s i @ [int ?k] else stack s i))
        \<and> phys_addr_available s' = (phys_addr_available s)[?k := 0]
        \<and> in_program ?k VMSTART 3899392 s' \<and> (\<forall>j<length ?F. user_get VMSTART s' j = Some (?F ! j))
        \<and> (\<forall>x. unat x < 8388608 \<longrightarrow> phys s' x = phys s x)
        \<and> tss_ss0 s' = KERNEL_DS \<and> tss_esp0 s' = kernel_stack ?k \<and> \<not> intr_flag s' \<and> exception_flag s' = 0 \<and> kept s s'"
    using run hd elf s1(1) s' f(2) by (intro exI [of _ s'] exI [of _ p]) (simp add: run_idx_def)
qed

section \<open>halt\<close>

definition halt_status :: "u8 \<Rightarrow> 'z process_scheme \<Rightarrow> u32" where
  "halt_status status s = ucast (if exception_flag s = 1 then 255 else status) + word_of_int (exception_flag s)"

text \<open>The state in which \<open>halt\<close> decides between resuming the parent and restarting the shell.\<close>

definition halted :: "nat \<Rightarrow> int list \<Rightarrow> 'z process_scheme \<Rightarrow> 'z process_scheme \<Rightarrow> bool" where
  "halted k xs s s' \<longleftrightarrow> procs_ok s' \<and> run_idx s' = run_idx s \<and> \<not> intr_flag s'
     \<and> (\<forall>i<3. stack s' i = (if i = run_idx s then xs else stack s i))
     \<and> phys_addr_available s' = (phys_addr_available s)[k := 1]
     \<and> (\<exists>p. pcbs s' = (pcbs s)[k := p] \<and> parent_of p = (0, 0, 0, 0, 0) \<and> arg p = arg (pcbs s ! k)
         \<and> curr_PDBR p = curr_PDBR (pcbs s ! k) \<and> (2 < k \<longrightarrow> file_descriptor_tabele p = replicate 8 closed_descriptor))
     \<and> cr3 s' = parent_PDBR (pcbs s ! k) \<and> tss_ss0 s' = parent_ss0 (pcbs s ! k) \<and> tss_esp0 s' = parent_esp0 (pcbs s ! k)
     \<and> exception_flag s' = exception_flag s \<and> phys s' = phys s \<and> boot_block s' = boot_block s \<and> inode_addr s' = inode_addr s
     \<and> execute_frame s' = execute_frame s \<and> stack_junk s' = stack_junk s
     \<and> (fs_ready s \<longrightarrow> fs_ready s') \<and> same_tables s s' \<and> (keyboard_ok s \<longrightarrow> keyboard_ok s')"

lemma halt_eq:
  assumes ok: "procs_ok s" and k: "stack s (run_idx s) = xs @ [int k]"
  shows "\<exists>s'. halted k xs s s' \<and> halt status s =
    (if k < 3 then do { let (ebp', esp') = execute_frame s (parent_ebp (pcbs s ! k) + 8);
                        (c, t) \<leftarrow> execute False (arr_get shell_command) (s'\<lparr>ebp := ebp', esp := esp'\<rparr>);
                        case c of Return _ \<Rightarrow> Some (Resume (ucast (if exception_flag s = 1 then 255 else status) + word_of_int (exception_flag t))
                            (parent_ebp (pcbs s ! k)), t\<lparr>esp := parent_esp (pcbs s ! k), ebp := parent_ebp (pcbs s ! k)\<rparr>)
                        | _ \<Rightarrow> Some (c, t) }
     else Some (Resume (halt_status status s) (parent_ebp (pcbs s ! k)),
            s'\<lparr>esp := parent_esp (pcbs s ! k), ebp := parent_ebp (pcbs s ! k)\<rparr>))"
proof -
  define c where "c = cli s"
  have c: "pcbs c = pcbs s" "terminals c = terminals s" "curr_running_terminal_idx c = curr_running_terminal_idx s"
    "phys_addr_available c = phys_addr_available s" "exception_flag c = exception_flag s"
    by (simp_all add: c_def cli_def)
  have st: "stacks_ok s" and len: "length (pcbs s) = 6" "length (phys_addr_available s) = 6" "length (terminals s) = 3"
    using ok by (simp_all add: procs_ok_def stacks_ok_def)
  note r = running_process_eq [OF st]
  have ri: "0 \<le> curr_running_terminal_idx s" "nat (curr_running_terminal_idx s) = run_idx s" using st by (auto simp: stacks_ok_def run_idx_def)
  have ne: "stack s (run_idx s) \<noteq> []" using k by simp
  have k6: "k < 6" using last_stack_range [OF st r(1) ne] k by simp
  let ?t = "terminals s ! run_idx s" and ?p = "pcbs s ! k"
  have tok: "stack_ok ?t" using st r(1) by (simp add: stacks_ok_def)
  have depth: "process_depth ?t - 1 = int (length xs)" using process_depth_eq [OF tok] k by simp
  have top: "aget (phys_mem_idx ?t) (int (length xs)) = Some (int k)"
  proof -
    have "phys_mem_idx ?t = (xs @ [int k]) @ replicate (6 - length (xs @ [int k])) (-1)" using tok k by (simp add: stack_ok_def)
    then show ?thesis by (simp add: aget_in nth_append)
  qed
  have rt: "running_terminal c = Some ?t" using r(2) by (simp add: c)
  have pok: "pcb_ok ?p" using ok k6 by (simp add: procs_ok_def)
  define p1 where "p1 = (if 2 < k then ?p\<lparr>file_descriptor_tabele := replicate 8 closed_descriptor\<rparr> else ?p)"
  define p2 where "p2 = p1\<lparr>parent_ss0 := 0, parent_esp0 := 0, parent_ebp := 0, parent_esp := 0\<rparr>"
  define p3 where "p3 = p2\<lparr>parent_PDBR := 0\<rparr>"
  define s1 where "s1 = c\<lparr>pcbs := (pcbs s)[k := p1]\<rparr>"
  have u1: "(if int k > 2 then upd_pcb (int k) (\<lambda>p. for_opt 0 8 (\<lambda>i. set_fd (int i) closed_descriptor) p) c else Some c) = Some s1"
  proof (cases "2 < k")
    case True
    have f8: "length (file_descriptor_tabele ?p) = 8" using pok by (simp add: pcb_ok_def)
    have "for_opt 0 8 (\<lambda>i. set_fd (int i) closed_descriptor) ?p = Some p1"
      using fill_descriptors [OF f8, of 0 8] True f8 by (simp add: p1_def)
    then show ?thesis using True k6 len c by (simp add: upd_pcb_at s1_def)
  next
    case False
    then show ?thesis using c(1) by (simp add: s1_def p1_def c(1) [symmetric])
  qed
  define s2 where "s2 = s1\<lparr>tss_ss0 := parent_ss0 ?p, tss_esp0 := parent_esp0 ?p\<rparr>"
  have p1: "parent_ss0 p1 = parent_ss0 ?p" "parent_esp0 p1 = parent_esp0 ?p" "parent_ebp p1 = parent_ebp ?p" "parent_esp p1 = parent_esp ?p"
    "parent_PDBR p1 = parent_PDBR ?p" by (simp_all add: p1_def)
  define t where "t = ?t\<lparr>phys_mem_idx := (phys_mem_idx ?t)[length xs := -1], vid_on := 0\<rparr>"
  note pop = stack_pop [OF tok k]
  have t: "stack_of t = xs" "stack_ok t" using pop by (simp_all add: t_def stack_of_def stack_ok_def)
  define s' where "s' = s2\<lparr>pcbs := (pcbs s)[k := p3], phys_addr_available := (phys_addr_available s)[k := 1],
    terminals := (terminals s)[run_idx s := t], cr3 := parent_PDBR ?p\<rparr>"
  have lx: "length xs < length (phys_mem_idx ?t)" using stack_ok_length [OF tok] tok k by (simp add: stack_ok_def)
  define sa where "sa = s2\<lparr>pcbs := (pcbs s)[k := p2]\<rparr>"
  define sb where "sb = sa\<lparr>phys_addr_available := (phys_addr_available s)[k := 1]\<rparr>"
  define sc where "sc = sb\<lparr>terminals := (terminals s)[run_idx s := ?t\<lparr>phys_mem_idx := (phys_mem_idx ?t)[length xs := -1]\<rparr>]\<rparr>"
  define s3 where "s3 = sc\<lparr>terminals := (terminals s)[run_idx s := t]\<rparr>"
  note sdefs = s3_def sc_def sb_def sa_def s2_def s1_def
  have u2: "upd_pcb (int k) (\<lambda>p. Some (p\<lparr>parent_ss0 := 0, parent_esp0 := 0, parent_ebp := 0, parent_esp := 0\<rparr>)) s2 = Some sa"
    using k6 len by (simp add: upd_pcb_at sdefs p2_def)
  have v: "upd_running (\<lambda>t. do { ph \<leftarrow> aset (phys_mem_idx t) (int (length xs)) (-1); Some (t\<lparr>phys_mem_idx := ph\<rparr>) }) sb = Some sc"
    using ri r(1) len lx by (subst upd_terminal_eq [where t = "?t\<lparr>phys_mem_idx := (phys_mem_idx ?t)[length xs := -1]\<rparr>"])
      (simp_all add: sdefs c aset_in)
  have w: "upd_running (\<lambda>t. Some (t\<lparr>vid_on := 0\<rparr>)) sc = Some s3"
    using ri r(1) len by (subst upd_terminal_eq [where t = t]) (simp_all add: sdefs c t_def)
  have u3: "upd_pcb (int k) (\<lambda>p. Some (p\<lparr>parent_PDBR := 0\<rparr>)) (s3\<lparr>cr3 := parent_PDBR ?p\<rparr>) = Some s'"
    using k6 len by (simp add: upd_pcb_at sdefs s'_def p3_def)
  have g: "aget (pcbs s1) (int k) = Some p1" "aget (pcbs s3) (int k) = Some p2" "parent_PDBR p2 = parent_PDBR ?p"
    "aset (phys_addr_available sa) (int k) 1 = Some ((phys_addr_available s)[k := 1])" "exception_flag s' = exception_flag s" "execute_frame s' = execute_frame s"
    using k6 len by (simp_all add: sdefs s'_def aget_in aset_in p2_def p1 c) (simp add: c_def cli_def)
  have run: "halt status s =
    (if k < 3 then do { let (ebp', esp') = execute_frame s (parent_ebp ?p + 8);
                        (c, t) \<leftarrow> execute False (arr_get shell_command) (s'\<lparr>ebp := ebp', esp := esp'\<rparr>);
                        case c of Return _ \<Rightarrow> Some (Resume (ucast (if exception_flag s = 1 then 255 else status) + word_of_int (exception_flag t))
                            (parent_ebp ?p), t\<lparr>esp := parent_esp ?p, ebp := parent_ebp ?p\<rparr>)
                        | _ \<Rightarrow> Some (c, t) }
     else Some (Resume (halt_status status s) (parent_ebp ?p), s'\<lparr>esp := parent_esp ?p, ebp := parent_ebp ?p\<rparr>))"
    unfolding halt_def c_def [symmetric] Let_def rt Option.bind.bind_lunit depth top u1 g(1) p1 s2_def [symmetric] u2 g(4) sb_def [symmetric] v w g(2,3) u3
    using g(5,6) c(5) by (cases "execute_frame s (parent_ebp ?p + 8)") (simp add: halt_status_def)
  have "pcb_ok p3"
    using pok by (auto simp: pcb_ok_def p3_def p2_def p1_def)
  then have pk: "\<forall>q\<in>set ((pcbs s)[k := p3]). pcb_ok q"
    using ok by (auto simp: procs_ok_def dest!: set_update_subset_insert [THEN subsetD])
  have f: "phys s' = phys s" "boot_block s' = boot_block s" "inode_addr s' = inode_addr s" "stack_junk s' = stack_junk s"
    "curr_running_terminal_idx s' = curr_running_terminal_idx s" "curr_terminal_idx s' = curr_terminal_idx s" "\<not> intr_flag s'"
    "tss_ss0 s' = parent_ss0 ?p" "tss_esp0 s' = parent_esp0 ?p" "cr3 s' = parent_PDBR ?p" "curr_dir_dentry s' = curr_dir_dentry s"
    "curr_file_dentry s' = curr_file_dentry s" "pdes s' = pdes s" "pte_zero s' = pte_zero s" "pte_one s' = pte_one s" "addr_pde s' = addr_pde s"
    "addr_pte_zero s' = addr_pte_zero s" "addr_pte_one s' = addr_pte_one s" "pde_arr s' = pde_arr s"
    by (simp_all add: s'_def s2_def s1_def c_def cli_def)
  have "procs_ok s'"
  proof (rule procs_ok_pop [OF ok r(1) k6 k _ t(2,1)])
    show "terminals s' = (terminals s)[run_idx s := t]" "phys_addr_available s' = (phys_addr_available s)[k := 1]"
      "length (pcbs s') = 6" "\<forall>p\<in>set (pcbs s'). pcb_ok p"
      using len pk by (simp_all add: s'_def)
    show "curr_running_terminal_idx s' \<in> {0, 1, 2}" "curr_terminal_idx s' \<in> {0, 1, 2}"
      using st by (simp_all only: f stacks_ok_def)
  qed
  moreover have "\<forall>i<3. stack s' i = (if i = run_idx s then xs else stack s i)"
    using t(1) r(1) len by (auto simp: s'_def nth_list_update)
  moreover have "parent_of p3 = (0, 0, 0, 0, 0)" "arg p3 = arg ?p" "curr_PDBR p3 = curr_PDBR ?p" "2 < k \<Longrightarrow> file_descriptor_tabele p3 = replicate 8 closed_descriptor"
    by (simp_all add: p3_def p2_def p1_def parent_of_def)
  moreover have "pcbs s' = (pcbs s)[k := p3]" "phys_addr_available s' = (phys_addr_available s)[k := 1]" by (simp_all add: s'_def)
  moreover have "fs_ready s \<longrightarrow> fs_ready s'" "same_tables s s'" using f by (simp_all add: fs_ready_def same_tables_def)
  moreover have "keyboard_ok s'" if kb: "keyboard_ok s"
  proof -
    note con = keyboard_okD(1) [OF kb]
    have "terminal_ok (run_idx s) t" "line_ok t"
      using console_okD(11) [OF con r(1)] kb r(1) lx by (simp_all add: t_def terminal_ok_def line_ok_def keyboard_ok_def)
    moreover have ts: "terminals s' = (terminals s)[run_idx s := t]" by (simp add: s'_def)
    moreover have "console_ok s'"
      by (rule console_ok_update [OF con r(1) calculation(1) ts]) (simp_all add: s'_def s2_def s1_def c_def)
    moreover have "sound_ok s'" using keyboard_okD(2) [OF kb] by (simp add: sound_ok_def s'_def s2_def s1_def c_def)
    moreover have "line_ok (terminals s' ! i)" if "i < 3" for i
      using that kb calculation(2) len by (cases "i = run_idx s") (simp_all add: ts keyboard_ok_def)
    ultimately show ?thesis by (simp add: keyboard_ok_def)
  qed
  ultimately have "halted k xs s s'"
    using f g(5,6) by (auto simp: halted_def run_idx_def)
  with run show ?thesis by blast
qed

section \<open>What execute and halt guarantee\<close>

text \<open>C6. \<open>execute\<close> of a command whose first word names a loadable ELF file, while a process slot is free, enters
  user mode at the file's entry point with the stack at the top of the user page. The new program
  takes the lowest free slot \<open>k\<close> and is pushed on the running terminal's stack; its memory at
  \<open>VMSTART\<close> holds the whole file, its descriptors 0 and 1 are the terminal, its argument is what
  followed the first word, its kernel stack is the slot's own, and its PCB keeps the caller's frame,
  page directory and kernel stack. No other process, descriptor or byte of kernel memory changes.\<close>

theorem execute_enters_program:
  assumes "procs_ok s" "fs_ready s" "paging_inv s" "length (stack_junk s) = 4" "command_ok command xs"
    and "found s (command_name xs)" "loadable s xs" "take 4 (program_file s xs) = elf_magic"
    and "k = free_slot s" "k < 6"
  shows "\<exists>s' p. execute False command s = Some (Enter_user (entry_point (take 4 (drop 24 (program_file s xs)))) 0x083FFFFC, s')
    \<and> procs_ok s' \<and> pcbs s' = (pcbs s)[k := p] \<and> file_descriptor_tabele p = fresh_descriptors
    \<and> is_cstr (arr_get (arg p)) (if command_name xs = xs then [] else command_arg xs)
    \<and> parent_of p = parent_saved k s
    \<and> (\<forall>i<3. stack s' i = (if i = run_idx s then stack s i @ [int k] else stack s i))
    \<and> in_program k VMSTART (length (program_file s xs)) s'
    \<and> (\<forall>j<length (program_file s xs). user_get VMSTART s' j = Some (program_file s xs ! j))
    \<and> (\<forall>x. unat x < 8388608 \<longrightarrow> phys s' x = phys s x)
    \<and> tss_ss0 s' = KERNEL_DS \<and> tss_esp0 s' = kernel_stack k"
proof -
  have len: "length (program_file s xs) \<le> 3899392" using assms(7) by (simp add: loadable_def)
  have sub: "in_program k VMSTART (length (program_file s xs)) t" if "in_program k VMSTART 3899392 t" for t :: "'a process_scheme"
    using that len by (auto simp: in_program_def)
  show ?thesis
    using execute_eq(1) [OF assms(1-8), folded assms(9), OF assms(10)] sub by blast
qed

text \<open>C20. \<open>execute\<close> returns \<open>-1\<close> when the command names no file, when the file is not an ELF file, and when all
  six process slots are taken. The processes, the terminals' stacks and the memory are as before;
  but interrupts stay masked, the timer line is unmasked and \<open>exception_flag\<close> is cleared.\<close>

theorem execute_rejects:
  assumes "procs_ok s" "fs_ready s" "paging_inv s" "length (stack_junk s) = 4" "command_ok command xs"
    and "\<not> found s (command_name xs) \<or> loadable s xs \<and> (take 4 (program_file s xs) \<noteq> elf_magic \<or> 6 \<le> free_slot s)"
  shows "\<exists>s'. execute False command s = Some (Return (-1), s') \<and> procs_ok s' \<and> pcbs s' = pcbs s
    \<and> (\<forall>i<3. stack s' i = stack s i) \<and> phys_addr_available s' = phys_addr_available s \<and> phys s' = phys s
    \<and> cr3 s' = cr3 s \<and> \<not> intr_flag s' \<and> exception_flag s' = 0"
proof -
  obtain s0 where s0: "execute False command s = Some (Return (-1), s0)" "prepared s s0"
  proof (cases "found s (command_name xs)")
    case True
    then show ?thesis using execute_eq(2) [OF assms(1-5) True] assms(6) that by blast
  next
    case False
    then show ?thesis using execute_prepared [of s command xs] assms(1,2,5) that by (auto simp: command_ok_def)
  qed
  have "console.more s0 = console.more (s\<lparr>exception_flag := 0\<rparr>)" "phys s0 = phys s" "\<not> intr_flag s0"
    using s0(2) by (simp_all add: prepared_def)
  then show ?thesis using s0 more_fields [of s0 s] prepared_ok(1) [OF s0(2) assms(1)] by blast
qed

text \<open>C1. \<open>halt\<close> undoes \<open>execute\<close>. Let a program other than a shell be started in a state \<open>s\<close>, and let it run in any
  way that keeps the process table consistent, the stacks of the terminals and what its PCB holds of
  its parent. When it halts, control goes back to the frame of the \<open>execute\<close> call in \<open>s\<close> with the
  program's status (256 after an exception); the page directory, the kernel stack, the terminals'
  stacks and the free slots are those of \<open>s\<close>, and the slot's descriptors are closed.\<close>

theorem halt_undoes_execute:
  assumes "procs_ok s" "fs_ready s" "paging_inv s" "length (stack_junk s) = 4" "command_ok command xs"
    and "found s (command_name xs)" "loadable s xs" "take 4 (program_file s xs) = elf_magic"
    and "k = free_slot s" "2 < k" "k < 6"
    and start: "execute False command s = Some (c, s1)"
    and run: "procs_ok s2" "run_idx s2 = run_idx s" "\<forall>i<3. stack s2 i = stack s1 i"
      "phys_addr_available s2 = phys_addr_available s1" "parent_of (pcbs s2 ! k) = parent_of (pcbs s1 ! k)"
  shows "\<exists>s3. halt status s2 = Some (Resume (if exception_flag s2 = 1 then 256 else ucast status + word_of_int (exception_flag s2)) (ebp s), s3)
    \<and> procs_ok s3 \<and> esp s3 = esp s \<and> ebp s3 = ebp s \<and> cr3 s3 = cr3 s \<and> tss_ss0 s3 = tss_ss0 s \<and> tss_esp0 s3 = tss_esp0 s
    \<and> (\<forall>i<3. stack s3 i = stack s i) \<and> (\<forall>j<6. phys_addr_available s3 ! j = 0 \<longleftrightarrow> phys_addr_available s ! j = 0)
    \<and> file_descriptor_tabele (pcbs s3 ! k) = replicate 8 closed_descriptor"
proof -
  obtain p where s1: "pcbs s1 = (pcbs s)[k := p]" "parent_of p = parent_saved k s" "phys_addr_available s1 = (phys_addr_available s)[k := 0]"
    "\<forall>i<3. stack s1 i = (if i = run_idx s then stack s i @ [int k] else stack s i)"
    using execute_eq(1) [OF assms(1-8)] assms(9,11) start by auto
  have len: "length (pcbs s) = 6" "length (phys_addr_available s) = 6" "length (pcbs s2) = 6" and r: "run_idx s < 3"
    using assms(1) run(1) running_process_eq(1) [of s] by (auto simp: procs_ok_def)
  have par: "parent_of (pcbs s2 ! k) = (ebp s, esp s, cr3 s, tss_esp0 s, tss_ss0 s)"
    using run(5) s1(1,2) len assms(10,11) by (simp add: parent_saved_def)
  have top: "stack s2 (run_idx s2) = stack s (run_idx s) @ [int k]" using run(2,3) s1(4) r by simp
  obtain s' where h: "halted k (stack s (run_idx s)) s2 s'"
    and run': "halt status s2 = Some (Resume (halt_status status s2) (parent_ebp (pcbs s2 ! k)),
            s'\<lparr>esp := parent_esp (pcbs s2 ! k), ebp := parent_ebp (pcbs s2 ! k)\<rparr>)"
    using halt_eq [OF run(1) top, of status] assms(10) by auto
  define s3 where "s3 = s'\<lparr>esp := parent_esp (pcbs s2 ! k), ebp := parent_ebp (pcbs s2 ! k)\<rparr>"
  have av: "phys_addr_available s3 ! j = 0 \<longleftrightarrow> phys_addr_available s ! j = 0" if "j < 6" for j
  proof -
    have "phys_addr_available s ! k \<noteq> 0"
      using first_index_nth [of "\<lambda>v. v \<noteq> 0" "phys_addr_available s"] assms(9,11) len by (simp add: free_slot_def)
    then show ?thesis
      using h run(4) s1(3) len that assms(11) by (cases "j = k") (simp_all add: s3_def halted_def)
  qed
  have "procs_ok s'" using h by (simp add: halted_def)
  then have "procs_ok s3" by (simp add: s3_def procs_ok_def stacks_ok_def)
  moreover have "halt_status status s2 = (if exception_flag s2 = 1 then 256 else ucast status + word_of_int (exception_flag s2))"
    by (simp add: halt_status_def)
  moreover have "\<forall>i<3. stack s3 i = stack s i"
    using h run(2,3) s1(4) by (auto simp: s3_def halted_def)
  moreover have "file_descriptor_tabele (pcbs s3 ! k) = replicate 8 closed_descriptor"
    using h assms(10,11) len by (auto simp: s3_def halted_def)
  moreover have "parent_ebp (pcbs s2 ! k) = ebp s" using par by (simp add: parent_of_def)
  moreover have "esp s3 = esp s" "ebp s3 = ebp s" using par by (simp_all add: s3_def parent_of_def)
  moreover have "cr3 s3 = cr3 s" "tss_ss0 s3 = tss_ss0 s" "tss_esp0 s3 = tss_esp0 s"
    using par h by (simp_all add: s3_def halted_def parent_of_def)
  ultimately show ?thesis
    using run' av unfolding s3_def [symmetric] by (intro exI [of _ s3]) simp
qed

text \<open>C18. A terminal is never left without a program: when a shell, which has one of the slots 0 to 2, halts, with
  all lower slots in use, a new shell is loaded into the same slot and started, and the stacks of all
  terminals are as before. The status is lost.\<close>

theorem halt_restarts_shell:
  assumes "procs_ok s" "fs_ready s" "paging_inv s" "length (stack_junk s) = 4"
    and k: "stack s (run_idx s) = ps @ [int k]" "k < 3" "\<forall>j<k. phys_addr_available s ! j = 0"
    and name: "name = [115, 104, 101, 108, 108]" "found s name" "loadable s name" "take 4 (program_file s name) = elf_magic"
  shows "\<exists>s'. halt status s = Some (Enter_user (entry_point (take 4 (drop 24 (program_file s name)))) 0x083FFFFC, s')
    \<and> procs_ok s' \<and> (\<forall>i<3. stack s' i = stack s i) \<and> exception_flag s' = 0
    \<and> in_program k VMSTART (length (program_file s name)) s'
    \<and> (\<forall>j<length (program_file s name). user_get VMSTART s' j = Some (program_file s name ! j))"
proof -
  have n: "shell_command = name @ [0]" "command_name name = name" "command_arg name = []" "0 \<notin> set name"
    by (simp_all add: shell_command_def name(1) command_name_def command_ends_def command_arg_def)
  then have cmd: "command_ok (arr_get shell_command) name"
    using is_cstr_append_arr [of name "[]"] name(1) by (simp add: command_ok_def)
  obtain s1 where h: "halted k ps s s1" and run: "halt status s =
      do { let (ebp', esp') = execute_frame s (parent_ebp (pcbs s ! k) + 8);
           (c, t) \<leftarrow> execute False (arr_get shell_command) (s1\<lparr>ebp := ebp', esp := esp'\<rparr>);
           case c of Return _ \<Rightarrow> Some (Resume (ucast (if exception_flag s = 1 then 255 else status) + word_of_int (exception_flag t))
               (parent_ebp (pcbs s ! k)), t\<lparr>esp := parent_esp (pcbs s ! k), ebp := parent_ebp (pcbs s ! k)\<rparr>)
           | _ \<Rightarrow> Some (c, t) }"
    using halt_eq [OF assms(1) k(1), of status] k(2) by auto
  obtain b e where be: "execute_frame s (parent_ebp (pcbs s ! k) + 8) = (b, e)" by fastforce
  define t where "t = s1\<lparr>ebp := b, esp := e\<rparr>"
  have f: "phys t = phys s" "boot_block t = boot_block s" "inode_addr t = inode_addr s" "run_idx t = run_idx s"
    "phys_addr_available t = (phys_addr_available s)[k := 1]" "\<forall>i<3. stack t i = (if i = run_idx s then ps else stack s i)"
    "stack_junk t = stack_junk s"
    using h by (simp_all add: halted_def t_def run_idx_def)
  have "procs_ok s1" "fs_ready s1" "paging_inv s1" using h assms(2,3) paging_inv_same_tables [of s s1] by (simp_all add: halted_def)
  then have ok: "procs_ok t" "fs_ready t" "paging_inv t"
    by (simp_all add: t_def procs_ok_def stacks_ok_def fs_ready_def paging_inv_def paging_ok_def maps_kernel_def slot_directory_def)
  have same: "found t name" "loadable t name" "program_file t name = program_file s name"
    using name by (simp_all add: found_def lookup_def loadable_def program_file_def program_inode_def entry_of_def f)
  have len: "length (phys_addr_available s) = 6" using assms(1) by (simp add: procs_ok_def)
  have slot: "free_slot t = k"
    unfolding free_slot_def f using k(2,3) len by (intro first_index_eqI) auto
  obtain s' where s': "execute False (arr_get shell_command) t
      = Some (Enter_user (entry_point (take 4 (drop 24 (program_file s name)))) 0x083FFFFC, s')" "procs_ok s'"
    "\<forall>i<3. stack s' i = (if i = run_idx s then stack t i @ [int k] else stack t i)"
    "in_program k VMSTART 3899392 s'" "\<forall>j<length (program_file s name). user_get VMSTART s' j = Some (program_file s name ! j)"
    "exception_flag s' = 0"
    using execute_eq(1) [OF ok assms(4) [folded f(7)] cmd, unfolded n(2) same(3), OF same(1,2) name(4)] slot k(2) unfolding f(4) by auto
  have "\<forall>i<3. stack s' i = stack s i" using s'(3) f(6) k(1) by auto
  moreover have "in_program k VMSTART (length (program_file s name)) s'"
    using s'(4) name(3) by (auto simp: in_program_def loadable_def)
  ultimately show ?thesis using run be s' by (auto simp: t_def)
qed

text \<open>At most six programs exist at a time, each on the stack of one terminal and only once, and \<open>execute\<close> runs
  out of slots exactly when there are six.\<close>

theorem at_most_six_programs:
  assumes "procs_ok s"
  shows "length (stack s 0) + length (stack s 1) + length (stack s 2) \<le> 6
    \<and> (free_slot s < 6 \<longleftrightarrow> length (stack s 0) + length (stack s 1) + length (stack s 2) < 6)"
proof -
  define A where "A = set (stack s 0) \<union> set (stack s 1) \<union> set (stack s 2)"
  have three: "(\<exists>i<3. P i) \<longleftrightarrow> P 0 \<or> P 1 \<or> P (2::nat)" for P
    by (auto simp: numeral_3_eq_3 numeral_2_eq_2 less_Suc_eq)
  have st: "distinct (stack s i)" "set (stack s i) \<subseteq> {0..<6}" if "i < 3" for i
    using assms that by (simp_all add: procs_ok_def stacks_ok_def)
  have apart: "set (stack s i) \<inter> set (stack s j) = {}" if "i < 3" "j < 3" "i \<noteq> j" for i j
    using assms that by (simp add: procs_ok_def stacks_ok_def)
  have sum: "length (stack s 0) + length (stack s 1) + length (stack s 2) = card A"
    using st(1) [of 0] st(1) [of 1] st(1) [of 2] apart [of 0 1] apart [of 0 2] apart [of 1 2]
    by (simp add: A_def card_Un_disjoint Int_Un_distrib2 distinct_card)
  have sub: "A \<subseteq> {0..<6}" using st(2) [of 0] st(2) [of 1] st(2) [of 2] by (auto simp: A_def)
  then have le: "card A \<le> 6" using card_mono [of "{0..<6}" A] by simp
  have av: "phys_addr_available s ! k \<noteq> 0 \<longleftrightarrow> int k \<notin> A" if "k < 6" for k
    using assms that by (simp add: procs_ok_def three A_def)
  have len: "length (phys_addr_available s) = 6" using assms by (simp add: procs_ok_def)
  have "free_slot s < 6 \<longleftrightarrow> (\<exists>k<6. phys_addr_available s ! k \<noteq> 0)"
  proof -
    have "(\<exists>x\<in>set (phys_addr_available s). x \<noteq> 0) \<longleftrightarrow> (\<exists>k<6. phys_addr_available s ! k \<noteq> 0)"
      using len by (metis in_set_conv_nth)
    then show ?thesis using first_index_less [of "\<lambda>v. v \<noteq> 0" "phys_addr_available s"] len by (simp add: free_slot_def)
  qed
  also have "\<dots> \<longleftrightarrow> (\<exists>k<6. int k \<notin> A)" using av by auto
  also have "\<dots> \<longleftrightarrow> A \<noteq> {0..<6}"
  proof
    show "A \<noteq> {0..<6}" if "\<exists>k<6. int k \<notin> A" using that by auto
    assume "A \<noteq> {0..<6}"
    then obtain x where "x \<in> {0..<6}" "x \<notin> A" using sub by blast
    then show "\<exists>k<6. int k \<notin> A" by (intro exI [of _ "nat x"]) auto
  qed
  also have "\<dots> \<longleftrightarrow> card A < 6"
    using sub le card_subset_eq [of "{0..<6}" A] by auto
  finally show ?thesis using sum le by simp
qed

section \<open>Examples\<close>

abbreviation shell_name :: "u8 list" where
  "shell_name \<equiv> [115, 104, 101, 108, 108]"

lemma shell_low:
  assumes "x \<in> footprint 0x10000 0x11000 0 image"
  shows "unat x < 8388608"
proof -
  have low: "unat (0x10000 + of_nat j :: u32) < 8388608" if "j < 0x10000" for j
  proof -
    have "(0x10000 + of_nat j :: u32) = of_nat (0x10000 + j)" by simp
    then show ?thesis using that unat_of_nat_u32 [of "0x10000 + j"] by simp
  qed
  have "(\<exists>j<12. x = 0x10000 + of_nat j) \<or> (\<exists>j<4096. x = 0x11000 + of_nat j) \<or> (\<exists>j<28. x = 0x13000 + of_nat j)"
    using assms by (auto simp: footprint_def inode_block_def file_address_def)
  then show ?thesis
  proof (elim disjE exE conjE)
    show "unat x < 8388608" if "j < 12" "x = 0x10000 + of_nat j" for j using low [of j] that by simp
    show "unat x < 8388608" if "j < 4096" "x = 0x11000 + of_nat j" for j using low [of "0x1000 + j"] that by simp
    show "unat x < 8388608" if "j < 28" "x = 0x13000 + of_nat j" for j using low [of "0x3000 + j"] that by simp
  qed
qed

lemma shell_file: "found machine0 shell_name" "program_inode machine0 shell_name = 0" "loadable machine0 shell_name"
    "take 4 (program_file machine0 shell_name) = elf_magic" "take 4 (drop 24 (program_file machine0 shell_name)) = [0x18, 0x80, 0x04, 0x08]"
    "command_name shell_name = shell_name" "command_arg shell_name = []"
proof -
  show n: "command_name shell_name = shell_name" "command_arg shell_name = []"
    by (simp_all add: command_name_def command_ends_def command_arg_def)
  have l: "lookup machine0 shell_name = 1" by (simp add: lookup_def upt_rec image_names)
  then show "found machine0 shell_name" by (simp add: found_def)
  show p: "program_inode machine0 shell_name = 0"
    by (simp add: program_inode_def entry_of_def l n(1) load32_def dir_entry_def) (simp add: image_def)
  have F: "program_file machine0 shell_name = map (\<lambda>k. image (0x13000 + of_nat (k mod 4096))) [0..<28]"
    unfolding program_file_def p by (simp add: file_contents_def) (simp add: file_address_def)
  show "loadable machine0 shell_name" using image_ok(2) shell_low by (simp add: loadable_def p F)
  show "take 4 (program_file machine0 shell_name) = elf_magic" "take 4 (drop 24 (program_file machine0 shell_name)) = [0x18, 0x80, 0x04, 0x08]"
    by (simp_all add: F elf_magic_def upt_rec) (simp_all add: image_def)
qed

lemma shell_start: "procs_ok machine0" "fs_ready machine0" "paging_inv machine0" "length (stack_junk machine0) = 4"
    "command_ok (arr_get (shell_name @ [0])) shell_name" "free_slot machine0 = 3"
  using machine0_procs machine0_paging(2) is_cstr_append_arr [of shell_name "[]"] shell_file(6,7)
  by (simp_all add: command_ok_def free_slot_def)

lemma shell_found: "found machine0 (command_name shell_name)"
  unfolding shell_file(6) by (rule shell_file(1))

lemma shell_entry: "entry_point [0x18, 0x80, 0x04, 0x08] = 0x08048018"
  by (simp add: entry_point_def push_bit_eq_mult)

theorem execute_enters_program_witness:
  "\<exists>s'. execute False (arr_get (shell_name @ [0])) machine0 = Some (Enter_user 0x08048018 0x083FFFFC, s')
    \<and> stack s' 0 = [0, 3] \<and> user_get VMSTART s' 1 = Some 0x45"
proof -
  obtain s' p where s': "execute False (arr_get (shell_name @ [0])) machine0
      = Some (Enter_user (entry_point (take 4 (drop 24 (program_file machine0 shell_name)))) 0x083FFFFC, s')"
    "\<forall>i<3. stack s' i = (if i = run_idx machine0 then stack machine0 i @ [int 3] else stack machine0 i)"
    "\<forall>j<length (program_file machine0 shell_name). user_get VMSTART s' j = Some (program_file machine0 shell_name ! j)"
    using execute_enters_program [OF shell_start(1-5) shell_found shell_file(3,4) shell_start(6) [symmetric]] by auto
  have "length (program_file machine0 shell_name) \<ge> 28" using shell_file(3) by (simp add: loadable_def)
  moreover have "program_file machine0 shell_name ! 1 = take 4 (program_file machine0 shell_name) ! 1" by simp
  ultimately show ?thesis
    using s' shell_file(4,5) shell_entry machine0_stack(1) [of 0] machine0_stack(2)
    by (auto simp: elf_magic_def simp del: machine0_simps)
qed

theorem execute_rejects_witness:
  "\<exists>s'. execute False (arr_get ([120] @ [0])) machine0 = Some (Return (-1), s') \<and> procs_ok s' \<and> pcbs s' = pcbs machine0"
proof -
  have n: "command_name [120] = [120]" "command_arg [120] = []" by (simp_all add: command_name_def command_ends_def command_arg_def)
  then have cmd: "command_ok (arr_get ([120] @ [0])) [120]" using is_cstr_append_arr [of "[120]" "[]"] by (simp add: command_ok_def)
  have "\<not> found machine0 (command_name [120])"
    by (simp add: n found_def lookup_def upt_rec image_names numeral_2_eq_2 [symmetric])
  then show ?thesis using execute_rejects [OF shell_start(1-4) cmd] by blast
qed

theorem halt_undoes_execute_witness:
  "\<exists>c s1 s3. execute False (arr_get (shell_name @ [0])) machine0 = Some (c, s1)
    \<and> halt 7 s1 = Some (Resume 7 (ebp machine0), s3) \<and> cr3 s3 = cr3 machine0 \<and> stack s3 0 = [0]"
proof -
  obtain s1 where s1: "execute False (arr_get (shell_name @ [0])) machine0 = Some (Enter_user (entry_point (take 4 (drop 24 (program_file machine0 shell_name)))) 0x083FFFFC, s1)"
    "procs_ok s1" "run_idx s1 = run_idx machine0" "exception_flag s1 = 0"
    using execute_eq(1) [OF shell_start(1-5) shell_found shell_file(3,4)] shell_start(6) by auto
  have "\<exists>s3. halt 7 s1 = Some (Resume (if exception_flag s1 = 1 then 256 else ucast (7 :: u8) + word_of_int (exception_flag s1)) (ebp machine0), s3)
    \<and> procs_ok s3 \<and> esp s3 = esp machine0 \<and> ebp s3 = ebp machine0 \<and> cr3 s3 = cr3 machine0 \<and> tss_ss0 s3 = tss_ss0 machine0
    \<and> tss_esp0 s3 = tss_esp0 machine0
    \<and> (\<forall>i<3. stack s3 i = stack machine0 i) \<and> (\<forall>j<6. phys_addr_available s3 ! j = 0 \<longleftrightarrow> phys_addr_available machine0 ! j = 0)
    \<and> file_descriptor_tabele (pcbs s3 ! 3) = replicate 8 closed_descriptor"
    by (rule halt_undoes_execute [OF shell_start(1-5) shell_found shell_file(3,4) shell_start(6) [symmetric] _ _ s1(1,2,3)]) simp_all
  then show ?thesis using s1 machine0_stack(1) [of 0] by (auto simp del: machine0_simps)
qed

theorem halt_restarts_shell_witness:
  "\<exists>s'. halt 7 machine0 = Some (Enter_user 0x08048018 0x083FFFFC, s') \<and> stack s' 0 = [0]"
proof -
  have "stack machine0 (run_idx machine0) = [] @ [int 0]" by (simp add: machine0_stack del: machine0_simps)
  then obtain s' where "halt 7 machine0 = Some (Enter_user 0x08048018 0x083FFFFC, s')" "\<forall>i<3. stack s' i = stack machine0 i"
    using halt_restarts_shell [OF shell_start(1-4) _ _ _ refl shell_file(1,3,4), where k = 0 and ps = "[]" and status = 7]
      shell_file(5) shell_entry by auto
  then show ?thesis using machine0_stack(1) [of 0] by (intro exI [of _ s']) (simp del: machine0_simps)
qed

theorem at_most_six_programs_witness:
  "length (stack machine0 0) + length (stack machine0 1) + length (stack machine0 2) \<le> 6"
  using at_most_six_programs [OF shell_start(1)] by blast

end
