(* ===== verification/Scheduler.thy ===== *)
theory Scheduler
  imports Execute
begin

text \<open>
  \<open>pit.c\<close>: the timer and the scheduler in its interrupt handler. At boot the handler starts one shell per
  terminal, one at each tick; afterwards it switches between the programs on top of the three
  terminals in turn. The theorems show that boot sequence, and that a program is resumed with the
  context it was interrupted in.
\<close>

section \<open>State and operations\<close>

record scheduler = process +
  order :: "int list"
  flag :: int
  init_flag :: int

text \<open>How the handler ends: in the user code of a new shell, or with \<open>leave; iret\<close> from the frame at \<open>ebp\<close>.\<close>

datatype tick = Entered u32 u32 | Iret u32

definition reload_val :: u32 where
  "reload_val = 1193182 div 20"

definition PIT_init :: "'z scheduler_scheme \<Rightarrow> 'z scheduler_scheme option" where
  "PIT_init s =
     do { let s = enable_irq 0 s;
          let s = cli s;
          os \<leftarrow> aset (order s) 0 0;
          os \<leftarrow> aset os 1 1;
          os \<leftarrow> aset os 2 2;
          let s = s\<lparr>order := os, curr_running_terminal_idx := 0\<rparr>;
          let s = outb 0x34 0x43 s;
          let s = outb (ucast (reload_val AND 0xFF)) 0x40 s;
          let s = outb (ucast (drop_bit 8 reload_val)) 0x40 s;
          Some (sti s) }"

text \<open>The call \<open>execute("shell")\<close>, from the handler's own frame: \<open>None\<close> if it returns.\<close>

definition start_shell :: "'z scheduler_scheme \<Rightarrow> ((u32 \<times> u32) option \<times> 'z scheduler_scheme) option" where
  "start_shell s =
     do { let (b, e) = execute_frame s (esp s);
          (c, t) \<leftarrow> execute False (arr_get shell_command) (s\<lparr>ebp := b, esp := e\<rparr>);
          case c of Enter_user a b \<Rightarrow> Some (Some (a, b), t)
          | _ \<Rightarrow> Some (None, t\<lparr>ebp := ebp s, esp := esp s\<rparr>) }"

definition save_context :: "int \<Rightarrow> 'z process_scheme \<Rightarrow> 'z process_scheme option" where
  "save_context k s = upd_pcb k (\<lambda>p. Some (p\<lparr>curr_esp := esp s, curr_ebp := ebp s, curr_PDBR := cr3 s,
     curr_esp0 := tss_esp0 s\<rparr>)) s"

text \<open>The branch taken until three shells run: the next terminal gets its shell, and after the third the
  first terminal's process continues.\<close>

definition next_shell :: "'z scheduler_scheme \<Rightarrow> (tick \<times> 'z scheduler_scheme) option" where
  "next_shell s =
     do { let s = (if curr_running_terminal_idx s = 2 then s\<lparr>flag := 1, init_flag := 1\<rparr> else s);
          t \<leftarrow> running_terminal s;
          phys_address \<leftarrow> aget (phys_mem_idx t) 0;
          s \<leftarrow> save_context phys_address s;
          let s = s\<lparr>curr_running_terminal_idx := curr_running_terminal_idx s + 1\<rparr>;
          if curr_running_terminal_idx s < 3 then
            do { let s = send_eoi 0 s;
                 let s = sti s;
                 (entered, s) \<leftarrow> start_shell s;
                 Some (case entered of Some (a, b) \<Rightarrow> Entered a b | None \<Rightarrow> Iret (ebp s), s) }
          else
            do { let s = s\<lparr>curr_running_terminal_idx := 0\<rparr>;
                 p \<leftarrow> aget (pcbs s) 0;
                 let s = s\<lparr>tss_esp0 := curr_esp0 p\<rparr>;
                 let s = s\<lparr>cr3 := curr_PDBR p\<rparr>;
                 let s = s\<lparr>esp := curr_esp p, ebp := curr_ebp p\<rparr>;
                 let s = send_eoi 0 s;
                 let s = sti s;
                 Some (Iret (ebp s), s) } }"

text \<open>The other branch: from the running program to the one on top of the next terminal.\<close>

definition switch_process :: "'z scheduler_scheme \<Rightarrow> (tick \<times> 'z scheduler_scheme) option" where
  "switch_process s =
     do { shown \<leftarrow> (if curr_running_terminal_idx s = curr_terminal_idx s
                    then do { t \<leftarrow> curr_terminal s; Some (if vid_on t = 1 then Some (video_mem t) else None) }
                    else Some None);
          let s = (case shown of Some vm \<Rightarrow> s\<lparr>phys := memcpy VIDEO vm 4096 (phys s)\<rparr> | None \<Rightarrow> s);
          phys_address \<leftarrow> running_process s;
          s \<leftarrow> save_context phys_address s;
          let s = s\<lparr>curr_running_terminal_idx := (curr_running_terminal_idx s + 1) mod 3\<rparr>;
          phys_address \<leftarrow> running_process s;
          p \<leftarrow> aget (pcbs s) phys_address;
          let s = s\<lparr>tss_esp0 := curr_esp0 p\<rparr>;
          let s = s\<lparr>cr3 := curr_PDBR p\<rparr>;
          let s = send_eoi 0 s;
          let s = s\<lparr>esp := curr_esp p, ebp := curr_ebp p\<rparr>;
          let s = sti s;
          Some (Iret (ebp s), s) }"

text \<open>\<open>for (i = 1; i < 6; i++) if (phys_mem_idx[i] != -1) break;\<close>\<close>

definition active_program :: "terminal_t \<Rightarrow> nat" where
  "active_program t = Suc (first_index (\<lambda>x. x \<noteq> -1) (take 5 (drop 1 (phys_mem_idx t))))"

definition PIT_interrupt_handler :: "'z scheduler_scheme \<Rightarrow> (tick \<times> 'z scheduler_scheme) option" where
  "PIT_interrupt_handler s =
     do { let s = cli s;
          let s = (if init_flag s \<noteq> 0 then s\<lparr>init_flag := 0\<rparr> else s);
          (entered, s) \<leftarrow>
            (if flag_first_execute s \<noteq> 0 then
               do { let s = s\<lparr>flag_first_execute := 0\<rparr>;
                    s \<leftarrow> clear s;
                    let s = send_eoi 0 s;
                    start_shell s }
             else Some (None, s));
          case entered of
            Some (a, b) \<Rightarrow> Some (Entered a b, s)
          | None \<Rightarrow>
              do { t \<leftarrow> running_terminal s;
                   if active_program t = 6 \<and> flag s = 0 then next_shell s else switch_process s } }"

section \<open>Contexts\<close>

text \<open>What the scheduler saves in a PCB and what it loads: stack and frame pointer, page directory, kernel stack.\<close>

definition cpu :: "'z process_scheme \<Rightarrow> u32 \<times> u32 \<times> u32 \<times> u32" where
  "cpu s = (esp s, ebp s, cr3 s, tss_esp0 s)"

definition context_of :: "PCB_t \<Rightarrow> u32 \<times> u32 \<times> u32 \<times> u32" where
  "context_of p = (curr_esp p, curr_ebp p, curr_PDBR p, curr_esp0 p)"

definition with_context :: "PCB_t \<Rightarrow> 'z process_scheme \<Rightarrow> PCB_t" where
  "with_context p s = p\<lparr>curr_esp := esp s, curr_ebp := ebp s, curr_PDBR := cr3 s, curr_esp0 := tss_esp0 s\<rparr>"

lemma context_of_with_context [simp]: "context_of (with_context p s) = cpu s"
  by (simp add: context_of_def with_context_def cpu_def)

lemma pcb_ok_with_context [simp]: "pcb_ok (with_context p s) = pcb_ok p"
  by (simp add: pcb_ok_def with_context_def)

lemma save_context_eq: "k < length (pcbs s) \<Longrightarrow> save_context (int k) s = Some (s\<lparr>pcbs := (pcbs s)[k := with_context (pcbs s ! k) s]\<rparr>)"
  by (simp add: save_context_def upd_pcb_at with_context_def)

text \<open>The slot of the program on top of terminal \<open>i\<close>.\<close>

definition top_of :: "'z console_scheme \<Rightarrow> nat \<Rightarrow> nat" where
  "top_of s i = nat (last (stack s i))"

lemma top_slot:
  assumes "procs_ok s" "i < 3" "stack s i \<noteq> []"
  shows "top_of s i < 6" "top_process (terminals s ! i) = Some (int (top_of s i))" "int (top_of s i) \<in> set (stack s i)"
proof -
  have st: "stacks_ok s" using assms(1) by (simp add: procs_ok_def)
  note l = last_stack_range [OF st assms(2,3)]
  show "top_of s i < 6" using l by (simp add: top_of_def)
  show "int (top_of s i) \<in> set (stack s i)" using l(1) last_in_set [OF assms(3)] by (simp add: top_of_def)
  show "top_process (terminals s ! i) = Some (int (top_of s i))"
    using top_process_eq [of "terminals s ! i"] st assms(2,3) l(1) by (simp add: top_of_def stacks_ok_def)
qed

lemma top_distinct:
  assumes "procs_ok s" "i < 3" "j < 3" "i \<noteq> j" "stack s i \<noteq> []" "stack s j \<noteq> []"
  shows "top_of s i \<noteq> top_of s j"
proof -
  have "set (stack s i) \<inter> set (stack s j) = {}" using assms(1-4) by (simp add: procs_ok_def stacks_ok_def)
  then show ?thesis using top_slot(3) [OF assms(1,2,5)] top_slot(3) [OF assms(1,3,6)] by auto
qed

section \<open>The handler, branch by branch\<close>

lemma send_eoi_more: "sound.more (send_eoi n s) = sound.more s"
  by (simp add: send_eoi_def Let_def cli_def sti_def io_defs)

lemma scheduler_frame:
  assumes "sound.more t = sound.more (s :: 'z scheduler_scheme)"
  shows "terminals t = terminals s" "phys t = phys s" "curr_terminal_idx t = curr_terminal_idx s"
    "curr_running_terminal_idx t = curr_running_terminal_idx s" "console.more t = console.more s"
    "phys_addr_available t = phys_addr_available s" "flag_first_execute t = flag_first_execute s" "pcbs t = pcbs s"
    "tss_esp0 t = tss_esp0 s" "cr3 t = cr3 s" "esp t = esp s" "ebp t = ebp s" "flag t = flag s" "init_flag t = init_flag s"
  using assms by (cases t, cases s, simp)+

lemma send_eoi_0: "history (send_eoi 0 s) = history s @ [Out8 0x20 0x60]" "intr_flag (send_eoi 0 s)"
  using send_eoi_history(1) [of 0 s] by (simp_all add: send_eoi_frame)

lemma switch_process_eq:
  assumes ok: "procs_ok s" and ne: "stack s (run_idx s) \<noteq> []" "stack s (Suc (run_idx s) mod 3) \<noteq> []"
    and n: "n = Suc (run_idx s) mod 3" and k: "k = top_of s (run_idx s)" and q: "q = pcbs s ! top_of s n"
  shows "\<exists>s'. switch_process s = Some (Iret (curr_ebp q), s')
    \<and> cpu s' = context_of q \<and> pcbs s' = (pcbs s)[k := with_context (pcbs s ! k) s]
    \<and> terminals s' = terminals s \<and> run_idx s' = n \<and> curr_running_terminal_idx s' = int n
    \<and> curr_terminal_idx s' = curr_terminal_idx s
    \<and> procs_ok s' \<and> intr_flag s' \<and> history s' = history s @ [Out8 0x20 0x60]
    \<and> phys s' = (if curr_running_terminal_idx s = curr_terminal_idx s \<and> vid_on (terminals s ! run_idx s) = 1
        then memcpy VIDEO (video_mem (terminals s ! run_idx s)) 4096 (phys s) else phys s)
    \<and> flag s' = flag s \<and> init_flag s' = init_flag s \<and> flag_first_execute s' = flag_first_execute s"
proof -
  have st: "stacks_ok s" and len: "length (pcbs s) = 6" "length (terminals s) = 3" using ok by (simp_all add: procs_ok_def stacks_ok_def)
  note r = running_process_eq [OF st]
  have idx: "curr_running_terminal_idx s = int (run_idx s)" "curr_terminal_idx s \<in> {0, 1, 2}" using st by (auto simp: stacks_ok_def run_idx_def)
  have n3: "n < 3" by (simp add: n)
  have nr: "n \<noteq> run_idx s"
  proof -
    have "run_idx s = 0 \<or> run_idx s = 1 \<or> run_idx s = 2" using r(1) by auto
    then show ?thesis by (auto simp: n)
  qed
  note a = top_slot [OF ok r(1) ne(1), folded k] and b = top_slot [OF ok n3 ne(2) [folded n]]
  have kk: "top_of s n \<noteq> k" unfolding k by (rule top_distinct [OF ok n3 r(1) nr ne(2) [folded n] ne(1)])
  define vm where "vm = (if curr_running_terminal_idx s = curr_terminal_idx s \<and> vid_on (terminals s ! run_idx s) = 1
      then memcpy VIDEO (video_mem (terminals s ! run_idx s)) 4096 (phys s) else phys s)"
  obtain shown where shown: "(if curr_running_terminal_idx s = curr_terminal_idx s
      then do { t \<leftarrow> curr_terminal s; Some (if vid_on t = 1 then Some (video_mem t) else None) } else Some None) = Some shown"
    "(case shown of Some vm \<Rightarrow> s\<lparr>phys := memcpy VIDEO vm 4096 (phys s)\<rparr> | None \<Rightarrow> s) = s\<lparr>phys := vm\<rparr>"
    using r(2) by (cases "curr_running_terminal_idx s = curr_terminal_idx s") (auto simp: vm_def)
  define s1 where "s1 = s\<lparr>phys := vm, pcbs := (pcbs s)[k := with_context (pcbs s ! k) s], curr_running_terminal_idx := int n\<rparr>"
  have run1: "running_process (s\<lparr>phys := vm\<rparr>) = Some (int k)" using r(2) a(2) by (simp add: running_process_def)
  have save: "save_context (int k) (s\<lparr>phys := vm\<rparr>) = Some (s\<lparr>phys := vm, pcbs := (pcbs s)[k := with_context (pcbs s ! k) s]\<rparr>)"
    using a(1) len by (subst save_context_eq) (simp_all add: with_context_def)
  have next': "(curr_running_terminal_idx s + 1) mod 3 = int n" by (simp add: n idx(1) zmod_int add.commute)
  have run2: "running_process s1 = Some (int (top_of s n))" using b(2) n3 len by (simp add: running_process_def s1_def aget_in)
  have q': "aget (pcbs s1) (int (top_of s n)) = Some q" using b(1) kk len by (simp add: s1_def aget_in q)
  define s2 where "s2 = send_eoi 0 (s1\<lparr>tss_esp0 := curr_esp0 q, cr3 := curr_PDBR q\<rparr>)"
  define s' where "s' = sti (s2\<lparr>esp := curr_esp q, ebp := curr_ebp q\<rparr>)"
  have run: "switch_process s = Some (Iret (curr_ebp q), s')"
    unfolding switch_process_def shown Option.bind.bind_lunit Let_def run1 save
    using next' run2 q' by (simp add: s1_def [symmetric] s2_def [symmetric] s'_def sti_def)
  have f2: "sound.more s2 = sound.more (s1\<lparr>tss_esp0 := curr_esp0 q, cr3 := curr_PDBR q\<rparr>)" by (simp add: s2_def send_eoi_more)
  note f = scheduler_frame [OF f2]
  have s': "cpu s' = context_of q" "pcbs s' = (pcbs s)[k := with_context (pcbs s ! k) s]" "terminals s' = terminals s"
    "curr_running_terminal_idx s' = int n" "curr_terminal_idx s' = curr_terminal_idx s" "phys s' = vm" "flag s' = flag s"
    "init_flag s' = init_flag s" "flag_first_execute s' = flag_first_execute s" "phys_addr_available s' = phys_addr_available s" "intr_flag s'"
    "history s' = history s @ [Out8 0x20 0x60]"
    using f send_eoi_0 [of "s1\<lparr>tss_esp0 := curr_esp0 q, cr3 := curr_PDBR q\<rparr>"]
    by (simp_all add: s'_def sti_def cpu_def context_of_def) (simp_all add: s1_def s2_def)
  have "pcb_ok (with_context (pcbs s ! k) s)" using ok a(1) by (simp add: procs_ok_def)
  then have ok2: "procs_ok (s\<lparr>pcbs := (pcbs s)[k := with_context (pcbs s ! k) s]\<rparr>)" by (intro procs_ok_pcbs [OF ok]) simp_all
  have "int n \<in> {0, 1, 2}" using n3 by auto
  then have "procs_ok s'"
    using idx(2) len by (intro procs_ok_stacks [OF ok2]) (simp_all add: s' del: insert_iff)
  then show ?thesis using run s' by (intro exI [of _ s']) (simp add: run_idx_def vm_def)
qed

text \<open>The steady state: every terminal has a program, and the shells have been started or the terminal's
  program is not its shell.\<close>

definition steady :: "'z scheduler_scheme \<Rightarrow> bool" where
  "steady s \<longleftrightarrow> procs_ok s \<and> (\<forall>i<3. stack s i \<noteq> []) \<and> flag s \<noteq> 0 \<and> flag_first_execute s = 0"

lemma handler_branches:
  assumes "flag_first_execute s = 0" "procs_ok s"
  shows "PIT_interrupt_handler s = (if active_program (terminals s ! run_idx s) = 6 \<and> flag s = 0
    then next_shell ((cli s)\<lparr>init_flag := 0\<rparr>) else switch_process ((cli s)\<lparr>init_flag := 0\<rparr>))"
proof -
  define c where "c = (cli s)\<lparr>init_flag := 0\<rparr>"
  have e: "(if init_flag (cli s) \<noteq> 0 then (cli s)\<lparr>init_flag := 0\<rparr> else cli s) = c" by (simp add: c_def)
  have f: "flag_first_execute c = 0" "flag c = flag s" using assms by (simp_all add: c_def cli_def)
  have "running_terminal c = Some (terminals s ! run_idx s)"
    using running_process_eq(2) [of s] assms(2) by (simp add: procs_ok_def c_def cli_def)
  then show ?thesis unfolding PIT_interrupt_handler_def Let_def e unfolding c_def [symmetric] by (simp add: f)
qed

lemma handler_switch:
  assumes "steady s" and n: "n = Suc (run_idx s) mod 3" and k: "k = top_of s (run_idx s)" and q: "q = pcbs s ! top_of s n"
  shows "\<exists>s'. PIT_interrupt_handler s = Some (Iret (curr_ebp q), s')
    \<and> cpu s' = context_of q \<and> pcbs s' = (pcbs s)[k := with_context (pcbs s ! k) s]
    \<and> terminals s' = terminals s \<and> run_idx s' = n \<and> steady s' \<and> intr_flag s' \<and> history s' = history s @ [Out8 0x20 0x60]
    \<and> phys s' = (if curr_running_terminal_idx s = curr_terminal_idx s \<and> vid_on (terminals s ! run_idx s) = 1
        then memcpy VIDEO (video_mem (terminals s ! run_idx s)) 4096 (phys s) else phys s)"
proof -
  define c where "c = (cli s)\<lparr>init_flag := 0\<rparr>"
  have ok: "procs_ok s" "run_idx s < 3" using assms(1) running_process_eq(1) [of s] by (simp_all add: steady_def procs_ok_def)
  have n3: "n < 3" by (simp add: n)
  have c: "run_idx c = run_idx s" "terminals c = terminals s" "pcbs c = pcbs s" "curr_terminal_idx c = curr_terminal_idx s"
    "curr_running_terminal_idx c = curr_running_terminal_idx s" "phys c = phys s" "history c = history s" "flag c = flag s"
    "flag_first_execute c = flag_first_execute s" "top_of c = top_of s" "with_context p c = with_context p s" for p
    by (simp_all add: c_def cli_def run_idx_def top_of_def fun_eq_iff with_context_def)
  have okc: "procs_ok c" using ok(1) by (simp add: c_def cli_def procs_ok_def stacks_ok_def)
  have h: "PIT_interrupt_handler s = switch_process c"
    using handler_branches [of s] assms(1) by (simp add: steady_def c_def)
  show ?thesis
    using switch_process_eq [OF okc, of n k q] assms(1) ok n3 n k q unfolding h c by (auto simp: steady_def)
qed

section \<open>Round robin\<close>

text \<open>What may happen between two ticks: the running program and the kernel on its behalf. They may start and
  end programs on its own terminal; the other terminals' programs are not running, so their stacks
  and saved contexts stay.\<close>

definition ran :: "'z scheduler_scheme \<Rightarrow> 'z scheduler_scheme \<Rightarrow> bool" where
  "ran s s' \<longleftrightarrow> steady s' \<and> run_idx s' = run_idx s
     \<and> (\<forall>i<3. i \<noteq> run_idx s \<longrightarrow> stack s' i = stack s i \<and> context_of (pcbs s' ! top_of s i) = context_of (pcbs s ! top_of s i))"

text \<open>After a tick the interrupted program waits: its stack is untouched and its PCB holds its registers.\<close>

definition waits :: "nat \<Rightarrow> int list \<Rightarrow> u32 \<times> u32 \<times> u32 \<times> u32 \<Rightarrow> 'z scheduler_scheme \<Rightarrow> bool" where
  "waits i xs c s \<longleftrightarrow> steady s \<and> i < 3 \<and> i \<noteq> run_idx s \<and> stack s i = xs \<and> context_of (pcbs s ! top_of s i) = c"

lemma waits_ran: "waits i xs c s \<Longrightarrow> ran s s' \<Longrightarrow> waits i xs c s'"
  by (auto simp: waits_def ran_def top_of_def)

lemma waits_tick:
  assumes "waits i xs c s" "i \<noteq> Suc (run_idx s) mod 3"
  shows "\<exists>t s'. PIT_interrupt_handler s = Some (t, s') \<and> run_idx s' = Suc (run_idx s) mod 3 \<and> waits i xs c s'"
proof -
  have st: "steady s" using assms(1) by (simp add: waits_def)
  obtain s' t where s': "PIT_interrupt_handler s = Some (t, s')" "run_idx s' = Suc (run_idx s) mod 3" "terminals s' = terminals s"
    "pcbs s' = (pcbs s)[top_of s (run_idx s) := with_context (pcbs s ! top_of s (run_idx s)) s]" "steady s'"
    using handler_switch [OF st refl refl refl] by blast
  have p: "procs_ok s" "i < 3" "i \<noteq> run_idx s" "stack s i \<noteq> []" "stack s (run_idx s) \<noteq> []" "run_idx s < 3"
    using assms(1) running_process_eq(1) [of s] by (auto simp: waits_def steady_def procs_ok_def)
  have "top_of s i \<noteq> top_of s (run_idx s)" by (rule top_distinct [OF p(1,2,6,3,4,5)])
  then show ?thesis using s' assms by (auto simp: waits_def top_of_def)
qed

lemma tick_saves:
  assumes "steady s"
  shows "\<exists>t s'. PIT_interrupt_handler s = Some (t, s') \<and> run_idx s' = Suc (run_idx s) mod 3
    \<and> waits (run_idx s) (stack s (run_idx s)) (cpu s) s'"
proof -
  obtain s' t where s': "PIT_interrupt_handler s = Some (t, s')" "run_idx s' = Suc (run_idx s) mod 3" "terminals s' = terminals s"
    "pcbs s' = (pcbs s)[top_of s (run_idx s) := with_context (pcbs s ! top_of s (run_idx s)) s]" "steady s'"
    using handler_switch [OF assms refl refl refl] by blast
  have p: "procs_ok s" "stack s (run_idx s) \<noteq> []" "run_idx s < 3" "length (pcbs s) = 6"
    using assms running_process_eq(1) [of s] by (simp_all add: steady_def procs_ok_def)
  have "run_idx s \<noteq> Suc (run_idx s) mod 3"
  proof -
    have "run_idx s = 0 \<or> run_idx s = 1 \<or> run_idx s = 2" using p(3) by auto
    then show ?thesis by auto
  qed
  moreover have "top_of s (run_idx s) < 6" by (rule top_slot(1) [OF p(1,3,2)])
  ultimately show ?thesis using s' p by (auto simp: waits_def top_of_def)
qed

lemma tick_resumes:
  assumes "waits i xs c s" "i = Suc (run_idx s) mod 3"
  shows "\<exists>s'. PIT_interrupt_handler s = Some (Iret (fst (snd c)), s') \<and> cpu s' = c \<and> run_idx s' = i \<and> stack s' i = xs \<and> steady s'"
proof -
  have st: "steady s" using assms(1) by (simp add: waits_def)
  have c: "context_of (pcbs s ! top_of s i) = c" using assms(1) by (simp add: waits_def)
  then have "curr_ebp (pcbs s ! top_of s i) = fst (snd c)" by (auto simp: context_of_def)
  then show ?thesis
    using handler_switch [OF st assms(2) refl refl] assms(1) c by (auto simp: waits_def)
qed

text \<open>C3. The scheduler is fair and transparent: a program that is interrupted is resumed at the third tick, from
  the frame and with the stack pointer, page directory and kernel stack it was interrupted with, and
  on top of the same stack of programs, whatever the programs of the other two terminals do when it
  is their turn.\<close>

theorem resumed_at_third_tick:
  assumes "steady s"
  shows "\<exists>t s1. PIT_interrupt_handler s = Some (t, s1) \<and> ran s1 s1 \<and>
    (\<forall>s1'. ran s1 s1' \<longrightarrow> (\<exists>t s2. PIT_interrupt_handler s1' = Some (t, s2) \<and> ran s2 s2 \<and>
      (\<forall>s2'. ran s2 s2' \<longrightarrow> (\<exists>s3. PIT_interrupt_handler s2' = Some (Iret (ebp s), s3) \<and> cpu s3 = cpu s
        \<and> run_idx s3 = run_idx s \<and> stack s3 (run_idx s) = stack s (run_idx s) \<and> steady s3))))"
proof -
  let ?r = "run_idx s"
  have r: "?r = 0 \<or> ?r = 1 \<or> ?r = 2" using assms running_process_eq(1) [of s] by (auto simp: steady_def procs_ok_def)
  obtain t s1 where s1: "PIT_interrupt_handler s = Some (t, s1)" "run_idx s1 = Suc ?r mod 3" "waits ?r (stack s ?r) (cpu s) s1"
    using tick_saves [OF assms] by blast
  have "\<exists>t s2. PIT_interrupt_handler s1' = Some (t, s2) \<and> ran s2 s2 \<and>
      (\<forall>s2'. ran s2 s2' \<longrightarrow> (\<exists>s3. PIT_interrupt_handler s2' = Some (Iret (ebp s), s3) \<and> cpu s3 = cpu s
        \<and> run_idx s3 = ?r \<and> stack s3 ?r = stack s ?r \<and> steady s3))" if "ran s1 s1'" for s1'
  proof -
    have w1: "waits ?r (stack s ?r) (cpu s) s1'" "run_idx s1' = Suc ?r mod 3"
      using waits_ran [OF s1(3) that] that s1(2) by (simp_all add: ran_def)
    have "?r \<noteq> Suc (run_idx s1') mod 3" using r w1(2) by auto
    from waits_tick [OF w1(1) this] obtain t s2 where s2: "PIT_interrupt_handler s1' = Some (t, s2)"
      "run_idx s2 = Suc (run_idx s1') mod 3" "waits ?r (stack s ?r) (cpu s) s2" by blast
    have "\<exists>s3. PIT_interrupt_handler s2' = Some (Iret (ebp s), s3) \<and> cpu s3 = cpu s
        \<and> run_idx s3 = ?r \<and> stack s3 ?r = stack s ?r \<and> steady s3" if "ran s2 s2'" for s2'
    proof -
      have w2: "waits ?r (stack s ?r) (cpu s) s2'" "run_idx s2' = run_idx s2"
        using waits_ran [OF s2(3) that] that by (simp_all add: ran_def)
      have "?r = Suc (run_idx s2') mod 3" using r s2(2) w1(2) w2(2) by auto
      from tick_resumes [OF w2(1) this] show ?thesis by (simp add: cpu_def)
    qed
    moreover have "ran s2 s2" using s2(3) by (simp add: waits_def ran_def)
    ultimately show ?thesis using s2(1) by blast
  qed
  moreover have "ran s1 s1" using s1(3) by (simp add: waits_def ran_def)
  ultimately show ?thesis using s1(1) by blast
qed

section \<open>The three shells\<close>

text \<open>The disk has a shell that can be loaded; the image lies in the kernel's memory, off the screen.\<close>

definition shell_bytes :: "'z file_system_scheme \<Rightarrow> u32 set" where
  "shell_bytes s = boot_region (boot_block s)
     \<union> footprint (boot_block s) (inode_addr s) (program_inode s shell_name) (phys s)"

definition shell_ready :: "'z process_scheme \<Rightarrow> bool" where
  "shell_ready s \<longleftrightarrow> fs_ready s \<and> paging_inv s \<and> length (stack_junk s) = 4 \<and> found s shell_name \<and> loadable s shell_name
     \<and> take 4 (program_file s shell_name) = elf_magic \<and> (\<forall>x\<in>boot_region (boot_block s). unat x < 8388608)"

definition shell_entry_point :: "'z file_system_scheme \<Rightarrow> u32" where
  "shell_entry_point s = entry_point (take 4 (drop 24 (program_file s shell_name)))"

lemma first_index_cong: "(\<And>x. x \<in> set xs \<Longrightarrow> p x = q x) \<Longrightarrow> first_index p xs = first_index q xs"
  by (induction xs) auto

lemma footprint_same:
  assumes "inode_ok bb ia ino m" "\<And>x. x \<in> footprint bb ia ino m \<Longrightarrow> m' x = m x"
  shows "footprint bb ia ino m' = footprint bb ia ino m"
proof -
  note f = footprint_agree [where m = m and m' = m' and bb = bb and ia = ia and ino = ino, OF assms(2), simplified]
  have "file_address bb ia ino m' j = file_address bb ia ino m j" if "j < unat (inode_length ia ino m)" for j
  proof -
    have "j div 4096 < 1023" using that assms(1) by (auto simp: inode_ok_def)
    then show ?thesis by (simp add: file_address_def f)
  qed
  then have "file_address bb ia ino m' ` {..<unat (inode_length ia ino m)} = file_address bb ia ino m ` {..<unat (inode_length ia ino m)}"
    by (intro image_cong) auto
  then show ?thesis by (simp add: footprint_def f)
qed

lemma shell_ready_agree:
  assumes ready: "shell_ready s" and same: "boot_block t = boot_block s" "inode_addr t = inode_addr s"
      "curr_dir_dentry t = curr_dir_dentry s" "curr_file_dentry t = curr_file_dentry s" "stack_junk t = stack_junk s" "paging_inv t"
    and mem: "\<And>x. x \<in> shell_bytes s \<Longrightarrow> phys t x = phys s x"
  shows "shell_ready t" "program_file t shell_name = program_file s shell_name" "program_inode t shell_name = program_inode s shell_name"
proof -
  have m: "\<And>x. x \<in> boot_region (boot_block s) \<Longrightarrow> phys t x = phys s x" using mem by (simp add: shell_bytes_def)
  note b = boot_region_agree [where bb = "boot_block s" and m' = "phys t" and m = "phys s", OF m, simplified]
  have dir: "unat (dir_num (boot_block s) (phys s)) \<le> 63" "directory_ok (boot_block s) (phys s)"
    using ready by (simp_all add: shell_ready_def fs_ready_def directory_ok_def)
  have look: "lookup t shell_name = lookup s shell_name"
  proof -
    have "first_index (\<lambda>j. entry_name (boot_block s) (phys t) j = take 32 shell_name) [0..<unat (dir_num (boot_block s) (phys s))]
      = first_index (\<lambda>j. entry_name (boot_block s) (phys s) j = take 32 shell_name) [0..<unat (dir_num (boot_block s) (phys s))]"
      using b(3) dir(1) by (intro first_index_cong) simp
    then show ?thesis by (simp add: lookup_def same b(1))
  qed
  have f: "found t shell_name" and l63: "lookup s shell_name < 63"
    using ready dir(1) by (simp_all add: shell_ready_def found_def look same b(1))
  show ino: "program_inode t shell_name = program_inode s shell_name"
    using b(4) [OF l63] by (simp add: program_inode_def entry_of_def shell_file(6) look same)
  have foot: "phys t x = phys s x" if "x \<in> footprint (boot_block s) (inode_addr s) (program_inode s shell_name) (phys s)" for x
    using mem that by (simp add: shell_bytes_def)
  have inode: "inode_ok (boot_block s) (inode_addr s) (program_inode s shell_name) (phys s)"
    using ready by (simp add: shell_ready_def loadable_def)
  note fa = file_agree [OF inode foot]
  show pf: "program_file t shell_name = program_file s shell_name" by (simp add: program_file_def ino same fa(1))
  have fp: "footprint (boot_block s) (inode_addr s) (program_inode s shell_name) (phys t)
      = footprint (boot_block s) (inode_addr s) (program_inode s shell_name) (phys s)"
    by (rule footprint_same [OF inode foot])
  have "loadable t shell_name"
    using ready fa(2) by (simp add: shell_ready_def loadable_def ino same fp pf)
  then show "shell_ready t"
    using ready f same by (simp add: shell_ready_def fs_ready_def pf b(5))
qed

text \<open>\<open>n\<close> shells have been started, in the slots and terminals below \<open>n\<close>.\<close>

definition booting :: "nat \<Rightarrow> 'z scheduler_scheme \<Rightarrow> bool" where
  "booting n s \<longleftrightarrow> procs_ok s \<and> shell_ready s \<and> (\<forall>i<3. stack s i = (if i < n then [int i] else [])) \<and> flag s = 0"

lemma booting_slot:
  assumes "booting n s" "n < 3"
  shows "free_slot s = n"
proof -
  have av: "phys_addr_available s ! k = 0 \<longleftrightarrow> k < n" if "k < 6" for k
  proof -
    have "int k \<in> set (stack s i) \<longleftrightarrow> i < n \<and> i = k" if "i < 3" for i using assms(1) that by (auto simp: booting_def)
    then have "(\<exists>i<3. int k \<in> set (stack s i)) \<longleftrightarrow> k < n"
      using assms(2) by (cases "k < n") (auto intro: exI [of _ k])
    then show ?thesis using assms(1) that by (simp add: booting_def procs_ok_def)
  qed
  have "length (phys_addr_available s) = 6" using assms(1) by (simp add: booting_def procs_ok_def)
  then show ?thesis unfolding free_slot_def using av assms(2) by (intro first_index_eqI) simp_all
qed

lemma shell_command_ok: "command_ok (arr_get shell_command) shell_name" "shell_command = shell_name @ [0]"
    "command_name shell_name = shell_name" "command_arg shell_name = []"
proof -
  show n: "command_name shell_name = shell_name" "command_arg shell_name = []" by (rule shell_file)+
  show c: "shell_command = shell_name @ [0]" by (simp add: shell_command_def)
  show "command_ok (arr_get shell_command) shell_name"
    using is_cstr_append_arr [of shell_name "[]"] by (simp add: command_ok_def n c)
qed

lemma shell_bytes_low: "shell_ready s \<Longrightarrow> x \<in> shell_bytes s \<Longrightarrow> unat x < 8388608"
  by (auto simp: shell_ready_def shell_bytes_def loadable_def)

lemma disk_frame:
  assumes "phys t = phys s" "boot_block t = boot_block s" "inode_addr t = inode_addr s" "curr_dir_dentry t = curr_dir_dentry s"
    "curr_file_dentry t = curr_file_dentry s"
  shows "found t shell_name = found s shell_name" "loadable t shell_name = loadable s shell_name" "fs_ready t = fs_ready s"
    "program_file t shell_name = program_file s shell_name" "shell_bytes t = shell_bytes s"
proof -
  have "lookup t shell_name = lookup s shell_name" by (simp add: lookup_def assms)
  then have "program_inode t shell_name = program_inode s shell_name" "found t shell_name = found s shell_name"
    by (simp_all add: program_inode_def entry_of_def found_def shell_command_ok assms)
  then show "found t shell_name = found s shell_name" "loadable t shell_name = loadable s shell_name" "fs_ready t = fs_ready s"
      "program_file t shell_name = program_file s shell_name" "shell_bytes t = shell_bytes s"
    by (simp_all add: program_file_def shell_bytes_def loadable_def fs_ready_def assms)
qed

lemma shell_ready_frame:
  assumes "phys t = phys s" "boot_block t = boot_block s" "inode_addr t = inode_addr s" "curr_dir_dentry t = curr_dir_dentry s"
    "curr_file_dentry t = curr_file_dentry s" "stack_junk t = stack_junk s"
  shows "paging_inv t = paging_inv s \<Longrightarrow> shell_ready t = shell_ready s" "program_file t shell_name = program_file s shell_name"
    "shell_bytes t = shell_bytes s"
  using disk_frame [OF assms(1-5)] by (simp_all add: shell_ready_def assms)

lemma booting_frame:
  assumes b: "booting n s" and m: "console.more t = console.more (s\<lparr>ebp := ebp t, esp := esp t, cr3 := cr3 t, tss_esp0 := tss_esp0 t,
      pcbs := pcbs t, init_flag := init_flag t, flag_first_execute := flag_first_execute t\<rparr>)"
    and k: "phys t = phys s" "terminals t = terminals s" "curr_terminal_idx t = curr_terminal_idx s" "curr_running_terminal_idx t \<in> {0, 1, 2}"
    and p: "length (pcbs t) = 6" "\<forall>p\<in>set (pcbs t). pcb_ok p" "flag t = flag s"
  shows "booting n t" "program_file t shell_name = program_file s shell_name" "shell_entry_point t = shell_entry_point s"
proof -
  have f: "phys_addr_available t = phys_addr_available s" "boot_block t = boot_block s" "inode_addr t = inode_addr s"
    "curr_dir_dentry t = curr_dir_dentry s" "curr_file_dentry t = curr_file_dentry s" "stack_junk t = stack_junk s"
    "pdes t = pdes s" "pte_zero t = pte_zero s" "pte_one t = pte_one s" "pde_arr t = pde_arr s" "addr_pde t = addr_pde s"
    "addr_pte_zero t = addr_pte_zero s" "addr_pte_one t = addr_pte_one s"
    using m by (cases t, cases s, simp)+
  note r = shell_ready_frame [of t s, OF k(1) f(2-6)]
  show pf: "program_file t shell_name = program_file s shell_name" by (rule r(2))
  have "paging_inv t = paging_inv s" by (simp add: paging_inv_def paging_ok_def maps_kernel_def slot_directory_def f)
  moreover have "procs_ok t"
    using b k p unfolding booting_def procs_ok_def stacks_ok_def f k by blast
  ultimately show "booting n t" "shell_entry_point t = shell_entry_point s"
    using b r(1) p(3) by (simp_all add: booting_def k shell_entry_point_def pf)
qed

lemma booting_ok:
  assumes "booting n s"
  shows "procs_ok s" "curr_terminal_idx s \<in> {0, 1, 2}" "curr_running_terminal_idx s \<in> {0, 1, 2}" "length (pcbs s) = 6"
    "\<forall>p\<in>set (pcbs s). pcb_ok p" "flag s = 0" "shell_ready s" "length (terminals s) = 3"
  using assms unfolding booting_def procs_ok_def stacks_ok_def by blast+

lemma start_shell_eq:
  assumes b: "booting n s" and n: "run_idx s = n" "n < 3"
  shows "\<exists>s'. start_shell s = Some (Some (shell_entry_point s, 0x083FFFFC), s') \<and> booting (Suc n) s' \<and> run_idx s' = n
    \<and> program_file s' shell_name = program_file s shell_name \<and> flag_first_execute s' = flag_first_execute s
    \<and> (\<forall>j. j \<noteq> n \<longrightarrow> pcbs s' ! j = pcbs s ! j)"
proof -
  obtain b' e' where be: "execute_frame s (esp s) = (b', e')" by fastforce
  define t where "t = s\<lparr>ebp := b', esp := e'\<rparr>"
  have bt: "booting n t" "shell_entry_point t = shell_entry_point s" "program_file t shell_name = program_file s shell_name"
      "flag_first_execute t = flag_first_execute s" "pcbs t = pcbs s" "run_idx t = n" "terminals t = terminals s"
    using booting_frame [OF b, of t] booting_ok(2-5) [OF b] n(1) by (simp_all add: t_def run_idx_def)
  have slot: "free_slot t = n" by (rule booting_slot [OF bt(1) n(2)])
  have r: "procs_ok t" "shell_ready t" using bt(1) by (simp_all add: booting_def)
  have rr: "fs_ready t" "paging_inv t" "length (stack_junk t) = 4" "found t (command_name shell_name)" "loadable t shell_name"
    "take 4 (program_file t shell_name) = elf_magic"
    using r(2) by (simp_all add: shell_ready_def shell_command_ok)
  obtain s' p where s': "execute False (arr_get shell_command) t = Some (Enter_user (shell_entry_point s) 0x083FFFFC, s')"
    "pcbs s' = (pcbs t)[n := p]" "procs_ok s'" "run_idx s' = run_idx t"
    "\<forall>i<3. stack s' i = (if i = run_idx t then stack t i @ [int n] else stack t i)" "in_program n VMSTART 3899392 s'"
    "\<forall>x. unat x < 8388608 \<longrightarrow> phys s' x = phys t x" "kept t s'"
    using execute_eq(1) [OF r(1) rr(1-3) shell_command_ok(1) rr(4-6)] slot n(2) bt(2) unfolding slot shell_entry_point_def by auto
  have "shell_ready s'" "program_file s' shell_name = program_file t shell_name"
    using shell_ready_agree [OF r(2), of s'] s'(6,7,8) shell_bytes_low [OF r(2)] by (simp_all add: kept_def in_program_def)
  moreover have "flag s' = 0" "flag_first_execute s' = flag_first_execute s"
    using s'(8) bt(1,4) by (cases s', cases t, simp add: kept_def booting_def)+
  moreover have "stack s' i = (if i < Suc n then [int i] else [])" if "i < 3" for i
    using s'(5) bt(1,6) that by (auto simp: booting_def less_Suc_eq)
  ultimately show ?thesis
    using s' bt be by (intro exI [of _ s']) (simp add: start_shell_def t_def [symmetric] booting_def)
qed

lemma only_shell: "stack_ok t \<Longrightarrow> stack_of t = [x] \<Longrightarrow> active_program t = 6 \<and> aget (phys_mem_idx t) 0 = Some x"
proof -
  assume "stack_ok t" "stack_of t = [x]"
  then have "phys_mem_idx t = [x, -1, -1, -1, -1, -1]" by (simp add: stack_ok_def numeral_eq_Suc)
  then show ?thesis by (simp add: active_program_def aget_in)
qed

lemma tick_frame:
  assumes b: "booting n s" and k: "k < 6" and i: "int i \<in> {0, 1, 2}"
    and t: "sound.more t = sound.more (s\<lparr>init_flag := 0, pcbs := (pcbs s)[k := with_context (pcbs s ! k) s], curr_running_terminal_idx := int i\<rparr>)"
  shows "booting n t" "program_file t shell_name = program_file s shell_name" "shell_entry_point t = shell_entry_point s"
    "run_idx t = i" "pcbs t = (pcbs s)[k := with_context (pcbs s ! k) s]" "flag_first_execute t = flag_first_execute s"
proof -
  note ok = booting_ok [OF b]
  have f: "phys t = phys s" "terminals t = terminals s" "curr_terminal_idx t = curr_terminal_idx s" "curr_running_terminal_idx t = int i"
      "pcbs t = (pcbs s)[k := with_context (pcbs s ! k) s]" "flag t = flag s" "flag_first_execute t = flag_first_execute s"
    and m: "console.more t = console.more (s\<lparr>init_flag := 0, pcbs := (pcbs s)[k := with_context (pcbs s ! k) s]\<rparr>)"
    using t by (cases t, cases s, simp)+
  have "pcb_ok (with_context (pcbs s ! k) s)" using ok(4,5) k by simp
  then have p: "length (pcbs t) = 6" "\<forall>p\<in>set (pcbs t). pcb_ok p"
    using ok(4,5) by (auto simp: f dest!: set_update_subset_insert [THEN subsetD])
  have "console.more t = console.more (s\<lparr>ebp := ebp t, esp := esp t, cr3 := cr3 t, tss_esp0 := tss_esp0 t,
      pcbs := pcbs t, init_flag := init_flag t, flag_first_execute := flag_first_execute t\<rparr>)"
    using m by (cases t, cases s, simp)
  note g = booting_frame [OF b this f(1-3) _ p f(6)]
  show "booting n t" "program_file t shell_name = program_file s shell_name" "shell_entry_point t = shell_entry_point s"
    using g i by (simp_all add: f)
  show "run_idx t = i" "pcbs t = (pcbs s)[k := with_context (pcbs s ! k) s]" "flag_first_execute t = flag_first_execute s"
    by (simp_all add: f run_idx_def)
qed

lemma tick_next:
  assumes b: "booting (Suc n) s" and n: "run_idx s = n" "n < 2" "flag_first_execute s = 0"
  shows "\<exists>s'. PIT_interrupt_handler s = Some (Entered (shell_entry_point s) 0x083FFFFC, s') \<and> booting (Suc (Suc n)) s'
    \<and> run_idx s' = Suc n \<and> program_file s' shell_name = program_file s shell_name \<and> flag_first_execute s' = 0
    \<and> (\<forall>j\<le>n. context_of (pcbs s' ! j) = (if j = n then cpu s else context_of (pcbs s ! j)))"
proof -
  note ok = booting_ok [OF b]
  have run: "curr_running_terminal_idx s = int n" using ok(3) n(1) by (auto simp: run_idx_def)
  have st: "stack_of (terminals s ! n) = [int n]" "stack_ok (terminals s ! n)" using b n by (simp_all add: booting_def procs_ok_def stacks_ok_def)
  note only = only_shell [OF st(2,1)]
  define c where "c = (cli s)\<lparr>init_flag := 0\<rparr>"
  have h: "PIT_interrupt_handler s = next_shell c" using handler_branches [OF n(3) ok(1)] only ok(6) n(1) by (simp add: c_def)
  have w: "with_context p c = with_context p s" "pcbs c = pcbs s" "curr_running_terminal_idx c = int n" "terminals c = terminals s" for p
    by (simp_all add: c_def cli_def with_context_def run)
  define p where "p = (pcbs s)[n := with_context (pcbs s ! n) s]"
  have save: "save_context (int n) c = Some (c\<lparr>pcbs := p\<rparr>)" using n(2) ok(4) by (simp add: save_context_eq w p_def)
  define t where "t = sti (send_eoi 0 (c\<lparr>pcbs := p, curr_running_terminal_idx := int (Suc n)\<rparr>))"
  have tf: "sound.more t = sound.more (s\<lparr>init_flag := 0, pcbs := (pcbs s)[n := with_context (pcbs s ! n) s], curr_running_terminal_idx := int (Suc n)\<rparr>)"
    using send_eoi_more [of 0 "c\<lparr>pcbs := p, curr_running_terminal_idx := int (Suc n)\<rparr>"] by (simp add: t_def sti_def c_def cli_def p_def) (cases s, simp)
  have "int (Suc n) \<in> {0, 1, 2}" using n(2) by auto
  note f = tick_frame [OF b _ this tf]
  obtain s' where s': "start_shell t = Some (Some (shell_entry_point t, 0x083FFFFC), s')" "booting (Suc (Suc n)) s'" "run_idx s' = Suc n"
    "program_file s' shell_name = program_file t shell_name" "flag_first_execute s' = flag_first_execute t" "\<forall>j. j \<noteq> Suc n \<longrightarrow> pcbs s' ! j = pcbs t ! j"
    using start_shell_eq [of "Suc n" t] f n(2) by auto
  have "running_terminal c = Some (terminals s ! n)" using n(2) ok(8) by (simp add: w aget_in)
  then have "next_shell c = Some (Entered (shell_entry_point s) 0x083FFFFC, s')"
    using only save n(2) s'(1) f(3) by (simp add: next_shell_def w t_def add.commute)
  then show ?thesis
    using s' f n(2,3) ok(4) unfolding h by (intro exI [of _ s']) (simp add: less_Suc_eq_le)
qed

lemma tick_last:
  assumes b: "booting 3 s" and n: "run_idx s = 2" "flag_first_execute s = 0"
  shows "\<exists>s'. PIT_interrupt_handler s = Some (Iret (curr_ebp (pcbs s ! 0)), s') \<and> cpu s' = context_of (pcbs s ! 0)
    \<and> steady s' \<and> run_idx s' = 0 \<and> (\<forall>i<3. stack s' i = [int i])"
proof -
  note ok = booting_ok [OF b]
  have run: "curr_running_terminal_idx s = 2" using ok(3) n(1) by (auto simp: run_idx_def)
  have st: "stack_of (terminals s ! 2) = [2]" "stack_ok (terminals s ! 2)" using b n by (simp_all add: booting_def procs_ok_def stacks_ok_def)
  note only = only_shell [OF st(2,1)]
  define c where "c = (cli s)\<lparr>init_flag := 0\<rparr>"
  have h: "PIT_interrupt_handler s = next_shell c" using handler_branches [OF n(2) ok(1)] only ok(6) n(1) by (simp add: c_def)
  define c' where "c' = c\<lparr>flag := 1, init_flag := 1\<rparr>"
  have w: "with_context p c' = with_context p s" "pcbs c' = pcbs s" "curr_running_terminal_idx c = 2" "terminals c' = terminals s"
    "(if curr_running_terminal_idx c = 2 then c\<lparr>flag := 1, init_flag := 1\<rparr> else c) = c'" "curr_running_terminal_idx c' = 2" for p
    by (simp_all add: c'_def c_def cli_def with_context_def run)
  define p where "p = (pcbs s)[2 := with_context (pcbs s ! 2) s]"
  have save: "save_context 2 c' = Some (c'\<lparr>pcbs := p\<rparr>)"
    using save_context_eq [of 2 c'] ok(4) by (simp add: w p_def)
  have p0: "aget p 0 = Some (pcbs s ! 0)" using ok(4) by (simp add: p_def aget_in)
  define q where "q = pcbs s ! 0"
  define t where "t = c'\<lparr>pcbs := p, curr_running_terminal_idx := 0, tss_esp0 := curr_esp0 q, cr3 := curr_PDBR q, esp := curr_esp q, ebp := curr_ebp q\<rparr>"
  define s' where "s' = sti (send_eoi 0 t)"
  have rt: "running_terminal c' = Some (terminals s ! 2)" using ok(8) by (simp add: w aget_in)
  have e: "ebp (send_eoi 0 t) = curr_ebp q" using scheduler_frame(12) [OF send_eoi_more [of 0 t]] by (simp add: t_def)
  have run: "next_shell c = Some (Iret (curr_ebp q), s')"
    unfolding next_shell_def w(5) Let_def
    using only save rt p0 e by (simp add: w(6) q_def [symmetric] t_def s'_def) (simp add: sti_def)
  have "sound.more s' = sound.more t" using send_eoi_more [of 0 t] by (simp add: s'_def sti_def)
  note f = scheduler_frame [OF this]
  have g: "terminals s' = terminals s" "phys_addr_available s' = phys_addr_available s" "pcbs s' = p" "curr_running_terminal_idx s' = 0"
    "curr_terminal_idx s' = curr_terminal_idx s" "flag s' = 1" "flag_first_execute s' = 0" "cpu s' = context_of q"
    using f n(2) by (simp_all add: t_def c'_def c_def cli_def cpu_def context_of_def)
  have "pcb_ok (with_context (pcbs s ! 2) s)" using ok(4,5) by simp
  then have ok2: "procs_ok (s\<lparr>pcbs := p\<rparr>)" by (intro procs_ok_pcbs [OF ok(1)]) (simp_all add: p_def)
  have "procs_ok s'"
    using ok(2,8) by (intro procs_ok_stacks [OF ok2]) (simp_all add: g)
  moreover have "\<forall>i<3. stack s' i = [int i]" using b by (simp add: booting_def g)
  ultimately show ?thesis using run g unfolding h by (intro exI [of _ s']) (simp add: steady_def run_idx_def q_def)
qed

text \<open>The first tick clears the screen.\<close>

definition off_screen :: "u32 set \<Rightarrow> bool" where
  "off_screen A \<longleftrightarrow> (\<forall>x\<in>A. \<forall>b\<in>text_pages. \<forall>k<2000. x \<noteq> cell b (int k))"

lemma backup_page: "i < 3 \<Longrightarrow> backup i \<in> text_pages" "VIDEO \<in> text_pages"
  by (auto simp: text_pages_def backup_def numeral_3_eq_3 less_Suc_eq)

lemma tick_first:
  assumes b: "booting 0 s" and n: "run_idx s = 0" "flag_first_execute s \<noteq> 0" and c: "console_ok s" "off_screen (shell_bytes s)"
  shows "\<exists>s'. PIT_interrupt_handler s = Some (Entered (shell_entry_point s) 0x083FFFFC, s') \<and> booting (Suc 0) s'
    \<and> run_idx s' = 0 \<and> program_file s' shell_name = program_file s shell_name \<and> flag_first_execute s' = 0"
proof -
  note ok = booting_ok [OF b]
  define i where "i = nat (curr_terminal_idx s)"
  have i: "i < 3" using ok(2) by (auto simp: i_def)
  define d where "d = (cli s)\<lparr>init_flag := 0, flag_first_execute := 0\<rparr>"
  have e: "(if init_flag (cli s) \<noteq> 0 then (cli s)\<lparr>init_flag := 0\<rparr> else cli s) = (cli s)\<lparr>init_flag := 0\<rparr>" by simp
  have cd: "console_ok d" "i = nat (curr_terminal_idx d)" using c(1) by (simp_all add: d_def cli_def console_ok_def i_def)
  obtain u where u: "clear d = Some u" "printed_on i {VIDEO, backup i} d u" using clear_ok [OF cd] by blast
  define t where "t = send_eoi 0 u"
  have t: "sound.more t = sound.more u" by (simp add: t_def send_eoi_more)
  obtain x y where tm: "terminals u = (terminals s)[i := (terminals s ! i)\<lparr>screen_x := x, screen_y := y\<rparr>]"
    using u(2) by (auto simp: printed_on_def d_def cli_def)
  have more: "console.more u = console.more d" "same_but_cells {VIDEO, backup i} (phys s) (phys u)" "curr_terminal_idx u = curr_terminal_idx s"
    "curr_running_terminal_idx u = curr_running_terminal_idx s"
    using u(2) by (simp_all add: printed_on_def d_def cli_def)
  have f: "terminals t = terminals u" "phys t = phys u" "curr_terminal_idx t = curr_terminal_idx s"
    "curr_running_terminal_idx t = curr_running_terminal_idx s" "console.more t = console.more (s\<lparr>init_flag := 0, flag_first_execute := 0\<rparr>)"
    using scheduler_frame(1-5) [OF t] more by (simp_all add: d_def cli_def) (cases s, simp)
  have g: "boot_block t = boot_block s" "inode_addr t = inode_addr s" "curr_dir_dentry t = curr_dir_dentry s" "curr_file_dentry t = curr_file_dentry s"
    "stack_junk t = stack_junk s" "pcbs t = pcbs s" "phys_addr_available t = phys_addr_available s" "flag t = flag s" "flag_first_execute t = 0"
    "pdes t = pdes s" "pte_zero t = pte_zero s" "pte_one t = pte_one s" "pde_arr t = pde_arr s" "addr_pde t = addr_pde s"
    "addr_pte_zero t = addr_pte_zero s" "addr_pte_one t = addr_pte_one s"
    using f(5) by (cases t, cases s, simp)+
  have mem: "phys t x = phys s x" if "x \<in> shell_bytes s" for x
    using more(2) c(2) that backup_page(1) [OF i] backup_page(2) by (auto simp: off_screen_def same_but_cells_def f)
  have "paging_inv t = paging_inv s" by (simp add: paging_inv_def paging_ok_def maps_kernel_def slot_directory_def g)
  then have "paging_inv t" using ok(7) by (simp add: shell_ready_def)
  note r = shell_ready_agree [OF ok(7) g(1-5) this mem]
  have "length (terminals t) = 3" using ok(8) by (simp add: f tm)
  moreover have "phys_mem_idx (terminals t ! j) = phys_mem_idx (terminals s ! j)" for j
    using ok(8) i by (cases "j = i") (simp_all add: f tm)
  ultimately have tl: "length (terminals t) = 3" "\<And>j. phys_mem_idx (terminals t ! j) = phys_mem_idx (terminals s ! j)" by blast+
  have "procs_ok t" using tl ok(2,3) by (intro procs_ok_stacks [OF ok(1)]) (simp_all add: f g)
  moreover have "stack t j = stack s j" for j using tl(2) by (simp add: stack_of_def)
  ultimately have bt: "booting 0 t" "run_idx t = 0" using b r(1) n(1) by (simp_all add: booting_def g f run_idx_def)
  have ep: "shell_entry_point t = shell_entry_point s" using r(2) by (simp add: shell_entry_point_def)
  obtain s' where s': "start_shell t = Some (Some (shell_entry_point t, 0x083FFFFC), s')" "booting (Suc 0) s'" "run_idx s' = 0"
    "program_file s' shell_name = program_file t shell_name" "flag_first_execute s' = flag_first_execute t"
    using start_shell_eq [OF bt] by auto
  have d': "(cli s)\<lparr>init_flag := 0, flag_first_execute := 0\<rparr> = d" by (simp add: d_def)
  have "flag_first_execute ((cli s)\<lparr>init_flag := 0\<rparr>) \<noteq> 0" using n(2) by (simp add: cli_def)
  then have "PIT_interrupt_handler s = Some (Entered (shell_entry_point s) 0x083FFFFC, s')"
    unfolding PIT_interrupt_handler_def Let_def e using u(1) s'(1) ep by (simp add: d' t_def)
  then show ?thesis using s' g(9) r(2) by (intro exI [of _ s']) simp
qed

text \<open>What may happen between two ticks of the boot: the shell that runs does not start a program, and leaves
  the disk image and the contexts of the shells that wait.\<close>

definition boot_ran :: "'z scheduler_scheme \<Rightarrow> 'z scheduler_scheme \<Rightarrow> bool" where
  "boot_ran s s' \<longleftrightarrow> procs_ok s' \<and> shell_ready s' \<and> program_file s' shell_name = program_file s shell_name
     \<and> flag s' = flag s \<and> flag_first_execute s' = flag_first_execute s \<and> run_idx s' = run_idx s
     \<and> (\<forall>i<3. stack s' i = stack s i)
     \<and> (\<forall>i<3. i \<noteq> run_idx s \<and> stack s i \<noteq> [] \<longrightarrow> context_of (pcbs s' ! top_of s i) = context_of (pcbs s ! top_of s i))"

lemma boot_ranD:
  assumes "boot_ran s s'" "booting (Suc n) s" "n < 3"
  shows "booting (Suc n) s'" "run_idx s' = run_idx s" "flag_first_execute s' = flag_first_execute s" "shell_entry_point s' = shell_entry_point s"
    "i \<le> n \<Longrightarrow> i \<noteq> run_idx s \<Longrightarrow> context_of (pcbs s' ! i) = context_of (pcbs s ! i)"
proof -
  show "booting (Suc n) s'" "run_idx s' = run_idx s" "flag_first_execute s' = flag_first_execute s" "shell_entry_point s' = shell_entry_point s"
    using assms by (simp_all add: boot_ran_def booting_def shell_entry_point_def)
  show "context_of (pcbs s' ! i) = context_of (pcbs s ! i)" if "i \<le> n" "i \<noteq> run_idx s"
  proof -
    have "stack s i = [int i]" using assms(2,3) that(1) by (simp add: booting_def)
    moreover from this have "top_of s i = i" by (simp add: top_of_def)
    moreover have "i < 3" using assms(3) that(1) by simp
    ultimately show ?thesis using assms(1) that(2) unfolding boot_ran_def by (metis list.distinct(1))
  qed
qed

text \<open>C7. The boot: from a machine without programs the first three ticks start the shell in slot and terminal 0, 1
  and 2, each at the entry point of its file; the fourth tick lets the first shell go on from where
  the first of these ticks after its start interrupted it, and from then on the scheduler is in the state from
  which it switches between the terminals.\<close>

theorem boot_starts_three_shells:
  assumes "booting 0 s" "run_idx s = 0" "flag_first_execute s \<noteq> 0" "console_ok s" "off_screen (shell_bytes s)"
  shows "\<exists>s1. PIT_interrupt_handler s = Some (Entered (shell_entry_point s) 0x083FFFFC, s1)
      \<and> stack s1 0 = [0] \<and> stack s1 1 = [] \<and> stack s1 2 = [] \<and>
    boot_ran s1 s1 \<and> (\<forall>s1'. boot_ran s1 s1' \<longrightarrow> (\<exists>s2. PIT_interrupt_handler s1' = Some (Entered (shell_entry_point s) 0x083FFFFC, s2)
        \<and> stack s2 0 = [0] \<and> stack s2 1 = [1] \<and> stack s2 2 = [] \<and>
      boot_ran s2 s2 \<and> (\<forall>s2'. boot_ran s2 s2' \<longrightarrow> (\<exists>s3. PIT_interrupt_handler s2' = Some (Entered (shell_entry_point s) 0x083FFFFC, s3)
          \<and> stack s3 0 = [0] \<and> stack s3 1 = [1] \<and> stack s3 2 = [2] \<and>
        boot_ran s3 s3 \<and> (\<forall>s3'. boot_ran s3 s3' \<longrightarrow> (\<exists>s4. PIT_interrupt_handler s3' = Some (Iret (ebp s1'), s4)
            \<and> cpu s4 = cpu s1' \<and> steady s4 \<and> run_idx s4 = 0 \<and> (\<forall>i<3. stack s4 i = [int i])))))))"
proof -
  let ?e = "Entered (shell_entry_point s) 0x083FFFFC"
  have st: "stack t 0 = [0]" "stack t 1 = (if n = 0 then [] else [1])" "stack t 2 = (if n \<le> 1 then [] else [2])" "boot_ran t t"
    if "booting (Suc n) t" for t :: "'a scheduler_scheme" and n
    using that by (simp_all add: booting_def boot_ran_def)
  obtain s1 where s1: "PIT_interrupt_handler s = Some (?e, s1)" "booting (Suc 0) s1" "run_idx s1 = 0"
    "program_file s1 shell_name = program_file s shell_name" "flag_first_execute s1 = 0"
    using tick_first [OF assms] by blast
  have "\<exists>s2. PIT_interrupt_handler s1' = Some (?e, s2) \<and> stack s2 0 = [0] \<and> stack s2 1 = [1] \<and> stack s2 2 = [] \<and>
      boot_ran s2 s2 \<and> (\<forall>s2'. boot_ran s2 s2' \<longrightarrow> (\<exists>s3. PIT_interrupt_handler s2' = Some (?e, s3) \<and> stack s3 0 = [0] \<and> stack s3 1 = [1] \<and> stack s3 2 = [2] \<and>
        boot_ran s3 s3 \<and> (\<forall>s3'. boot_ran s3 s3' \<longrightarrow> (\<exists>s4. PIT_interrupt_handler s3' = Some (Iret (ebp s1'), s4)
            \<and> cpu s4 = cpu s1' \<and> steady s4 \<and> run_idx s4 = 0 \<and> (\<forall>i<3. stack s4 i = [int i])))))"
    if r1: "boot_ran s1 s1'" for s1'
  proof -
    note d1 = boot_ranD [OF r1 s1(2)]
    obtain s2 where s2: "PIT_interrupt_handler s1' = Some (?e, s2)" "booting (Suc (Suc 0)) s2" "run_idx s2 = 1"
      "program_file s2 shell_name = program_file s1' shell_name" "flag_first_execute s2 = 0" "context_of (pcbs s2 ! 0) = cpu s1'"
      using tick_next [of 0 s1'] d1(1-4) s1(3-5) by (auto simp: shell_entry_point_def)
    have e2: "shell_entry_point s2 = shell_entry_point s"
      using s2(4) d1(4) s1(4) by (simp add: shell_entry_point_def)
    have "\<exists>s3. PIT_interrupt_handler s2' = Some (?e, s3) \<and> stack s3 0 = [0] \<and> stack s3 1 = [1] \<and> stack s3 2 = [2] \<and>
        boot_ran s3 s3 \<and> (\<forall>s3'. boot_ran s3 s3' \<longrightarrow> (\<exists>s4. PIT_interrupt_handler s3' = Some (Iret (ebp s1'), s4)
            \<and> cpu s4 = cpu s1' \<and> steady s4 \<and> run_idx s4 = 0 \<and> (\<forall>i<3. stack s4 i = [int i])))"
      if r2: "boot_ran s2 s2'" for s2'
    proof -
      note d2 = boot_ranD [OF r2 s2(2)]
      obtain s3 where s3: "PIT_interrupt_handler s2' = Some (?e, s3)" "booting (Suc (Suc 1)) s3" "run_idx s3 = 2"
        "flag_first_execute s3 = 0" "context_of (pcbs s3 ! 0) = cpu s1'"
        using tick_next [of 1 s2'] d2 s2(3,5,6) e2 by (auto simp: numeral_2_eq_2)
      have "\<exists>s4. PIT_interrupt_handler s3' = Some (Iret (ebp s1'), s4)
            \<and> cpu s4 = cpu s1' \<and> steady s4 \<and> run_idx s4 = 0 \<and> (\<forall>i<3. stack s4 i = [int i])"
        if r3: "boot_ran s3 s3'" for s3'
      proof -
        note d3 = boot_ranD [OF r3 s3(2)]
        have c: "context_of (pcbs s3' ! 0) = cpu s1'" using d3(5) [of 0] s3(3,5) by simp
        then have "curr_ebp (pcbs s3' ! 0) = ebp s1'" by (simp add: context_of_def cpu_def)
        then show ?thesis
          using tick_last [of s3'] d3(1-3) s3(3,4) c by (simp add: numeral_3_eq_3)
      qed
      then show ?thesis using s3(1) st [OF s3(2)] by (intro exI [of _ s3]) simp
    qed
    then show ?thesis using s2(1) st [OF s2(2)] by (intro exI [of _ s2]) simp
  qed
  then show ?thesis using s1(1) st [OF s1(2)] by (intro exI [of _ s1]) simp
qed

section \<open>Examples\<close>

text \<open>The machine of \<open>Sample\<close> after the boot, and before it.\<close>

definition running0 :: scheduler where
  "running0 = process.extend (machine0\<lparr>flag_first_execute := 0\<rparr>) (scheduler.fields [0, 1, 2] 1 0)"

definition boot0 :: scheduler where
  "boot0 = process.extend (machine0\<lparr>terminals := map terminal0 [0, 1, 2], temp_curr_running_terminal_idx := 0,
     phys_addr_available := replicate 6 1, flag_first_execute := 1\<rparr>) (scheduler.fields [0, 1, 2] 0 0)"

lemma running0_steady: "steady running0" "run_idx running0 = 0" "stack running0 0 = [0]"
proof -
  have t: "terminals running0 = terminals machine0" "curr_running_terminal_idx running0 = 0" "curr_terminal_idx running0 = 0"
    "phys_addr_available running0 = phys_addr_available machine0" "pcbs running0 = pcbs machine0" "flag running0 = 1" "flag_first_execute running0 = 0"
    by (simp_all add: running0_def process.defs scheduler.defs)
  have "procs_ok running0" using machine0_procs(1) unfolding procs_ok_def stacks_ok_def t by simp
  then show "steady running0" using machine0_stack(1) by (simp add: steady_def t del: machine0_simps)
  show "run_idx running0 = 0" by (simp add: run_idx_def t)
  show "stack running0 0 = [0]" using machine0_stack(1) [of 0] by (simp add: t del: machine0_simps)
qed

theorem resumed_at_third_tick_witness:
  "\<exists>t s1 s2 s3. PIT_interrupt_handler running0 = Some (t, s1) \<and> (\<exists>t. PIT_interrupt_handler s1 = Some (t, s2))
    \<and> PIT_interrupt_handler s2 = Some (Iret (ebp running0), s3) \<and> cpu s3 = cpu running0 \<and> stack s3 0 = [0]"
  using resumed_at_third_tick [OF running0_steady(1)] running0_steady(2,3) by fastforce

lemma shell_bytes_range: "x \<in> shell_bytes machine0 \<Longrightarrow> 0x10000 \<le> unat x \<and> unat x < 0x20000"
proof -
  assume x: "x \<in> shell_bytes machine0"
  have low: "unat (0x10000 + of_nat j :: u32) = 0x10000 + j" if "j < 0x10000" for j
    using that unat_of_nat_u32 [of "0x10000 + j"] by simp
  have "(\<exists>j<4096. x = 0x10000 + of_nat j) \<or> (\<exists>j<12. x = 0x10000 + of_nat j) \<or> (\<exists>j<4096. x = 0x10000 + of_nat (4096 + j)) \<or> (\<exists>j<28. x = 0x10000 + of_nat (12288 + j))"
    using x shell_file(2) by (auto simp: shell_bytes_def boot_region_def footprint_def inode_block_def file_address_def)
  then have "\<exists>j<0x10000. x = 0x10000 + of_nat j" by (elim disjE exE conjE) (rule exI, rule conjI [rotated], assumption, simp)+
  then show ?thesis using low by auto
qed

lemma boot0_ok: "booting 0 boot0" "run_idx boot0 = 0" "flag_first_execute boot0 \<noteq> 0" "console_ok boot0"
    "shell_bytes boot0 = shell_bytes machine0" "shell_entry_point boot0 = 0x08048018"
proof -
  have t: "terminals boot0 = map terminal0 [0, 1, 2]" "curr_running_terminal_idx boot0 = 0" "curr_terminal_idx boot0 = 0"
    "phys_addr_available boot0 = replicate 6 1" "pcbs boot0 = replicate 6 shell_pcb" "flag boot0 = 0" "flag_first_execute boot0 = 1"
    "temp_curr_running_terminal_idx boot0 = 0" "phys boot0 = phys machine0" "boot_block boot0 = boot_block machine0"
    "inode_addr boot0 = inode_addr machine0" "curr_dir_dentry boot0 = curr_dir_dentry machine0"
    "curr_file_dentry boot0 = curr_file_dentry machine0" "stack_junk boot0 = stack_junk machine0"
    by (simp_all add: boot0_def process.defs scheduler.defs)
  have "pdes boot0 = pdes machine0" "pte_zero boot0 = pte_zero machine0" "pte_one boot0 = pte_one machine0" "pde_arr boot0 = pde_arr machine0"
    "addr_pde boot0 = addr_pde machine0" "addr_pte_zero boot0 = addr_pte_zero machine0" "addr_pte_one boot0 = addr_pte_one machine0"
    by (simp_all add: boot0_def process.defs)
  then have inv: "paging_inv boot0 = paging_inv machine0"
    by (simp add: paging_inv_def paging_ok_def maps_kernel_def slot_directory_def)
  note r = shell_ready_frame [of boot0 machine0, OF t(9-14)]
  show "run_idx boot0 = 0" "flag_first_execute boot0 \<noteq> 0" by (simp_all add: run_idx_def t)
  show "shell_bytes boot0 = shell_bytes machine0" by (rule r(3))
  show "shell_entry_point boot0 = 0x08048018" using shell_file(5) shell_entry by (simp add: shell_entry_point_def r(2))
  show "console_ok boot0"
    by (auto simp: console_ok_def t terminal_ok_def cursor_ok_def terminal0_def less_Suc_eq numeral_3_eq_3)
  have low: "unat x < 8388608" if "x \<in> boot_region (boot_block machine0)" for x
    using shell_bytes_range [of x] that by (simp add: shell_bytes_def)
  have "shell_ready machine0"
    using shell_start(2-4) shell_file(1,3,4) low unfolding shell_ready_def by blast
  moreover have "stack_of (terminal0 i) = [] \<and> stack_ok (terminal0 i)" for i by (simp add: terminal0_def stack_of_def stack_ok_def)
  moreover have "map terminal0 [0, 1, 2] ! i = terminal0 i" if "i < 3" for i using that by (auto simp: less_Suc_eq numeral_3_eq_3 numeral_2_eq_2)
  ultimately show "booting 0 boot0"
    using r(1) inv machine0_paging(2) shell_pcb_ok by (simp add: booting_def procs_ok_def stacks_ok_def t)
qed

lemma boot0_off_screen: "off_screen (shell_bytes machine0)"
proof -
  have "unat x < 0xB8000" if "x \<in> shell_bytes machine0" for x using shell_bytes_range [OF that] by simp
  moreover have "0xB8000 \<le> unat (cell b (int k))" if "b \<in> text_pages" "k < 2000" for b k
    using unat_cell [of b k] that by (auto simp: text_pages_def)
  ultimately show ?thesis by (fastforce simp: off_screen_def)
qed

theorem boot_starts_three_shells_witness:
  "\<exists>s1 s2 s3 s4. PIT_interrupt_handler boot0 = Some (Entered 0x08048018 0x083FFFFC, s1)
    \<and> PIT_interrupt_handler s1 = Some (Entered 0x08048018 0x083FFFFC, s2)
    \<and> PIT_interrupt_handler s2 = Some (Entered 0x08048018 0x083FFFFC, s3)
    \<and> PIT_interrupt_handler s3 = Some (Iret (ebp s1), s4) \<and> steady s4 \<and> stack s4 2 = [2]"
proof -
  have "off_screen (shell_bytes boot0)" by (simp add: boot0_ok(5) boot0_off_screen)
  note boot = boot_starts_three_shells [OF boot0_ok(1-4) this, unfolded boot0_ok(6)]
  from boot show ?thesis
    apply (elim exE conjE)
    subgoal for s1
      apply (drule spec [of _ s1], drule (1) mp, elim exE conjE)
      subgoal for s2
        apply (drule spec [of _ s2], drule (1) mp, elim exE conjE)
        subgoal for s3
          apply (drule spec [of _ s3], drule (1) mp, elim exE conjE)
          subgoal for s4 by (rule exI [of _ s1], rule exI [of _ s2], rule exI [of _ s3], rule exI [of _ s4]) simp
          done
        done
      done
    done
qed

end
