(* ===== verification/Idt.thy ===== *)
theory Idt
  imports Scheduler
begin

text \<open>
  \<open>interrupt_desc_table.c\<close>: the exception handlers and the table that \<open>idt_init\<close> builds, with the gate layout of
  \<open>x86_desc.h\<close>. Every exception handler prints a line, sets \<open>exception_flag\<close> and halts the running program; the
  theorem below follows that path to the parent, which receives the status 256. The other theorem reads the
  finished table the way the processor does. \<open>system_call\<close> is not in the table: vector 0x80 leads to the linkage of
  \<open>syscall.S\<close>, whose jump table is \<open>syscall_handler\<close>.
\<close>

section \<open>Exception handlers\<close>

definition ascii :: "string \<Rightarrow> u8 list" where
  "ascii xs = map of_char xs"

text \<open>The body that all handlers share: \<open>printf(...); exception_flag = 1; halt(0);\<close>.\<close>

definition print_and_halt :: "u8 list \<Rightarrow> 'z process_scheme \<Rightarrow> (control \<times> 'z process_scheme) option" where
  "print_and_halt line s =
     do { (_, s) \<leftarrow> printf (arr_get (line @ [10, 0])) [] s;
          let s = s\<lparr>exception_flag := 1\<rparr>;
          halt 0 s }"

definition div_by_zero_error_expt :: "'z process_scheme \<Rightarrow> (control \<times> 'z process_scheme) option" where
  "div_by_zero_error_expt s = print_and_halt (ascii ''Divide-by-zero Error Exception Occurs'') s"

definition debug_expt :: "'z process_scheme \<Rightarrow> (control \<times> 'z process_scheme) option" where
  "debug_expt s = print_and_halt (ascii ''Debug Exception Occurs'') s"

definition NMI_expt :: "'z process_scheme \<Rightarrow> (control \<times> 'z process_scheme) option" where
  "NMI_expt s = print_and_halt (ascii ''Non-maskable Interrupt Exception Occurs'') s"

definition breakpoint_expt :: "'z process_scheme \<Rightarrow> (control \<times> 'z process_scheme) option" where
  "breakpoint_expt s = print_and_halt (ascii ''Breakpoint Exception Occurs'') s"

definition overflow_expt :: "'z process_scheme \<Rightarrow> (control \<times> 'z process_scheme) option" where
  "overflow_expt s = print_and_halt (ascii ''Overflow Exception Occurs'') s"

definition BR_exceed_expt :: "'z process_scheme \<Rightarrow> (control \<times> 'z process_scheme) option" where
  "BR_exceed_expt s = print_and_halt (ascii ''Bound Range Exceeded Exception Occurs'') s"

definition invalid_op_expt :: "'z process_scheme \<Rightarrow> (control \<times> 'z process_scheme) option" where
  "invalid_op_expt s = print_and_halt (ascii ''Invalide Opcode Exception Occurs'') s"

definition dev_unavailable_expt :: "'z process_scheme \<Rightarrow> (control \<times> 'z process_scheme) option" where
  "dev_unavailable_expt s = print_and_halt (ascii ''Device Not Available Exception Occurs'') s"

definition double_fault_expt :: "'z process_scheme \<Rightarrow> (control \<times> 'z process_scheme) option" where
  "double_fault_expt s = print_and_halt (ascii ''Double Fault Exception Occurs'') s"

definition cop_seg_expt :: "'z process_scheme \<Rightarrow> (control \<times> 'z process_scheme) option" where
  "cop_seg_expt s = print_and_halt (ascii ''Coprocessor Segment Overrun Exception Occurs'') s"

definition invalid_tss_expt :: "'z process_scheme \<Rightarrow> (control \<times> 'z process_scheme) option" where
  "invalid_tss_expt s = print_and_halt (ascii ''Invalid TSS Exception Occurs'') s"

definition seg_not_present_expt :: "'z process_scheme \<Rightarrow> (control \<times> 'z process_scheme) option" where
  "seg_not_present_expt s = print_and_halt (ascii ''Segment Not Present Exception Occurs'') s"

definition stack_seg_fault_expt :: "'z process_scheme \<Rightarrow> (control \<times> 'z process_scheme) option" where
  "stack_seg_fault_expt s = print_and_halt (ascii ''Stack-Segment Fault Exception Occurs'') s"

definition ge_prot_fault_expt :: "'z process_scheme \<Rightarrow> (control \<times> 'z process_scheme) option" where
  "ge_prot_fault_expt s = print_and_halt (ascii ''General Protection Fault Exception Occurs'') s"

definition page_fault_expt :: "'z process_scheme \<Rightarrow> (control \<times> 'z process_scheme) option" where
  "page_fault_expt s = print_and_halt (ascii ''Page Fault Exception Occurs'') s"

definition float_ptr_expt :: "'z process_scheme \<Rightarrow> (control \<times> 'z process_scheme) option" where
  "float_ptr_expt s = print_and_halt (ascii ''x87 Floating-Point Exception Occurs'') s"

definition align_expt :: "'z process_scheme \<Rightarrow> (control \<times> 'z process_scheme) option" where
  "align_expt s = print_and_halt (ascii ''Alignment Check Exception Occurs'') s"

definition machine_expt :: "'z process_scheme \<Rightarrow> (control \<times> 'z process_scheme) option" where
  "machine_expt s = print_and_halt (ascii ''Machine Check Exception Occurs'') s"

definition SIMD_expt :: "'z process_scheme \<Rightarrow> (control \<times> 'z process_scheme) option" where
  "SIMD_expt s = print_and_halt (ascii ''SIMD Floating-Point Exception Occurs'') s"

definition virt_expt :: "'z process_scheme \<Rightarrow> (control \<times> 'z process_scheme) option" where
  "virt_expt s = print_and_halt (ascii ''Virtualization Exception Occurs'') s"

definition security_expt :: "'z process_scheme \<Rightarrow> (control \<times> 'z process_scheme) option" where
  "security_expt s = print_and_halt (ascii ''Security Exception Occurs'') s"

definition system_call :: "'z process_scheme \<Rightarrow> (control \<times> 'z process_scheme) option" where
  "system_call s = print_and_halt (ascii ''system call coming soon...'') s"

text \<open>The handlers as function pointers.\<close>

datatype handler =
    E_div_by_zero_error
  | E_debug
  | E_NMI
  | E_breakpoint
  | E_overflow
  | E_BR_exceed
  | E_invalid_op
  | E_dev_unavailable
  | E_double_fault
  | E_cop_seg
  | E_invalid_tss
  | E_seg_not_present
  | E_stack_seg_fault
  | E_ge_prot_fault
  | E_page_fault
  | E_float_ptr
  | E_align
  | E_machine
  | E_SIMD
  | E_virt
  | E_security
  | I_PIT_interrupt_handler | I_keyboard_interrupt_handler | I_RTC_interrupt_handler | I_mouse_interrupt_handler
  | I_syscall_handler

fun exception_handler :: "handler \<Rightarrow> ('z process_scheme \<Rightarrow> (control \<times> 'z process_scheme) option) option" where
  "exception_handler E_div_by_zero_error = Some div_by_zero_error_expt"
| "exception_handler E_debug = Some debug_expt"
| "exception_handler E_NMI = Some NMI_expt"
| "exception_handler E_breakpoint = Some breakpoint_expt"
| "exception_handler E_overflow = Some overflow_expt"
| "exception_handler E_BR_exceed = Some BR_exceed_expt"
| "exception_handler E_invalid_op = Some invalid_op_expt"
| "exception_handler E_dev_unavailable = Some dev_unavailable_expt"
| "exception_handler E_double_fault = Some double_fault_expt"
| "exception_handler E_cop_seg = Some cop_seg_expt"
| "exception_handler E_invalid_tss = Some invalid_tss_expt"
| "exception_handler E_seg_not_present = Some seg_not_present_expt"
| "exception_handler E_stack_seg_fault = Some stack_seg_fault_expt"
| "exception_handler E_ge_prot_fault = Some ge_prot_fault_expt"
| "exception_handler E_page_fault = Some page_fault_expt"
| "exception_handler E_float_ptr = Some float_ptr_expt"
| "exception_handler E_align = Some align_expt"
| "exception_handler E_machine = Some machine_expt"
| "exception_handler E_SIMD = Some SIMD_expt"
| "exception_handler E_virt = Some virt_expt"
| "exception_handler E_security = Some security_expt"
| "exception_handler _ = None"

text \<open>\<open>halt\<close> and the calls that return a value, as the entries of the jump table in \<open>syscall.S\<close>. \<open>irqs\<close> are the
  interrupts that arrive while a driver waits; the three arguments are \<open>ebx\<close>, \<open>ecx\<close> and \<open>edx\<close>.\<close>

definition returned :: "(int \<times> 's) option \<Rightarrow> (control \<times> 's) option" where
  "returned r = map_option (\<lambda>(v, s). (Return v, s)) r"

definition syscall_handler :: "('z process_scheme \<Rightarrow> 'z process_scheme) list \<Rightarrow> u32 \<Rightarrow> u32 \<Rightarrow> u32 \<Rightarrow> u32 \<Rightarrow>
    'z process_scheme \<Rightarrow> (control \<times> 'z process_scheme) option" where
  "syscall_handler irqs eax ebx ecx edx s =
     (if sint eax < 1 \<or> sint eax > 10 then Some (Return (-1), s)
      else if eax = 1 then halt (ucast ebx) s
      else if eax = 2 then execute (ebx = 0) (user_get ebx s) s
      else if eax = 3 then returned (sys_read (sint ebx) ecx (sint edx) irqs s)
      else if eax = 4 then returned (sys_write (sint ebx) ecx (sint edx) s)
      else if eax = 5 then returned (sys_open (ebx = 0) (user_get ebx s) s)
      else if eax = 6 then returned (sys_close (sint ebx) s)
      else if eax = 7 then returned (getargs ebx (sint ecx) s)
      else if eax = 8 then returned (vidmap ebx s)
      else if eax = 9 then returned (Some (set_handler (sint ebx) ecx, s))
      else returned (Some (sigreturn, s)))"

section \<open>The interrupt descriptor table\<close>

record idt_desc_t =
  offset_15_00 :: u16
  seg_selector :: u16
  reserved4 :: u8
  reserved3 :: "1 word"
  reserved2 :: "1 word"
  reserved1 :: "1 word"
  size_bit :: "1 word"
  reserved0 :: "1 word"
  dpl :: "2 word"
  present :: "1 word"
  offset_31_16 :: u16

record cpu_tables = scheduler +
  idt :: "idt_desc_t list"
  idtr_loaded :: bool

definition SET_IDT_ENTRY :: "u32 \<Rightarrow> idt_desc_t \<Rightarrow> idt_desc_t" where
  "SET_IDT_ENTRY handler str =
     str\<lparr>offset_31_16 := ucast (drop_bit 16 (handler AND 0xFFFF0000)), offset_15_00 := ucast (handler AND 0xFFFF)\<rparr>"

definition upd_gate :: "nat \<Rightarrow> (idt_desc_t \<Rightarrow> idt_desc_t) \<Rightarrow> idt_desc_t list \<Rightarrow> idt_desc_t list option" where
  "upd_gate i f ds = do { d \<leftarrow> aget ds (int i); aset ds (int i) (f d) }"

text \<open>A sequence of assignments to the entries named by a list.\<close>

fun upd_gates :: "nat list \<Rightarrow> (nat \<Rightarrow> idt_desc_t \<Rightarrow> idt_desc_t) \<Rightarrow> idt_desc_t list \<Rightarrow> idt_desc_t list option" where
  "upd_gates [] f ds = Some ds"
| "upd_gates (i # is) f ds = do { ds \<leftarrow> upd_gate i (f i) ds; upd_gates is f ds }"

definition interrupt_gate :: "idt_desc_t \<Rightarrow> idt_desc_t" where
  "interrupt_gate d = d\<lparr>reserved0 := 0, size_bit := 1, reserved1 := 1, reserved2 := 1, reserved3 := 0, reserved4 := 0,
     seg_selector := 0x0010\<rparr>"

definition exception_entries :: "(nat \<times> handler) list" where
  "exception_entries = [(0, E_div_by_zero_error), (1, E_debug), (2, E_NMI), (3, E_breakpoint),
     (4, E_overflow), (5, E_BR_exceed), (6, E_invalid_op), (7, E_dev_unavailable),
     (8, E_double_fault), (9, E_cop_seg), (10, E_invalid_tss), (11, E_seg_not_present),
     (12, E_stack_seg_fault), (13, E_ge_prot_fault), (14, E_page_fault), (16, E_float_ptr),
     (17, E_align), (18, E_machine), (19, E_SIMD), (20, E_virt),
     (30, E_security)]"

definition interrupt_entries :: "(nat \<times> handler) list" where
  "interrupt_entries = [(33, I_keyboard_interrupt_handler), (40, I_RTC_interrupt_handler), (32, I_PIT_interrupt_handler),
     (44, I_mouse_interrupt_handler), (128, I_syscall_handler)]"

text \<open>\<open>addr\<close> is where the linker has put each handler.\<close>

definition idt_init :: "(handler \<Rightarrow> u32) \<Rightarrow> 'z cpu_tables_scheme \<Rightarrow> 'z cpu_tables_scheme option" where
  "idt_init addr s =
     do { ds \<leftarrow> upd_gates [0..<32] (\<lambda>i d. interrupt_gate (d\<lparr>present := 0, dpl := 0\<rparr>)) (idt s);
          ds \<leftarrow> upd_gates (map fst exception_entries) (\<lambda>i d. d\<lparr>present := 1\<rparr>) ds;
          ds \<leftarrow> upd_gates (map fst exception_entries) (\<lambda>i. SET_IDT_ENTRY (addr (the (map_of exception_entries i)))) ds;
          ds \<leftarrow> upd_gates [32..<256] (\<lambda>i d.
                  let d = d\<lparr>present := (if i < 32 + 8 * 2 then 1 else 0)\<rparr>;
                      d = d\<lparr>dpl := 0\<rparr>;
                      d = (if i = 0x80 then d\<lparr>present := 1, dpl := 3\<rparr> else d)
                  in interrupt_gate d) ds;
          ds \<leftarrow> upd_gates (map fst interrupt_entries) (\<lambda>i. SET_IDT_ENTRY (addr (the (map_of interrupt_entries i)))) ds;
          Some (s\<lparr>idt := ds, idtr_loaded := True\<rparr>) }"

section \<open>The table as the processor reads it\<close>

text \<open>The address an interrupt enters at, for the hardware and the processor's own exceptions, and for \<open>int v\<close> in
  user code, which needs a gate of privilege level 3; \<open>None\<close> raises another exception.\<close>

definition gate_target :: "idt_desc_t \<Rightarrow> u32" where
  "gate_target d = push_bit 16 (ucast (offset_31_16 d)) OR ucast (offset_15_00 d)"

definition hardware_target :: "idt_desc_t list \<Rightarrow> nat \<Rightarrow> u32 option" where
  "hardware_target ds v =
     (let d = ds ! v in
      if v < length ds \<and> present d = 1 \<and> reserved0 d = 0 \<and> size_bit d = 1 \<and> reserved1 d = 1 \<and> reserved2 d = 1 \<and> reserved3 d = 0
        \<and> seg_selector d = 0x0010
      then Some (gate_target d) else None)"

definition software_target :: "idt_desc_t list \<Rightarrow> nat \<Rightarrow> u32 option" where
  "software_target ds v = (if dpl (ds ! v) = 3 then hardware_target ds v else None)"

lemma gate_target_SET_IDT_ENTRY [simp]: "gate_target (SET_IDT_ENTRY a d) = a"
proof -
  have "push_bit 16 (ucast (ucast (drop_bit 16 (a AND 0xFFFF0000)) :: u16)) OR ucast (ucast (a AND 0xFFFF) :: u16) = a" (is "?l = _")
  proof (rule bit_word_eqI)
    fix n
    assume "n < LENGTH(32)"
    have m: "(0xFFFF0000 :: u32) = push_bit 16 (mask 16)" "(0xFFFF :: u32) = mask 16" by (simp_all add: mask_eq_exp_minus_1 push_bit_eq_mult)
    show "bit ?l n = bit a n"
      using \<open>n < LENGTH(32)\<close> unfolding m by (cases "n < 16") (auto simp: bit_simps)
  qed
  then show ?thesis by (simp add: gate_target_def SET_IDT_ENTRY_def)
qed

lemma SET_IDT_ENTRY_rest [simp]:
  "present (SET_IDT_ENTRY a d) = present d" "dpl (SET_IDT_ENTRY a d) = dpl d" "reserved0 (SET_IDT_ENTRY a d) = reserved0 d"
  "size_bit (SET_IDT_ENTRY a d) = size_bit d" "reserved1 (SET_IDT_ENTRY a d) = reserved1 d" "reserved2 (SET_IDT_ENTRY a d) = reserved2 d"
  "reserved3 (SET_IDT_ENTRY a d) = reserved3 d" "seg_selector (SET_IDT_ENTRY a d) = seg_selector d"
  by (simp_all add: SET_IDT_ENTRY_def)

lemma upd_gates_eq:
  "distinct is \<Longrightarrow> (\<And>i. i \<in> set is \<Longrightarrow> i < length ds) \<Longrightarrow>
   \<exists>ds'. upd_gates is f ds = Some ds' \<and> length ds' = length ds \<and> (\<forall>v<length ds. ds' ! v = (if v \<in> set is then f v (ds ! v) else ds ! v))"
proof (induction "is" arbitrary: ds)
  case Nil
  then show ?case by simp
next
  case (Cons i "is")
  define es where "es = ds[i := f i (ds ! i)]"
  have e: "upd_gate i (f i) ds = Some es" using Cons.prems(2) [of i] by (simp add: upd_gate_def aget_in aset_in es_def)
  have "\<And>j. j \<in> set is \<Longrightarrow> j < length es" using Cons.prems(2) by (simp add: es_def)
  then obtain ds' where "upd_gates is f es = Some ds'" "length ds' = length es"
      "\<forall>v<length es. ds' ! v = (if v \<in> set is then f v (es ! v) else es ! v)"
    using Cons.IH [of es] Cons.prems(1) by auto
  then show ?case using e Cons.prems by (auto simp: es_def nth_list_update)
qed

text \<open>The handler of each vector.\<close>

definition vector_handler :: "nat \<Rightarrow> handler option" where
  "vector_handler v = map_of (exception_entries @ interrupt_entries) v"

lemma entries_distinct: "distinct (map fst exception_entries)" "distinct (map fst interrupt_entries)"
  by (simp_all add: exception_entries_def interrupt_entries_def)

lemma entries_range:
  "v \<in> fst ` set exception_entries \<Longrightarrow> v < 32"
  "v \<in> fst ` set interrupt_entries \<Longrightarrow> 32 \<le> v \<and> v < 256 \<and> (v < 48 \<or> v = 128)"
  by (auto simp: exception_entries_def interrupt_entries_def)

lemma map_of_entries:
  "(map_of es v = None) = (v \<notin> fst ` set es)"
  by (auto simp: map_of_eq_None_iff)

text \<open>The two halves of the table.\<close>

definition low_gate :: "(handler \<Rightarrow> u32) \<Rightarrow> nat \<Rightarrow> idt_desc_t \<Rightarrow> idt_desc_t" where
  "low_gate addr v d = (let d = interrupt_gate (d\<lparr>present := 0, dpl := 0\<rparr>) in
     case map_of exception_entries v of Some h \<Rightarrow> SET_IDT_ENTRY (addr h) (d\<lparr>present := 1\<rparr>) | None \<Rightarrow> d)"

definition high_gate :: "(handler \<Rightarrow> u32) \<Rightarrow> nat \<Rightarrow> idt_desc_t \<Rightarrow> idt_desc_t" where
  "high_gate addr v d = (let d = interrupt_gate (d\<lparr>present := (if v < 48 \<or> v = 128 then 1 else 0), dpl := (if v = 128 then 3 else 0)\<rparr>) in
     case map_of interrupt_entries v of Some h \<Rightarrow> SET_IDT_ENTRY (addr h) d | None \<Rightarrow> d)"

lemma idt_init_eq:
  assumes len: "length (idt s) = 256"
  shows "\<exists>ds. idt_init addr s = Some (s\<lparr>idt := ds, idtr_loaded := True\<rparr>) \<and> length ds = 256
    \<and> (\<forall>v<256. ds ! v = (if v < 32 then low_gate addr v (idt s ! v) else high_gate addr v (idt s ! v)))"
proof -
  let ?ek = "map fst exception_entries" and ?ik = "map fst interrupt_entries"
  have in_e: "\<And>v. v \<in> set ?ek \<Longrightarrow> v < 32" and in_i: "\<And>v. v \<in> set ?ik \<Longrightarrow> 32 \<le> v \<and> v < 256 \<and> (v < 48 \<or> v = 128)"
    using entries_range by auto
  obtain a where a: "upd_gates [0..<32] (\<lambda>i d. interrupt_gate (d\<lparr>present := 0, dpl := 0\<rparr>)) (idt s) = Some a" "length a = 256"
    "\<And>v. v < 256 \<Longrightarrow> a ! v = (if v < 32 then interrupt_gate ((idt s ! v)\<lparr>present := 0, dpl := 0\<rparr>) else idt s ! v)"
    using upd_gates_eq [of "[0..<32]" "idt s" "\<lambda>i d. interrupt_gate (d\<lparr>present := 0, dpl := 0\<rparr>)"] len by (force simp del: upt_rec_numeral)
  obtain b where b: "upd_gates ?ek (\<lambda>i d. d\<lparr>present := 1\<rparr>) a = Some b" "length b = 256"
    "\<And>v. v < 256 \<Longrightarrow> b ! v = (if v \<in> set ?ek then (a ! v)\<lparr>present := 1\<rparr> else a ! v)"
    using upd_gates_eq [of ?ek a "\<lambda>i d. d\<lparr>present := 1\<rparr>"] entries_distinct(1) in_e a(2) by fastforce
  obtain c where c: "upd_gates ?ek (\<lambda>i. SET_IDT_ENTRY (addr (the (map_of exception_entries i)))) b = Some c" "length c = 256"
    "\<And>v. v < 256 \<Longrightarrow> c ! v = (if v \<in> set ?ek then SET_IDT_ENTRY (addr (the (map_of exception_entries v))) (b ! v) else b ! v)"
    using upd_gates_eq [of ?ek b "\<lambda>i. SET_IDT_ENTRY (addr (the (map_of exception_entries i)))"] entries_distinct(1) in_e b(2) by fastforce
  define g where "g = (\<lambda>(i :: nat) (d :: idt_desc_t). let d = d\<lparr>present := (if i < 32 + 8 * 2 then 1 else 0)\<rparr>; d = d\<lparr>dpl := 0\<rparr>;
      d = (if i = 0x80 then d\<lparr>present := 1, dpl := 3\<rparr> else d) in interrupt_gate d)"
  have g: "g v d = interrupt_gate (d\<lparr>present := (if v < 48 \<or> v = 128 then 1 else 0), dpl := (if v = 128 then 3 else 0)\<rparr>)" for v d
    by (simp add: g_def Let_def)
  obtain d where d: "upd_gates [32..<256] g c = Some d" "length d = 256" "\<And>v. v < 256 \<Longrightarrow> d ! v = (if 32 \<le> v then g v (c ! v) else c ! v)"
    using upd_gates_eq [of "[32..<256]" c g] c(2) by (force simp del: upt_rec_numeral)
  obtain e where e: "upd_gates ?ik (\<lambda>i. SET_IDT_ENTRY (addr (the (map_of interrupt_entries i)))) d = Some e" "length e = 256"
    "\<And>v. v < 256 \<Longrightarrow> e ! v = (if v \<in> set ?ik then SET_IDT_ENTRY (addr (the (map_of interrupt_entries v))) (d ! v) else d ! v)"
    using upd_gates_eq [of ?ik d "\<lambda>i. SET_IDT_ENTRY (addr (the (map_of interrupt_entries i)))"] entries_distinct(2) in_i d(2) by fastforce
  have "e ! v = (if v < 32 then low_gate addr v (idt s ! v) else high_gate addr v (idt s ! v))" if v: "v < 256" for v
  proof (cases "v < 32")
    case True
    then have "v \<notin> set ?ik" using in_i by fastforce
    then have "e ! v = c ! v" using e(3) d(3) v True by simp
    then show ?thesis using True a(3) b(3) c(3) v map_of_entries [of exception_entries v]
      by (cases "map_of exception_entries v") (simp_all add: low_gate_def)
  next
    case False
    then have "v \<notin> set ?ek" using in_e by fastforce
    then have "c ! v = idt s ! v" using a(3) b(3) c(3) v False by simp
    then have "d ! v = g v (idt s ! v)" using d(3) v False by simp
    then show ?thesis using False e(3) v map_of_entries [of interrupt_entries v]
      by (cases "map_of interrupt_entries v") (simp_all add: high_gate_def g)
  qed
  moreover have "idt_init addr s = Some (s\<lparr>idt := e, idtr_loaded := True\<rparr>)"
    unfolding idt_init_def g_def [symmetric] using a(1) b(1) c(1) d(1) e(1) by (simp del: upt_rec_numeral)
  ultimately show ?thesis using e(2) by blast
qed

text \<open>C19. After \<open>idt_init\<close> the exceptions with a handler enter it, as do the timer, keyboard, clock and mouse interrupts
  and the system call; the other lines of the two interrupt controllers have a gate with the target
  that the table had before, and no other vector is accepted. User code can raise vector 0x80 and no
  other.\<close>

theorem idt_init_gates:
  assumes "length (idt s) = 256"
  shows "\<exists>s'. idt_init addr s = Some s' \<and> idtr_loaded s' \<and> (\<forall>v<256.
    hardware_target (idt s') v = (case vector_handler v of Some h \<Rightarrow> Some (addr h)
        | None \<Rightarrow> if 32 \<le> v \<and> v < 48 then Some (gate_target (idt s ! v)) else None)
    \<and> software_target (idt s') v = (if v = 0x80 then Some (addr I_syscall_handler) else None))"
proof -
  obtain ds where ds: "idt_init addr s = Some (s\<lparr>idt := ds, idtr_loaded := True\<rparr>)" "length ds = 256"
    "\<forall>v<256. ds ! v = (if v < 32 then low_gate addr v (idt s ! v) else high_gate addr v (idt s ! v))"
    using idt_init_eq [OF assms] by blast
  have keep: "gate_target (interrupt_gate (d\<lparr>present := p, dpl := q\<rparr>)) = gate_target d" for d p q
    by (simp add: gate_target_def interrupt_gate_def)
  have "hardware_target ds v = (case vector_handler v of Some h \<Rightarrow> Some (addr h)
        | None \<Rightarrow> if 32 \<le> v \<and> v < 48 then Some (gate_target (idt s ! v)) else None)
    \<and> software_target ds v = (if v = 0x80 then Some (addr I_syscall_handler) else None)" if v: "v < 256" for v
  proof (cases "v < 32")
    case True
    then have "map_of interrupt_entries v = None" using entries_range(2) [of v] by (auto simp: map_of_entries)
    then show ?thesis using ds(2,3) True v
      by (cases "map_of exception_entries v")
        (simp_all add: low_gate_def hardware_target_def software_target_def vector_handler_def map_add_def interrupt_gate_def Let_def)
  next
    case False
    then have e: "map_of exception_entries v = None" using entries_range(1) [of v] by (auto simp: map_of_entries)
    show ?thesis
    proof (cases "map_of interrupt_entries v")
      case None
      then have "v \<noteq> 128" by (auto simp: interrupt_entries_def split: if_splits)
      then show ?thesis using ds(2,3) False v None e
        by (simp add: high_gate_def hardware_target_def software_target_def vector_handler_def map_add_def Let_def keep)
          (simp add: interrupt_gate_def)
    next
      case (Some h)
      then have "v \<in> fst ` set interrupt_entries" using map_of_entries [of interrupt_entries v] by auto
      then have r: "v < 48 \<or> v = 128" using entries_range(2) by blast
      have h: "h = I_syscall_handler" if "v = 128" using Some that by (simp add: interrupt_entries_def)
      have "ds ! v = SET_IDT_ENTRY (addr h) (interrupt_gate ((idt s ! v)\<lparr>present := 1, dpl := (if v = 128 then 3 else 0)\<rparr>))"
        using ds(3) False v Some r by (auto simp: high_gate_def)
      then show ?thesis using ds(2) v Some e h
        by (cases "v = 128", simp_all add: hardware_target_def software_target_def vector_handler_def map_add_def Let_def) (simp_all add: interrupt_gate_def)
    qed
  qed
  then show ?thesis using ds(1) by auto
qed

section \<open>An exception ends the program\<close>

lemma format_text_plain: "37 \<notin> set cs \<Longrightarrow> format_text cs args = Some cs"
  by (induction cs) auto

lemma printf_plain:
  assumes "0 \<notin> set cs" "37 \<notin> set cs" "putc_ready i s"
  shows "\<exists>s'. printf (arr_get (cs @ [0])) [] s = Some (length cs, s') \<and> putc_ready i s'
    \<and> screen_of s' i = fold (screen_put True) cs (screen_of s i) \<and> keeps_others {0xB8000, backup i} i s s'"
proof -
  obtain s' where "out_all putc cs s = Some s'" "putc_ready i s'"
    "screen_of s' i = fold (screen_put True) cs (screen_of s i)" "keeps_others {0xB8000, backup i} i s s'"
    using putc.out_all_ok [OF assms(3)] by blast
  moreover have c: "is_cstr (arr_get (cs @ [0])) cs" using is_cstr_append_arr [of cs "[]"] assms(1) by simp
  ultimately show ?thesis
    using printf_loop_text(1) [OF c format_text_plain [OF assms(2), of "[]"], of 0 s] by (simp add: printf_def)
qed

lemma printed_procs:
  assumes "keeps_others B i s s'" "procs_ok s"
  shows "procs_ok s'" "stack s' j = stack s j" "run_idx s' = run_idx s" "pcbs s' = pcbs s"
    "phys_addr_available s' = phys_addr_available s" "exception_flag s' = exception_flag s"
proof -
  have p: "printed_on i B s s'" and i: "i < 3" "length (terminals s) = 3" using assms(1) by (simp_all add: keeps_others_def)
  obtain x y where t: "terminals s' = (terminals s)[i := (terminals s ! i)\<lparr>screen_x := x, screen_y := y\<rparr>]"
    using p by (auto simp: printed_on_def)
  have m: "console.more s' = console.more s" and idx: "curr_terminal_idx s' = curr_terminal_idx s"
    "curr_running_terminal_idx s' = curr_running_terminal_idx s" using p by (simp_all add: printed_on_def)
  show f: "pcbs s' = pcbs s" "phys_addr_available s' = phys_addr_available s" "exception_flag s' = exception_flag s"
    using m by (cases s', cases s, simp)+
  have ph: "phys_mem_idx (terminals s' ! j) = phys_mem_idx (terminals s ! j)" for j
    using i by (cases "j = i") (simp_all add: t)
  show "stack s' j = stack s j" using ph by (simp add: stack_of_def)
  show "run_idx s' = run_idx s" using idx by (simp add: run_idx_def)
  show "procs_ok s'"
    using assms(2) i by (intro procs_ok_stacks [OF assms(2)] ph f idx) (simp_all add: f idx procs_ok_def stacks_ok_def, simp add: t)
qed

lemma print_and_halt_eq:
  assumes line: "0 \<notin> set line" "37 \<notin> set line" and s: "procs_ok s" "putc_ready i s"
    and k: "stack s (run_idx s) = xs @ [int k]" "2 < k"
  shows "\<exists>s'. print_and_halt line s = Some (Resume 256 (parent_ebp (pcbs s ! k)), s') \<and> procs_ok s'
    \<and> (\<forall>j<3. stack s' j = (if j = run_idx s then xs else stack s j))
    \<and> phys_addr_available s' = (phys_addr_available s)[k := 1]
    \<and> cr3 s' = parent_PDBR (pcbs s ! k) \<and> tss_esp0 s' = parent_esp0 (pcbs s ! k) \<and> esp s' = parent_esp (pcbs s ! k)
    \<and> page (backup i) (phys s') = cells (fold (screen_put True) (line @ [10]) (screen_of s i))"
proof -
  obtain s1 n where p: "printf (arr_get ((line @ [10]) @ [0])) [] s = Some (n, s1)"
      "screen_of s1 i = fold (screen_put True) (line @ [10]) (screen_of s i)" "keeps_others {0xB8000, backup i} i s s1"
    using printf_plain [of "line @ [10]", OF _ _ s(2)] line by auto
  note pr = printed_procs [OF p(3) s(1)]
  define t where "t = s1\<lparr>exception_flag := 1\<rparr>"
  have t: "procs_ok t" "stack t (run_idx t) = xs @ [int k]" "run_idx t = run_idx s" "pcbs t = pcbs s" "phys t = phys s1"
    using pr k(1) by (simp_all add: t_def run_idx_def procs_ok_def stacks_ok_def)
  obtain s2 where h: "halted k xs t s2"
    and run: "halt 0 t = Some (Resume (halt_status 0 t) (parent_ebp (pcbs t ! k)), s2\<lparr>esp := parent_esp (pcbs t ! k), ebp := parent_ebp (pcbs t ! k)\<rparr>)"
    using halt_eq [OF t(1,2), of 0] k(2) by auto
  define s3 where "s3 = s2\<lparr>esp := parent_esp (pcbs t ! k), ebp := parent_ebp (pcbs t ! k)\<rparr>"
  have "print_and_halt line s = Some (Resume 256 (parent_ebp (pcbs s ! k)), s3)"
    using p(1) run by (simp add: print_and_halt_def t_def [symmetric] t(4) s3_def) (simp add: halt_status_def t_def)
  moreover have "procs_ok s3"
  proof -
    have "procs_ok s2" using h by (simp add: halted_def)
    then show ?thesis by (simp add: s3_def procs_ok_def stacks_ok_def)
  qed
  moreover have "\<forall>j<3. stack s3 j = (if j = run_idx s then xs else stack s j)"
    "phys_addr_available s3 = (phys_addr_available s)[k := 1]"
    using h pr(2,5) t(3) by (simp_all add: s3_def halted_def t_def)
  moreover have "cr3 s3 = parent_PDBR (pcbs s ! k)" "tss_esp0 s3 = parent_esp0 (pcbs s ! k)" "esp s3 = parent_esp (pcbs s ! k)"
    using h t(4) by (simp_all add: s3_def halted_def)
  moreover have "page (backup i) (phys s3) = cells (screen_of s1 i)"
    using h t(5) by (simp add: s3_def halted_def screen_of_def Let_def)
  ultimately show ?thesis using p(2) by (intro exI [of _ s3]) simp
qed

text \<open>The line of each handler.\<close>

fun exception_line :: "handler \<Rightarrow> string" where
  "exception_line E_div_by_zero_error = ''Divide-by-zero Error Exception Occurs''"
| "exception_line E_debug = ''Debug Exception Occurs''"
| "exception_line E_NMI = ''Non-maskable Interrupt Exception Occurs''"
| "exception_line E_breakpoint = ''Breakpoint Exception Occurs''"
| "exception_line E_overflow = ''Overflow Exception Occurs''"
| "exception_line E_BR_exceed = ''Bound Range Exceeded Exception Occurs''"
| "exception_line E_invalid_op = ''Invalide Opcode Exception Occurs''"
| "exception_line E_dev_unavailable = ''Device Not Available Exception Occurs''"
| "exception_line E_double_fault = ''Double Fault Exception Occurs''"
| "exception_line E_cop_seg = ''Coprocessor Segment Overrun Exception Occurs''"
| "exception_line E_invalid_tss = ''Invalid TSS Exception Occurs''"
| "exception_line E_seg_not_present = ''Segment Not Present Exception Occurs''"
| "exception_line E_stack_seg_fault = ''Stack-Segment Fault Exception Occurs''"
| "exception_line E_ge_prot_fault = ''General Protection Fault Exception Occurs''"
| "exception_line E_page_fault = ''Page Fault Exception Occurs''"
| "exception_line E_float_ptr = ''x87 Floating-Point Exception Occurs''"
| "exception_line E_align = ''Alignment Check Exception Occurs''"
| "exception_line E_machine = ''Machine Check Exception Occurs''"
| "exception_line E_SIMD = ''SIMD Floating-Point Exception Occurs''"
| "exception_line E_virt = ''Virtualization Exception Occurs''"
| "exception_line E_security = ''Security Exception Occurs''"
| "exception_line _ = []"

lemmas exception_handler_defs =
    div_by_zero_error_expt_def debug_expt_def NMI_expt_def breakpoint_expt_def overflow_expt_def
    BR_exceed_expt_def invalid_op_expt_def dev_unavailable_expt_def double_fault_expt_def cop_seg_expt_def
    invalid_tss_expt_def seg_not_present_expt_def stack_seg_fault_expt_def ge_prot_fault_expt_def page_fault_expt_def
    float_ptr_expt_def align_expt_def machine_expt_def SIMD_expt_def virt_expt_def
    security_expt_def

lemma exception_handler_line:
  assumes "exception_handler h = Some f"
  shows "f = print_and_halt (ascii (exception_line h))" "0 \<notin> set (ascii (exception_line h))" "37 \<notin> set (ascii (exception_line h))"
proof -
  show "f = print_and_halt (ascii (exception_line h))"
    using assms by (cases h) (auto simp: fun_eq_iff exception_handler_defs)
  show "0 \<notin> set (ascii (exception_line h))" by (cases h) (simp_all add: ascii_def)
  show "37 \<notin> set (ascii (exception_line h))" by (cases h) (simp_all add: ascii_def)
qed

text \<open>C11. Whatever exception a program raises (other than a shell of the first three slots), the handler prints a line on
  the displayed terminal, ends the program and returns to its parent with the status 256, which no
  program can return itself; its slot is free again and the parent continues with its own page
  directory and kernel stack.\<close>

theorem exception_ends_program:
  assumes "exception_handler h = Some f" "procs_ok s" "putc_ready i s" "stack s (run_idx s) = xs @ [int k]" "2 < k"
  shows "\<exists>s'. f s = Some (Resume 256 (parent_ebp (pcbs s ! k)), s') \<and> procs_ok s'
    \<and> (\<forall>j<3. stack s' j = (if j = run_idx s then xs else stack s j))
    \<and> phys_addr_available s' = (phys_addr_available s)[k := 1]
    \<and> cr3 s' = parent_PDBR (pcbs s ! k) \<and> tss_esp0 s' = parent_esp0 (pcbs s ! k) \<and> esp s' = parent_esp (pcbs s ! k)
    \<and> page (backup i) (phys s') = cells (fold (screen_put True) (ascii (exception_line h) @ [10]) (screen_of s i))"
  using print_and_halt_eq [OF exception_handler_line(2,3) [OF assms(1)] assms(2-5)]
  unfolding exception_handler_line(1) [OF assms(1)] .

section \<open>Examples\<close>

definition gate0 :: idt_desc_t where
  "gate0 = \<lparr>offset_15_00 = 0, seg_selector = 0, reserved4 = 0, reserved3 = 0, reserved2 = 0, reserved1 = 0, size_bit = 0,
     reserved0 = 0, dpl = 0, present = 0, offset_31_16 = 0\<rparr>"

definition boot_tables :: cpu_tables where
  "boot_tables = scheduler.extend boot0 (cpu_tables.fields (replicate 256 gate0) False)"

text \<open>A page fault and the system call enter their handlers, vector 15 nothing, and the parallel port's line 39 address 0.\<close>

theorem idt_init_gates_witness:
  "\<exists>s'. idt_init (\<lambda>h. if h = I_syscall_handler then 0x401000 else 0x402345) boot_tables = Some s'
    \<and> hardware_target (idt s') 14 = Some 0x402345 \<and> hardware_target (idt s') 15 = None \<and> hardware_target (idt s') 39 = Some 0
    \<and> software_target (idt s') 0x80 = Some 0x401000 \<and> software_target (idt s') 14 = None"
proof -
  let ?addr = "\<lambda>h. if h = I_syscall_handler then 0x401000 else (0x402345 :: u32)"
  have i: "idt boot_tables = replicate 256 gate0" by (simp add: boot_tables_def scheduler.defs cpu_tables.defs)
  then have "length (idt boot_tables) = 256" by simp
  from idt_init_gates [where addr = ?addr, OF this] obtain s' where s': "idt_init ?addr boot_tables = Some s'"
    "\<forall>v<256. hardware_target (idt s') v = (case vector_handler v of Some h \<Rightarrow> Some (?addr h)
        | None \<Rightarrow> if 32 \<le> v \<and> v < 48 then Some (gate_target (idt boot_tables ! v)) else None)"
    "\<forall>v<256. software_target (idt s') v = (if v = 0x80 then Some (?addr I_syscall_handler) else None)" by blast
  show ?thesis
    using s'(1) s'(2) [rule_format, of 14] s'(2) [rule_format, of 15] s'(2) [rule_format, of 39] s'(3) [rule_format, of 128] s'(3) [rule_format, of 14]
    by (intro exI [of _ s']) (simp add: vector_handler_def exception_entries_def interrupt_entries_def i gate_target_def gate0_def)
qed

text \<open>A program in slot 3 on top of the first terminal's shell.\<close>

definition busy0 :: process where
  "busy0 = machine2\<lparr>terminals := (terminals machine2)[0 := (terminal0 0)\<lparr>phys_mem_idx := [0, 3, -1, -1, -1, -1]\<rparr>],
     phys_addr_available := [0, 0, 0, 0, 1, 1]\<rparr>"

lemma busy0_ok: "procs_ok busy0" "putc_ready 0 busy0" "run_idx busy0 = 0" "stack busy0 0 = [0, 3]" "parent_ebp (pcbs busy0 ! 3) = 0"
proof -
  have three: "(\<forall>i<3. P i) \<longleftrightarrow> P 0 \<and> P 1 \<and> P (2::nat)" "(\<exists>i<3. P i) \<longleftrightarrow> P 0 \<or> P 1 \<or> P (2::nat)" for P
    by (auto simp: numeral_3_eq_3 numeral_2_eq_2 less_Suc_eq)
  have t: "terminals busy0 = [(terminal0 0)\<lparr>phys_mem_idx := [0, 3, -1, -1, -1, -1]\<rparr>, (terminal0 1)\<lparr>phys_mem_idx := [1, -1, -1, -1, -1, -1]\<rparr>,
      (terminal0 2)\<lparr>phys_mem_idx := [2, -1, -1, -1, -1, -1]\<rparr>]"
    by (simp add: busy0_def machine2_def numeral_eq_Suc)
  have f: "pcbs busy0 = replicate 6 shell_pcb" "curr_running_terminal_idx busy0 = 0" "curr_terminal_idx busy0 = 0"
    "temp_curr_running_terminal_idx busy0 = 0" "phys_addr_available busy0 = [0, 0, 0, 0, 1, 1]" "phys busy0 = phys machine2"
    by (simp_all add: busy0_def machine2_def)
  show "run_idx busy0 = 0" "stack busy0 0 = [0, 3]" "parent_ebp (pcbs busy0 ! 3) = 0"
    by (simp_all add: run_idx_def f t stack_of_def shell_pcb_def)
  have "stack_ok (terminals busy0 ! i)" if "i \<in> {0, 1, 2}" for i
    using that unfolding t by (auto simp: stack_ok_def stack_of_def numeral_eq_Suc)
  from this [of 0] this [of 1] this [of 2] have "stacks_ok busy0" by (simp add: stacks_ok_def three t f stack_of_def)
  moreover have "phys_addr_available busy0 ! k = 0 \<longleftrightarrow> (\<exists>i<3. int k \<in> set (stack busy0 i))" if "k < 6" for k
  proof -
    from that have "k \<in> {0, 1, 2, 3, 4, 5}" by auto
    then show ?thesis unfolding three by (auto simp: t f stack_of_def)
  qed
  ultimately show "procs_ok busy0" using shell_pcb_ok by (simp add: procs_ok_def f)
  have "console_ok busy0"
    by (auto simp: console_ok_def t f terminal_ok_def cursor_ok_def terminal0_def less_Suc_eq numeral_3_eq_3)
  moreover have "display_shows busy0"
    using machine2_ok(3) by (simp add: display_shows_def display_def screen_of_def Let_def f) (simp add: machine2_def)
  ultimately show "putc_ready 0 busy0" by (simp add: putc_ready_def f)
qed

theorem exception_ends_program_witness:
  "\<exists>s'. page_fault_expt busy0 = Some (Resume 256 0, s') \<and> stack s' 0 = [0] \<and> page (backup 0) (phys s') 0 = 80"
proof -
  have k: "stack busy0 (run_idx busy0) = [0] @ [int 3]" using busy0_ok(3,4) by simp
  have "cells (fold (screen_put True) (ascii (exception_line E_page_fault) @ [10]) (screen_of busy0 0)) 0 = 80"
    by (simp add: ascii_def screen_put_def newline_def Let_def screen_of_def busy0_def machine2_def terminal0_def)
  then show ?thesis
    using exception_ends_program [OF _ busy0_ok(1,2) k, of E_page_fault page_fault_expt] busy0_ok(3,5) by auto
qed

end
