(* ===== verification/Mouse.thy ===== *)
theory Mouse
  imports Idt "HOL-Library.Signed_Division"
begin

text \<open>
  \<open>mouse.c\<close>: initialisation of the PS/2 mouse and its interrupt handler, which moves a mark over the display and, on
  a left click, types the first word of the row under the mark. The theorems show the commands that
  reach the controller, that a move leaves no stale mark behind, what a click does to the input line,
  and when it writes outside its buffer.
\<close>

section \<open>State and operations\<close>

record mouse_state = cpu_tables +
  mouse_x :: int
  mouse_y :: int

text \<open>\<open>for (i = 0; i < n; i++) if (p(inb(0x64))) break;\<close>\<close>

fun poll :: "nat \<Rightarrow> (u8 \<Rightarrow> bool) \<Rightarrow> 'z machine_scheme \<Rightarrow> 'z machine_scheme" where
  "poll 0 p s = s"
| "poll (Suc n) p s = (let (b, s) = inb 0x64 s in if p b then s else poll n p s)"

definition wait_input :: "'z machine_scheme \<Rightarrow> 'z machine_scheme" where
  "wait_input s = poll 100000 (\<lambda>b. b AND 2 = 0) s"

definition wait_output :: "'z machine_scheme \<Rightarrow> 'z machine_scheme" where
  "wait_output s = poll 100000 (\<lambda>b. b AND 1 = 1) s"

definition controller_command :: "u8 \<Rightarrow> 'z machine_scheme \<Rightarrow> 'z machine_scheme" where
  "controller_command c s = outb c 0x64 (wait_input s)"

definition controller_data :: "u8 \<Rightarrow> 'z machine_scheme \<Rightarrow> 'z machine_scheme" where
  "controller_data d s = outb d 0x60 (wait_input s)"

definition mouse_write :: "u8 \<Rightarrow> 'z machine_scheme \<Rightarrow> 'z machine_scheme" where
  "mouse_write c s = controller_data c (controller_command 0xD4 s)"

definition mouse_read :: "'z machine_scheme \<Rightarrow> u8 \<times> 'z machine_scheme" where
  "mouse_read s = inb 0x60 (wait_output s)"

definition mark_offset :: "'z mouse_state_scheme \<Rightarrow> u32" where
  "mark_offset s = word_of_int (mouse_y s * 160 + mouse_x s * 2)"

definition mouse_init :: "'z mouse_state_scheme \<Rightarrow> 'z mouse_state_scheme" where
  "mouse_init s =
     (let s = cli s;
          s = s\<lparr>mouse_x := 40\<rparr>;
          s = s\<lparr>mouse_y := 13\<rparr>;
          s = s\<lparr>phys := (phys s)(VIDEO + mark_offset s := 63)\<rparr>;
          s = enable_irq 12 s;
          s = controller_command 0xA8 s;
          s = controller_command 0x20 s;
          (status, s) = mouse_read s;
          temp = (status AND 0xDF) OR 2;
          s = controller_command 0x60 s;
          s = controller_data temp s;
          s = mouse_write 0xF3 s;
          s = mouse_write 200 s;
          s = mouse_write 0xF3 s;
          s = mouse_write 100 s;
          s = mouse_write 0xF3 s;
          s = mouse_write 80 s;
          s = mouse_write 0xF6 s;
          (_, s) = mouse_read s;
          s = mouse_write 0xF4 s;
          (_, s) = mouse_read s
      in sti s)"

text \<open>A movement byte with its sign bit in the first byte of the packet.\<close>

definition mouse_delta :: "u8 \<Rightarrow> u8 \<Rightarrow> u8 \<Rightarrow> int" where
  "mouse_delta flags sign b = (if flags AND sign \<noteq> 0 then sint (0xFFFFFF00 OR ucast b :: u32) else uint b)"

definition erase_mark :: "'z mouse_state_scheme \<Rightarrow> 'z mouse_state_scheme option" where
  "erase_mark s =
     do { t \<leftarrow> curr_terminal s;
          let m = phys s;
          let m = m(VIDEO + mark_offset s := m (video_mem t + mark_offset s));
          let m = m(VIDEO + mark_offset s + 1 := m (video_mem t + mark_offset s + 1));
          Some (s\<lparr>phys := m\<rparr>) }"

definition move_mouse :: "int \<Rightarrow> int \<Rightarrow> 'z mouse_state_scheme \<Rightarrow> 'z mouse_state_scheme" where
  "move_mouse delta_mouse_x delta_mouse_y s =
     (let s = s\<lparr>mouse_x := mouse_x s + delta_mouse_x sdiv 5\<rparr>;
          s = s\<lparr>mouse_y := mouse_y s - delta_mouse_y sdiv 10\<rparr>;
          s = (if mouse_x s > 79 then s\<lparr>mouse_x := 78\<rparr> else if mouse_x s < 0 then s\<lparr>mouse_x := 0\<rparr> else s)
      in if mouse_y s > 24 then s\<lparr>mouse_y := 24\<rparr> else if mouse_y s < 0 then s\<lparr>mouse_y := 0\<rparr> else s)"

definition draw_mark :: "'z mouse_state_scheme \<Rightarrow> 'z mouse_state_scheme" where
  "draw_mark s = s\<lparr>phys := (phys s)(VIDEO + mark_offset s := 63, VIDEO + mark_offset s + 1 := 10)\<rparr>"

text \<open>A left click. The row is read from its first column, up to a blank or NUL; \<open>temp_buf\<close> has 128 bytes.\<close>

partial_function (option) read_word :: "(nat \<Rightarrow> u8) \<Rightarrow> nat \<Rightarrow> u8 list \<Rightarrow> (nat \<times> u8 list) option" where
  "read_word chars i temp_buf =
     (if chars i \<noteq> 0 \<and> chars i \<noteq> 32 then
        do { temp_buf \<leftarrow> aset temp_buf (int i) (chars i); read_word chars (Suc i) temp_buf }
      else Some (i, temp_buf))"

partial_function (option) type_word :: "u8 list \<Rightarrow> nat \<Rightarrow> 'z console_scheme \<Rightarrow> 'z console_scheme option" where
  "type_word temp_buf i s =
     do { c \<leftarrow> aget temp_buf (int i);
          if c \<noteq> 0 then
            do { s \<leftarrow> putc c s;
                 s \<leftarrow> upd_curr (\<lambda>t. do { b \<leftarrow> aset (typed_buf t) (int i) c;
                                        Some (t\<lparr>typed_buf := b, curr_char_idx := curr_char_idx t + 1\<rparr>) }) s;
                 type_word temp_buf (Suc i) s }
          else Some s }"

definition left_click :: "int \<Rightarrow> 'z console_scheme \<Rightarrow> 'z console_scheme option" where
  "left_click y s =
     do { t \<leftarrow> curr_terminal s;
          let temp_buf = replicate 128 0;
          (i, temp_buf) \<leftarrow> read_word (\<lambda>i. phys s (video_mem t + word_of_int (y * 160 + int i * 2))) 0 temp_buf;
          temp_buf \<leftarrow> aset temp_buf (int i) 0;
          s \<leftarrow> for_opt 0 128 (\<lambda>i. upd_curr (\<lambda>t.
                 do { b \<leftarrow> aset (typed_buf t) (int i) 0; Some (t\<lparr>typed_buf := b, curr_char_idx := 0\<rparr>) })) s;
          type_word temp_buf 0 s }"

definition mouse_interrupt_handler :: "'z mouse_state_scheme \<Rightarrow> 'z mouse_state_scheme option" where
  "mouse_interrupt_handler s =
     do { let s = cli s;
          let (mouse_flag, s) = inb 0x64 s;
          if mouse_flag AND 0x21 \<noteq> 0x21 then Some (sti (send_eoi 12 s))
          else
            do { let (packet0, s) = inb 0x60 s;
                 if packet0 AND 0xC0 \<noteq> 0 then Some (sti (send_eoi 12 s))
                 else
                   do { let (packet1, s) = inb 0x60 s;
                        let (packet2, s) = inb 0x60 s;
                        let (packet3, s) = inb 0x60 s;
                        s \<leftarrow> erase_mark s;
                        let s = move_mouse (mouse_delta packet0 0x10 packet1) (mouse_delta packet0 0x20 packet2) s;
                        let s = draw_mark s;
                        s \<leftarrow> (if packet0 AND 1 = 1 then left_click (mouse_y s) s else Some s);
                        Some (sti (send_eoi 12 s)) } } }"

section \<open>Initialisation\<close>

definition outputs :: "'z machine_scheme \<Rightarrow> io_event list" where
  "outputs s = filter (\<lambda>e. case e of In8 _ _ \<Rightarrow> False | _ \<Rightarrow> True) (history s)"

lemma outputs_io [simp]:
  "outputs (outb d p s) = outputs s @ [Out8 p d]" "outputs (snd (inb p s)) = outputs s"
  "outputs (cli s) = outputs s" "outputs (sti s) = outputs s"
  by (simp_all add: outputs_def io_defs)

lemma poll_frame [simp]:
  "outputs (poll n p s) = outputs s" "machine.more (poll n p s) = machine.more s"
  by (induction n arbitrary: s) (simp_all add: case_prod_beta Let_def)

lemma poll_length: "length (history (poll n p s)) \<le> length (history s) + n"
proof (induction n arbitrary: s)
  case (Suc n)
  have "length (history (snd (inb 0x64 s))) = Suc (length (history s))" by simp
  then show ?case using Suc.IH [of "snd (inb 0x64 s)"] by (simp add: case_prod_beta Let_def)
qed simp

lemma commands_frame [simp]:
  "outputs (controller_command c s) = outputs s @ [Out8 0x64 c]" "machine.more (controller_command c s) = machine.more s"
  "outputs (controller_data c s) = outputs s @ [Out8 0x60 c]" "machine.more (controller_data c s) = machine.more s"
  "outputs (mouse_write c s) = outputs s @ [Out8 0x64 0xD4, Out8 0x60 c]" "machine.more (mouse_write c s) = machine.more s"
  "outputs (snd (mouse_read s)) = outputs s" "machine.more (snd (mouse_read s)) = machine.more s"
  by (simp_all add: controller_command_def controller_data_def mouse_write_def mouse_read_def wait_input_def wait_output_def)

lemma commands_length:
  "length (history (controller_command c s)) \<le> length (history s) + 100001"
  "length (history (controller_data c s)) \<le> length (history s) + 100001"
  "length (history (mouse_write c s)) \<le> length (history s) + 200002"
  "length (history (snd (mouse_read s))) \<le> length (history s) + 100001"
proof -
  show c: "length (history (controller_command c s)) \<le> length (history s) + 100001" for c and s :: "'a machine_scheme"
    using poll_length [where n = 100000 and p = "\<lambda>b. b AND 2 = 0" and s = s] by (simp add: controller_command_def wait_input_def del: poll.simps)
  show d: "length (history (controller_data c s)) \<le> length (history s) + 100001" for c and s :: "'a machine_scheme"
    using poll_length [where n = 100000 and p = "\<lambda>b. b AND 2 = 0" and s = s] by (simp add: controller_data_def wait_input_def del: poll.simps)
  show "length (history (mouse_write c s)) \<le> length (history s) + 200002"
    using c [of 212 s] d [of c "controller_command 212 s"] by (simp add: mouse_write_def)
  show "length (history (snd (mouse_read s))) \<le> length (history s) + 100001"
    using poll_length [where n = 100000 and p = "\<lambda>b. b AND 1 = 1" and s = s] by (simp add: mouse_read_def wait_output_def del: poll.simps)
qed

lemma mouse_write_length: "length (history s) \<le> n \<Longrightarrow> length (history (mouse_write c s)) \<le> 200002 + n"
  using commands_length(3) [of c s] by simp


section \<open>Moving the mark\<close>

definition mouse_index :: "'z mouse_state_scheme \<Rightarrow> nat" where
  "mouse_index s = nat (80 * mouse_y s + mouse_x s)"

text \<open>The display shows the screen of the selected terminal and the mark on top of it.\<close>

definition marked :: "'z mouse_state_scheme \<Rightarrow> bool" where
  "marked s \<longleftrightarrow> 0 \<le> mouse_x s \<and> mouse_x s \<le> 79 \<and> 0 \<le> mouse_y s \<and> mouse_y s \<le> 24
     \<and> (\<forall>k<2000. display s k = (if k = mouse_index s then 63 else cells (screen_of s (nat (curr_terminal_idx s))) k))"

lemma mark_cell:
  assumes "0 \<le> mouse_x s" "mouse_x s \<le> 79" "0 \<le> mouse_y s" "mouse_y s \<le> 24"
  shows "b + mark_offset s = cell b (int (mouse_index s))" "mouse_index s < 2000"
proof -
  have i: "int (mouse_index s) = 80 * mouse_y s + mouse_x s" using assms by (simp add: mouse_index_def)
  then show "mouse_index s < 2000" using assms by linarith
  have "mouse_y s * 160 + mouse_x s * 2 = 2 * int (mouse_index s)" using i by simp
  then show "b + mark_offset s = cell b (int (mouse_index s))" by (simp add: mark_offset_def cell_def)
qed

lemma page_upd_attribute:
  assumes "b \<in> text_pages" "b' \<in> text_pages" "i < 2000"
  shows "page b' (m(cell b (int i) + 1 := v)) = page b' m"
proof -
  have "cell b' (int k) \<noteq> cell b (int i) + 1" if "k < 2000" for k
  proof
    assume e: "cell b' (int k) = cell b (int i) + 1"
    have "unat (cell b (int i)) = unat b + 2 * i" "unat (cell b' (int k)) = unat b' + 2 * k"
      using assms that by (simp_all add: unat_cell)
    moreover have "unat b \<le> 770048" using assms(1) by (auto simp: text_pages_def)
    moreover have "unat (cell b (int i) + 1) = (unat (cell b (int i)) + 1) mod 4294967296" by (simp add: unat_word_ariths)
    ultimately have sum: "unat b' + 2 * k = unat b + 2 * i + 1" using e assms(3) by simp
    have "even (unat b)" "even (unat b')" using assms(1,2) by (auto simp: text_pages_def)
    then have "even (unat b' + 2 * k)" "\<not> even (unat b + 2 * i + 1)" by simp_all
    then show False using sum by metis
  qed
  then show ?thesis by (auto simp: page_def)
qed

lemma erase_mark_eq:
  assumes c: "console_ok s" and m: "marked s"
  shows "\<exists>p. erase_mark s = Some (s\<lparr>phys := p\<rparr>) \<and> (\<forall>i<3. page (backup i) p = page (backup i) (phys s))
    \<and> (\<forall>k<2000. page VIDEO p k = cells (screen_of s (nat (curr_terminal_idx s))) k)"
proof -
  let ?i = "nat (curr_terminal_idx s)" and ?k = "mouse_index s"
  have i: "?i < 3" and t: "video_mem (cur s) = backup ?i"
    using console_okD [OF c] by (simp_all add: cur_def terminal_ok_def)
  have b: "0 \<le> mouse_x s" "mouse_x s \<le> 79" "0 \<le> mouse_y s" "mouse_y s \<le> 24"
    and d: "\<And>k. k < 2000 \<Longrightarrow> page VIDEO (phys s) k = (if k = ?k then 63 else page (backup ?i) (phys s) k)"
    using m by (simp_all add: marked_def display_def screen_of_def Let_def)
  note k = mark_cell [OF b]
  define p where "p = (phys s)(cell VIDEO (int ?k) := phys s (cell (backup ?i) (int ?k)))"
  define q where "q = p(cell VIDEO (int ?k) + 1 := p (cell (backup ?i) (int ?k) + 1))"
  have "erase_mark s = Some (s\<lparr>phys := q\<rparr>)"
    by (simp add: erase_mark_def curr_terminal_eq [OF c] t k(1) q_def p_def Let_def)
  moreover have pq: "page b q = page b p" if "b \<in> text_pages" for b
    using that page_upd_attribute [of VIDEO b ?k p] k(2) by (simp add: q_def)
  moreover have "page (backup j) p = page (backup j) (phys s)" if "j < 3" for j
    using that k(2) by (simp add: p_def)
  moreover have "page VIDEO p = (page VIDEO (phys s))(?k := page (backup ?i) (phys s) ?k)"
    using k(2) page_at [of "int ?k" "phys s" "backup ?i"] by (simp add: p_def)
  ultimately show ?thesis
    using d by (intro exI [of _ q]) (simp add: screen_of_def Let_def)
qed

definition clamp_x :: "int \<Rightarrow> int" where
  "clamp_x x = (if x > 79 then 78 else if x < 0 then 0 else x)"

definition clamp_y :: "int \<Rightarrow> int" where
  "clamp_y y = (if y > 24 then 24 else if y < 0 then 0 else y)"

lemma move_mouse_eq:
  "move_mouse dx dy s = s\<lparr>mouse_x := clamp_x (mouse_x s + dx sdiv 5), mouse_y := clamp_y (mouse_y s - dy sdiv 10)\<rparr>"
  by (simp add: move_mouse_def clamp_x_def clamp_y_def Let_def)

lemma clamp_range: "0 \<le> clamp_x x" "clamp_x x \<le> 79" "0 \<le> clamp_y y" "clamp_y y \<le> 24"
  by (simp_all add: clamp_x_def clamp_y_def)

lemma draw_mark_eq:
  assumes "0 \<le> mouse_x s" "mouse_x s \<le> 79" "0 \<le> mouse_y s" "mouse_y s \<le> 24"
  shows "\<exists>p. draw_mark s = s\<lparr>phys := p\<rparr> \<and> (\<forall>i<3. page (backup i) p = page (backup i) (phys s))
    \<and> page VIDEO p = (page VIDEO (phys s))(mouse_index s := 63)"
proof -
  note k = mark_cell [OF assms]
  define p where "p = (phys s)(cell VIDEO (int (mouse_index s)) := 63)"
  have "draw_mark s = s\<lparr>phys := p(cell VIDEO (int (mouse_index s)) + 1 := 10)\<rparr>"
    by (simp add: draw_mark_def k(1) p_def)
  moreover have "page b (p(cell VIDEO (int (mouse_index s)) + 1 := 10)) = page b p" if "b \<in> text_pages" for b
    using that page_upd_attribute [of VIDEO b] k(2) by simp
  ultimately show ?thesis using k(2) by (intro exI [of _ "p(cell VIDEO (int (mouse_index s)) + 1 := 10)"]) (simp add: p_def)
qed

lemma move_mark:
  assumes c: "console_ok s" and m: "marked s"
  shows "\<exists>e s'. erase_mark s = Some e \<and> draw_mark (move_mouse dx dy e) = s' \<and> marked s' \<and> console_ok s'
    \<and> mouse_x s' = clamp_x (mouse_x s + dx sdiv 5) \<and> mouse_y s' = clamp_y (mouse_y s - dy sdiv 10)
    \<and> terminals s' = terminals s \<and> (\<forall>i<3. screen_of s' i = screen_of s i) \<and> sound_freq s' = sound_freq s
    \<and> curr_terminal_idx s' = curr_terminal_idx s"
proof -
  let ?i = "nat (curr_terminal_idx s)"
  have i: "?i < 3" using console_okD [OF c] by simp
  obtain p where p: "erase_mark s = Some (s\<lparr>phys := p\<rparr>)" "\<forall>i<3. page (backup i) p = page (backup i) (phys s)"
    "\<forall>k<2000. page VIDEO p k = cells (screen_of s ?i) k" using erase_mark_eq [OF c m] by blast
  define t where "t = s\<lparr>phys := p, mouse_x := clamp_x (mouse_x s + dx sdiv 5), mouse_y := clamp_y (mouse_y s - dy sdiv 10)\<rparr>"
  have t: "move_mouse dx dy (s\<lparr>phys := p\<rparr>) = t" by (simp add: move_mouse_eq t_def)
  have r: "0 \<le> mouse_x t" "mouse_x t \<le> 79" "0 \<le> mouse_y t" "mouse_y t \<le> 24" by (simp_all add: t_def clamp_range)
  obtain q where q: "draw_mark t = t\<lparr>phys := q\<rparr>" "\<forall>i<3. page (backup i) q = page (backup i) p"
    "page VIDEO q = (page VIDEO p)(mouse_index t := 63)" using draw_mark_eq [OF r] by (auto simp: t_def)
  have scr: "screen_of (t\<lparr>phys := q\<rparr>) j = screen_of s j" if "j < 3" for j
    using that p(2) q(2) by (simp add: screen_of_def t_def)
  have "marked (t\<lparr>phys := q\<rparr>)"
    using r p(3) q(3) scr [OF i] by (simp add: marked_def display_def mouse_index_def) (simp add: t_def)
  moreover have "console_ok (t\<lparr>phys := q\<rparr>)" using c by (simp add: console_ok_def t_def)
  ultimately show ?thesis using p(1) q(1) scr by (simp add: t) (simp add: t_def)
qed

section \<open>The left click\<close>

lemma set_cur_screen:
  assumes "console_ok s" "t = (cur s)\<lparr>typed_buf := b, curr_char_idx := n\<rparr>"
  shows "screen_of (set_cur t s) = screen_of s" "display_shows (set_cur t s) = display_shows s"
proof -
  note c = console_okD [OF assms(1)]
  have "screen_x (terminals (set_cur t s) ! j) = screen_x (terminals s ! j)" "screen_y (terminals (set_cur t s) ! j) = screen_y (terminals s ! j)" for j
    using assms(2) c by (cases "j = nat (curr_terminal_idx s)"; simp add: set_cur_def cur_def)+
  then show s: "screen_of (set_cur t s) = screen_of s" by (simp add: screen_of_def fun_eq_iff Let_def)
  show "display_shows (set_cur t s) = display_shows s" by (simp add: display_shows_def s display_def)
qed

lemma read_word_stops:
  assumes "\<And>j. j < length w \<Longrightarrow> rd j = w ! j \<and> w ! j \<noteq> 0 \<and> w ! j \<noteq> 32" "rd (length w) \<in> {0, 32}" "length w \<le> n"
  shows "i \<le> length w \<Longrightarrow> read_word rd i (take i w @ replicate (n - i) 0) = Some (length w, w @ replicate (n - length w) 0)"
proof (induction "length w - i" arbitrary: i)
  case 0
  then show ?case using assms(2) by (subst read_word.simps) auto
next
  case (Suc m)
  then have i: "i < length w" by simp
  have "n - i = Suc (n - Suc i)" using i assms(3) by simp
  then have "aset (take i w @ replicate (n - i) 0) (int i) (rd i) = Some (take (Suc i) w @ replicate (n - Suc i) 0)"
    using i assms by (simp add: aset_in list_update_append take_Suc_conv_app_nth)
  then show ?case using Suc(1) [of "Suc i"] Suc(2) i assms(1) by (subst read_word.simps) simp
qed

lemma read_word_overflows:
  assumes "\<And>j. j < n \<Longrightarrow> rd j \<noteq> 0 \<and> rd j \<noteq> 32"
  shows "i \<le> n \<Longrightarrow> length buf = n \<Longrightarrow> (do { (i, buf) \<leftarrow> read_word rd i buf; aset buf (int i) 0 }) = None"
proof (induction "n - i" arbitrary: i buf)
  case 0
  then show ?case by (subst read_word.simps) (simp add: aset_def)
next
  case (Suc m)
  then show ?case using assms [of i] by (subst read_word.simps) (simp add: aset_in)
qed

lemma clear_line_loop:
  assumes ok: "keyboard_ok s" and n: "n < 128"
  shows "for_opt 0 (Suc n) (\<lambda>i. upd_curr (\<lambda>t. do { b \<leftarrow> aset (typed_buf t) (int i) 0; Some (t\<lparr>typed_buf := b, curr_char_idx := 0\<rparr>) })) s
    = Some (set_cur ((cur s)\<lparr>typed_buf := replicate (Suc n) 0 @ drop (Suc n) (typed_buf (cur s)), curr_char_idx := 0\<rparr>) s)"
  using n
proof (induction n)
  case 0
  note k = keyboard_okD [OF ok]
  have "length (typed_buf (cur s)) = 128" by (rule terminal_okD(1) [OF k(4)])
  then have "(typed_buf (cur s))[0 := 0] = 0 # drop (Suc 0) (typed_buf (cur s))" by (cases "typed_buf (cur s)") simp_all
  then show ?case using k(1) \<open>length _ = 128\<close> by (simp add: for_opt_Suc upd_curr_eq aset_in)
next
  case (Suc n)
  note k = keyboard_okD [OF ok]
  let ?b = "replicate (Suc n) 0 @ drop (Suc n) (typed_buf (cur s))"
  have l: "length (typed_buf (cur s)) = 128" by (rule terminal_okD(1) [OF k(4)])
  define t where "t = (cur s)\<lparr>typed_buf := ?b, curr_char_idx := 0\<rparr>"
  have t: "terminal_ok (nat (curr_terminal_idx s)) t" "line_ok t"
    using k l Suc.prems by (simp_all add: line_ok_def t_def)
  have c: "keyboard_ok (set_cur t s)" "cur (set_cur t s) = t"
    using keyboard_ok_set_cur [OF ok t] k(1) by simp_all
  let ?t = "(cur s)\<lparr>typed_buf := replicate (Suc (Suc n)) 0 @ drop (Suc (Suc n)) (typed_buf (cur s)), curr_char_idx := 0\<rparr>"
  have "?b[Suc n := 0] = replicate (Suc (Suc n)) 0 @ drop (Suc (Suc n)) (typed_buf (cur s))"
    using l Suc.prems by (simp add: list_update_append Cons_nth_drop_Suc [symmetric] replicate_append_same [symmetric])
  then have "do { b \<leftarrow> aset (typed_buf t) (int (Suc n)) 0; Some (t\<lparr>typed_buf := b, curr_char_idx := 0\<rparr>) } = Some ?t"
    using l Suc.prems by (simp add: aset_in t_def nat_int_add del: replicate.simps of_nat_Suc)
  then have "upd_curr (\<lambda>t. do { b \<leftarrow> aset (typed_buf t) (int (Suc n)) 0; Some (t\<lparr>typed_buf := b, curr_char_idx := 0\<rparr>) }) (set_cur t s)
      = Some (set_cur ?t (set_cur t s))"
    using upd_curr_eq [OF keyboard_okD(1) [OF c(1)]] c(2) by (simp del: replicate.simps of_nat_Suc)
  moreover have "set_cur ?t (set_cur t s) = set_cur ?t s" by (simp add: set_cur_def)
  ultimately show ?case
    using Suc by (subst for_opt_Suc) (simp_all add: t_def [symmetric] del: replicate.simps of_nat_Suc set_cur_fields)
qed

lemma type_word_ok:
  assumes "0 \<notin> set w" "length w < 128"
  shows "keyboard_ok s \<Longrightarrow> i \<le> length w \<Longrightarrow> typed_buf (cur s) = take i w @ replicate (128 - i) 0 \<Longrightarrow> curr_char_idx (cur s) = int i \<Longrightarrow>
    \<exists>s'. type_word (w @ replicate (128 - length w) 0) i s = Some s'
      \<and> edited ((cur s)\<lparr>typed_buf := w @ replicate (128 - length w) 0, curr_char_idx := int (length w)\<rparr>) s s'
      \<and> screen_of s' (nat (curr_terminal_idx s)) = fold (screen_put True) (drop i w) (screen_of s (nat (curr_terminal_idx s)))
      \<and> (display_shows s \<longrightarrow> display_shows s')"
proof (induction "length w - i" arbitrary: i s)
  case 0
  then have i: "i = length w" by simp
  then have "type_word (w @ replicate (128 - length w) 0) i s = Some s"
    using assms(2) by (subst type_word.simps) (simp add: aget_in nth_append)
  moreover have "(cur s)\<lparr>typed_buf := w @ replicate (128 - length w) 0, curr_char_idx := int (length w)\<rparr> = cur s"
    using 0(4,5) i by (cases "cur s") simp
  ultimately show ?case using edited_refl [OF 0(2)] i by (intro exI [of _ s]) simp
next
  case (Suc m)
  let ?c = "nat (curr_terminal_idx s)" and ?w = "w @ replicate (128 - length w) 0"
  have i: "i < length w" "m = length w - Suc i" using Suc(2) by simp_all
  have c: "aget ?w (int i) = Some (w ! i)" "w ! i \<noteq> 0"
    using i(1) assms nth_mem [of i w] by (simp add: aget_in nth_append, metis)
  obtain s1 where s1: "putc (w ! i) s = Some s1" "edited (cur s) s s1" "screen_of s1 ?c = screen_put True (w ! i) (screen_of s ?c)"
    "display_shows s \<longrightarrow> display_shows s1" using edited_putc [OF Suc(3)] by blast
  obtain x y where cur1: "cur s1 = (cur s)\<lparr>screen_x := x, screen_y := y\<rparr>" using s1(2) unfolding edited_def by blast
  have idx: "curr_terminal_idx s1 = curr_terminal_idx s" by (rule edited_idx [OF s1(2)])
  note k1 = keyboard_okD [OF edited_keyboard_ok [OF s1(2)]]
  define f where "f = (\<lambda>t :: terminal_t. do { b \<leftarrow> aset (typed_buf t) (int i) (w ! i); Some (t\<lparr>typed_buf := b, curr_char_idx := curr_char_idx t + 1\<rparr>) })"
  define t where "t = (cur s1)\<lparr>typed_buf := take (Suc i) w @ replicate (128 - Suc i) 0, curr_char_idx := int (Suc i)\<rparr>"
  have "128 - i = Suc (128 - Suc i)" using i(1) assms(2) by simp
  then have "(take i w @ replicate (128 - i) 0)[i := w ! i] = take (Suc i) w @ replicate (128 - Suc i) 0"
    using i(1) by (simp add: list_update_append take_Suc_conv_app_nth)
  then have ft: "f (cur s1) = Some t"
    using i(1) assms(2) Suc(5,6) by (simp add: f_def t_def cur1 aset_in)
  have "length (take (Suc i) w @ replicate (128 - Suc i) 0) = 128" using i(1) assms(2) by simp
  then have ok: "terminal_ok (nat (curr_terminal_idx s1)) t" "line_ok t"
    using k1 i(1) assms(2) by (simp_all add: t_def line_ok_def terminal_ok_def)
  note u = edited_upd [where f = f, OF edited_keyboard_ok [OF s1(2)] ft ok]
  let ?s2 = "set_cur t s1"
  have same: "screen_of ?s2 j = screen_of s1 j" "display_shows ?s2 = display_shows s1" for j
    using k1(1) t_def by (simp_all add: set_cur_screen)
  obtain s' where s': "type_word ?w (Suc i) ?s2 = Some s'"
    "edited ((cur ?s2)\<lparr>typed_buf := ?w, curr_char_idx := int (length w)\<rparr>) ?s2 s'"
    "screen_of s' ?c = fold (screen_put True) (drop (Suc i) w) (screen_of ?s2 ?c)" "display_shows ?s2 \<longrightarrow> display_shows s'"
    using Suc(1) [OF i(2) u(3)] i(1) u(4) idx by (auto simp: t_def)
  have "edited ((cur s)\<lparr>typed_buf := ?w, curr_char_idx := int (length w)\<rparr>) ?s2 s'"
    by (rule edited_cursor [where x = x and y = y, OF s'(2) [unfolded u(4)]]) (simp add: t_def cur1)
  then have "edited ((cur s)\<lparr>typed_buf := ?w, curr_char_idx := int (length w)\<rparr>) s s'"
    by (rule edited_trans [OF edited_trans [OF s1(2) u(2)]])
  moreover have "type_word ?w i s = Some s'"
    using c s1(1) u(1) s'(1) by (subst type_word.simps) (simp add: f_def [symmetric])
  moreover have "drop i w = w ! i # drop (Suc i) w" using i(1) by (simp add: Cons_nth_drop_Suc)
  ultimately show ?case using s'(3,4) s1(3,4) same by simp
qed

text \<open>The row of the display under the mark, as the click reads it.\<close>

definition clicked_char :: "int \<Rightarrow> 'z console_scheme \<Rightarrow> nat \<Rightarrow> u8" where
  "clicked_char y s j = phys s (video_mem (cur s) + word_of_int (y * 160 + int j * 2))"

definition word_under :: "int \<Rightarrow> 'z console_scheme \<Rightarrow> u8 list \<Rightarrow> bool" where
  "word_under y s w \<longleftrightarrow> (\<forall>j<length w. clicked_char y s j = w ! j \<and> w ! j \<noteq> 0 \<and> w ! j \<noteq> 32)
     \<and> clicked_char y s (length w) \<in> {0, 32}"

lemma clicked_char_cell:
  assumes "keyboard_ok u" "0 \<le> y" "80 * nat y + j < 2000"
  shows "clicked_char y u j = cells (screen_of u (nat (curr_terminal_idx u))) (80 * nat y + j)"
proof -
  let ?i = "nat (curr_terminal_idx u)"
  have e: "y * 160 + int j * 2 = 2 * int (80 * nat y + j)" using assms(2) by simp
  have "clicked_char y u j = phys u (cell (backup ?i) (int (80 * nat y + j)))"
    using keyboard_okD(4) [OF assms(1)] unfolding clicked_char_def cell_def terminal_ok_def e by simp
  also have "\<dots> = page (backup ?i) (phys u) (80 * nat y + j)" using assms(3) by (simp add: page_def)
  finally show ?thesis by (simp add: screen_of_def Let_def)
qed

lemma left_click_eq:
  assumes ok: "keyboard_ok s" and w: "word_under y s w" "length w < 128"
  shows "\<exists>s'. left_click y s = Some s'
    \<and> edited ((cur s)\<lparr>typed_buf := w @ replicate (128 - length w) 0, curr_char_idx := int (length w)\<rparr>) s s'
    \<and> screen_of s' (nat (curr_terminal_idx s)) = fold (screen_put True) w (screen_of s (nat (curr_terminal_idx s)))
    \<and> (display_shows s \<longrightarrow> display_shows s')"
proof -
  note k = keyboard_okD [OF ok]
  let ?b = "w @ replicate (128 - length w) 0" and ?c = "nat (curr_terminal_idx s)"
  have rd: "read_word (clicked_char y s) 0 (replicate 128 0) = Some (length w, ?b)"
    using read_word_stops [of w "clicked_char y s" 128 0] w by (simp add: word_under_def)
  have zero: "aset ?b (int (length w)) 0 = Some ?b"
  proof -
    have "128 - length w = Suc (127 - length w)" using w(2) by simp
    then show ?thesis using w(2) by (simp add: aset_in list_update_append)
  qed
  define t where "t = (cur s)\<lparr>typed_buf := replicate 128 0, curr_char_idx := 0\<rparr>"
  have l: "length (typed_buf (cur s)) = 128" by (rule terminal_okD(1) [OF k(4)])
  have clr: "for_opt 0 128 (\<lambda>i. upd_curr (\<lambda>t. do { b \<leftarrow> aset (typed_buf t) (int i) 0; Some (t\<lparr>typed_buf := b, curr_char_idx := 0\<rparr>) })) s
      = Some (set_cur t s)"
  proof -
    have "Suc 127 = (128 :: nat)" by simp
    from clear_line_loop [OF ok, of 127, unfolded this] l show ?thesis by (simp add: t_def)
  qed
  have t: "terminal_ok ?c t" "line_ok t" using k l by (simp_all add: t_def line_ok_def terminal_ok_def)
  have ok2: "keyboard_ok (set_cur t s)" "cur (set_cur t s) = t" using keyboard_ok_set_cur [OF ok t] k(1) by simp_all
  have scr: "screen_of (set_cur t s) = screen_of s" "display_shows (set_cur t s) = display_shows s"
    using set_cur_screen [OF k(1) t_def] .
  have nz: "0 \<notin> set w" using w(1) by (auto simp: word_under_def in_set_conv_nth)
  obtain s' where s': "type_word ?b 0 (set_cur t s) = Some s'"
    "edited (t\<lparr>typed_buf := ?b, curr_char_idx := int (length w)\<rparr>) (set_cur t s) s'"
    "screen_of s' ?c = fold (screen_put True) w (screen_of s ?c)" "display_shows s \<longrightarrow> display_shows s'"
    using type_word_ok [OF nz w(2) ok2(1), of 0] ok2(2) scr by (auto simp: t_def)
  have "edited (t\<lparr>typed_buf := ?b, curr_char_idx := int (length w)\<rparr>) s s'"
    using edited_trans [OF edited_set_cur [OF ok t] s'(2)] .
  moreover have "t\<lparr>typed_buf := ?b, curr_char_idx := int (length w)\<rparr> = (cur s)\<lparr>typed_buf := ?b, curr_char_idx := int (length w)\<rparr>"
    by (simp add: t_def)
  moreover have "left_click y s = Some s'"
    using rd zero clr s'(1) curr_terminal_eq [OF k(1)] by (simp add: left_click_def clicked_char_def [abs_def])
  ultimately show ?thesis using s'(3,4) by auto
qed

section \<open>The handler\<close>

definition mouse_packet :: "'z mouse_state_scheme \<Rightarrow> u8 \<times> u8 \<times> u8 \<times> u8" where
  "mouse_packet s =
     (let (status, s) = inb 0x64 (cli s); (p0, s) = inb 0x60 s; (p1, s) = inb 0x60 s; (p2, s) = inb 0x60 s in (status, p0, p1, p2))"

lemma marked_frame:
  assumes "sound.more s' = sound.more (s :: 'z mouse_state_scheme)"
  shows "marked s' = marked s" "mouse_x s' = mouse_x s" "mouse_y s' = mouse_y s"
proof -
  show x: "mouse_x s' = mouse_x s" "mouse_y s' = mouse_y s" using assms by (cases s', cases s, simp)+
  note f = console_frame [OF assms] screen_of_frame(1) [OF assms]
  show "marked s' = marked s" by (simp add: marked_def display_def mouse_index_def x f)
qed

lemma mouse_handler_eq:
  assumes c: "keyboard_ok s" and m: "marked s" and p: "mouse_packet s = (status, p0, p1, p2)" "status AND 0x21 = 0x21" "p0 AND 0xC0 = 0"
  shows "\<exists>u. marked u \<and> keyboard_ok u \<and> mouse_x u = clamp_x (mouse_x s + mouse_delta p0 0x10 p1 sdiv 5)
    \<and> mouse_y u = clamp_y (mouse_y s - mouse_delta p0 0x20 p2 sdiv 10) \<and> terminals u = terminals s \<and> curr_terminal_idx u = curr_terminal_idx s
    \<and> (\<forall>i<3. screen_of u i = screen_of s i)
    \<and> mouse_interrupt_handler s = do { v \<leftarrow> (if p0 AND 1 = 1 then left_click (mouse_y u) u else Some u); Some (sti (send_eoi 12 v)) }"
proof -
  define s0 where "s0 = snd (inb 0x64 (cli s))"
  define s1 where "s1 = snd (inb 0x60 s0)"
  define s2 where "s2 = snd (inb 0x60 s1)"
  define s3 where "s3 = snd (inb 0x60 s2)"
  define s4 where "s4 = snd (inb 0x60 s3)"
  have reads: "inb 0x64 (cli s) = (status, s0)" "inb 0x60 s0 = (p0, s1)" "inb 0x60 s1 = (p1, s2)" "inb 0x60 s2 = (p2, s3)"
    using p(1) by (auto simp: mouse_packet_def s0_def s1_def s2_def s3_def case_prod_beta Let_def intro: prod_eqI simp del: fst_inb)
  obtain p3 where p3: "inb 0x60 s3 = (p3, s4)" unfolding s4_def by (cases "inb 0x60 s3") simp
  have "machine.more s4 = machine.more s" by (simp add: s4_def s3_def s2_def s1_def s0_def)
  then have same: "sound.more s4 = sound.more s" "sound_freq s4 = sound_freq s" by (cases s4, cases s, simp)+
  note f = console_frame [OF same(1)] marked_frame [OF same(1)]
  have ok: "console_ok s4" "marked s4" "sound_ok s4"
    using keyboard_okD(1,2) [OF c] m f console_ok_frame [OF same(1)] same(2) by (simp_all add: sound_ok_def)
  obtain e u where u: "erase_mark s4 = Some e" "draw_mark (move_mouse (mouse_delta p0 0x10 p1) (mouse_delta p0 0x20 p2) e) = u"
    "marked u" "console_ok u" "mouse_x u = clamp_x (mouse_x s4 + mouse_delta p0 0x10 p1 sdiv 5)"
    "mouse_y u = clamp_y (mouse_y s4 - mouse_delta p0 0x20 p2 sdiv 10)" "terminals u = terminals s4"
    "\<forall>i<3. screen_of u i = screen_of s4 i" "sound_freq u = sound_freq s4" "curr_terminal_idx u = curr_terminal_idx s4"
    using move_mark [OF ok(1,2)] by blast
  have "keyboard_ok u" using c u(4,7,9) ok(3) f(1) by (simp add: keyboard_ok_def sound_ok_def)
  moreover have "mouse_interrupt_handler s = do { v \<leftarrow> (if p0 AND 1 = 1 then left_click (mouse_y u) u else Some u); Some (sti (send_eoi 12 v)) }"
    unfolding mouse_interrupt_handler_def Let_def reads(1) prod.case reads(2) reads(3) reads(4) p3
    using p(2,3) u(1,2) by simp
  ultimately show ?thesis
    using u(3,5-8,10) f screen_of_frame(1) [OF same(1)] by (intro exI [of _ u]) simp
qed

text \<open>C13. A movement packet without a pressed button moves the mark by a fifth of the horizontal and a tenth of the
  vertical distance, rounded towards zero and kept on the display (past the right edge it lands in
  column 78); the display then shows the mark there and the screen of the terminal everywhere else, and no
  screen has changed.\<close>

theorem mouse_moves_mark:
  assumes "keyboard_ok s" "marked s" "mouse_packet s = (status, p0, p1, p2)" "status AND 0x21 = 0x21" "p0 AND 0xC0 = 0" "p0 AND 1 = 0"
  shows "\<exists>s'. mouse_interrupt_handler s = Some s' \<and> marked s' \<and> keyboard_ok s' \<and> intr_flag s'
    \<and> mouse_x s' = clamp_x (mouse_x s + mouse_delta p0 0x10 p1 sdiv 5)
    \<and> mouse_y s' = clamp_y (mouse_y s - mouse_delta p0 0x20 p2 sdiv 10)
    \<and> (\<forall>i<3. screen_of s' i = screen_of s i)"
proof -
  obtain u where u: "marked u" "keyboard_ok u" "mouse_x u = clamp_x (mouse_x s + mouse_delta p0 0x10 p1 sdiv 5)"
    "mouse_y u = clamp_y (mouse_y s - mouse_delta p0 0x20 p2 sdiv 10)" "\<forall>i<3. screen_of u i = screen_of s i"
    "mouse_interrupt_handler s = do { v \<leftarrow> (if p0 AND 1 = 1 then left_click (mouse_y u) u else Some u); Some (sti (send_eoi 12 v)) }"
    using mouse_handler_eq [OF assms(1-5)] by blast
  define v where "v = sti (send_eoi 12 u)"
  have same: "sound.more v = sound.more u" "sound_freq v = sound_freq u" by (simp_all add: v_def sti_def)
  then show ?thesis
    using u assms(6) marked_frame [OF same(1)] keyboard_ok_frame [OF same] screen_of_frame(1) [OF same(1)]
    by (intro exI [of _ v]) (simp add: v_def)
qed

text \<open>C37. A left click types the first word of the row under the mark: the input line of the displayed terminal becomes
  that word, and it is printed at the cursor. The characters typed before are dropped from the line but
  stay on the screen.\<close>

theorem click_types_word:
  assumes "keyboard_ok s" "marked s" "mouse_packet s = (status, p0, p1, p2)" "status AND 0x21 = 0x21" "p0 AND 0xC0 = 0" "p0 AND 1 = 1"
    and "i = nat (curr_terminal_idx s)" "y = clamp_y (mouse_y s - mouse_delta p0 0x20 p2 sdiv 10)"
    and w: "length w < 80" "\<forall>j<length w. cells (screen_of s i) (80 * nat y + j) = w ! j \<and> w ! j \<noteq> 0 \<and> w ! j \<noteq> 32"
      "cells (screen_of s i) (80 * nat y + length w) \<in> {0, 32}"
  shows "\<exists>s'. mouse_interrupt_handler s = Some s' \<and> keyboard_ok s'
    \<and> take (length w) (typed_buf (terminals s' ! i)) = w \<and> curr_char_idx (terminals s' ! i) = int (length w)
    \<and> screen_of s' i = fold (screen_put True) w (screen_of s i)"
proof -
  obtain u where u: "keyboard_ok u" "mouse_y u = y" "terminals u = terminals s" "curr_terminal_idx u = curr_terminal_idx s"
    "\<forall>i<3. screen_of u i = screen_of s i"
    "mouse_interrupt_handler s = do { v \<leftarrow> (if p0 AND 1 = 1 then left_click (mouse_y u) u else Some u); Some (sti (send_eoi 12 v)) }"
    using mouse_handler_eq [OF assms(1-5)] assms(8) by blast
  note k = keyboard_okD [OF u(1)]
  have i: "i < 3" "nat (curr_terminal_idx u) = i" using console_okD [OF k(1)] assms(7) u(4) by auto
  have y: "0 \<le> y" "y \<le> 24" by (simp_all add: assms(8) clamp_range)
  have chars: "clicked_char y u j = cells (screen_of s i) (80 * nat y + j)" if "j \<le> length w" for j
  proof -
    have "nat y \<le> 24" using y by simp
    then have "80 * nat y + j < 2000" using w(1) that by linarith
    then show ?thesis using clicked_char_cell [OF u(1) y(1), of j] i u(5) by simp
  qed
  then have "word_under y u w" using w by (simp add: word_under_def)
  from left_click_eq [OF u(1) this] w(1) obtain v where v: "left_click y u = Some v"
    "edited ((cur u)\<lparr>typed_buf := w @ replicate (128 - length w) 0, curr_char_idx := int (length w)\<rparr>) u v"
    "screen_of v i = fold (screen_put True) w (screen_of u i)" unfolding i(2) by auto
  obtain a b where cv: "cur v = (cur u)\<lparr>typed_buf := w @ replicate (128 - length w) 0, curr_char_idx := int (length w)\<rparr>\<lparr>screen_x := a, screen_y := b\<rparr>"
    using v(2) unfolding edited_def by blast
  have tv: "terminals v ! i = cur v" using edited_idx [OF v(2)] i(2) by (simp add: cur_def)
  define s' where "s' = sti (send_eoi 12 v)"
  have same: "sound.more s' = sound.more v" "sound_freq s' = sound_freq v" by (simp_all add: s'_def sti_def)
  have "mouse_interrupt_handler s = Some s'" using u(2,6) v(1) assms(6) by (simp add: s'_def)
  then show ?thesis
    using v(3) u(5) i(1) keyboard_ok_frame [OF same] edited_keyboard_ok [OF v(2)] console_frame(1) [OF same(1)] screen_of_frame(1) [OF same(1)] tv cv
    by (intro exI [of _ s']) simp
qed

text \<open>A click on a row that begins with 128 characters without a blank, which takes the row and the next one, writes
  past the end of \<open>temp_buf\<close>.\<close>

theorem click_on_long_word_overflows:
  assumes "keyboard_ok s" "marked s" "mouse_packet s = (status, p0, p1, p2)" "status AND 0x21 = 0x21" "p0 AND 0xC0 = 0" "p0 AND 1 = 1"
    and "i = nat (curr_terminal_idx s)" "y = clamp_y (mouse_y s - mouse_delta p0 0x20 p2 sdiv 10)" "y < 24"
    and chars: "\<forall>j<128. cells (screen_of s i) (80 * nat y + j) \<noteq> 0 \<and> cells (screen_of s i) (80 * nat y + j) \<noteq> 32"
  shows "mouse_interrupt_handler s = None"
proof -
  obtain u where u: "keyboard_ok u" "mouse_y u = y" "curr_terminal_idx u = curr_terminal_idx s" "\<forall>i<3. screen_of u i = screen_of s i"
    "mouse_interrupt_handler s = do { v \<leftarrow> (if p0 AND 1 = 1 then left_click (mouse_y u) u else Some u); Some (sti (send_eoi 12 v)) }"
    using mouse_handler_eq [OF assms(1-5)] assms(8) by blast
  note k = keyboard_okD [OF u(1)]
  have i: "i < 3" "nat (curr_terminal_idx u) = i" using console_okD [OF k(1)] assms(7) u(3) by auto
  have y: "0 \<le> y" by (simp add: assms(8) clamp_range)
  have "clicked_char y u j \<noteq> 0 \<and> clicked_char y u j \<noteq> 32" if "j < 128" for j
  proof -
    have "nat y \<le> 23" using y assms(9) by simp
    then have "80 * nat y + j < 2000" using that by linarith
    then have "clicked_char y u j = cells (screen_of u i) (80 * nat y + j)"
      using clicked_char_cell [OF u(1) y, of j] i(2) by simp
    then show ?thesis using chars that u(4) i(1) by simp
  qed
  then have "(do { (i, buf) \<leftarrow> read_word (clicked_char y u) 0 (replicate 128 0); aset buf (int i) 0 }) = None"
    using read_word_overflows [of 128 "clicked_char y u" 0 "replicate 128 0"] by simp
  then have "left_click y u = None"
    using curr_terminal_eq [OF k(1)]
    by (cases "read_word (clicked_char y u) 0 (replicate 128 0)") (auto simp: left_click_def clicked_char_def [abs_def])
  then show ?thesis using u(2,5) assms(6) by simp
qed

section \<open>Examples\<close>

text \<open>A machine with the mark in the middle of the display, and a mouse that has the packet \<open>p0\<close>, \<open>p1\<close>, \<open>p2\<close> ready.\<close>

definition mouse0 :: "mem \<Rightarrow> u8 \<Rightarrow> u8 \<Rightarrow> u8 \<Rightarrow> mouse_state" where
  "mouse0 m p0 p1 p2 = cpu_tables.extend (boot_tables\<lparr>phys := m, sound_freq := 1200, history := [],
     device := (\<lambda>h port. if port = 0x64 then 0x21 else if length h = 1 then p0 else if length h = 2 then p1 else p2)\<rparr>)
     (mouse_state.fields 40 13)"

lemma mouse0_simps:
  "phys (mouse0 m p0 p1 p2) = m" "terminals (mouse0 m p0 p1 p2) = map terminal0 [0, 1, 2]" "curr_terminal_idx (mouse0 m p0 p1 p2) = 0"
  "mouse_x (mouse0 m p0 p1 p2) = 40" "mouse_y (mouse0 m p0 p1 p2) = 13" "mouse_packet (mouse0 m p0 p1 p2) = (0x21, p0, p1, p2)"
  "console_ok (mouse0 m p0 p1 p2)" "sound_freq (mouse0 m p0 p1 p2) = 1200"
proof -
  have f: "curr_running_terminal_idx (mouse0 m p0 p1 p2) = 0" "temp_curr_running_terminal_idx (mouse0 m p0 p1 p2) = 0"
    "terminals (mouse0 m p0 p1 p2) = map terminal0 [0, 1, 2]" "curr_terminal_idx (mouse0 m p0 p1 p2) = 0"
    by (simp_all add: mouse0_def cpu_tables.defs mouse_state.defs boot_tables_def scheduler.defs boot0_def process.defs)
  show "terminals (mouse0 m p0 p1 p2) = map terminal0 [0, 1, 2]" "curr_terminal_idx (mouse0 m p0 p1 p2) = 0" by (rule f)+
  show "console_ok (mouse0 m p0 p1 p2)" by (auto simp: console_ok_def f lt3)
  show "phys (mouse0 m p0 p1 p2) = m" "mouse_x (mouse0 m p0 p1 p2) = 40" "mouse_y (mouse0 m p0 p1 p2) = 13" "sound_freq (mouse0 m p0 p1 p2) = 1200"
    by (simp_all add: mouse0_def cpu_tables.defs mouse_state.defs)
  have "history (mouse0 m p0 p1 p2) = []"
    "device (mouse0 m p0 p1 p2) = (\<lambda>h port. if port = 0x64 then 0x21 else if length h = 1 then p0 else if length h = 2 then p1 else p2)"
    by (simp_all add: mouse0_def cpu_tables.defs mouse_state.defs)
  then show "mouse_packet (mouse0 m p0 p1 p2) = (0x21, p0, p1, p2)" by (simp add: mouse_packet_def case_prod_beta Let_def)
qed

lemma mouse0_ok:
  assumes "\<And>k. k < 2000 \<Longrightarrow> page VIDEO m k = (if k = 1080 then 63 else page (backup 0) m k)"
  shows "keyboard_ok (mouse0 m p0 p1 p2)" "marked (mouse0 m p0 p1 p2)" "cells (screen_of (mouse0 m p0 p1 p2) 0) = page (backup 0) m"
proof -
  have "line_ok (terminal0 i)" for i by (simp add: line_ok_def terminal0_def)
  then show "keyboard_ok (mouse0 m p0 p1 p2)"
    using mouse0_simps(7) [of m p0 p1 p2] by (auto simp: keyboard_ok_def sound_ok_def mouse0_simps lt3)
  show c: "cells (screen_of (mouse0 m p0 p1 p2) 0) = page (backup 0) m" by (simp add: screen_of_def mouse0_simps Let_def)
  show "marked (mouse0 m p0 p1 p2)"
    using assms c by (simp add: marked_def mouse0_simps display_def mouse_index_def)
qed

lemma blank_page: "b \<in> text_pages \<Longrightarrow> page b (\<lambda>_. c) k = (if k < 2000 then c else 0)"
  by (simp add: page_def)

text \<open>Fifty steps to the left and eleven up.\<close>

theorem mouse_moves_mark_witness:
  "\<exists>s'. mouse_interrupt_handler (mouse0 ((\<lambda>_. 32)(cell VIDEO (int 1080) := 63)) 0x18 206 11) = Some s' \<and> marked s' \<and> mouse_x s' = 30 \<and> mouse_y s' = 12"
proof -
  let ?m = "(\<lambda>_. 32)(cell VIDEO (int 1080) := 63) :: mem"
  have "page VIDEO ?m k = (if k = 1080 then 63 else page (backup 0) ?m k)" if "k < 2000" for k
    using that by (simp add: blank_page del: of_nat_numeral)
  note ok = mouse0_ok [where m = ?m, OF this]
  show ?thesis
    using mouse_moves_mark [OF ok(1,2) mouse0_simps(6), of "0x18" 206 11]
    by (auto simp: mouse0_simps mouse_delta_def clamp_x_def clamp_y_def signed_divide_int_def)
qed

text \<open>\<open>hi\<close> at the beginning of the mark's row.\<close>

theorem click_types_word_witness:
  "\<exists>s'. mouse_interrupt_handler (mouse0 ((\<lambda>_. 32)(cell VIDEO (int 1080) := 63, cell VIDEO (int 1040) := 104, cell VIDEO (int 1041) := 105,
      cell (backup 0) (int 1040) := 104, cell (backup 0) (int 1041) := 105)) 0x09 0 0) = Some s'
    \<and> take 2 (typed_buf (terminals s' ! 0)) = [104, 105] \<and> curr_char_idx (terminals s' ! 0) = 2"
proof -
  let ?m = "(\<lambda>_. 32)(cell VIDEO (int 1080) := 63, cell VIDEO (int 1040) := 104, cell VIDEO (int 1041) := 105,
      cell (backup 0) (int 1040) := 104, cell (backup 0) (int 1041) := 105) :: mem"
  have p: "page VIDEO ?m = (page VIDEO (\<lambda>_. 32))(1080 := 63, 1040 := 104, 1041 := 105)"
    "page (backup 0) ?m = (page (backup 0) (\<lambda>_. 32))(1040 := 104, 1041 := 105)"
    by (simp_all del: of_nat_numeral)
  then have "page VIDEO ?m k = (if k = 1080 then 63 else page (backup 0) ?m k)" if "k < 2000" for k
    using that by (simp add: blank_page)
  note ok = mouse0_ok [where m = ?m, OF this]
  have c: "cells (screen_of (mouse0 ?m 9 0 0) 0) = page (backup 0) ?m" by (rule ok(3))
  have w: "\<forall>j<length [104, 105 :: u8]. cells (screen_of (mouse0 ?m 9 0 0) 0) (80 * nat 13 + j) = [104, 105] ! j
      \<and> [104, 105 :: u8] ! j \<noteq> 0 \<and> [104, 105 :: u8] ! j \<noteq> 32"
    "cells (screen_of (mouse0 ?m 9 0 0) 0) (80 * nat 13 + length [104, 105 :: u8]) \<in> {0, 32}"
    unfolding c p(2) by (auto simp: less_Suc_eq blank_page)
  have y: "13 = clamp_y (mouse_y (mouse0 ?m 9 0 0) - mouse_delta 9 0x20 0 sdiv 10)"
    by (simp add: mouse0_simps mouse_delta_def clamp_y_def signed_divide_int_def)
  have i: "0 = nat (curr_terminal_idx (mouse0 ?m 9 0 0))" by (simp add: mouse0_simps)
  show ?thesis
    using click_types_word [OF ok(1,2) mouse0_simps(6) _ _ _ i y _ w] by (auto simp: numeral_2_eq_2 simp del: of_nat_numeral fun_upd_apply)
qed

theorem click_on_long_word_overflows_witness:
  "mouse_interrupt_handler (mouse0 ((\<lambda>_. 65)(cell VIDEO (int 1080) := 63)) 0x09 0 0) = None"
proof -
  let ?m = "(\<lambda>_. 65)(cell VIDEO (int 1080) := 63) :: mem"
  have "page VIDEO ?m k = (if k = 1080 then 63 else page (backup 0) ?m k)" if "k < 2000" for k
    using that by (simp add: blank_page del: of_nat_numeral)
  note ok = mouse0_ok [where m = ?m, OF this]
  have b: "page (backup 0) ?m = page (backup 0) (\<lambda>_. 65)" by (simp del: of_nat_numeral)
  have s: "cells (screen_of (mouse0 ?m 9 0 0) 0) = page (backup 0) ?m" by (rule ok(3))
  have c: "\<forall>j<128. cells (screen_of (mouse0 ?m 9 0 0) 0) (80 * nat 13 + j) \<noteq> 0 \<and> cells (screen_of (mouse0 ?m 9 0 0) 0) (80 * nat 13 + j) \<noteq> 32"
    unfolding s b by (simp add: blank_page)
  have y: "13 = clamp_y (mouse_y (mouse0 ?m 9 0 0) - mouse_delta 9 0x20 0 sdiv 10)"
    by (simp add: mouse0_simps mouse_delta_def clamp_y_def signed_divide_int_def)
  have i: "0 = nat (curr_terminal_idx (mouse0 ?m 9 0 0))" by (simp add: mouse0_simps)
  show ?thesis
    using click_on_long_word_overflows [OF ok(1,2) mouse0_simps(6) _ _ _ i y _ c] by (simp del: of_nat_numeral fun_upd_apply)
qed

end
