(* ===== verification/TextBar.thy ===== *)
theory TextBar
  imports Font CLib
begin

text \<open>
  The graphics text of \<open>text.c\<close>: \<open>text_buf_build\<close> draws a line of text with the 8x16 font into \<open>text_buf\<close>, the
  320x18 status bar in the four planes of mode X. The theorem relates the planes to the picture.
\<close>

section \<open>text_buf_build\<close>

abbreviation "BAR_SIZE \<equiv> 5760 :: nat"
abbreviation "BACK_COLOR \<equiv> 0x34 :: u8"
abbreviation "FONT_COLOR_T \<equiv> 0x03 :: u8"

text \<open>One character; \<open>place plain row col\<close> is the index of a pixel. A \<open>char\<close> is signed.\<close>

definition draw_char :: "(nat \<Rightarrow> nat \<Rightarrow> nat \<Rightarrow> int) \<Rightarrow> u8 \<Rightarrow> u8 list \<Rightarrow> u8 list option" where
  "draw_char place character text_buf =
     for_opt 1 17 (\<lambda>row_counter text_buf.
       do { (_, text_buf) \<leftarrow> for_opt 0 8 (\<lambda>col_counter (mask :: u32, text_buf).
              do { let plain = col_counter AND 3;
                   line \<leftarrow> aget font_data (sint character);
                   bits \<leftarrow> aget line (int row_counter - 1);
                   text_buf \<leftarrow> (if ucast bits AND mask \<noteq> 0 then aset text_buf (place plain row_counter col_counter) FONT_COLOR_T
                               else Some text_buf);
                   Some (drop_bit 1 mask, text_buf) }) (0x80, text_buf);
            Some text_buf }) text_buf"

definition text_buf_build :: "cstr \<Rightarrow> int \<Rightarrow> u8 list \<Rightarrow> u8 list option" where
  "text_buf_build input type text_buf =
     (if type = 0 then
        do { length \<leftarrow> strlen input;
             text_buf \<leftarrow> array_fill BAR_SIZE BACK_COLOR text_buf;
             for_opt 0 length (\<lambda>counter text_buf.
               do { character \<leftarrow> input counter;
                    draw_char (\<lambda>plain row col. (80 - int length * 2) div 2 + int (plain * (320 * 18 div 4)) + int (row * 80)
                        + int (col div 4) + int (counter * 2)) character text_buf }) text_buf }
      else if type = 1 then
        do { text_buf \<leftarrow> array_fill BAR_SIZE BACK_COLOR text_buf;
             for_opt 0 40 (\<lambda>counter text_buf.
               do { character \<leftarrow> input counter;
                    draw_char (\<lambda>plain row col. int (plain * (BAR_SIZE div 4)) + int (row * 80) + int (col div 4) + int (counter * 2))
                      character text_buf }) text_buf }
      else Some text_buf)"

section \<open>The picture\<close>

text \<open>\<open>painted S b b'\<close>: the entries in \<open>S\<close> have got the font colour, the others are as before.\<close>

definition painted :: "nat set \<Rightarrow> u8 list \<Rightarrow> u8 list \<Rightarrow> bool" where
  "painted S b b' \<longleftrightarrow> length b' = length b \<and> (\<forall>j<length b. b' ! j = (if j \<in> S then FONT_COLOR_T else b ! j))"

lemma painted_empty [simp]: "painted {} b b"
  by (simp add: painted_def)

lemma painted_trans: "painted S b b' \<Longrightarrow> painted T b' b'' \<Longrightarrow> painted (S \<union> T) b b''"
  by (simp add: painted_def)

lemma painted_for:
  assumes "a \<le> n" "\<And>i b'. a \<le> i \<Longrightarrow> i < n \<Longrightarrow> length b' = length b \<Longrightarrow> \<exists>b''. f i b' = Some b'' \<and> painted (S i) b' b''"
  shows "\<exists>b'. for_opt a n f b = Some b' \<and> painted (\<Union>i\<in>{a..<n}. S i) b b'"
proof (rule for_opt_inv [where P = "\<lambda>n. painted (\<Union>i\<in>{a..<n}. S i) b"])
  fix i b' assume i: "a \<le> i" "i < n" and b: "painted (\<Union>i\<in>{a..<i}. S i) b b'"
  then obtain b'' where "f i b' = Some b''" "painted (S i) b' b''" using assms(2) [of i b'] by (auto simp: painted_def)
  moreover have "(\<Union>i\<in>{a..<Suc i}. S i) = (\<Union>i\<in>{a..<i}. S i) \<union> S i" using i(1) by (auto simp: less_Suc_eq)
  ultimately show "\<exists>s'. f i b' = Some s' \<and> painted (\<Union>i\<in>{a..<Suc i}. S i) b s'" using painted_trans [OF b] by auto
qed (use assms(1) in simp_all)

text \<open>Whether the pixel at \<open>row\<close> and \<open>col\<close> of a character is set: the leftmost pixel is the highest bit.\<close>

definition glyph_pixel :: "u8 \<Rightarrow> nat \<Rightarrow> nat \<Rightarrow> bool" where
  "glyph_pixel c row col \<longleftrightarrow> bit (font_data ! unat c ! row) (7 - col)"

lemma mask_tests_pixel: "col < 8 \<Longrightarrow> (ucast (b :: u8) AND drop_bit col (0x80 :: u32) \<noteq> 0) = bit b (7 - col)"
proof -
  assume c: "col < 8"
  then have "col \<in> {0, 1, 2, 3, 4, 5, 6, 7}" by auto
  then have "drop_bit col (0x80 :: u32) = push_bit (7 - col) 1" by auto
  then show ?thesis
    using bit_iff_and_push_bit_not_eq_0 [of "ucast b :: u32" "7 - col"] by (auto simp: bit_ucast_iff simp del: push_bit_of_1)
qed

lemma draw_char_paints:
  assumes c: "unat c < 128"
    and fits: "\<And>row col. 1 \<le> row \<Longrightarrow> row < 17 \<Longrightarrow> col < 8 \<Longrightarrow> place (col AND 3) row col = int (at row col) \<and> at row col < length b"
  shows "\<exists>b'. draw_char place c b = Some b' \<and> painted {at row col | row col. 1 \<le> row \<and> row < 17 \<and> col < 8 \<and> glyph_pixel c (row - 1) col} b b'"
proof -
  define S where "S = (\<lambda>row col. if glyph_pixel c (row - 1) col then {at row col} else {})"
  have u: "uint c < 128" using c unat_eq_nat_uint [of c] by linarith
  have "signed_take_bit 7 (uint c) = uint c"
  proof (rule signed_take_bit_int_eq_self)
    show "- (2 ^ 7) \<le> uint c" by (rule order_trans [OF _ uint_ge_0]) simp
    show "uint c < 2 ^ 7" using u by simp
  qed
  then have i: "sint c = int (unat c)" by (simp add: sint_uint)
  have fd: "aget font_data (sint c) = Some (font_data ! unat c)" "length (font_data ! unat c) = 16"
    using c font_data_shape(1) font_row [of "unat c"] u by (simp_all add: i aget_def)
  let ?row = "\<lambda>row buf. for_opt 0 8 (\<lambda>col (mask :: u32, buf).
      do { let plain = col AND 3;
           line \<leftarrow> aget font_data (sint c);
           bits \<leftarrow> aget line (int row - 1);
           buf \<leftarrow> (if ucast bits AND mask \<noteq> 0 then aset buf (place plain row col) FONT_COLOR_T else Some buf);
           Some (drop_bit 1 mask, buf) }) (0x80, buf)"
  have row: "\<exists>b''. do { (_, b') \<leftarrow> ?row row b'; Some b' } = Some b'' \<and> painted (\<Union>col\<in>{0..<8}. S row col) b' b''"
    if r: "1 \<le> row" "row < 17" and l: "length b' = length b" for row b'
  proof -
    have "\<exists>r. ?row row b' = Some r \<and> (case r of (mk, b'') \<Rightarrow> mk = drop_bit 8 0x80 \<and> painted (\<Union>col\<in>{0..<8}. S row col) b' b'')"
    proof (rule for_opt_inv [where P = "\<lambda>n (mk, b''). mk = drop_bit n 0x80 \<and> painted (\<Union>col\<in>{0..<n}. S row col) b' b''"])
      fix col :: nat and r :: "u32 \<times> u8 list" assume col: "col < 8" and "case r of (mk, b'') \<Rightarrow> mk = drop_bit col 0x80 \<and> painted (\<Union>col\<in>{0..<col}. S row col) b' b''"
      then obtain b'' where r': "r = (drop_bit col 0x80, b'')" and p: "painted (\<Union>col\<in>{0..<col}. S row col) b' b''" by (cases r) auto
      have l': "length b'' = length b" using p l by (simp add: painted_def)
      have line: "aget (font_data ! unat c) (int row - 1) = Some (font_data ! unat c ! (row - 1))"
        using r fd(2) by (simp add: aget_def nat_diff_distrib)
      have px: "(ucast (font_data ! unat c ! (row - 1)) AND drop_bit col (0x80 :: u32) \<noteq> 0) = glyph_pixel c (row - 1) col"
        using mask_tests_pixel [OF col] by (simp add: glyph_pixel_def)
      define b3 where "b3 = (if glyph_pixel c (row - 1) col then b''[at row col := FONT_COLOR_T] else b'')"
      have "painted (S row col) b'' b3" by (auto simp: painted_def b3_def S_def nth_list_update)
      moreover have "(\<Union>col\<in>{0..<Suc col}. S row col) = (\<Union>col\<in>{0..<col}. S row col) \<union> S row col" by (auto simp: less_Suc_eq)
      ultimately have "painted (\<Union>col\<in>{0..<Suc col}. S row col) b' b3" using painted_trans [OF p] by simp
      moreover have "drop_bit 1 (drop_bit col (0x80 :: u32)) = drop_bit (Suc col) 0x80" by simp
      ultimately show "\<exists>r'. (case r of (mk, buf) \<Rightarrow> do { let plain = col AND 3;
           line \<leftarrow> aget font_data (sint c);
           bits \<leftarrow> aget line (int row - 1);
           buf \<leftarrow> (if ucast bits AND mk \<noteq> 0 then aset buf (place plain row col) FONT_COLOR_T else Some buf);
           Some (drop_bit 1 mk, buf) }) = Some r'
        \<and> (case r' of (mk, b'') \<Rightarrow> mk = drop_bit (Suc col) 0x80 \<and> painted (\<Union>col\<in>{0..<Suc col}. S row col) b' b'')"
        using fits [OF r col] px by (cases "glyph_pixel c (row - 1) col") (simp_all add: r' fd(1) line aset_def l' b3_def)
    qed simp_all
    then show ?thesis by auto
  qed
  have "\<exists>b'. draw_char place c b = Some b' \<and> painted (\<Union>row\<in>{1..<17}. \<Union>col\<in>{0..<8}. S row col) b b'"
    unfolding draw_char_def by (rule painted_for) (use row in simp_all)
  moreover have "(\<Union>row\<in>{1..<17}. \<Union>col\<in>{0..<8}. S row col)
      = {at row col | row col. 1 \<le> row \<and> row < 17 \<and> col < 8 \<and> glyph_pixel c (row - 1) col}"
  proof (intro equalityI subsetI)
    fix j assume "j \<in> {at row col | row col. 1 \<le> row \<and> row < 17 \<and> col < 8 \<and> glyph_pixel c (row - 1) col}"
    then obtain row col where "1 \<le> row" "row < 17" "col < 8" "j \<in> S row col" by (auto simp: S_def)
    then show "j \<in> (\<Union>row\<in>{1..<17}. \<Union>col\<in>{0..<8}. S row col)" by fastforce
  qed (fastforce simp: S_def split: if_splits)
  ultimately show ?thesis by simp
qed

text \<open>Where mode X keeps pixel \<open>(x, y)\<close> of the bar, and the pixels of a text drawn from column \<open>left\<close> on.\<close>

definition pixel_index :: "nat \<Rightarrow> nat \<Rightarrow> nat" where
  "pixel_index x y = x mod 4 * 1440 + y * 80 + x div 4"

definition text_pixel :: "nat \<Rightarrow> u8 list \<Rightarrow> nat \<Rightarrow> nat \<Rightarrow> bool" where
  "text_pixel left cs x y \<longleftrightarrow> left \<le> x \<and> x < left + 8 * length cs \<and> 1 \<le> y \<and> y < 17
     \<and> glyph_pixel (cs ! ((x - left) div 8)) (y - 1) ((x - left) mod 8)"

lemma pixel_index_less: "x < 320 \<Longrightarrow> y < 18 \<Longrightarrow> pixel_index x y < 5760"
proof -
  assume "x < 320" "y < 18"
  then have "x mod 4 * 1440 \<le> 3 * 1440" "y * 80 \<le> 17 * 80" "x div 4 < 80" by simp_all
  then show ?thesis by (simp add: pixel_index_def)
qed

lemma pixel_index_inj:
  assumes "pixel_index x y = pixel_index x' y'" "x < 320" "y < 18" "x' < 320" "y' < 18"
  shows "x = x' \<and> y = y'"
proof -
  have r: "(m * n + r) div n = m \<and> (m * n + r) mod n = r" if "r < n" for m n r :: nat using that by simp
  have d: "pixel_index x y div 1440 = x mod 4 \<and> pixel_index x y mod 1440 = y * 80 + x div 4
      \<and> (y * 80 + x div 4) div 80 = y \<and> (y * 80 + x div 4) mod 80 = x div 4" if "x < 320" "y < 18" for x y
  proof -
    have "y * 80 \<le> 17 * 80" "x div 4 < 80" using that by simp_all
    then have "y * 80 + x div 4 < 1440" by linarith
    then show ?thesis
      using r [of "y * 80 + x div 4" 1440 "x mod 4"] r [of "x div 4" 80 y] \<open>x div 4 < 80\<close> by (simp add: pixel_index_def add.assoc)
  qed
  from d [OF assms(2,3)] d [OF assms(4,5)] assms(1) have "x mod 4 = x' mod 4" "y = y'" "x div 4 = x' div 4" by metis+
  then show ?thesis by (metis div_mod_decomp)
qed

lemma draw_text:
  assumes "\<And>i. i < length cs \<Longrightarrow> input i = Some (cs ! i)" "\<forall>c\<in>set cs. unat c < 128" "length b = 5760"
    and room: "int left = 4 * start" "left + 8 * length cs \<le> 320"
  shows "\<exists>b'. for_opt 0 (length cs) (\<lambda>i b. do { c \<leftarrow> input i;
        draw_char (\<lambda>plain row col. start + int (plain * 1440) + int (row * 80) + int (col div 4) + int (i * 2)) c b }) b = Some b'
    \<and> length b' = 5760 \<and> (\<forall>x<320. \<forall>y<18. b' ! pixel_index x y = (if text_pixel left cs x y then 3 else b ! pixel_index x y))"
proof -
  define S where "S = (\<lambda>i. {pixel_index (left + 8 * i + col) row | row col. 1 \<le> row \<and> row < 17 \<and> col < 8 \<and> glyph_pixel (cs ! i) (row - 1) col})"
  have "\<exists>b'. for_opt 0 (length cs) (\<lambda>i b. do { c \<leftarrow> input i;
        draw_char (\<lambda>plain row col. start + int (plain * 1440) + int (row * 80) + int (col div 4) + int (i * 2)) c b }) b = Some b'
      \<and> painted (\<Union>i\<in>{0..<length cs}. S i) b b'"
  proof (rule painted_for)
    fix i and b1 :: "u8 list" assume i: "0 \<le> i" "i < length cs" and l: "length b1 = length b"
    have "unat (cs ! i) < 128" using assms(2) i(2) by simp
    moreover have "start + int ((col AND 3) * 1440) + int (row * 80) + int (col div 4) + int (i * 2)
        = int (pixel_index (left + 8 * i + col) row) \<and> pixel_index (left + 8 * i + col) row < length b1"
      if "1 \<le> row" "row < 17" "col < 8" for row col
    proof
      have "int left mod 4 = 0" "int left div 4 = start" using room(1) by simp_all
      then have "(left + 8 * i + col) mod 4 = col mod 4" "int ((left + 8 * i + col) div 4) = start + int (i * 2) + int (col div 4)"
        by presburger+
      moreover have "col AND 3 = col mod 4" using take_bit_eq_mask [of 2 col] by (simp add: take_bit_eq_mod mask_eq_exp_minus_1)
      ultimately show "start + int ((col AND 3) * 1440) + int (row * 80) + int (col div 4) + int (i * 2) = int (pixel_index (left + 8 * i + col) row)"
        by (simp add: pixel_index_def)
      show "pixel_index (left + 8 * i + col) row < length b1"
        using that i(2) room(2) pixel_index_less [of "left + 8 * i + col" row] by (simp add: l assms(3))
    qed
    ultimately have "\<exists>b2. draw_char (\<lambda>plain row col. start + int (plain * 1440) + int (row * 80) + int (col div 4) + int (i * 2)) (cs ! i) b1
        = Some b2 \<and> painted (S i) b1 b2"
      unfolding S_def by (rule draw_char_paints)
    then show "\<exists>b2. (do { c \<leftarrow> input i;
        draw_char (\<lambda>plain row col. start + int (plain * 1440) + int (row * 80) + int (col div 4) + int (i * 2)) c b1 }) = Some b2
        \<and> painted (S i) b1 b2"
      using assms(1) [OF i(2)] by simp
  qed simp
  moreover have "pixel_index x y \<in> (\<Union>i\<in>{0..<length cs}. S i) \<longleftrightarrow> text_pixel left cs x y" if xy: "x < 320" "y < 18" for x y
  proof
    assume "pixel_index x y \<in> (\<Union>i\<in>{0..<length cs}. S i)"
    then obtain i row col where s: "i < length cs" "pixel_index x y = pixel_index (left + 8 * i + col) row" "1 \<le> row" "row < 17" "col < 8"
      "glyph_pixel (cs ! i) (row - 1) col" by (auto simp: S_def)
    then have "x = left + 8 * i + col \<and> y = row" using room(2) by (intro pixel_index_inj [OF s(2) xy]) simp_all
    then show "text_pixel left cs x y" using s by (simp add: text_pixel_def)
  next
    assume t: "text_pixel left cs x y"
    define i col where "i = (x - left) div 8" and "col = (x - left) mod 8"
    have x: "x = left + 8 * i + col" and i: "i < length cs" and col: "col < 8"
      using t by (auto simp: text_pixel_def i_def col_def less_mult_imp_div_less mult.commute)
    have "1 \<le> y" "y < 17" "glyph_pixel (cs ! i) (y - 1) col" using t by (simp_all add: text_pixel_def i_def col_def)
    then have "pixel_index x y \<in> S i" unfolding S_def x using col by blast
    then show "pixel_index x y \<in> (\<Union>i\<in>{0..<length cs}. S i)" using i by auto
  qed
  ultimately show ?thesis using pixel_index_less assms(3) by (auto simp: painted_def)
qed

text \<open>C16. A text of at most 40 characters is drawn in the middle of the bar (type 0), 40 characters from its left edge on
  (type 1): every pixel has the font colour where the font has a dot and the background colour elsewhere, each in its plane
  of mode X.\<close>

theorem text_buf_build_draws:
  assumes "length text_buf = 5760" "\<forall>c\<in>set cs. unat c < 128" "length cs \<le> 40"
    and "type = 0 \<and> is_cstr input cs \<and> left = 160 - 4 * length cs
      \<or> type = 1 \<and> length cs = 40 \<and> (\<forall>i<40. input i = Some (cs ! i)) \<and> left = 0"
  shows "\<exists>bar. text_buf_build input type text_buf = Some bar \<and> length bar = 5760
    \<and> (\<forall>x<320. \<forall>y<18. bar ! pixel_index x y = (if text_pixel left cs x y then FONT_COLOR_T else BACK_COLOR))"
proof -
  define start where "start = (if type = 0 then (80 - int (length cs) * 2) div 2 else 0)"
  have f: "array_fill BAR_SIZE BACK_COLOR text_buf = Some (replicate 5760 BACK_COLOR)" using assms(1) by (simp add: array_fill_eq)
  have cs: "input i = Some (cs ! i)" if "i < length cs" for i using assms(4) that by (auto simp: is_cstr_def)
  have room: "int left = 4 * start" "left + 8 * length cs \<le> 320" using assms(3,4) by (auto simp: start_def)
  obtain bar where bar: "for_opt 0 (length cs) (\<lambda>i b. do { c \<leftarrow> input i;
        draw_char (\<lambda>plain row col. start + int (plain * 1440) + int (row * 80) + int (col div 4) + int (i * 2)) c b })
      (replicate 5760 BACK_COLOR) = Some bar" "length bar = 5760"
    "\<forall>x<320. \<forall>y<18. bar ! pixel_index x y = (if text_pixel left cs x y then 3 else replicate 5760 BACK_COLOR ! pixel_index x y)"
    using draw_text [OF cs assms(2) _ room, of "replicate 5760 BACK_COLOR"] by auto
  have "text_buf_build input type text_buf = Some bar"
    using assms(4) bar(1) strlen_cstr [of input cs] by (auto simp: text_buf_build_def f start_def)
  then show ?thesis using bar(2,3) pixel_index_less by auto
qed

theorem text_buf_build_draws_witness:
  "\<exists>bar. text_buf_build (arr_get [72, 105, 0]) 0 (replicate 5760 0) = Some bar \<and> bar ! pixel_index 152 3 = 3 \<and> bar ! pixel_index 154 3 = 0x34"
proof -
  have "is_cstr (arr_get [72, 105, 0]) [72, 105]" by (auto simp: is_cstr_def arr_get_def less_Suc_eq)
  then obtain bar where bar: "text_buf_build (arr_get [72, 105, 0]) 0 (replicate 5760 0) = Some bar"
    "\<forall>x<320. \<forall>y<18. bar ! pixel_index x y = (if text_pixel 152 [72, 105] x y then 3 else 0x34)"
    using text_buf_build_draws [of "replicate 5760 0" "[72, 105]" 0 "arr_get [72, 105, 0]" 152] by auto
  have g: "font_data ! 72 ! 2 = 0xC6" by (simp add: font_data_def font_064_def font_000_def nth_append)
  have "text_pixel 152 [72, 105] 152 3" "\<not> text_pixel 152 [72, 105] 154 3" by (simp_all add: text_pixel_def glyph_pixel_def g)
  then show ?thesis using bar by auto
qed

end
