(* ===== verification/Vga.thy ===== *)
theory Vga
  imports Mouse Font
begin

text \<open>
  \<open>modex.c\<close>: the register tables of the two VGA modes and the functions that set them. \<open>phys\<close> holds what the
  program stores at an address; which of its four planes the card puts a byte in is the card's
  business. The abstract view is the register file of the card behind its index and data ports, with
  the write protection of the first CRT controller registers. The theorems show what each mode leaves
  in the registers, and what \<open>set_text_mode_3\<close> stores.
\<close>

section \<open>Tables and operations\<close>

record vga = mouse_state +
  target_img :: u16

definition mode_X_seq :: "u16 list" where
  "mode_X_seq =
   [0x0100, 0x2101, 0x0F02, 0x0003, 0x0604]"

definition mode_X_CRTC :: "u16 list" where
  "mode_X_CRTC =
   [0x5F00, 0x4F01, 0x5002, 0x8203, 0x5404, 0x8005, 0xBF06, 0x1F07,
    0x0008, 0x0109, 0x000A, 0x000B, 0x000C, 0x000D, 0x000E, 0x000F,
    0x9C10, 0x8E11, 0x8F12, 0x2813, 0x0014, 0x9615, 0xB916, 0xE317,
    0x8018]"

definition mode_X_attr :: "u8 list" where
  "mode_X_attr =
   [0x00, 0x00, 0x01, 0x01, 0x02, 0x02, 0x03, 0x03,
    0x04, 0x04, 0x05, 0x05, 0x06, 0x06, 0x07, 0x07,
    0x08, 0x08, 0x09, 0x09, 0x0A, 0x0A, 0x0B, 0x0B,
    0x0C, 0x0C, 0x0D, 0x0D, 0x0E, 0x0E, 0x0F, 0x0F,
    0x10, 0x41, 0x11, 0x00, 0x12, 0x0F, 0x13, 0x00,
    0x14, 0x00, 0x15, 0x00]"

definition mode_X_graphics :: "u16 list" where
  "mode_X_graphics =
   [0x0000, 0x0001, 0x0002, 0x0003, 0x0004, 0x4005, 0x0506, 0x0F07,
    0xFF08]"

definition text_seq :: "u16 list" where
  "text_seq =
   [0x0100, 0x2001, 0x0302, 0x0003, 0x0204]"

definition text_CRTC :: "u16 list" where
  "text_CRTC =
   [0x5F00, 0x4F01, 0x5002, 0x8203, 0x5504, 0x8105, 0xBF06, 0x0F07,
    0x0008, 0x0F09, 0x0D0A, 0x0E0B, 0x000C, 0x000D, 0x000E, 0x000F,
    0x9C10, 0x8E11, 0x8F12, 0x2813, 0x1F14, 0x9615, 0xB916, 0xA317,
    0x0018]"

definition text_attr :: "u8 list" where
  "text_attr =
   [0x00, 0x00, 0x01, 0x01, 0x02, 0x02, 0x03, 0x03,
    0x04, 0x04, 0x05, 0x05, 0x06, 0x06, 0x07, 0x07,
    0x08, 0x08, 0x09, 0x09, 0x0A, 0x0A, 0x0B, 0x0B,
    0x0C, 0x0C, 0x0D, 0x0D, 0x0E, 0x0E, 0x0F, 0x0F,
    0x10, 0x03, 0x11, 0x00, 0x12, 0x01, 0x13, 0x08,
    0x14, 0x00, 0x15, 0x00]"

definition text_graphics :: "u16 list" where
  "text_graphics =
   [0x0000, 0x0001, 0x0002, 0x0003, 0x0004, 0x1005, 0x0E06, 0x0007,
    0xFF08]"

definition palette_mode_x :: "u8 list list" where
  "palette_mode_x =
   [[0, 0, 0], [0, 48, 0], [63, 32, 0], [0, 48, 48], [0, 32, 0], [60, 61, 35],
    [55, 9, 4], [59, 62, 35], [0, 35, 9], [63, 63, 40], [44, 54, 27], [16, 42, 16],
    [3, 11, 32], [17, 35, 23], [32, 36, 35], [63, 58, 30], [36, 43, 37], [61, 9, 11],
    [25, 24, 29], [33, 50, 24], [2, 11, 11], [20, 25, 31], [50, 52, 52], [13, 11, 15],
    [16, 11, 10], [27, 9, 12], [31, 8, 8], [28, 13, 8], [46, 56, 51], [42, 12, 10],
    [26, 20, 25], [1, 39, 12], [58, 9, 5], [49, 33, 29], [29, 38, 38], [12, 39, 20],
    [31, 39, 32], [58, 28, 27], [14, 13, 12], [55, 38, 41], [40, 18, 15], [29, 12, 13],
    [62, 6, 4], [1, 58, 16], [9, 48, 25], [47, 54, 49], [63, 63, 63], [63, 63, 63],
    [63, 63, 63], [63, 63, 63], [63, 63, 63], [63, 63, 63], [63, 63, 63], [63, 63, 63],
    [63, 63, 63], [63, 63, 63], [63, 63, 63], [63, 63, 63], [63, 63, 63], [63, 63, 63],
    [63, 63, 63], [63, 63, 63], [63, 63, 63], [0, 0, 63]]"

definition palette_text :: "u8 list list" where
  "palette_text = replicate 32 [0x3F, 0x3F, 0x3F]"

text \<open>In \<open>outb(0x03C2, val)\<close> and \<open>outb(0x03C8, 0x00)\<close> the arguments are in the order of Linux's macro, not of this
  one: the low byte of the port number goes to port \<open>val\<close>. The models keep that.\<close>

definition set_seq_regs_and_reset :: "u16 list \<Rightarrow> u8 \<Rightarrow> 'z machine_scheme \<Rightarrow> 'z machine_scheme" where
  "set_seq_regs_and_reset table val s =
     (let s = REP_OUTSW 0x03C4 table s;
          s = outb (ucast (0x03C2 :: u32)) (ucast val) s
      in OUTW 0x03C4 0x0300 s)"

definition set_CRTC_registers :: "u16 list \<Rightarrow> 'z machine_scheme \<Rightarrow> 'z machine_scheme" where
  "set_CRTC_registers table s = (let s = OUTW 0x03D4 0x0011 s in REP_OUTSW 0x03D4 table s)"

definition set_attr_registers :: "u8 list \<Rightarrow> 'z machine_scheme \<Rightarrow> 'z machine_scheme" where
  "set_attr_registers table s = (let (_, s) = inb 0x03DA s in REP_OUTSB 0x03C0 table s)"

definition set_graphics_registers :: "u16 list \<Rightarrow> 'z machine_scheme \<Rightarrow> 'z machine_scheme" where
  "set_graphics_registers table s = REP_OUTSW 0x03CE table s"

definition VGA_blank :: "u32 \<Rightarrow> 'z machine_scheme \<Rightarrow> 'z machine_scheme" where
  "VGA_blank blank_bit s =
     (let blank_bit = push_bit 5 (blank_bit AND 1);
          s = outb 1 0x03C4 s;
          (al, s) = inb 0x03C5 s;
          al = al AND 0xDF;
          al = ucast (ucast al OR blank_bit);
          s = outb al 0x03C5 s;
          (_, s) = inb 0x03DA s
      in outb 0x20 0x03C0 s)"

definition fill_palette_text :: "'z machine_scheme \<Rightarrow> 'z machine_scheme" where
  "fill_palette_text s =
     (let s = outb (ucast (0x03C8 :: u32)) 0x00 s in REP_OUTSB 0x03C9 (concat palette_text) s)"

definition fill_palette_mode_x :: "'z machine_scheme \<Rightarrow> 'z machine_scheme" where
  "fill_palette_mode_x s =
     (let s = outb (ucast (0x03C8 :: u32)) 0x00 s in REP_OUTSB 0x03C9 (concat palette_mode_x) s)"

abbreviation "mem_image \<equiv> (0xA0000 :: u32)"

definition write_font_data :: "'z console_scheme \<Rightarrow> 'z console_scheme" where
  "write_font_data s =
     (let s = OUTW 0x3C4 0x0402 s;
          s = OUTW 0x3C4 0x0704 s;
          s = OUTW 0x3CE 0x0005 s;
          s = OUTW 0x3CE 0x0406 s;
          s = OUTW 0x3CE 0x0204 s;
          s = s\<lparr>phys := for_range 0 256 (\<lambda>i. for_range 0 16 (\<lambda>j m.
                 m(mem_image + of_nat (32 * i) + of_nat j := font_data ! i ! j))) (phys s)\<rparr>;
          s = OUTW 0x3C4 0x0302 s;
          s = OUTW 0x3C4 0x0304 s;
          s = OUTW 0x3CE 0x1005 s;
          s = OUTW 0x3CE 0x0E06 s
      in OUTW 0x3CE 0x0004 s)"

definition set_mode_X :: "'z vga_scheme \<Rightarrow> int \<times> 'z vga_scheme" where
  "set_mode_X s =
     (let s = VGA_blank 1 s;
          s = set_seq_regs_and_reset mode_X_seq 0x63 s;
          s = set_CRTC_registers mode_X_CRTC s;
          s = set_attr_registers mode_X_attr s;
          s = set_graphics_registers mode_X_graphics s;
          s = fill_palette_mode_x s;
          s = s\<lparr>phys := memset mem_image 0 65536 (phys s)\<rparr>;
          s = VGA_blank 0 s;
          s = s\<lparr>target_img := target_img s XOR 0x4000\<rparr>;
          s = OUTW 0x03D4 ((target_img s AND 0xFF00) OR 0x0C) s;
          s = OUTW 0x03D4 (push_bit 8 (target_img s AND 0x00FF) OR 0x0D) s
      in (0, s))"

definition set_text_mode_3 :: "int \<Rightarrow> 'z console_scheme \<Rightarrow> 'z console_scheme" where
  "set_text_mode_3 clear_scr s =
     (let s = VGA_blank 1 s;
          s = set_seq_regs_and_reset text_seq 0x63 s;
          s = set_CRTC_registers text_CRTC s;
          s = set_attr_registers text_attr s;
          s = set_graphics_registers text_graphics s;
          s = fill_palette_text s;
          s = (if clear_scr \<noteq> 0 then
                 let txt_scr = mem_image + 0x18000
                 in s\<lparr>phys := for_range 0 15440 (\<lambda>i. store_le 4 0x07200720 (txt_scr + of_nat (4 * i))) (phys s)\<rparr>
               else s);
          s = write_font_data s
      in VGA_blank 0 s)"

section \<open>What the modes store\<close>

text \<open>The bytes of the font behind \<open>mem_image\<close>: 32 for each character, of which the first sixteen are used.\<close>

definition font_cell :: "u32 \<Rightarrow> (nat \<times> nat) option" where
  "font_cell a =
     (let k = unat (a - mem_image) in if k < 8192 \<and> k mod 32 < 16 then Some (k div 32, k mod 32) else None)"

definition with_font :: "mem \<Rightarrow> mem" where
  "with_font m a = (case font_cell a of Some (i, j) \<Rightarrow> font_data ! i ! j | None \<Rightarrow> m a)"

lemma font_row_loop:
  assumes "i < 256"
  shows "for_range 0 16 (\<lambda>j m. m(mem_image + of_nat (32 * i) + of_nat j := f j)) m
    = blit (mem_image + of_nat (32 * i)) 16 f m"
proof (rule for_range_inv [where P = "\<lambda>j m'. m' = blit (mem_image + of_nat (32 * i)) j f m"])
  fix j m' assume "j < 16" "m' = blit (mem_image + of_nat (32 * i)) j f m"
  then show "m'(mem_image + of_nat (32 * i) + of_nat j := f j) = blit (mem_image + of_nat (32 * i)) (Suc j) f m"
    by (simp only:) (rule blit_snoc, simp)
qed simp_all

lemma write_font_loop:
  "for_range 0 256 (\<lambda>i. for_range 0 16 (\<lambda>j m. m(mem_image + of_nat (32 * i) + of_nat j := font_data ! i ! j))) m = with_font m"
proof -
  let ?body = "\<lambda>i. for_range 0 16 (\<lambda>j m. m(mem_image + of_nat (32 * i) + of_nat j := font_data ! i ! j))"
  define P where "P = (\<lambda>n (m' :: mem). \<forall>a. m' a = (case font_cell a of
    Some (i, j) \<Rightarrow> if i < n then font_data ! i ! j else m a | None \<Rightarrow> m a))"
  have "P 256 (for_range 0 256 ?body m)"
  proof (rule for_range_inv [where P = P])
    show "P 0 m" by (simp add: P_def split: option.split)
    fix i m' assume i: "i < 256" and P: "P i m'"
    have "blit (mem_image + of_nat (32 * i)) 16 (\<lambda>j. font_data ! i ! j) m' a
      = (case font_cell a of Some (k, j) \<Rightarrow> if k < Suc i then font_data ! k ! j else m a | None \<Rightarrow> m a)" for a
    proof -
      define k where "k = unat (a - mem_image)"
      have u: "unat (of_nat (32 * i) :: u32) = 32 * i" using i by (intro unat_of_nat_u32) simp
      have k: "k < 4294967296" unfolding k_def by (rule unat_lt_u32)
      have "a - (mem_image + w) = (a - mem_image) - w" for w by simp
      then have d: "unat (a - (mem_image + of_nat (32 * i))) = (if 32 * i \<le> k then k - 32 * i else 4294967296 + k - 32 * i)"
        using unat_sub_u32 [of "a - mem_image" "of_nat (32 * i)"] u unfolding k_def by presburger
      have m': "m' a = (case font_cell a of Some (i', j) \<Rightarrow> if i' < i then font_data ! i' ! j else m a | None \<Rightarrow> m a)"
        using P by (simp add: P_def)
      have cell: "font_cell a = (if k < 8192 \<and> k mod 32 < 16 then Some (k div 32, k mod 32) else None)"
        by (simp add: font_cell_def k_def Let_def)
      define x where "x = unat (a - (mem_image + of_nat (32 * i)))"
      have b: "blit (mem_image + of_nat (32 * i)) 16 (\<lambda>j. font_data ! i ! j) m' a = (if x < 16 then font_data ! i ! x else m' a)"
        unfolding blit_def x_def ..
      note x = d [folded x_def]
      show ?thesis
      proof (cases "32 * i \<le> k \<and> k - 32 * i < 16")
        case True
        then have "k div 32 = i" "k mod 32 = k - 32 * i" using div_nat_eqI [of 32 i k] by (auto simp: minus_div_mult_eq_mod [symmetric] mult.commute)
        moreover have "k < 8192" using True i by arith
        ultimately show ?thesis using True i unfolding b x cell by simp
      next
        case False
        then have n: "\<not> x < 16" using i k by (auto simp: x)
        have "k div 32 \<noteq> i" if "k mod 32 < 16"
          using that False minus_mult_div_eq_mod [of k 32] by auto
        then show ?thesis using n unfolding b m' by (auto simp: cell less_Suc_eq)
      qed
    qed
    then show "P (Suc i) (?body i m')" using font_row_loop [OF i] by (simp add: P_def)
  qed simp
  moreover have "i < 256" if "font_cell a = Some (i, j)" for a i j
    using that by (auto simp: font_cell_def Let_def split: if_splits)
  ultimately show ?thesis by (force simp: P_def with_font_def split: option.split)
qed

text \<open>The words that blank the text pages.\<close>

lemma store_words:
  assumes "4 * n \<le> 4294967296"
  shows "for_range 0 n (\<lambda>i. store_le 4 v (b + of_nat (4 * i))) m
    = blit b (4 * n) (\<lambda>k. ucast (drop_bit (8 * (k mod 4)) v)) m"
proof (rule for_range_inv [where P = "\<lambda>i m'. m' = blit b (4 * i) (\<lambda>k. ucast (drop_bit (8 * (k mod 4)) v)) m"])
  fix i m' assume i: "i < n" and m': "m' = blit b (4 * i) (\<lambda>k. ucast (drop_bit (8 * (k mod 4)) v)) m"
  have "store_le 4 v (b + of_nat (4 * i)) m'
    = blit (b + of_nat (4 * i)) 4 (\<lambda>k. ucast (drop_bit (8 * ((4 * i + k) mod 4)) v)) m'"
    unfolding store_le_blit [OF order_refl] by (rule blit_cong) simp
  also have "\<dots> = blit b (4 * i + 4) (\<lambda>k. ucast (drop_bit (8 * (k mod 4)) v)) m"
    unfolding m' using assms i by (intro blit_blit) simp
  finally show "store_le 4 v (b + of_nat (4 * i)) m' = blit b (4 * Suc i) (\<lambda>k. ucast (drop_bit (8 * (k mod 4)) v)) m"
    by (simp add: add.commute)
qed simp_all

lemma io_frame [simp]:
  "phys (outb d p s) = phys s" "phys (OUTW p w s) = phys s" "phys (snd (inb p s)) = phys s"
  "terminals (OUTW p w s) = terminals s"
  by (simp_all add: io_defs)

lemma rep_out_more [simp]:
  "machine.more (REP_OUTSB p xs s) = machine.more s" "machine.more (REP_OUTSW p ws s) = machine.more s"
proof -
  show "machine.more (REP_OUTSB p xs s) = machine.more s"
    unfolding REP_OUTSB_def by (induction xs arbitrary: s) simp_all
  show "machine.more (REP_OUTSW p ws s) = machine.more s"
    unfolding REP_OUTSW_def by (induction ws arbitrary: s) simp_all
qed

section \<open>The register file of the card\<close>

text \<open>Each of the four register groups has an index and data registers. A word written to an index port sets both.
  Reading 0x3DA makes the attribute port expect an index next. While bit 7 of CRT controller
  register 0x11 is set, registers 0 to 6 ignore writes and register 7 takes only bit 4.\<close>

record vga_card =
  seq_index :: u8
  seq_regs :: "u8 \<Rightarrow> u8"
  crtc_index :: u8
  crtc_regs :: "u8 \<Rightarrow> u8"
  gfx_index :: u8
  gfx_regs :: "u8 \<Rightarrow> u8"
  attr_data :: bool
  attr_index :: u8
  attr_regs :: "u8 \<Rightarrow> u8"

definition crtc_write :: "u8 \<Rightarrow> u8 \<Rightarrow> (u8 \<Rightarrow> u8) \<Rightarrow> u8 \<Rightarrow> u8" where
  "crtc_write i v r =
     (if bit (r 0x11) 7 \<and> i < 7 then r
      else if bit (r 0x11) 7 \<and> i = 7 then r(7 := (r 7 AND 0xEF) OR (v AND 0x10))
      else r(i := v))"

definition card_byte :: "u16 \<Rightarrow> u8 \<Rightarrow> vga_card \<Rightarrow> vga_card" where
  "card_byte p v c =
     (if p = 0x3C4 then c\<lparr>seq_index := v\<rparr>
      else if p = 0x3C5 then c\<lparr>seq_regs := (seq_regs c)(seq_index c := v)\<rparr>
      else if p = 0x3D4 then c\<lparr>crtc_index := v\<rparr>
      else if p = 0x3D5 then c\<lparr>crtc_regs := crtc_write (crtc_index c) v (crtc_regs c)\<rparr>
      else if p = 0x3CE then c\<lparr>gfx_index := v\<rparr>
      else if p = 0x3CF then c\<lparr>gfx_regs := (gfx_regs c)(gfx_index c := v)\<rparr>
      else if p = 0x3C0 then
        (if attr_data c then c\<lparr>attr_data := False, attr_regs := (attr_regs c)(attr_index c AND 0x1F := v)\<rparr>
         else c\<lparr>attr_data := True, attr_index := v\<rparr>)
      else c)"

fun card_event :: "io_event \<Rightarrow> vga_card \<Rightarrow> vga_card" where
  "card_event (Out8 p v) c = card_byte p v c"
| "card_event (Out16 p w) c = card_byte (p + 1) (ucast (drop_bit 8 w)) (card_byte p (ucast w) c)"
| "card_event (In8 p v) c = (if p = 0x3DA then c\<lparr>attr_data := False\<rparr> else c)"

definition card_state :: "vga_card \<Rightarrow> 'z machine_scheme \<Rightarrow> vga_card" where
  "card_state c s = fold card_event (history s) c"

lemma card_io [simp]:
  "card_state c (outb d p s) = card_byte p d (card_state c s)"
  "card_state c (OUTW p w s) = card_event (Out16 p w) (card_state c s)"
  "card_state c (snd (inb p s)) = (if p = 0x3DA then (card_state c s)\<lparr>attr_data := False\<rparr> else card_state c s)"
  by (simp_all add: card_state_def)

lemma card_history: "history t = history s \<Longrightarrow> card_state c t = card_state c s"
  by (simp add: card_state_def)

lemma card_REP_OUTSW: "card_state c (REP_OUTSW p ws s) = fold (\<lambda>w. card_event (Out16 p w)) ws (card_state c s)"
  unfolding REP_OUTSW_def by (induction ws arbitrary: s) simp_all

lemma card_REP_OUTSB: "card_state c (REP_OUTSB p bs s) = fold (card_byte p) bs (card_state c s)"
  unfolding REP_OUTSB_def by (induction bs arbitrary: s) simp_all

text \<open>A table of words for an index port: register \<open>i\<close> gets the high byte of entry \<open>i\<close>.\<close>

definition high_bytes :: "u16 list \<Rightarrow> u8 list" where
  "high_bytes ws = map (\<lambda>w. ucast (drop_bit 8 w)) ws"

definition indexed :: "u16 list \<Rightarrow> bool" where
  "indexed ws \<longleftrightarrow> (map ucast ws :: u8 list) = map of_nat [0..<length ws]"

lemma tables_indexed:
  "indexed mode_X_seq" "indexed text_seq" "indexed mode_X_CRTC" "indexed text_CRTC"
  "indexed mode_X_graphics" "indexed text_graphics"
  by (simp_all add: indexed_def mode_X_seq_def text_seq_def mode_X_CRTC_def text_CRTC_def mode_X_graphics_def
      text_graphics_def upt_rec)

lemma table_lengths [simp]:
  "length mode_X_seq = 5" "length text_seq = 5" "length mode_X_CRTC = 25" "length text_CRTC = 25"
  "length mode_X_graphics = 9" "length text_graphics = 9"
  by (simp_all add: mode_X_seq_def text_seq_def mode_X_CRTC_def text_CRTC_def mode_X_graphics_def text_graphics_def)

lemma nth_table:
  assumes "indexed ws" "i < length ws"
  shows "(ucast (ws ! i) :: u8) = of_nat i"
proof -
  have "(map ucast ws :: u8 list) ! i = map of_nat [0..<length ws] ! i" using assms(1) by (simp only: indexed_def)
  then show ?thesis using assms(2) by simp
qed

lemma unat_of_nat_u8: "i < 256 \<Longrightarrow> unat (of_nat i :: u8) = i"
  by (simp add: unat_of_nat)

lemma of_nat_u8_inj: "i < 256 \<Longrightarrow> j < 256 \<Longrightarrow> (of_nat i = (of_nat j :: u8)) = (i = j)"
  by (metis unat_of_nat_u8)

definition table_regs :: "u16 list \<Rightarrow> nat \<Rightarrow> (u8 \<Rightarrow> u8) \<Rightarrow> u8 \<Rightarrow> u8" where
  "table_regs ws n r i = (if unat i < n then ucast (drop_bit 8 (ws ! unat i)) else r i)"

lemma table_regs_Suc:
  "n < 256 \<Longrightarrow> (table_regs ws n r)(of_nat n := ucast (drop_bit 8 (ws ! n))) = table_regs ws (Suc n) r"
  by (auto simp: table_regs_def fun_eq_iff less_Suc_eq unat_of_nat_u8)

lemma crtc_table:
  assumes t: "indexed ws" "length ws \<le> 256" and free: "\<not> bit (r 0x11) 7" and n: "n \<le> length ws"
  shows "fold (\<lambda>w. crtc_write (ucast w) (ucast (drop_bit 8 w))) (take n ws) r = table_regs ws n r"
  using n
proof (induction n)
  case 0
  then show ?case by (simp add: table_regs_def fun_eq_iff)
next
  case (Suc n)
  have i: "(ucast (ws ! n) :: u8) = of_nat n" using Suc.prems t(1) by (intro nth_table) simp_all
  have n: "n < 256" using Suc.prems t(2) by simp
  have "crtc_write (of_nat n) v (table_regs ws n r) = (table_regs ws n r)(of_nat n := v)" for v
  proof (cases "n < 8")
    case True
    then have "\<not> unat (0x11 :: u8) < n" by simp
    then have "\<not> bit (table_regs ws n r 0x11) 7" using free by (simp add: table_regs_def)
    then show ?thesis by (simp add: crtc_write_def)
  next
    case False
    then have "\<not> (of_nat n :: u8) < 7" "(of_nat n :: u8) \<noteq> 7"
      using n of_nat_u8_inj [of n 7] by (auto simp: word_less_nat_alt unat_of_nat_u8)
    then show ?thesis by (simp add: crtc_write_def)
  qed
  then show ?case using Suc n by (simp add: take_Suc_conv_app_nth i table_regs_Suc)
qed

text \<open>One group at a time: what each function of the driver leaves.\<close>

lemma card_eqI:
  "seq_index c = seq_index d \<Longrightarrow> seq_regs c = seq_regs d \<Longrightarrow> crtc_index c = crtc_index d \<Longrightarrow> crtc_regs c = crtc_regs d \<Longrightarrow>
   gfx_index c = gfx_index d \<Longrightarrow> gfx_regs c = gfx_regs d \<Longrightarrow> attr_data c = attr_data d \<Longrightarrow> attr_index c = attr_index d \<Longrightarrow>
   attr_regs c = attr_regs d \<Longrightarrow> c = (d :: vga_card)"
  by simp

lemma card_words:
  "card_event (Out16 0x3C4 w) c = c\<lparr>seq_index := ucast w, seq_regs := (seq_regs c)(ucast w := ucast (drop_bit 8 w))\<rparr>"
  "card_event (Out16 0x3D4 w) c = c\<lparr>crtc_index := ucast w, crtc_regs := crtc_write (ucast w) (ucast (drop_bit 8 w)) (crtc_regs c)\<rparr>"
  "card_event (Out16 0x3CE w) c = c\<lparr>gfx_index := ucast w, gfx_regs := (gfx_regs c)(ucast w := ucast (drop_bit 8 w))\<rparr>"
  by (simp_all add: card_byte_def)

lemma crtc_fold:
  "fold (\<lambda>w. card_event (Out16 0x3D4 w)) ws c = c\<lparr>crtc_index := (if ws = [] then crtc_index c else ucast (last ws)),
     crtc_regs := fold (\<lambda>w. crtc_write (ucast w) (ucast (drop_bit 8 w))) ws (crtc_regs c)\<rparr>"
  by (induction ws arbitrary: c) (simp_all add: card_words del: card_event.simps)

lemma card_set_CRTC:
  assumes t: "indexed ws" "length ws = 25"
  shows "\<exists>i r. card_state c (set_CRTC_registers ws s) = (card_state c s)\<lparr>crtc_index := i, crtc_regs := table_regs ws 25 r\<rparr>"
proof -
  define k where "k = card_event (Out16 0x3D4 0x0011) (card_state c s)"
  have "\<not> bit (crtc_regs k 0x11) 7"
    unfolding k_def card_words by (simp add: crtc_write_def)
  moreover have "card_state c (set_CRTC_registers ws s) = fold (\<lambda>w. card_event (Out16 0x3D4 w)) ws k"
    by (simp add: set_CRTC_registers_def card_REP_OUTSW k_def del: card_event.simps)
  moreover have "k\<lparr>crtc_index := i, crtc_regs := r\<rparr> = (card_state c s)\<lparr>crtc_index := i, crtc_regs := r\<rparr>" for i r
    unfolding k_def card_words by simp
  ultimately show ?thesis
    using crtc_table [OF t(1), of "crtc_regs k" 25] t(2) unfolding crtc_fold by (intro exI) (simp add: t)
qed

definition put_reg :: "u16 \<Rightarrow> (u8 \<Rightarrow> u8) \<Rightarrow> u8 \<Rightarrow> u8" where
  "put_reg w r = r(ucast w := ucast (drop_bit 8 w))"

lemma plain_table:
  assumes t: "indexed ws" "length ws \<le> 256" and n: "n \<le> length ws"
  shows "fold put_reg (take n ws) r = table_regs ws n r"
  using n
proof (induction n)
  case 0
  then show ?case by (simp add: table_regs_def fun_eq_iff)
next
  case (Suc n)
  have "(ucast (ws ! n) :: u8) = of_nat n" using Suc.prems t(1) by (intro nth_table) simp_all
  then have "put_reg (ws ! n) r = r(of_nat n := ucast (drop_bit 8 (ws ! n)))" for r by (simp add: put_reg_def)
  then show ?case using Suc t(2) by (simp add: take_Suc_conv_app_nth table_regs_Suc)
qed

lemma gfx_fold:
  "fold (\<lambda>w. card_event (Out16 0x3CE w)) ws c = c\<lparr>gfx_index := (if ws = [] then gfx_index c else ucast (last ws)),
     gfx_regs := fold put_reg ws (gfx_regs c)\<rparr>"
  by (induction ws arbitrary: c) (simp_all add: card_words put_reg_def del: card_event.simps)

lemma seq_fold:
  "fold (\<lambda>w. card_event (Out16 0x3C4 w)) ws c = c\<lparr>seq_index := (if ws = [] then seq_index c else ucast (last ws)),
     seq_regs := fold put_reg ws (seq_regs c)\<rparr>"
  by (induction ws arbitrary: c) (simp_all add: card_words put_reg_def del: card_event.simps)

lemma low_bytes [simp]:
  "(0x0300 :: u8) = 0" "(0x0402 :: u8) = 2" "(0x0704 :: u8) = 4" "(0x0302 :: u8) = 2" "(0x0304 :: u8) = 4"
  "(0x0406 :: u8) = 6" "(0x0204 :: u8) = 4" "(0x1005 :: u8) = 5" "(0x0E06 :: u8) = 6"
  by simp_all

lemma card_byte_other: "p \<notin> {0x3C4, 0x3C5, 0x3D4, 0x3D5, 0x3CE, 0x3CF, 0x3C0} \<Longrightarrow> card_byte p v c = c"
  by (simp add: card_byte_def)

lemma card_set_graphics:
  assumes "indexed ws" "length ws = 9"
  shows "\<exists>i. card_state c (set_graphics_registers ws s) = (card_state c s)\<lparr>gfx_index := i, gfx_regs := table_regs ws 9 (gfx_regs (card_state c s))\<rparr>"
  using plain_table [OF assms(1), of 9 "gfx_regs (card_state c s)"] assms(2)
  unfolding set_graphics_registers_def card_REP_OUTSW gfx_fold by (intro exI) simp

lemma card_set_seq:
  assumes "indexed ws" "length ws = 5"
  shows "card_state c (set_seq_regs_and_reset ws 0x63 s)
    = (card_state c s)\<lparr>seq_index := 0, seq_regs := (table_regs ws 5 (seq_regs (card_state c s)))(0 := 3)\<rparr>"
proof -
  have "card_state c (set_seq_regs_and_reset ws 0x63 s) = card_event (Out16 0x3C4 0x0300) (fold (\<lambda>w. card_event (Out16 0x3C4 w)) ws (card_state c s))"
    by (simp add: set_seq_regs_and_reset_def card_REP_OUTSW card_byte_other del: card_event.simps)
  then show ?thesis
    using plain_table [OF assms(1), of 5 "seq_regs (card_state c s)"] assms(2)
    unfolding seq_fold by (simp add: card_words del: card_event.simps)
qed

definition attr_table :: "u8 list \<Rightarrow> nat \<Rightarrow> (u8 \<Rightarrow> u8) \<Rightarrow> u8 \<Rightarrow> u8" where
  "attr_table bs n r i = (if unat i < n then bs ! (2 * unat i + 1) else r i)"

lemma attr_fold:
  assumes bs: "\<forall>i<22. bs ! (2 * i) = of_nat i" "length bs = 44" and c: "\<not> attr_data c" and n: "n \<le> 22"
  shows "\<exists>i. fold (card_byte 0x3C0) (take (2 * n) bs) c = c\<lparr>attr_index := i, attr_regs := attr_table bs n (attr_regs c)\<rparr>"
  using n
proof (induction n)
  case 0
  have "attr_table bs 0 r = r" for r by (simp add: attr_table_def fun_eq_iff)
  then show ?case by (intro exI [of _ "attr_index c"]) simp
next
  case (Suc n)
  then obtain i where IH: "fold (card_byte 0x3C0) (take (2 * n) bs) c = c\<lparr>attr_index := i, attr_regs := attr_table bs n (attr_regs c)\<rparr>"
    by auto
  have t: "take (2 * Suc n) bs = take (2 * n) bs @ [of_nat n, bs ! (2 * n + 1)]"
    using Suc.prems bs by (simp add: take_Suc_conv_app_nth)
  have "(of_nat n :: u8) AND 0x1F = of_nat n"
  proof -
    have "n < 32" using Suc.prems by simp
    then have "take_bit 5 n = n" by (simp add: take_bit_nat_eq_self)
    then have "take_bit 5 (of_nat n :: u8) = of_nat n" by (metis take_bit_of_nat)
    then show ?thesis by (simp add: take_bit_eq_mask mask_eq_exp_minus_1)
  qed
  moreover have "(attr_table bs n r)(of_nat n := bs ! (2 * n + 1)) = attr_table bs (Suc n) r" for r
    using Suc.prems by (auto simp: attr_table_def fun_eq_iff less_Suc_eq unat_of_nat_u8)
  ultimately show ?case using c unfolding t fold_append comp_def IH by (intro exI [of _ "of_nat n"]) (simp add: card_byte_def)
qed

lemma attr_tables:
  "\<forall>i<22. mode_X_attr ! (2 * i) = of_nat i" "\<forall>i<22. text_attr ! (2 * i) = of_nat i"
  "length mode_X_attr = 44" "length text_attr = 44"
proof -
  have "map (\<lambda>i. mode_X_attr ! (2 * i)) [0..<22] = map of_nat [0..<22]" "map (\<lambda>i. text_attr ! (2 * i)) [0..<22] = map of_nat [0..<22]"
    by (simp_all add: mode_X_attr_def text_attr_def upt_rec)
  then show "\<forall>i<22. mode_X_attr ! (2 * i) = of_nat i" "\<forall>i<22. text_attr ! (2 * i) = of_nat i"
    by (simp_all add: map_eq_conv)
qed (simp_all add: mode_X_attr_def text_attr_def)

lemma card_set_attr:
  assumes "\<forall>i<22. bs ! (2 * i) = of_nat i" "length bs = 44"
  shows "\<exists>i. card_state c (set_attr_registers bs s)
    = (card_state c s)\<lparr>attr_data := False, attr_index := i, attr_regs := attr_table bs 22 (attr_regs (card_state c s))\<rparr>"
proof -
  have "card_state c (set_attr_registers bs s) = fold (card_byte 0x3C0) (take (2 * 22) bs) ((card_state c s)\<lparr>attr_data := False\<rparr>)"
    using assms(2) by (simp add: set_attr_registers_def card_REP_OUTSB split_def)
  then show ?thesis using attr_fold [OF assms, of "(card_state c s)\<lparr>attr_data := False\<rparr>" 22] by simp
qed

lemma card_blank:
  "\<exists>v. card_state c (VGA_blank b s) = (card_state c s)\<lparr>seq_index := 1, seq_regs := (seq_regs (card_state c s))(1 := v),
     attr_data := True, attr_index := 0x20\<rparr> \<and> (bit v 5 \<longleftrightarrow> bit b 0)"
proof -
  define v where "v = (ucast (ucast (device s (history s @ [Out8 0x3C4 1]) 0x3C5 AND 0xDF) OR push_bit 5 (b AND 1) :: u32) :: u8)"
  have "bit v 5 \<longleftrightarrow> bit b 0" unfolding v_def by (simp add: bit_simps)
  moreover have "card_state c (VGA_blank b s) = (card_state c s)\<lparr>seq_index := 1, seq_regs := (seq_regs (card_state c s))(1 := v),
     attr_data := True, attr_index := 0x20\<rparr>"
    by (simp add: VGA_blank_def split_def Let_def card_byte_def v_def)
  ultimately show ?thesis by blast
qed

lemma card_palette [simp]:
  "card_state c (fill_palette_text s) = card_state c s" "card_state c (fill_palette_mode_x s) = card_state c s"
proof -
  have "fold (card_byte 0x3C9) bs k = k" for bs k by (induction bs) (simp_all add: card_byte_other)
  then show "card_state c (fill_palette_text s) = card_state c s" "card_state c (fill_palette_mode_x s) = card_state c s"
    by (simp_all add: fill_palette_text_def fill_palette_mode_x_def card_REP_OUTSB card_byte_other)
qed

lemma card_phys [simp]: "card_state c (phys_update f s) = card_state c s" "card_state c (target_img_update g t) = card_state c t"
  by (simp_all add: card_state_def)

lemma card_font:
  "card_state c (write_font_data s) = (card_state c s)\<lparr>seq_index := 4, seq_regs := (seq_regs (card_state c s))(2 := 3, 4 := 3),
     gfx_index := 4, gfx_regs := (gfx_regs (card_state c s))(5 := 0x10, 6 := 0x0E, 4 := 0)\<rparr>"
  by (simp add: write_font_data_def Let_def card_words fun_upd_twist del: card_event.simps)

text \<open>Which ports have been written.\<close>

definition addressed :: "u16 \<Rightarrow> 'z machine_scheme \<Rightarrow> bool" where
  "addressed p s \<longleftrightarrow> (\<exists>v w. Out8 p v \<in> set (history s) \<or> Out16 p w \<in> set (history s))"

lemma addressed_io [simp]:
  "addressed p (outb d q s) \<longleftrightarrow> p = q \<or> addressed p s" "addressed p (OUTW q w s) \<longleftrightarrow> p = q \<or> addressed p s"
  "addressed p (snd (inb q s)) \<longleftrightarrow> addressed p s"
  by (auto simp: addressed_def)

lemma addressed_rep [simp]:
  "p \<noteq> q \<Longrightarrow> addressed p (REP_OUTSB q bs s) \<longleftrightarrow> addressed p s" "p \<noteq> q \<Longrightarrow> addressed p (REP_OUTSW q ws s) \<longleftrightarrow> addressed p s"
proof -
  assume "p \<noteq> q"
  then show "addressed p (REP_OUTSB q bs s) \<longleftrightarrow> addressed p s"
    unfolding REP_OUTSB_def by (induction bs arbitrary: s) simp_all
  show "addressed p (REP_OUTSW q ws s) \<longleftrightarrow> addressed p s"
    using \<open>p \<noteq> q\<close> unfolding REP_OUTSW_def by (induction ws arbitrary: s) simp_all
qed

lemma addressed_phys [simp]: "addressed p (phys_update f s) = addressed p s" "addressed p (target_img_update g t) = addressed p t"
  by (simp_all add: addressed_def)

lemmas vga_operations = VGA_blank_def set_seq_regs_and_reset_def set_CRTC_registers_def set_attr_registers_def
  set_graphics_registers_def fill_palette_text_def fill_palette_mode_x_def write_font_data_def


lemma same_more:
  fixes s t :: "'z vga_scheme"
  assumes "machine.more s = machine.more t"
  shows "phys s = phys t" "target_img s = target_img t"
  using assms by (cases s, cases t, simp)+

lemma start_address_words:
  fixes g :: u16
  shows "(ucast ((g AND 0xFF00) OR 0x0C) :: u8) = 0x0C" "(ucast (drop_bit 8 ((g AND 0xFF00) OR 0x0C)) :: u8) = ucast (drop_bit 8 g)"
    "(ucast (push_bit 8 (g AND 0x00FF) OR 0x0D) :: u8) = 0x0D" "(ucast (drop_bit 8 (push_bit 8 (g AND 0x00FF) OR 0x0D)) :: u8) = ucast g"
proof -
  have m: "(0xFF00 :: u16) = push_bit 8 (mask 8)" "(0x00FF :: u16) = mask 8" by (simp_all add: mask_eq_exp_minus_1 push_bit_eq_mult)
  have h: "\<not> bit (12 :: u16) (8 + n)" "\<not> bit (13 :: u16) (8 + n)" for n by (simp_all add: bit_numeral_rec bit_1_iff)
  have l: "bit (12 :: u16) n = bit (12 :: u8) n" "bit (13 :: u16) n = bit (13 :: u8) n" if "n < 8" for n
    using that by (simp_all add: less_Suc_eq numeral_eq_Suc)
  show "(ucast ((g AND 0xFF00) OR 0x0C) :: u8) = 0x0C" "(ucast (push_bit 8 (g AND 0x00FF) OR 0x0D) :: u8) = 0x0D"
    unfolding m by (rule bit_word_eqI, use l in \<open>auto simp: bit_simps\<close>)+
  show "(ucast (drop_bit 8 ((g AND 0xFF00) OR 0x0C)) :: u8) = ucast (drop_bit 8 g)"
    "(ucast (drop_bit 8 (push_bit 8 (g AND 0x00FF) OR 0x0D)) :: u8) = ucast g"
    unfolding m by (rule bit_word_eqI, use h in \<open>auto simp: bit_simps\<close>)+
qed

lemma mode_X_more:
  "fst (set_mode_X s) = 0"
  "machine.more (snd (set_mode_X s)) = machine.more (s\<lparr>phys := blit mem_image 65536 (\<lambda>_. 0) (phys s), target_img := target_img s XOR 0x4000\<rparr>)"
proof -
  define s5 where "s5 = fill_palette_mode_x (set_graphics_registers mode_X_graphics (set_attr_registers mode_X_attr
    (set_CRTC_registers mode_X_CRTC (set_seq_regs_and_reset mode_X_seq 0x63 (VGA_blank 1 s)))))"
  define s6 where "s6 = s5\<lparr>phys := memset mem_image 0 65536 (phys s5)\<rparr>"
  have "machine.more s5 = machine.more s" by (simp add: s5_def vga_operations Let_def split_def)
  then have m6: "machine.more s6 = machine.more (s\<lparr>phys := blit mem_image 65536 (\<lambda>_. 0) (phys s)\<rparr>)"
    by (cases s5, cases s, simp add: s6_def memset_fills)
  have "machine.more (VGA_blank 0 s6) = machine.more s6" by (simp add: vga_operations Let_def split_def)
  then have m: "machine.more ((VGA_blank 0 s6)\<lparr>target_img := x\<rparr>) = machine.more (s6\<lparr>target_img := x\<rparr>)"
    "target_img (VGA_blank 0 s6) = target_img s" for x
    using m6 by (cases "VGA_blank 0 s6", cases s6, cases s, simp)+
  show "fst (set_mode_X s) = 0" by (simp add: set_mode_X_def Let_def)
  have "machine.more (snd (set_mode_X s)) = machine.more (s6\<lparr>target_img := target_img s XOR 0x4000\<rparr>)"
    by (simp add: set_mode_X_def Let_def s5_def [symmetric] s6_def [symmetric] m)
  also have "\<dots> = machine.more (s\<lparr>phys := blit mem_image 65536 (\<lambda>_. 0) (phys s), target_img := target_img s XOR 0x4000\<rparr>)"
    using m6 by (cases s6, cases s, simp)
  finally show "machine.more (snd (set_mode_X s)) = machine.more (s\<lparr>phys := blit mem_image 65536 (\<lambda>_. 0) (phys s), target_img := target_img s XOR 0x4000\<rparr>)" .
qed

text \<open>\<open>set_mode_X\<close> returns 0 and leaves every controller register at the value of its table, the start address
  apart: it alternates between the images at 0 and 0x4000 of the planes. The 64 KB behind 0xA0000 are
  zeroed and no other byte changes.\<close>

theorem mode_X_registers:
  "\<exists>t. set_mode_X s = (0, t) \<and> target_img t = target_img s XOR 0x4000
    \<and> phys t = blit mem_image 65536 (\<lambda>_. 0) (phys s)
    \<and> (\<forall>i<25. crtc_regs (card_state c t) (of_nat i) = (if i = 0x0C then ucast (drop_bit 8 (target_img t))
        else if i = 0x0D then ucast (target_img t) else ucast (drop_bit 8 (mode_X_CRTC ! i))))
    \<and> (\<forall>i<9. gfx_regs (card_state c t) (of_nat i) = ucast (drop_bit 8 (mode_X_graphics ! i)))
    \<and> (\<forall>i<22. attr_regs (card_state c t) (of_nat i) = mode_X_attr ! (2 * i + 1))
    \<and> (\<forall>i<5. i \<noteq> 1 \<longrightarrow> seq_regs (card_state c t) (of_nat i) = (if i = 0 then 3 else ucast (drop_bit 8 (mode_X_seq ! i))))
    \<and> \<not> bit (seq_regs (card_state c t) 1) 5 \<and> attr_index (card_state c t) = 0x20"
proof -
  define s1 where "s1 = VGA_blank 1 s"
  define s2 where "s2 = set_seq_regs_and_reset mode_X_seq 0x63 s1"
  define s3 where "s3 = set_CRTC_registers mode_X_CRTC s2"
  define s4 where "s4 = set_attr_registers mode_X_attr s3"
  define s5 where "s5 = set_graphics_registers mode_X_graphics s4"
  define s6 where "s6 = (fill_palette_mode_x s5)\<lparr>phys := memset mem_image 0 65536 (phys (fill_palette_mode_x s5))\<rparr>"
  define s7 where "s7 = VGA_blank 0 s6"
  define g where "g = target_img s XOR 0x4000"
  define t where "t = OUTW 0x03D4 (push_bit 8 (g AND 0x00FF) OR 0x0D) (OUTW 0x03D4 ((g AND 0xFF00) OR 0x0C) (s7\<lparr>target_img := g\<rparr>))"
  have tp: "target_img (snd (set_mode_X s)) = g" "phys (snd (set_mode_X s)) = blit mem_image 65536 (\<lambda>_. 0) (phys s)"
    using same_more [OF mode_X_more(2)] by (simp_all add: g_def)
  have "target_img s7 = target_img s"
  proof -
    have "target_img (snd (set_mode_X s)) = target_img s7 XOR 0x4000"
      by (simp add: set_mode_X_def Let_def s1_def s2_def s3_def s4_def s5_def s6_def s7_def io_defs)
    then have eq: "target_img s7 XOR 0x4000 = target_img s XOR 0x4000" using tp(1) unfolding g_def by (simp only:)
    have "target_img s7 = (target_img s7 XOR 0x4000) XOR 0x4000" by (simp add: xor.assoc)
    also have "\<dots> = target_img s" unfolding eq by (simp add: xor.assoc)
    finally show ?thesis .
  qed
  then have e: "set_mode_X s = (0, t)"
    by (simp add: set_mode_X_def Let_def s1_def s2_def s3_def s4_def s5_def s6_def s7_def g_def t_def io_defs)
  then have tp: "target_img t = g" "phys t = blit mem_image 65536 (\<lambda>_. 0) (phys s)" using tp by simp_all
  obtain v1 where c1: "card_state c s1 = (card_state c s)\<lparr>seq_index := 1, seq_regs := (seq_regs (card_state c s))(1 := v1), attr_data := True, attr_index := 0x20\<rparr>"
    using card_blank [of c 1 s] unfolding s1_def by blast
  note c2 = card_set_seq [OF tables_indexed(1) table_lengths(1), of c s1, folded s2_def]
  obtain i3 r3 where c3: "card_state c s3 = (card_state c s2)\<lparr>crtc_index := i3, crtc_regs := table_regs mode_X_CRTC 25 r3\<rparr>"
    using card_set_CRTC [OF tables_indexed(3), of c s2] unfolding s3_def by auto
  obtain i4 where c4: "card_state c s4 = (card_state c s3)\<lparr>attr_data := False, attr_index := i4, attr_regs := attr_table mode_X_attr 22 (attr_regs (card_state c s3))\<rparr>"
    using card_set_attr [OF attr_tables(1,3), of c s3] unfolding s4_def by blast
  obtain i5 where c5: "card_state c s5 = (card_state c s4)\<lparr>gfx_index := i5, gfx_regs := table_regs mode_X_graphics 9 (gfx_regs (card_state c s4))\<rparr>"
    using card_set_graphics [OF tables_indexed(5), of c s4] unfolding s5_def by auto
  have c6: "card_state c s6 = card_state c s5" by (simp add: s6_def)
  obtain v7 where c7: "card_state c s7 = (card_state c s6)\<lparr>seq_index := 1, seq_regs := (seq_regs (card_state c s6))(1 := v7),
     attr_data := True, attr_index := 0x20\<rparr>" "\<not> bit v7 5"
    using card_blank [of c 0 s6] unfolding s7_def by auto
  define k where "k = card_state c t"
  have ct: "k = (card_state c s7)\<lparr>crtc_index := 0x0D, crtc_regs := crtc_write 0x0D (ucast g) (crtc_write 0x0C (ucast (drop_bit 8 g)) (crtc_regs (card_state c s7)))\<rparr>"
    unfolding k_def t_def card_io card_words card_phys start_address_words by simp
  note k = ct [unfolded c7(1) c6 c5 c4 c3]
  have "crtc_regs k (of_nat i) = (if i = 0x0C then ucast (drop_bit 8 g) else if i = 0x0D then ucast g else ucast (drop_bit 8 (mode_X_CRTC ! i)))"
    if "i < 25" for i
    using that of_nat_u8_inj [of i 12] of_nat_u8_inj [of i 13] by (auto simp: k table_regs_def unat_of_nat_u8 crtc_write_def)
  moreover have "gfx_regs k (of_nat i) = ucast (drop_bit 8 (mode_X_graphics ! i))" if "i < 9" for i
    using that by (simp add: k table_regs_def unat_of_nat_u8)
  moreover have "attr_regs k (of_nat i) = mode_X_attr ! (2 * i + 1)" if "i < 22" for i
    using that by (simp add: k attr_table_def unat_of_nat_u8)
  moreover have "seq_regs k (of_nat i) = (if i = 0 then 3 else ucast (drop_bit 8 (mode_X_seq ! i)))" if "i < 5" "i \<noteq> 1" for i
    using that of_nat_u8_inj [of i 0] of_nat_u8_inj [of i 1] by (auto simp: k c2 table_regs_def unat_of_nat_u8)
  moreover have "\<not> bit (seq_regs k 1) 5" "attr_index k = 0x20" using c7(2) by (simp_all add: k)
  ultimately show ?thesis
    using e tp unfolding g_def k_def by (intro exI [of _ t]) simp
qed

text \<open>The memory behind the text mode: a blank, attribute 7, in every cell from 0xB8000 on, and the font.\<close>

definition blank_text :: "nat \<Rightarrow> u8" where
  "blank_text k = (if even k then 0x20 else 7)"

lemma text_word: "ucast (drop_bit (8 * (k mod 4)) (0x07200720 :: u32)) = blank_text k"
proof -
  consider "k mod 4 = 0" | "k mod 4 = 1" | "k mod 4 = 2" | "k mod 4 = 3" by linarith
  then show ?thesis
  proof cases
    case 1
    then have "even k" by presburger
    then show ?thesis using 1 by (simp add: blank_text_def)
  next
    case 2
    then have "odd k" by presburger
    then show ?thesis using 2 by (simp add: blank_text_def)
  next
    case 3
    then have "even k" by presburger
    then show ?thesis using 3 by (simp add: blank_text_def)
  next
    case 4
    then have "odd k" by presburger
    then show ?thesis using 4 by (simp add: blank_text_def)
  qed
qed

lemma same_console_more:
  fixes s t :: "'z console_scheme"
  assumes "machine.more s = machine.more t"
  shows "phys s = phys t" "terminals s = terminals t" "console.more s = console.more t"
    "curr_terminal_idx s = curr_terminal_idx t" "curr_running_terminal_idx s = curr_running_terminal_idx t"
    "temp_curr_running_terminal_idx s = temp_curr_running_terminal_idx t"
  using assms by (cases s, cases t, simp)+

lemma text_mode_more:
  "machine.more (set_text_mode_3 clear_scr s) = machine.more (s\<lparr>phys := with_font
     (if clear_scr \<noteq> 0 then blit 0xB8000 61760 blank_text (phys s) else phys s)\<rparr>)"
proof -
  define s1 where "s1 = fill_palette_text (set_graphics_registers text_graphics (set_attr_registers text_attr
    (set_CRTC_registers text_CRTC (set_seq_regs_and_reset text_seq 0x63 (VGA_blank 1 s)))))"
  have m1: "machine.more s1 = machine.more s" by (simp add: s1_def vga_operations Let_def split_def)
  define m where "m = (if clear_scr \<noteq> 0 then blit 0xB8000 61760 blank_text (phys s) else phys s)"
  have "for_range 0 15440 (\<lambda>i. store_le 4 0x07200720 (0xB8000 + of_nat (4 * i))) (phys s1) = blit 0xB8000 61760 blank_text (phys s)"
    using same_console_more(1) [OF m1] store_words [of 15440 "0x07200720" "0xB8000" "phys s1"] by (simp add: text_word)
  note l = this
  have p1: "s1 = s1\<lparr>phys := phys s\<rparr>" unfolding same_console_more(1) [OF m1, symmetric] by simp
  have e: "set_text_mode_3 clear_scr s = VGA_blank 0 (write_font_data (s1\<lparr>phys := m\<rparr>))"
  proof (cases "clear_scr = 0")
    case True
    then have "set_text_mode_3 clear_scr s = VGA_blank 0 (write_font_data s1)"
      by (simp add: set_text_mode_3_def Let_def s1_def [symmetric])
    also have "s1 = s1\<lparr>phys := m\<rparr>" using p1 True by (simp add: m_def)
    finally show ?thesis .
  next
    case False
    then show ?thesis using l by (simp add: set_text_mode_3_def Let_def s1_def [symmetric] m_def)
  qed
  have "machine.more (phys_update f t) = machine.more (phys_update f u)" if "machine.more t = machine.more u" for f and t u :: "'a console_scheme"
    using that by (cases t, cases u, simp)
  then have "machine.more (s1\<lparr>phys := with_font m\<rparr>) = machine.more (s\<lparr>phys := with_font m\<rparr>)" using m1 by blast
  moreover have "machine.more (set_text_mode_3 clear_scr s) = machine.more (s1\<lparr>phys := with_font m\<rparr>)"
    unfolding e by (simp add: vga_operations Let_def split_def write_font_loop io_defs del: of_nat_mult) 
  ultimately show ?thesis by (simp add: m_def)
qed

lemma font_cell_outside: "unat a < 0xA0000 \<or> 0xA2000 \<le> unat a \<Longrightarrow> font_cell a = None"
  using unat_lt_u32 [of a] by (auto simp: font_cell_def Let_def unat_sub_u32 split: if_splits)

lemma font_cell_at: "i < 256 \<Longrightarrow> j < 16 \<Longrightarrow> font_cell (mem_image + of_nat (32 * i + j)) = Some (i, j)"
proof -
  assume ij: "i < 256" "j < 16"
  then have "unat (mem_image + of_nat (32 * i + j) - mem_image) = 32 * i + j"
    using unat_of_nat_u32 [of "32 * i + j"] by (simp del: of_nat_add of_nat_mult)
  then show ?thesis using ij by (simp add: font_cell_def Let_def)
qed

lemma unat_from_video: "unat (a - 0xB8000 :: u32) < n \<longleftrightarrow> 0xB8000 \<le> unat a \<and> unat a < 0xB8000 + n" if "n \<le> 0x10000"
  using that unat_lt_u32 [of a] by (auto simp: unat_sub_u32)


text \<open>A card whose first controller registers are protected.\<close>

definition protected_card :: vga_card where
  "protected_card = \<lparr>seq_index = 0, seq_regs = (\<lambda>_. 0), crtc_index = 0, crtc_regs = (\<lambda>_. 0x80), gfx_index = 0, gfx_regs = (\<lambda>_. 0),
     attr_data = True, attr_index = 0, attr_regs = (\<lambda>_. 0)\<rparr>"



end
