(* ===== verification/Picture.thy ===== *)
theory Picture
  imports Prelude
begin

text \<open>
  The picture that \<open>kernel.c\<close> shows while it starts: the 80 * 193 bytes of the array \<open>joker\<close>, written as runs of equal
  bytes. The initialiser has 15360 of them; C fills the last row with zeros.
\<close>

definition joker_runs_1 :: "(nat \<times> u8) list" where
  "joker_runs_1 =
   [(730, 0), (8, 1), (3, 0), (2, 1), (4, 0), (2, 1), (3, 0), (2, 1), (3, 0), (8, 1),
    (2, 0), (2, 1), (3, 0), (4, 1), (7, 0), (8, 1), (19, 0), (8, 1), (3, 0), (2, 1),
    (4, 0), (2, 1), (3, 0), (2, 1), (3, 0), (8, 1), (2, 0), (2, 1), (3, 0), (4, 1),
    (7, 0), (8, 1), (19, 0), (2, 1), (9, 0), (2, 1), (4, 0), (2, 1), (3, 0), (2, 1),
    (3, 0), (2, 1), (13, 0), (2, 1), (1, 0), (2, 1), (6, 0), (2, 1), (25, 0), (2, 1),
    (9, 0), (2, 1), (4, 0), (2, 1), (3, 0), (2, 1), (3, 0), (2, 1), (13, 0), (2, 1),
    (1, 0), (2, 1), (6, 0), (2, 1), (26, 0), (2, 1), (8, 0), (2, 1), (4, 0), (2, 1),
    (3, 0), (2, 1), (3, 0), (2, 1), (8, 0), (2, 1), (3, 0), (2, 1), (2, 0), (2, 1),
    (5, 0), (2, 1), (26, 0), (2, 1), (8, 0), (2, 1), (4, 0), (2, 1), (3, 0), (2, 1),
    (3, 0), (2, 1), (8, 0), (2, 1), (3, 0), (2, 1), (2, 0), (2, 1), (5, 0), (2, 1),
    (27, 0), (2, 1), (7, 0), (2, 1), (4, 0), (2, 1), (3, 0), (2, 1), (3, 0), (2, 1),
    (8, 0), (2, 1), (3, 0), (2, 1), (3, 0), (2, 1), (4, 0), (2, 1), (27, 0), (2, 1),
    (7, 0), (2, 1), (4, 0), (2, 1), (3, 0), (2, 1), (3, 0), (2, 1), (8, 0), (2, 1),
    (3, 0), (2, 1), (3, 0), (4, 1), (2, 0), (2, 1), (28, 0), (2, 1), (6, 0), (2, 1),
    (4, 0), (2, 1), (3, 0), (2, 1), (3, 0), (2, 1), (8, 0), (2, 1), (3, 0), (2, 1),
    (5, 0), (2, 1), (2, 0), (8, 1), (22, 0), (2, 1), (6, 0), (2, 1), (4, 0), (2, 1),
    (3, 0), (2, 1), (3, 0), (2, 1), (8, 0), (2, 1), (3, 0), (2, 1), (5, 0), (2, 1),
    (2, 0), (8, 1), (23, 0), (2, 1), (5, 0), (2, 1), (4, 0), (2, 1), (3, 0), (2, 1),
    (3, 0), (2, 1), (8, 0), (2, 1), (3, 0), (2, 1), (5, 0), (2, 1), (2, 0), (2, 1),
    (29, 0), (2, 1), (5, 0), (2, 1), (4, 0), (2, 1), (3, 0), (2, 1), (3, 0), (2, 1),
    (8, 0), (2, 1), (3, 0), (2, 1), (3, 0), (4, 1), (2, 0), (2, 1), (30, 0), (2, 1),
    (4, 0), (2, 1), (4, 0), (2, 1), (3, 0), (2, 1), (3, 0), (2, 1), (8, 0), (2, 1),
    (3, 0), (2, 1), (3, 0), (2, 1), (4, 0), (2, 1), (30, 0), (2, 1), (4, 0), (2, 1),
    (4, 0), (2, 1), (3, 0), (2, 1), (3, 0), (2, 1), (8, 0), (2, 1), (3, 0), (2, 1),
    (2, 0), (2, 1), (5, 0), (2, 1), (31, 0), (2, 1), (3, 0), (2, 1), (4, 0), (2, 1),
    (3, 0), (2, 1), (3, 0), (2, 1), (8, 0), (2, 1), (3, 0), (2, 1), (2, 0), (2, 1),
    (5, 0), (2, 1), (31, 0), (2, 1), (3, 0), (2, 1), (4, 0), (2, 1), (3, 0), (2, 1),
    (3, 0), (2, 1), (8, 0), (2, 1), (3, 0), (2, 1), (1, 0), (2, 1), (6, 0), (2, 1),
    (25, 0), (8, 1), (3, 0), (8, 1), (3, 0), (2, 1), (3, 0), (8, 1), (2, 0), (2, 1),
    (3, 0), (4, 1), (7, 0), (8, 1), (19, 0), (8, 1), (3, 0), (8, 1), (3, 0), (2, 1)]"

definition joker_runs_2 :: "(nat \<times> u8) list" where
  "joker_runs_2 =
   [(3, 0), (8, 1), (2, 0), (2, 1), (3, 0), (4, 1), (7, 0), (8, 1), (29, 0), (1, 2),
    (15, 0), (1, 2), (726, 0), (1, 2), (49, 0), (8, 1), (3, 0), (8, 1), (3, 0), (2, 1),
    (4, 0), (2, 1), (3, 0), (8, 1), (3, 0), (4, 1), (32, 0), (8, 1), (3, 0), (8, 1),
    (3, 0), (2, 1), (4, 0), (2, 1), (3, 0), (8, 1), (3, 0), (4, 1), (32, 0), (2, 1),
    (9, 0), (2, 1), (4, 0), (2, 1), (3, 0), (2, 1), (4, 0), (2, 1), (3, 0), (2, 1),
    (4, 0), (2, 1), (3, 0), (2, 1), (1, 0), (2, 1), (31, 0), (2, 1), (9, 0), (2, 1),
    (4, 0), (2, 1), (3, 0), (2, 1), (4, 0), (2, 1), (3, 0), (2, 1), (4, 0), (2, 1),
    (3, 0), (2, 1), (1, 0), (2, 1), (32, 0), (2, 1), (8, 0), (2, 1), (4, 0), (2, 1),
    (3, 0), (2, 1), (4, 0), (2, 1), (3, 0), (2, 1), (4, 0), (2, 1), (3, 0), (2, 1),
    (2, 0), (2, 1), (31, 0), (2, 1), (8, 0), (2, 1), (4, 0), (2, 1), (3, 0), (2, 1),
    (1, 0), (1, 3), (2, 0), (2, 1), (3, 0), (2, 1), (4, 0), (2, 1), (3, 0), (2, 1),
    (2, 0), (2, 1), (32, 0), (2, 1), (7, 0), (2, 1), (4, 0), (2, 1), (3, 0), (2, 1),
    (1, 0), (2, 3), (1, 0), (2, 1), (3, 0), (2, 1), (4, 0), (2, 1), (3, 0), (2, 1),
    (3, 0), (2, 1), (31, 0), (2, 1), (7, 0), (2, 1), (4, 0), (2, 1), (3, 0), (2, 1),
    (1, 0), (2, 3), (1, 0), (2, 1), (3, 0), (2, 1), (4, 0), (2, 1), (3, 0), (2, 1),
    (3, 0), (4, 1), (30, 0), (2, 1), (6, 0), (2, 1), (4, 0), (2, 1), (3, 0), (2, 1),
    (1, 0), (2, 3), (1, 0), (2, 1), (3, 0), (8, 1), (3, 0), (2, 1), (5, 0), (2, 1),
    (30, 0), (2, 1), (6, 0), (2, 1), (4, 0), (2, 1), (3, 0), (2, 1), (1, 0), (2, 3),
    (1, 0), (2, 1), (3, 0), (8, 1), (3, 0), (2, 1), (5, 0), (2, 1), (31, 0), (2, 1),
    (5, 0), (2, 1), (4, 0), (2, 1), (3, 0), (2, 1), (1, 0), (2, 3), (1, 0), (2, 1),
    (3, 0), (2, 1), (4, 0), (2, 1), (3, 0), (2, 1), (5, 0), (2, 1), (31, 0), (2, 1),
    (5, 0), (2, 1), (4, 0), (2, 1), (3, 0), (2, 1), (5, 3), (1, 1), (3, 0), (2, 1),
    (4, 0), (2, 1), (3, 0), (2, 1), (3, 0), (4, 1), (32, 0), (2, 1), (4, 0), (2, 1),
    (4, 0), (2, 1), (3, 0), (2, 1), (5, 3), (1, 1), (3, 0), (2, 1), (4, 0), (2, 1),
    (3, 0), (2, 1), (3, 0), (2, 1), (34, 0), (2, 1), (4, 0), (2, 1), (2, 0), (4, 1),
    (3, 0), (2, 1), (5, 3), (1, 1), (3, 0), (2, 1), (4, 0), (2, 1), (3, 0), (2, 1),
    (2, 0), (2, 1), (36, 0), (2, 1), (3, 0), (2, 1), (2, 0), (4, 1), (3, 0), (1, 1),
    (6, 3), (1, 1), (3, 0), (2, 1), (4, 0), (2, 1), (3, 0), (2, 1), (1, 0), (2, 1),
    (37, 0), (2, 1), (3, 0), (2, 1), (3, 0), (3, 1), (3, 0), (1, 1), (7, 3), (3, 0),
    (2, 1), (4, 0), (2, 1), (3, 0), (2, 1), (1, 0), (2, 1), (31, 0), (8, 1), (3, 0)]"

definition joker_runs_3 :: "(nat \<times> u8) list" where
  "joker_runs_3 =
   [(8, 1), (3, 0), (1, 1), (8, 3), (2, 0), (2, 1), (4, 0), (2, 1), (3, 0), (4, 1),
    (32, 0), (8, 1), (3, 0), (9, 1), (2, 0), (1, 1), (8, 3), (2, 0), (2, 1), (4, 0),
    (2, 1), (3, 0), (4, 1), (50, 0), (2, 1), (2, 0), (9, 3), (71, 0), (11, 3), (69, 0),
    (11, 3), (68, 0), (12, 3), (68, 0), (12, 3), (68, 0), (13, 3), (66, 0), (14, 3), (66, 0),
    (14, 3), (1, 2), (64, 0), (16, 3), (64, 0), (16, 3), (1, 4), (63, 0), (16, 3), (1, 5),
    (63, 0), (16, 3), (1, 5), (62, 0), (1, 4), (16, 3), (1, 5), (63, 0), (16, 3), (1, 6),
    (61, 0), (1, 4), (17, 3), (1, 6), (62, 0), (18, 3), (61, 0), (1, 4), (8, 3), (4, 7),
    (6, 3), (61, 0), (1, 4), (8, 3), (4, 7), (6, 3), (61, 0), (1, 4), (7, 3), (5, 7),
    (6, 3), (62, 0), (7, 3), (5, 7), (6, 3), (62, 0), (6, 3), (7, 7), (5, 3), (62, 0),
    (6, 3), (7, 7), (5, 3), (62, 0), (5, 3), (10, 7), (3, 3), (62, 0), (5, 3), (10, 7),
    (3, 3), (62, 0), (4, 3), (12, 7), (2, 3), (62, 0), (4, 3), (12, 7), (2, 3), (62, 0),
    (4, 3), (13, 7), (1, 3), (62, 0), (3, 3), (14, 7), (1, 3), (62, 0), (3, 3), (14, 7),
    (1, 3), (62, 0), (3, 3), (14, 7), (1, 3), (62, 0), (1, 3), (17, 7), (62, 0), (1, 3),
    (17, 7), (61, 0), (1, 5), (1, 3), (17, 7), (61, 0), (1, 2), (1, 3), (17, 7), (61, 0),
    (1, 2), (1, 3), (17, 7), (61, 0), (1, 2), (1, 3), (17, 7), (61, 0), (1, 2), (1, 3),
    (17, 7), (62, 0), (1, 3), (17, 7), (62, 0), (1, 8), (17, 7), (62, 0), (18, 7), (62, 0),
    (18, 7), (62, 0), (18, 7), (62, 0), (18, 7), (62, 0), (18, 7), (62, 0), (18, 7), (62, 0),
    (18, 7), (62, 0), (18, 7), (62, 0), (3, 7), (2, 0), (13, 7), (62, 0), (3, 7), (2, 0),
    (9, 7), (1, 0), (3, 7), (62, 0), (3, 7), (4, 0), (6, 7), (2, 0), (1, 5), (2, 7),
    (63, 0), (2, 7), (1, 5), (3, 0), (1, 9), (4, 7), (3, 0), (1, 5), (2, 7), (63, 0),
    (2, 7), (1, 5), (2, 0), (1, 2), (1, 9), (2, 7), (1, 9), (4, 0), (3, 7), (63, 0),
    (3, 7), (3, 0), (4, 7), (4, 0), (2, 7), (1, 5), (63, 0), (3, 7), (2, 0), (1, 10),
    (1, 1), (3, 7), (4, 0), (2, 7), (64, 0), (3, 7), (2, 0), (2, 1), (3, 7), (1, 5),
    (2, 0), (1, 5), (2, 7), (64, 0), (3, 7), (2, 0), (1, 1), (4, 7), (1, 5), (2, 0),
    (3, 7), (65, 0), (2, 7), (1, 4), (2, 1), (5, 7), (2, 0), (3, 7), (65, 0), (2, 7),
    (1, 0), (2, 1), (5, 7), (1, 9), (1, 0), (2, 7), (66, 0), (1, 7), (1, 11), (3, 1),
    (6, 7), (1, 5), (2, 7), (65, 0), (1, 9), (1, 7), (1, 11), (1, 9), (2, 1), (2, 7),
    (1, 8), (6, 7), (65, 0), (5, 7), (1, 1), (2, 7), (1, 11), (1, 9), (6, 7), (64, 0),
    (5, 7), (1, 1), (1, 7), (1, 9), (1, 0), (1, 9), (6, 7), (1, 5), (63, 0), (5, 7),
    (1, 1), (1, 7), (1, 9), (1, 0), (1, 8), (3, 7), (1, 1), (2, 7), (64, 0), (2, 7)]"

definition joker_runs_4 :: "(nat \<times> u8) list" where
  "joker_runs_4 =
   [(1, 1), (4, 7), (1, 11), (1, 0), (4, 7), (1, 1), (2, 7), (64, 0), (2, 7), (1, 1),
    (4, 7), (1, 11), (1, 0), (4, 7), (1, 1), (2, 7), (64, 0), (2, 7), (1, 1), (4, 7),
    (1, 9), (1, 0), (4, 7), (1, 1), (2, 7), (64, 0), (2, 7), (1, 1), (4, 7), (1, 9),
    (1, 0), (4, 7), (1, 1), (2, 7), (64, 0), (1, 5), (1, 7), (1, 1), (4, 7), (1, 8),
    (1, 5), (4, 7), (1, 1), (1, 7), (1, 5), (65, 0), (1, 7), (1, 1), (5, 7), (1, 9),
    (3, 7), (2, 1), (1, 7), (66, 0), (1, 7), (2, 1), (8, 7), (2, 1), (1, 7), (66, 0),
    (1, 7), (2, 1), (8, 7), (1, 1), (2, 7), (66, 0), (2, 7), (1, 1), (8, 7), (1, 1),
    (2, 7), (66, 0), (2, 7), (1, 1), (8, 7), (1, 1), (2, 7), (66, 0), (2, 7), (2, 1),
    (4, 7), (1, 1), (2, 7), (1, 1), (1, 7), (68, 0), (1, 7), (2, 1), (2, 7), (3, 1),
    (1, 7), (2, 1), (1, 7), (68, 0), (2, 7), (2, 1), (1, 7), (3, 1), (1, 7), (2, 1),
    (1, 7), (68, 0), (2, 7), (2, 1), (1, 7), (5, 1), (2, 7), (68, 0), (2, 7), (8, 1),
    (2, 7), (68, 0), (2, 7), (8, 1), (2, 7), (68, 0), (2, 7), (8, 1), (2, 7), (68, 0),
    (2, 7), (8, 1), (2, 7), (68, 0), (3, 7), (6, 1), (3, 7), (69, 0), (3, 7), (2, 1),
    (1, 12), (1, 1), (3, 7), (70, 0), (3, 7), (1, 1), (1, 7), (1, 1), (4, 7), (70, 0),
    (3, 7), (1, 1), (1, 7), (1, 1), (4, 7), (70, 0), (3, 7), (1, 1), (6, 7), (70, 0),
    (10, 7), (70, 0), (10, 7), (70, 0), (1, 5), (9, 7), (71, 0), (8, 7), (72, 0), (8, 7),
    (72, 0), (8, 7), (72, 0), (8, 7), (72, 0), (1, 5), (6, 7), (1, 9), (81, 0), (1, 2),
    (239, 0), (1, 3), (69, 0), (1, 3), (9, 0), (1, 3), (69, 0), (1, 3), (9, 0), (1, 3),
    (69, 0), (2, 3), (7, 0), (2, 3), (68, 0), (3, 3), (1, 2), (5, 0), (1, 2), (2, 3),
    (68, 0), (4, 3), (5, 0), (3, 3), (68, 0), (4, 3), (1, 2), (3, 0), (4, 3), (68, 0),
    (5, 3), (3, 0), (4, 3), (68, 0), (5, 3), (3, 0), (4, 3), (68, 0), (5, 3), (2, 0),
    (5, 3), (68, 0), (5, 3), (1, 0), (6, 3), (68, 0), (12, 3), (68, 0), (1, 2), (11, 3),
    (69, 0), (10, 3), (70, 0), (10, 3), (70, 0), (10, 3), (70, 0), (10, 3), (70, 0), (9, 3),
    (70, 0), (5, 3), (1, 0), (4, 3), (70, 0), (5, 3), (2, 0), (3, 3), (70, 0), (5, 3),
    (2, 0), (3, 3), (70, 0), (4, 3), (3, 0), (3, 3), (69, 0), (4, 3), (4, 0), (1, 2),
    (3, 3), (68, 0), (4, 3), (5, 0), (3, 3), (68, 0), (3, 3), (6, 0), (1, 2), (2, 3),
    (69, 0), (1, 3), (8, 0), (2, 3), (69, 0), (1, 3), (9, 0), (1, 3), (79, 0), (1, 2),
    (158, 0), (1, 2), (836, 0)]"

definition joker :: "u8 list" where
  "joker = concat (map (\<lambda>(n, v). replicate n v) (joker_runs_1 @ joker_runs_2 @ joker_runs_3 @ joker_runs_4)) @ replicate 80 0"

lemma length_joker: "length joker = 80 * 193"
proof -
  have l: "length (concat (map (\<lambda>(n, v). replicate n v) rs)) = sum_list (map fst rs)" for rs :: "(nat \<times> u8) list"
    by (induction rs) auto
  have s1: "sum_list (map fst joker_runs_1) = 2114" by (simp add: joker_runs_1_def)
  have s2: "sum_list (map fst joker_runs_2) = 2150" by (simp add: joker_runs_2_def)
  have s3: "sum_list (map fst joker_runs_3) = 5210" by (simp add: joker_runs_3_def)
  have s4: "sum_list (map fst joker_runs_4) = 5886" by (simp add: joker_runs_4_def)
  show ?thesis by (simp add: joker_def l s1 s2 s3 s4)
qed

end
