(* ===== verification/Kernel.thy ===== *)
theory Kernel
  imports Vga Picture
begin

text \<open>
  \<open>kernel.c\<close>: \<open>entry\<close>, which \<open>boot.S\<close> calls with the boot loader's magic number and information structure. It
  prints that structure, builds the two system descriptors, initialises every component and waits
  for interrupts. The theorems connect the components: from the memory that the loader leaves,
  \<open>entry\<close> reaches the state in which the first timer interrupts start the shells.
\<close>

section \<open>Descriptors (x86_desc.h)\<close>

record seg_desc_t =
  seg_lim_15_00 :: u16
  base_15_00 :: u16
  base_23_16 :: u8
  seg_type :: "4 word"
  seg_sys :: "1 word"
  seg_dpl :: "2 word"
  seg_present :: "1 word"
  seg_lim_19_16 :: "4 word"
  avail :: "1 word"
  seg_reserved :: "1 word"
  opsize :: "1 word"
  granularity :: "1 word"
  base_31_24 :: u8

definition SET_LDT_PARAMS :: "u32 \<Rightarrow> u32 \<Rightarrow> seg_desc_t \<Rightarrow> seg_desc_t" where
  "SET_LDT_PARAMS addr limit str =
     (let str = str\<lparr>base_31_24 := ucast (drop_bit 24 (addr AND 0xFF000000))\<rparr>;
          str = str\<lparr>base_23_16 := ucast (drop_bit 16 (addr AND 0x00FF0000))\<rparr>;
          str = str\<lparr>base_15_00 := ucast (addr AND 0x0000FFFF)\<rparr>;
          str = str\<lparr>seg_lim_19_16 := ucast (drop_bit 16 (limit AND 0x000F0000))\<rparr>
      in str\<lparr>seg_lim_15_00 := ucast (limit AND 0x0000FFFF)\<rparr>)"

definition SET_TSS_PARAMS :: "u32 \<Rightarrow> u32 \<Rightarrow> seg_desc_t \<Rightarrow> seg_desc_t" where
  "SET_TSS_PARAMS addr limit str =
     (let str = str\<lparr>base_31_24 := ucast (drop_bit 24 (addr AND 0xFF000000))\<rparr>;
          str = str\<lparr>base_23_16 := ucast (drop_bit 16 (addr AND 0x00FF0000))\<rparr>;
          str = str\<lparr>base_15_00 := ucast (addr AND 0x0000FFFF)\<rparr>;
          str = str\<lparr>seg_lim_19_16 := ucast (drop_bit 16 (limit AND 0x000F0000))\<rparr>
      in str\<lparr>seg_lim_15_00 := ucast (limit AND 0x0000FFFF)\<rparr>)"

text \<open>\<open>ldtr\<close> and \<open>task_reg\<close> are the selectors loaded by \<open>lldt\<close> and \<open>ltr\<close>; where the linker has put the tables is
  in \<open>addr_ldt\<close> and \<open>addr_tss\<close>.\<close>

record kernel = vga +
  ldt_desc_ptr :: seg_desc_t
  tss_desc_ptr :: seg_desc_t
  tss_ldt_segment_selector :: u16
  ldtr :: u16
  task_reg :: u16
  wait_flag :: int
  addr_ldt :: u32
  addr_tss :: u32

abbreviation "KERNEL_TSS \<equiv> (0x0030 :: u16)"
abbreviation "KERNEL_LDT \<equiv> (0x0038 :: u16)"
abbreviation "TSS_SIZE \<equiv> (104 :: u32)"

text \<open>The sizes that \<open>x86_desc.S\<close> computes: four descriptors and 104 bytes, less one.\<close>

definition ldt_size :: u32 where
  "ldt_size = 4 * 8 - 1"

definition tss_size :: u32 where
  "tss_size = 104 - 1"

text \<open>The descriptors are automatic variables of \<open>entry\<close> whose contents \<open>junk\<close> do not matter: every field is set.\<close>

definition construct_ldt :: "seg_desc_t \<Rightarrow> 'z kernel_scheme \<Rightarrow> 'z kernel_scheme" where
  "construct_ldt junk s =
     (let d = junk\<lparr>granularity := 0, opsize := 1, seg_reserved := 0, avail := 0, seg_present := 1, seg_dpl := 0,
            seg_sys := 0, seg_type := 2\<rparr>;
          d = SET_LDT_PARAMS (addr_ldt s) ldt_size d;
          s = s\<lparr>ldt_desc_ptr := d\<rparr>
      in s\<lparr>ldtr := KERNEL_LDT\<rparr>)"

definition construct_tss :: "seg_desc_t \<Rightarrow> 'z kernel_scheme \<Rightarrow> 'z kernel_scheme" where
  "construct_tss junk s =
     (let d = junk\<lparr>granularity := 0, opsize := 0, seg_reserved := 0, avail := 0,
            seg_lim_19_16 := ucast (TSS_SIZE AND 0x000F0000), seg_present := 1, seg_dpl := 0, seg_sys := 0, seg_type := 9,
            seg_lim_15_00 := ucast (TSS_SIZE AND 0x0000FFFF)\<rparr>;
          d = SET_TSS_PARAMS (addr_tss s) tss_size d;
          s = s\<lparr>tss_desc_ptr := d\<rparr>;
          s = s\<lparr>tss_ldt_segment_selector := KERNEL_LDT\<rparr>;
          s = s\<lparr>tss_ss0 := KERNEL_DS\<rparr>;
          s = s\<lparr>tss_esp0 := 0x800000\<rparr>
      in s\<lparr>task_reg := KERNEL_TSS\<rparr>)"

section \<open>The boot loader's information (multiboot.h)\<close>

definition mbi_flags :: "u32 \<Rightarrow> mem \<Rightarrow> u32" where
  "mbi_flags mbi m = load32 m mbi"

definition mods_count :: "u32 \<Rightarrow> mem \<Rightarrow> u32" where
  "mods_count mbi m = load32 m (mbi + 20)"

definition mods_addr :: "u32 \<Rightarrow> mem \<Rightarrow> u32" where
  "mods_addr mbi m = load32 m (mbi + 24)"

definition mmap_length :: "u32 \<Rightarrow> mem \<Rightarrow> u32" where
  "mmap_length mbi m = load32 m (mbi + 44)"

definition mmap_addr :: "u32 \<Rightarrow> mem \<Rightarrow> u32" where
  "mmap_addr mbi m = load32 m (mbi + 48)"

definition CHECK_FLAG :: "u32 \<Rightarrow> nat \<Rightarrow> bool" where
  "CHECK_FLAG flags n \<longleftrightarrow> flags AND push_bit n 1 \<noteq> 0"

definition print :: "u8 list \<Rightarrow> u32 list \<Rightarrow> 'z console_scheme \<Rightarrow> 'z console_scheme option" where
  "print line args s = do { (_, s) \<leftarrow> printf (arr_get (line @ [0])) args s; Some s }"

text \<open>A line of sixteen bytes; \<open>char\<close> is signed, so a byte from 0x80 on is printed with eight digits.\<close>

definition print_bytes :: "u32 \<Rightarrow> 'z console_scheme \<Rightarrow> 'z console_scheme option" where
  "print_bytes md s =
     for_opt 0 16 (\<lambda>i s. print (ascii ''0x%x '') [scast (phys s (load32 (phys s) md + of_nat i))] s) s"

partial_function (option) print_modules :: "u32 \<Rightarrow> u32 \<Rightarrow> u32 \<Rightarrow> 'z console_scheme \<Rightarrow> 'z console_scheme option" where
  "print_modules mbi md mod_count s =
     (if mod_count < mods_count mbi (phys s) then
        do { s \<leftarrow> print (ascii ''Module %d loaded at address: 0x%#x'' @ [10]) [mod_count, load32 (phys s) md] s;
             s \<leftarrow> print (ascii ''Module %d ends at address: 0x%#x'' @ [10]) [mod_count, load32 (phys s) (md + 4)] s;
             s \<leftarrow> print (ascii ''First few bytes of module:'' @ [10]) [] s;
             s \<leftarrow> print_bytes md s;
             s \<leftarrow> print [10] [] s;
             print_modules mbi (md + 16) (mod_count + 1) s }
      else Some s)"

partial_function (option) print_mmap :: "u32 \<Rightarrow> u32 \<Rightarrow> 'z console_scheme \<Rightarrow> 'z console_scheme option" where
  "print_mmap mbi mmap s =
     (if mmap < mmap_addr mbi (phys s) + mmap_length mbi (phys s) then
        do { s \<leftarrow> print (ascii ''    size = 0x%x, base_addr = 0x%#x%#x'' @ [10] @ ascii ''    type = 0x%x,  length    = 0x%#x%#x'' @ [10])
               [load32 (phys s) mmap, load32 (phys s) (mmap + 8), load32 (phys s) (mmap + 4), load32 (phys s) (mmap + 20),
                load32 (phys s) (mmap + 16), load32 (phys s) (mmap + 12)] s;
             print_mmap mbi (mmap + load32 (phys s) mmap + 4) s }
      else Some s)"

text \<open>The part of \<open>entry\<close> that prints the structure; \<open>False\<close> is its early return.\<close>

definition print_multiboot :: "u32 \<Rightarrow> 'z console_scheme \<Rightarrow> (bool \<times> 'z console_scheme) option" where
  "print_multiboot mbi s =
     do { let word = (\<lambda>k (s :: 'z console_scheme). load32 (phys s) (mbi + k));
          let check = (\<lambda>n s. CHECK_FLAG (mbi_flags mbi (phys s)) n);
          s \<leftarrow> print (ascii ''flags = 0x%#x'' @ [10]) [mbi_flags mbi (phys s)] s;
          s \<leftarrow> (if check 0 s then print (ascii ''mem_lower = %uKB, mem_upper = %uKB'' @ [10]) [word 4 s, word 8 s] s else Some s);
          s \<leftarrow> (if check 1 s then print (ascii ''boot_device = 0x%#x'' @ [10]) [word 12 s] s else Some s);
          s \<leftarrow> (if check 2 s then print (ascii ''cmdline = %s'' @ [10]) [word 16 s] s else Some s);
          s \<leftarrow> (if check 3 s then print_modules mbi (mods_addr mbi (phys s)) 0 s else Some s);
          if check 4 s \<and> check 5 s then
            do { s \<leftarrow> print (ascii ''Both bits 4 and 5 are set.'' @ [10]) [] s; Some (False, s) }
          else
            do { s \<leftarrow> (if check 5 s
                       then print (ascii ''elf_sec: num = %u, size = 0x%#x, addr = 0x%#x, shndx = 0x%#x'' @ [10])
                         [word 28 s, word 32 s, word 36 s, word 40 s] s
                       else Some s);
                 s \<leftarrow> (if check 6 s then
                         do { s \<leftarrow> print (ascii ''mmap_addr = 0x%#x, mmap_length = 0x%x'' @ [10])
                                [mmap_addr mbi (phys s), mmap_length mbi (phys s)] s;
                              print_mmap mbi (mmap_addr mbi (phys s)) s }
                       else Some s);
                 Some (True, s) } }"

section \<open>The start-up picture\<close>

definition draw_picture :: "'z console_scheme \<Rightarrow> 'z console_scheme" where
  "draw_picture s = s\<lparr>phys := for_range 0 (80 * 193) (\<lambda>i m. m(0xA0000 + 0x4000 + of_nat i := joker ! i + 5)) (phys s)\<rparr>"

text \<open>One round of the waiting loop draws the column. \<open>irqs\<close> is what happens after each round, in order: an interrupt
  handler or nothing.\<close>

definition draw_column :: "nat \<Rightarrow> 'z console_scheme \<Rightarrow> 'z console_scheme" where
  "draw_column local_counter s =
     s\<lparr>phys := for_range 0 16 (\<lambda>i m. m(0xA0000 + of_nat (i * 80) + of_nat local_counter := 63)) (phys s)\<rparr>"

abbreviation "LOADING_TIME \<equiv> (2 :: int)"

fun load_column :: "nat \<Rightarrow> ('z console_scheme \<Rightarrow> 'z console_scheme) list \<Rightarrow> 'z console_scheme \<Rightarrow>
    (('z console_scheme \<Rightarrow> 'z console_scheme) list \<times> 'z console_scheme) option" where
  "load_column n irqs s =
     (if sint (loading_counter s) < LOADING_TIME then
        (case irqs of [] \<Rightarrow> None | h # hs \<Rightarrow> load_column n hs (h (draw_column n s)))
      else Some (irqs, s))"

declare load_column.simps [simp del]

definition loading_screen :: "('z console_scheme \<Rightarrow> 'z console_scheme) list \<Rightarrow> 'z console_scheme \<Rightarrow>
    (('z console_scheme \<Rightarrow> 'z console_scheme) list \<times> 'z console_scheme) option" where
  "loading_screen irqs s =
     for_opt 0 80 (\<lambda>local_counter (irqs, s).
       do { let s = s\<lparr>loading_counter := 0\<rparr>;
            (irqs, s) \<leftarrow> load_column local_counter irqs s;
            s \<leftarrow> (if even (sint (loading_counter s)) then beep_init s else Some (nosound s));
            Some (irqs, s) }) (irqs, s)"

text \<open>The attribute of terminal \<open>i\<close> is \<open>1 + i\<close>, the display starts with that of terminal 0.\<close>

definition colour_pages :: "'z console_scheme \<Rightarrow> 'z console_scheme option" where
  "colour_pages s =
     for_opt 0 3 (\<lambda>i s.
       do { t \<leftarrow> aget (terminals s) (int i);
            Some (s\<lparr>phys := for_range 0 (80 * 25) (\<lambda>j m.
              let m = m(VIDEO + of_nat (j * 2) + 1 := 1)
              in m(video_mem t + 1 + of_nat (j * 2) := 1 + of_nat i)) (phys s)\<rparr>) }) s"

definition shape_cursor :: "'z machine_scheme \<Rightarrow> 'z machine_scheme" where
  "shape_cursor s =
     (let s = outb 0xA 0x3D4 s;
          s = outb 0x20 0x3D5 s;
          s = outb 0xA 0x3D4 s;
          (v, s) = inb 0x3D5 s;
          s = outb ((v AND 0xC0) OR 13) 0x3D5 s;
          s = outb 0xB 0x3D4 s;
          (v, s) = inb 0x3D5 s
      in outb ((v AND 0xE0) OR 13) 0x3D5 s)"

section \<open>entry\<close>

definition init_devices :: "(handler \<Rightarrow> u32) \<Rightarrow> u32 \<Rightarrow> 'z kernel_scheme \<Rightarrow> 'z kernel_scheme option" where
  "init_devices addr mbi s =
     do { s \<leftarrow> idt_init addr s;
          let s = file_sys_init (load32 (phys s) (mods_addr mbi (phys s))) s;
          s \<leftarrow> map_page_init s;
          let s = i8259_init s;
          s \<leftarrow> terminal_init s;
          s \<leftarrow> keyboard_init s;
          Some (RTC_init s) }"

definition start_screen :: "('z kernel_scheme \<Rightarrow> 'z kernel_scheme) list \<Rightarrow> 'z kernel_scheme \<Rightarrow> 'z kernel_scheme option" where
  "start_screen irqs s =
     do { let s = s\<lparr>loading_counter := 0\<rparr>;
          let s = s\<lparr>wait_flag := 0\<rparr>;
          let (_, s) = set_mode_X s;
          let s = draw_picture s;
          (_, s) \<leftarrow> loading_screen irqs s;
          let s = set_text_mode_3 1 s;
          let s = nosound s;
          s \<leftarrow> colour_pages s;
          Some (shape_cursor s) }"

text \<open>\<open>entry\<close> returns, into the endless loop of \<open>boot.S\<close>, or ends in its own loop around \<open>hlt\<close>.\<close>

datatype boot_end = Returned | Idle

definition entry ::
  "(handler \<Rightarrow> u32) \<Rightarrow> seg_desc_t \<Rightarrow> seg_desc_t \<Rightarrow> ('z kernel_scheme \<Rightarrow> 'z kernel_scheme) list \<Rightarrow> u32 \<Rightarrow> u32 \<Rightarrow>
   'z kernel_scheme \<Rightarrow> (boot_end \<times> 'z kernel_scheme) option" where
  "entry addr junk1 junk2 irqs magic mbi s =
     do { s \<leftarrow> clear s;
          if magic \<noteq> 0x2BADB002 then
            do { s \<leftarrow> print (ascii ''Invalid magic number: 0x%#x'' @ [10]) [magic] s; Some (Returned, s) }
          else
            do { (go_on, s) \<leftarrow> print_multiboot mbi s;
                 if \<not> go_on then Some (Returned, s)
                 else
                   do { let s = construct_ldt junk1 s;
                        let s = construct_tss junk2 s;
                        s \<leftarrow> init_devices addr mbi s;
                        s \<leftarrow> start_screen irqs s;
                        let s = mouse_init s;
                        s \<leftarrow> PIT_init s;
                        Some (Idle, sti s) } } }"

section \<open>Output before terminal_init\<close>

text \<open>A character device without a screen: whatever is printed, an invariant holds and little changes. Every device
  that draws on a screen is one.\<close>

locale text_device =
  fixes ok :: "'s \<Rightarrow> bool"
    and out :: "u8 \<Rightarrow> 's \<Rightarrow> 's option"
    and keeps :: "'s \<Rightarrow> 's \<Rightarrow> bool"
  assumes out_keeps: "ok s \<Longrightarrow> \<exists>s'. out c s = Some s' \<and> ok s' \<and> keeps s s'"
    and refl: "ok s \<Longrightarrow> keeps s s"
    and trans: "keeps s s' \<Longrightarrow> keeps s' s'' \<Longrightarrow> keeps s s''"
begin

definition runs :: "('s \<Rightarrow> 's option) \<Rightarrow> 's \<Rightarrow> bool" where
  "runs f s \<longleftrightarrow> (\<exists>s'. f s = Some s' \<and> ok s' \<and> keeps s s')"

lemma runs_Some: "ok s \<Longrightarrow> runs Some s"
  by (simp add: runs_def refl)

lemma runs_bind:
  assumes "runs f s" "\<And>t. ok t \<Longrightarrow> keeps s t \<Longrightarrow> runs g t"
  shows "runs (\<lambda>s. do { s \<leftarrow> f s; g s }) s"
proof -
  obtain t where t: "f s = Some t" "ok t" "keeps s t" using assms(1) by (auto simp: runs_def)
  then show ?thesis using assms(2) [OF t(2,3)] trans [OF t(3)] by (auto simp: runs_def)
qed

lemma runs_all: "ok s \<Longrightarrow> runs (out_all out cs) s"
proof (induction cs arbitrary: s)
  case Nil
  then show ?case by (simp add: runs_def refl)
next
  case (Cons c cs)
  have "runs (\<lambda>s. do { s \<leftarrow> out c s; out_all out cs s }) s"
    by (rule runs_bind) (use out_keeps [OF Cons.prems] Cons.IH in \<open>auto simp: runs_def\<close>)
  then show ?case by (simp add: runs_def)
qed

lemma runs_for:
  assumes "ok s" "a \<le> b" "\<And>i t. ok t \<Longrightarrow> keeps s t \<Longrightarrow> runs (f i) t"
  shows "runs (for_opt a b f) s"
proof -
  have "\<exists>s'. for_opt a b f s = Some s' \<and> ok s' \<and> keeps s s'"
  proof (rule for_opt_inv [where P = "\<lambda>_ t. ok t \<and> keeps s t"])
    fix i t assume t: "ok t \<and> keeps s t"
    then have "runs (f i) t" by (intro assms(3)) simp_all
    then show "\<exists>t'. f i t = Some t' \<and> ok t' \<and> keeps s t'" using t trans by (auto simp: runs_def)
  qed (use assms(1,2) refl in auto)
  then show ?thesis by (simp add: runs_def)
qed

end

sublocale text_output \<subseteq> device: text_device ok out keeps
  by unfold_locales (use out_ok keeps_refl keeps_trans in blast)+

text \<open>Before \<open>terminal_init\<close> every terminal's \<open>video_mem\<close> is null: \<open>putc\<close> mirrors the screen to address 0.\<close>

definition early :: "'z console_scheme \<Rightarrow> bool" where
  "early s \<longleftrightarrow> length (terminals s) = 3 \<and> curr_terminal_idx s = 0 \<and> video_mem (terminals s ! 0) = 0
     \<and> cursor_ok (screen_x (terminals s ! 0)) (screen_y (terminals s ! 0))"

definition prints_early :: "'z console_scheme \<Rightarrow> 'z console_scheme \<Rightarrow> bool" where
  "prints_early s s' \<longleftrightarrow> length (terminals s) = 3 \<and> printed_on 0 {VIDEO, 0} s s' \<and> sound_freq s' = sound_freq s"

lemma scroll_early: "same_but_cells {VIDEO, 0} m (for_range 0 2000 (putc_cell 0) m)"
proof (rule for_range_inv [where P = "\<lambda>_. same_but_cells {VIDEO, 0} m"])
  fix i :: nat and m' assume i: "i < 2000" and m': "same_but_cells {VIDEO, 0} m m'"
  show "same_but_cells {VIDEO, 0} m (putc_cell 0 i m')"
    unfolding putc_cell_def Let_def using i m'
    by (auto intro!: same_but_cells_upd [where b = VIDEO] same_but_cells_upd [where b = 0])
qed simp_all

lemma putc_early:
  assumes "early s"
  shows "\<exists>s'. putc c s = Some s' \<and> early s' \<and> prints_early s s' \<and> intr_flag s'"
proof -
  define t where "t = terminals s ! 0"
  have len: "length (terminals s) = 3" and idx: "curr_terminal_idx s = 0" and vm: "video_mem t = 0"
    and cur: "cursor_ok (screen_x t) (screen_y t)" using assms by (simp_all add: early_def t_def)
  define flag where "flag = must_scroll c (screen_x t) (screen_y t)"
  define m where "m = (if flag then for_range 0 2000 (putc_cell 0) (phys s) else phys s)"
  have m: "same_but_cells {VIDEO, 0} (phys s) m" by (simp add: m_def scroll_early)
  let ?out = "\<lambda>x y m'. sti (set_cursor (word_of_int (y * 80 + x)) ((cli s)\<lparr>scr_x := x, scr_y := y, phys := m',
       terminals := (terminals s)[0 := t\<lparr>screen_x := x, screen_y := y\<rparr>]\<rparr>))"
  have w: "same_but_cells {VIDEO, 0} (phys s) (m(cell VIDEO k := v, cell 0 k := v))" if "0 \<le> k" "k < 2000" for k v
    using that m by (intro same_but_cells_upd) auto
  have fin: ?thesis if "putc c s = Some (?out x y m')" "cursor_ok x y" "same_but_cells {VIDEO, 0} (phys s) m'" for x y m'
  proof -
    have "early (?out x y m')" using that(2) len idx vm by (simp add: early_def t_def)
    moreover have "prints_early s (?out x y m')" using that(3) len idx by (auto simp: prints_early_def printed_on_def t_def)
    ultimately show ?thesis using that(1) by (intro exI [of _ "?out x y m'"]) simp
  qed
  note base = putc_def aget_def aset_def len idx t_def [symmetric] vm io_defs
  note c' = cur [unfolded cursor_ok_def]
  have x80: "screen_x t \<noteq> 80" using c' by simp
  consider "c = 8" "screen_x t \<noteq> 0" | "c = 8" "screen_x t = 0" "screen_y t \<noteq> 0"
    | "c = 8" "screen_x t = 0" "screen_y t = 0" | "newline c" | "c \<noteq> 8" "\<not> newline c"
    by (auto simp: newline_def)
  then show ?thesis
  proof cases
    case 1
    then have f: "\<not> flag" by (simp add: flag_def must_scroll_def)
    show ?thesis
      by (rule fin [where x = "screen_x t - 1" and y = "screen_y t" and m' = "m(cell VIDEO (80 * screen_y t + (screen_x t - 1)) := 32,
          cell 0 (80 * screen_y t + (screen_x t - 1)) := 32)"])
        (use 1 c' f w in \<open>auto simp: base must_scroll_def newline_def cursor_ok_def m_def\<close>)
  next
    case 2
    then have f: "\<not> flag" by (simp add: flag_def must_scroll_def)
    show ?thesis
      by (rule fin [where x = 79 and y = "screen_y t - 1" and m' = "m(cell VIDEO (80 * (screen_y t - 1) + 79) := 32,
          cell 0 (80 * (screen_y t - 1) + 79) := 32)"])
        (use 2 c' f w in \<open>auto simp: base must_scroll_def newline_def cursor_ok_def m_def\<close>)
  next
    case 3
    then have t: "t\<lparr>screen_x := 0, screen_y := 0\<rparr> = t" using cursor_upd_triv(1) [of t "screen_x t"] by simp
    show ?thesis
      by (rule fin [where x = 0 and y = 0 and m' = "phys s"])
        (use 3 c' in \<open>auto simp: base must_scroll_def newline_def t cursor_ok_def\<close>)
  next
    case 4
    then have c: "c \<noteq> 8" by (auto simp: newline_def)
    have fl: "flag \<longleftrightarrow> 24 \<le> screen_y t" using 4 c' by (auto simp: flag_def must_scroll_def newline_def)
    show ?thesis
    proof (rule fin [where x = 0 and y = "if flag then 24 else screen_y t + 1" and m' = m])
      show "putc c s = Some (?out 0 (if flag then 24 else screen_y t + 1) m)"
        using 4 c x80 by (cases flag) (simp_all add: base flag_def [symmetric] m_def)
    qed (use c' fl m in \<open>auto simp: cursor_ok_def\<close>)
  next
    case 5
    then have fl: "flag \<longleftrightarrow> screen_y t = 25" using c' by (auto simp: flag_def must_scroll_def)
    define y where "y = (if flag then 24 else screen_y t)"
    have y: "0 \<le> y" "y \<le> 24" using c' fl by (auto simp: y_def)
    let ?x = "(screen_x t + 1) mod 80" and ?y = "if screen_x t = 79 then y + 1 else y"
    let ?k = "80 * y + screen_x t"
    show ?thesis
    proof (rule fin [where x = ?x and y = ?y and m' = "m(cell VIDEO ?k := c, cell 0 ?k := c)"])
      show "putc c s = Some (?out ?x ?y (m(cell VIDEO ?k := c, cell 0 ?k := c)))"
        using 5 x80 c' fl by (cases flag; cases "screen_x t = 79") (simp_all add: base must_scroll_def m_def y_def)
      show "cursor_ok ?x ?y" using y by (simp add: cursor_ok_def)
    qed (use y c' w in auto)
  qed
qed

text \<open>So the console before \<open>terminal_init\<close> is a text device.\<close>

interpretation early: text_device early putc prints_early
proof
  fix s s' s'' :: "'a console_scheme" and c
  show "early s \<Longrightarrow> \<exists>s'. putc c s = Some s' \<and> early s' \<and> prints_early s s'" using putc_early by blast
  show "early s \<Longrightarrow> prints_early s s" by (simp add: early_def prints_early_def printed_on_refl)
  show "prints_early s s' \<Longrightarrow> prints_early s' s'' \<Longrightarrow> prints_early s s''"
    using printed_on_trans [of 0 "{VIDEO, 0}" s s' s''] by (simp add: prints_early_def)
qed

section \<open>Printing the information structure\<close>

definition printable :: "u8 list \<Rightarrow> u32 list \<Rightarrow> bool" where
  "printable cs args \<longleftrightarrow> 0 \<notin> set cs \<and> (\<exists>tx. format_text cs args = Some tx)"

lemma print_text:
  assumes "0 \<notin> set cs" "format_text cs args = Some tx"
  shows "print cs args s = out_all putc tx s"
proof -
  have "is_cstr (arr_get (cs @ [0])) cs" using assms(1) is_cstr_append_arr [of cs "[]"] by simp
  then show ?thesis using printf_loop_text(1) [OF _ assms(2), of "arr_get (cs @ [0])" cs 0 s]
    by (cases "out_all putc tx s") (simp_all add: print_def printf_def)
qed

lemma runs_print: "early s \<Longrightarrow> printable cs (f s) \<Longrightarrow> early.runs (\<lambda>s. print cs (f s) s) s"
  using early.runs_all [of s] print_text [of cs "f s" _ s] by (auto simp: printable_def early.runs_def)

lemma printable_formats:
  "printable (ascii ''Invalid magic number: 0x%#x'' @ [10]) [a]"
  "printable (ascii ''flags = 0x%#x'' @ [10]) [a]"
  "printable (ascii ''mem_lower = %uKB, mem_upper = %uKB'' @ [10]) [a, b]"
  "printable (ascii ''boot_device = 0x%#x'' @ [10]) [a]"
  "printable (ascii ''Module %d loaded at address: 0x%#x'' @ [10]) [a, b]"
  "printable (ascii ''Module %d ends at address: 0x%#x'' @ [10]) [a, b]"
  "printable (ascii ''First few bytes of module:'' @ [10]) []"
  "printable (ascii ''0x%x '') [a]"
  "printable [10] []"
  "printable (ascii ''Both bits 4 and 5 are set.'' @ [10]) []"
  "printable (ascii ''elf_sec: num = %u, size = 0x%#x, addr = 0x%#x, shndx = 0x%#x'' @ [10]) [a, b, c, d]"
  "printable (ascii ''mmap_addr = 0x%#x, mmap_length = 0x%x'' @ [10]) [a, b]"
  "printable (ascii ''    size = 0x%x, base_addr = 0x%#x%#x'' @ [10] @ ascii ''    type = 0x%x,  length    = 0x%#x%#x'' @ [10]) [a, b, c, d, e, f]"
  by (simp_all add: printable_def ascii_def)

text \<open>The memory that the start-up writes: the first 4000 bytes, while the terminals are not set up, and the screen.\<close>

definition boot_safe :: "u32 \<Rightarrow> bool" where
  "boot_safe a \<longleftrightarrow> 4000 \<le> unat a \<and> \<not> (0xA0000 \<le> unat a \<and> unat a < 0xC7140)"

definition block_safe :: "u32 \<Rightarrow> nat \<Rightarrow> bool" where
  "block_safe a n \<longleftrightarrow> (\<forall>i<n. boot_safe (a + of_nat i))"

lemma prints_early_safe:
  assumes "prints_early s t" "boot_safe a"
  shows "phys t a = phys s a"
proof -
  have "a \<noteq> cell VIDEO (int k)" if "k < 2000" for k
    using assms(2) unat_cell [of VIDEO k] that by (auto simp: boot_safe_def)
  moreover have "a \<noteq> cell 0 (int k)" if "k < 2000" for k
    using assms(2) unat_of_nat_u32 [of "2 * k"] that by (auto simp: boot_safe_def cell_of_nat simp del: of_nat_mult)
  ultimately show ?thesis using assms(1) by (auto simp: prints_early_def printed_on_def same_but_cells_def)
qed

lemma prints_early_load32:
  assumes "prints_early s t" "block_safe a n" "k + 4 \<le> n"
  shows "load32 (phys t) (a + of_nat k) = load32 (phys s) (a + of_nat k)"
proof (rule load32_cong)
  fix i :: nat assume i: "i < 4"
  have "boot_safe (a + of_nat (k + i))" using assms(2,3) i by (simp only: block_safe_def)
  then show "phys t (a + of_nat k + of_nat i) = phys s (a + of_nat k + of_nat i)"
    using prints_early_safe [OF assms(1)] by (simp add: add.assoc)
qed

lemma puts_memory:
  assumes "early s" "is_cstr (\<lambda>i. Some (phys s (v + of_nat i))) cs" "block_safe v (Suc (length cs))"
  shows "early.runs (\<lambda>s. do { (_, s) \<leftarrow> puts (ptr_str v) s; Some s }) s"
proof -
  have "early.runs (\<lambda>t. do { (_, t) \<leftarrow> puts_loop (ptr_str v) n t; Some t }) t"
    if "n \<le> length cs" "early t" "prints_early s t" for n t
    using that
  proof (induction "length cs - n" arbitrary: n t)
    case 0
    then have "phys t (v + of_nat n) = 0"
      using prints_early_safe [OF 0(4), of "v + of_nat n"] is_cstrD [OF assms(2)] assms(3) by (simp add: block_safe_def)
    then show ?case using 0(3) by (simp add: early.runs_def early.refl puts_loop.simps [of _ n] ptr_str_def)
  next
    case (Suc k)
    then have n: "n < length cs" by simp
    have c: "phys t (v + of_nat n) = cs ! n" "cs ! n \<noteq> 0"
      using prints_early_safe [OF Suc.prems(3), of "v + of_nat n"] is_cstrD [OF assms(2)] assms(3) n by (simp_all add: block_safe_def)
    have "early.runs (\<lambda>t. do { t \<leftarrow> putc (cs ! n) t; (_, t) \<leftarrow> puts_loop (ptr_str v) (Suc n) t; Some t }) t"
    proof (rule early.runs_bind)
      show "early.runs (putc (cs ! n)) t" using early.out_keeps [OF Suc.prems(2)] by (simp add: early.runs_def)
      show "early.runs (\<lambda>t. do { (_, t) \<leftarrow> puts_loop (ptr_str v) (Suc n) t; Some t }) u" if "early u" "prints_early t u" for u
        using Suc.hyps(1) [of "Suc n" u] Suc.hyps(2) n that early.trans [OF Suc.prems(3) that(2)] by simp
    qed
    then show ?case using c by (simp add: early.runs_def puts_loop.simps [of _ n] ptr_str_def bind_assoc)
  qed
  from this [of 0 s] show ?thesis using assms(1) by (simp add: puts_def early.refl)
qed

lemma printf_literal_prefix:
  assumes "\<And>j. j < length pre \<Longrightarrow> fmt (i + j) = Some (pre ! j)" "0 \<notin> set pre" "37 \<notin> set pre"
  shows "printf_loop fmt i args s = do { s \<leftarrow> out_all putc pre s; printf_loop fmt (i + length pre) args s }"
  using assms
proof (induction pre arbitrary: i s)
  case (Cons c cs)
  have "fmt i = Some c" using Cons.prems(1) [of 0] by simp
  moreover have "fmt (Suc i + j) = Some (cs ! j)" if "j < length cs" for j using Cons.prems(1) [of "Suc j"] that by simp
  ultimately show ?case
    using Cons.IH [of "Suc i"] Cons.prems(2,3) by (simp add: printf_loop_plain split: Option.bind_split)
qed simp

lemma print_cmdline:
  assumes "early s" "is_cstr (\<lambda>i. Some (phys s (v + of_nat i))) cs" "block_safe v (Suc (length cs))"
  shows "early.runs (\<lambda>s. print (ascii ''cmdline = %s'' @ [10]) [v] s) s"
proof -
  define fmt where "fmt = arr_get (ascii ''cmdline = %s'' @ [10, 0])"
  have pre: "fmt j = Some (ascii ''cmdline = '' ! j)" if "j < 10" for j
    using that by (simp add: fmt_def arr_get_def ascii_def numeral_eq_Suc less_Suc_eq) auto
  have at: "fmt 10 = Some 37" "fmt 11 = Some 115" "fmt 12 = Some 10" "fmt 13 = Some 0"
    by (simp_all add: fmt_def arr_get_def ascii_def)
  have tl: "printf_loop fmt 12 [] t = do { t \<leftarrow> putc 10 t; Some (13, t) }" for t :: "'a console_scheme"
    using at by (simp add: printf_loop_plain printf_loop_end)
  have dir: "printf_loop fmt 10 [v] t = do { (_, t) \<leftarrow> puts (ptr_str v) t; t \<leftarrow> putc 10 t; Some (13, t) }" for t :: "'a console_scheme"
    using at tl by (simp add: printf_loop_percent format_char.simps printf_directive_def split_def)
  define ws where "ws = ascii ''cmdline = ''"
  have tx: "length ws = 10" "0 \<notin> set ws" "37 \<notin> set ws" by (simp_all add: ws_def ascii_def)
  have "printf_loop fmt 0 [v] t = do { t \<leftarrow> out_all putc ws t; (_, t) \<leftarrow> puts (ptr_str v) t; t \<leftarrow> putc 10 t; Some (13, t) }"
    for t :: "'a console_scheme"
    using printf_literal_prefix [of ws fmt 0 "[v]" t] pre tx dir unfolding ws_def [symmetric] by simp
  then have e: "print (ascii ''cmdline = %s'' @ [10]) [v] = (\<lambda>t :: 'a console_scheme. do { t \<leftarrow> out_all putc ws t;
      t \<leftarrow> do { (_, t) \<leftarrow> puts (ptr_str v) t; Some t }; putc 10 t })"
    by (simp add: fun_eq_iff print_def printf_def fmt_def split_def bind_assoc)
  show ?thesis unfolding e
  proof (rule early.runs_bind [OF early.runs_all [OF assms(1)]], rule early.runs_bind)
    fix t assume t: "early t" "prints_early s t"
    have "is_cstr (\<lambda>i. Some (phys t (v + of_nat i))) cs"
      using assms(2,3) prints_early_safe [OF t(2)] by (auto simp: is_cstr_def block_safe_def)
    then show "early.runs (\<lambda>t. do { (_, t) \<leftarrow> puts (ptr_str v) t; Some t }) t" by (rule puts_memory [OF t(1) _ assms(3)])
    show "early.runs (putc 10) u" if "early u" for u using early.out_keeps [OF that] by (simp add: early.runs_def)
  qed
qed

lemma runs_ifI:
  "(p s \<Longrightarrow> early.runs f s) \<Longrightarrow> (\<not> p s \<Longrightarrow> early.runs g s) \<Longrightarrow> early.runs (\<lambda>s. if p s then f s else g s) s"
  by (auto simp: early.runs_def)

lemmas runs_steps = early.runs_bind runs_ifI early.runs_Some runs_print

lemmas runs_intros = early.runs_bind runs_print printable_formats runs_ifI early.runs_Some

lemma mbi_same:
  assumes "prints_early s t" "block_safe mbi 52"
  shows "mbi_flags mbi (phys t) = mbi_flags mbi (phys s)" "mods_count mbi (phys t) = mods_count mbi (phys s)"
    "mods_addr mbi (phys t) = mods_addr mbi (phys s)" "mmap_length mbi (phys t) = mmap_length mbi (phys s)"
    "mmap_addr mbi (phys t) = mmap_addr mbi (phys s)" "load32 (phys t) (mbi + 16) = load32 (phys s) (mbi + 16)"
  using prints_early_load32 [OF assms, of 0] prints_early_load32 [OF assms, of 20] prints_early_load32 [OF assms, of 24]
    prints_early_load32 [OF assms, of 44] prints_early_load32 [OF assms, of 48] prints_early_load32 [OF assms, of 16]
  by (simp_all add: mbi_flags_def mods_count_def mods_addr_def mmap_length_def mmap_addr_def)

lemma runs_modules:
  assumes "early s" "block_safe mbi 52"
  shows "early.runs (print_modules mbi md k) s"
  using assms(1)
proof (induction "unat (mods_count mbi (phys s)) - unat k" arbitrary: md k s rule: less_induct)
  case less
  show ?case
  proof (cases "k < mods_count mbi (phys s)")
    case False
    then show ?thesis using less.prems by (simp add: early.runs_def print_modules.simps [of mbi md k] early.refl)
  next
    case True
    have go: "early.runs (print_modules mbi (md + 16) (k + 1)) t" if "early t" "prints_early s t" for t
    proof (rule less.hyps [OF _ that(1)])
      have "unat k < unat (mods_count mbi (phys s))" using True by (simp add: word_less_nat_alt)
      moreover from this have "unat (k + 1) = unat k + 1"
        using unat_lt_u32 [of "mods_count mbi (phys s)"] unfolding unat_word_ariths(1) by simp
      ultimately show "unat (mods_count mbi (phys t)) - unat (k + 1) < unat (mods_count mbi (phys s)) - unat k"
        unfolding mbi_same(2) [OF that(2) assms(2)] by simp
    qed
    have "early.runs (\<lambda>s. do { s \<leftarrow> print (ascii ''Module %d loaded at address: 0x%#x'' @ [10]) [k, load32 (phys s) md] s;
             s \<leftarrow> print (ascii ''Module %d ends at address: 0x%#x'' @ [10]) [k, load32 (phys s) (md + 4)] s;
             s \<leftarrow> print (ascii ''First few bytes of module:'' @ [10]) [] s;
             s \<leftarrow> print_bytes md s;
             s \<leftarrow> print [10] [] s;
             print_modules mbi (md + 16) (k + 1) s }) s"
    proof (intro runs_intros less.prems)
      show "early.runs (print_bytes md) t" if "early t" for t
        unfolding print_bytes_def by (rule early.runs_for [OF that]) (auto intro: runs_intros)
      fix t1 t2 t3 t4 t5 assume "prints_early s t1" "prints_early t1 t2" "prints_early t2 t3" "prints_early t3 t4" "early t5" "prints_early t4 t5"
      then show "early.runs (print_modules mbi (md + 16) (k + 1)) t5" by (intro go) (metis early.trans)+
    qed
    then show ?thesis using True by (simp add: early.runs_def print_modules.simps [of mbi md k])
  qed
qed

text \<open>A memory map that ends: \<open>n\<close> bounds the number of its entries.\<close>

fun mmap_ends :: "nat \<Rightarrow> mem \<Rightarrow> u32 \<Rightarrow> u32 \<Rightarrow> bool" where
  "mmap_ends 0 m mmap limit \<longleftrightarrow> \<not> mmap < limit"
| "mmap_ends (Suc n) m mmap limit \<longleftrightarrow>
     \<not> mmap < limit \<or> block_safe mmap 4 \<and> mmap_ends n m (mmap + load32 m mmap + 4) limit"

lemma mmap_ends_early: "prints_early s t \<Longrightarrow> mmap_ends n (phys s) mmap limit = mmap_ends n (phys t) mmap limit"
proof (induction n arbitrary: mmap)
  case (Suc n)
  have "load32 (phys t) mmap = load32 (phys s) mmap" if "block_safe mmap 4"
    using prints_early_load32 [OF Suc.prems that, of 0] by simp
  then show ?case using Suc.IH [OF Suc.prems] by (simp cong: conj_cong)
qed simp

lemma runs_mmap:
  assumes "block_safe mbi 52"
  shows "early s \<Longrightarrow> mmap_ends n (phys s) mmap (mmap_addr mbi (phys s) + mmap_length mbi (phys s)) \<Longrightarrow> early.runs (print_mmap mbi mmap) s"
proof (induction n arbitrary: mmap s)
  case 0
  then show ?case by (simp add: early.runs_def print_mmap.simps [of mbi mmap] early.refl)
next
  case (Suc n)
  show ?case
  proof (cases "mmap < mmap_addr mbi (phys s) + mmap_length mbi (phys s)")
    case False
    then show ?thesis using Suc.prems by (simp add: early.runs_def print_mmap.simps [of mbi mmap] early.refl)
  next
    case True
    let ?f = "ascii ''    size = 0x%x, base_addr = 0x%#x%#x'' @ [10] @ ascii ''    type = 0x%x,  length    = 0x%#x%#x'' @ [10]"
    have "early.runs (\<lambda>s. do { s \<leftarrow> print ?f [load32 (phys s) mmap, load32 (phys s) (mmap + 8), load32 (phys s) (mmap + 4),
             load32 (phys s) (mmap + 20), load32 (phys s) (mmap + 16), load32 (phys s) (mmap + 12)] s;
           print_mmap mbi (mmap + load32 (phys s) mmap + 4) s }) s"
    proof (intro early.runs_bind runs_print printable_formats Suc.prems(1))
      fix t assume t: "early t" "prints_early s t"
      have m: "mmap_ends n (phys t) (mmap + load32 (phys s) mmap + 4) (mmap_addr mbi (phys s) + mmap_length mbi (phys s))"
        using Suc.prems(2) True unfolding mmap_ends_early [OF t(2), symmetric] by simp
      have l: "load32 (phys t) mmap = load32 (phys s) mmap"
        using Suc.prems(2) True prints_early_load32 [OF t(2), of mmap 4 0] by simp
      have "early.runs (print_mmap mbi (mmap + load32 (phys s) mmap + 4)) t"
        using m by (intro Suc.IH [OF t(1)]) (simp add: mbi_same [OF t(2) assms])
      then show "early.runs (\<lambda>t. print_mmap mbi (mmap + load32 (phys t) mmap + 4) t) t" by (simp add: early.runs_def l)
    qed
    then show ?thesis using True by (simp add: early.runs_def print_mmap.simps [of mbi mmap])
  qed
qed

text \<open>What the loader promises: the structure, the command line and the memory map are well formed and lie where the
  start-up does not write.\<close>

definition multiboot_ok :: "u32 \<Rightarrow> mem \<Rightarrow> bool" where
  "multiboot_ok mbi m \<longleftrightarrow> block_safe mbi 52
     \<and> (CHECK_FLAG (mbi_flags mbi m) 2 \<longrightarrow> (\<exists>cs. is_cstr (\<lambda>i. Some (m (load32 m (mbi + 16) + of_nat i))) cs
         \<and> block_safe (load32 m (mbi + 16)) (Suc (length cs))))
     \<and> (CHECK_FLAG (mbi_flags mbi m) 6 \<longrightarrow> (\<exists>n. mmap_ends n m (mmap_addr mbi m) (mmap_addr mbi m + mmap_length mbi m)))"

lemma multiboot_ok_early:
  assumes "multiboot_ok mbi (phys s)" "prints_early s t"
  shows "multiboot_ok mbi (phys t)"
proof -
  have b: "block_safe mbi 52" using assms(1) by (simp add: multiboot_ok_def)
  note same = mbi_same [OF assms(2) b]
  have "is_cstr (\<lambda>i. Some (phys t (v + of_nat i))) cs" if "is_cstr (\<lambda>i. Some (phys s (v + of_nat i))) cs" "block_safe v (Suc (length cs))"
    for v cs
    using that prints_early_safe [OF assms(2)] by (auto simp: is_cstr_def block_safe_def)
  then show ?thesis
    using assms(1) mmap_ends_early [OF assms(2)] unfolding multiboot_ok_def same by blast
qed

lemma print_multiboot_ok:
  assumes "early s" "multiboot_ok mbi (phys s)"
  defines "f \<equiv> mbi_flags mbi (phys s)"
  shows "\<exists>s'. print_multiboot mbi s = Some (\<not> (CHECK_FLAG f 4 \<and> CHECK_FLAG f 5), s') \<and> early s' \<and> prints_early s s'"
proof -
  have b: "block_safe mbi 52" using assms(2) by (simp add: multiboot_ok_def)
  let ?word = "\<lambda>k (s :: 'a console_scheme). load32 (phys s) (mbi + k)" and ?check = "\<lambda>n (s :: 'a console_scheme). CHECK_FLAG (mbi_flags mbi (phys s)) n"
  define first where "first = (\<lambda>s :: 'a console_scheme.
      do { s \<leftarrow> print (ascii ''flags = 0x%#x'' @ [10]) [mbi_flags mbi (phys s)] s;
           s \<leftarrow> (if ?check 0 s then print (ascii ''mem_lower = %uKB, mem_upper = %uKB'' @ [10]) [?word 4 s, ?word 8 s] s else Some s);
           s \<leftarrow> (if ?check 1 s then print (ascii ''boot_device = 0x%#x'' @ [10]) [?word 12 s] s else Some s);
           s \<leftarrow> (if ?check 2 s then print (ascii ''cmdline = %s'' @ [10]) [?word 16 s] s else Some s);
           if ?check 3 s then print_modules mbi (mods_addr mbi (phys s)) 0 s else Some s })"
  define last where "last = (\<lambda>s :: 'a console_scheme.
      do { s \<leftarrow> (if ?check 5 s then print (ascii ''elf_sec: num = %u, size = 0x%#x, addr = 0x%#x, shndx = 0x%#x'' @ [10])
                   [?word 28 s, ?word 32 s, ?word 36 s, ?word 40 s] s else Some s);
           if ?check 6 s then do { s \<leftarrow> print (ascii ''mmap_addr = 0x%#x, mmap_length = 0x%x'' @ [10]) [mmap_addr mbi (phys s), mmap_length mbi (phys s)] s;
                                   print_mmap mbi (mmap_addr mbi (phys s)) s }
           else Some s })"
  have cmd: "early.runs (\<lambda>s. print (ascii ''cmdline = %s'' @ [10]) [?word 16 s] s) t"
    if t: "early t" "multiboot_ok mbi (phys t)" "?check 2 t" for t
  proof -
    obtain cs where "is_cstr (\<lambda>i. Some (phys t (?word 16 t + of_nat i))) cs" "block_safe (?word 16 t) (Suc (length cs))"
      using t(2,3) by (auto simp: multiboot_ok_def)
    from print_cmdline [OF t(1) this] show ?thesis by (simp add: early.runs_def)
  qed
  have mods: "early.runs (\<lambda>s. print_modules mbi (mods_addr mbi (phys s)) 0 s) t" if "early t" for t :: "'a console_scheme"
    using runs_modules [OF that b] by (simp add: early.runs_def)
  have map: "early.runs (\<lambda>s. print_mmap mbi (mmap_addr mbi (phys s)) s) t"
    if t: "early t" "multiboot_ok mbi (phys t)" "?check 6 t" for t :: "'a console_scheme"
    using runs_mmap [OF b t(1)] t(2,3) by (auto simp: early.runs_def multiboot_ok_def)
  have "early.runs first s"
    unfolding first_def
    by (assumption | rule assms cmd mods printable_formats runs_steps | (rule multiboot_ok_early [OF assms(2)], metis early.trans))+
  then obtain t where t: "first s = Some t" "early t" "prints_early s t" by (auto simp: early.runs_def)
  note fl = mbi_same(1) [OF t(3) b]
  have e: "print_multiboot mbi s = (if CHECK_FLAG f 4 \<and> CHECK_FLAG f 5
      then do { t \<leftarrow> print (ascii ''Both bits 4 and 5 are set.'' @ [10]) [] t; Some (False, t) }
      else do { t \<leftarrow> last t; Some (True, t) })"
  proof -
    have "print_multiboot mbi s = do { t \<leftarrow> first s; if CHECK_FLAG (mbi_flags mbi (phys t)) 4 \<and> CHECK_FLAG (mbi_flags mbi (phys t)) 5
      then do { t \<leftarrow> print (ascii ''Both bits 4 and 5 are set.'' @ [10]) [] t; Some (False, t) }
      else do { t \<leftarrow> last t; Some (True, t) } }"
      by (simp add: print_multiboot_def first_def last_def Let_def cong: if_cong)
    then show ?thesis by (simp add: t(1) fl f_def)
  qed
  show ?thesis
  proof (cases "CHECK_FLAG f 4 \<and> CHECK_FLAG f 5")
    case True
    have "early.runs (print (ascii ''Both bits 4 and 5 are set.'' @ [10]) []) t"
      by (rule runs_print [OF t(2)]) (rule printable_formats)
    then obtain u where "print (ascii ''Both bits 4 and 5 are set.'' @ [10]) [] t = Some u" "early u" "prints_early t u"
      by (auto simp: early.runs_def)
    then show ?thesis using e True early.trans [OF t(3)] by auto
  next
    case False
    have ok: "multiboot_ok mbi (phys t)" by (rule multiboot_ok_early [OF assms(2) t(3)])
    have "early.runs last t"
      unfolding last_def
      by (assumption | rule t(2) map printable_formats runs_steps | (rule multiboot_ok_early [OF ok], metis early.trans)
        | (subst mbi_same(1) [OF _ b], assumption, assumption))+
    then obtain u where "last t = Some u" "early u" "prints_early t u" by (auto simp: early.runs_def)
    then show ?thesis using e False early.trans [OF t(3)] by auto
  qed
qed

section \<open>A wrong magic number\<close>

lemma clear_early:
  assumes "early s"
  shows "\<exists>s'. clear s = Some s' \<and> early s' \<and> prints_early s s'"
proof -
  define t where "t = terminals s ! 0"
  have e: "length (terminals s) = 3" "curr_terminal_idx s = 0" "video_mem t = 0" using assms by (simp_all add: early_def t_def)
  define m where "m = for_range 0 2000 (clear_cell 0) (phys s)"
  have m: "same_but_cells {VIDEO, 0} (phys s) m"
    unfolding m_def
  proof (rule for_range_inv [where P = "\<lambda>_. same_but_cells {VIDEO, 0} (phys s)"])
    fix i :: nat and m' assume "i < 2000" "same_but_cells {VIDEO, 0} (phys s) m'"
    then show "same_but_cells {VIDEO, 0} (phys s) (clear_cell 0 i m')"
      by (simp add: clear_cell_def Let_def same_but_cells_upd)
  qed simp_all
  let ?s = "s\<lparr>phys := m, scr_x := 0, scr_y := 0, terminals := (terminals s)[0 := t\<lparr>screen_x := 0, screen_y := 0\<rparr>]\<rparr>"
  have "clear s = Some ?s" using e by (simp add: clear_def aget_def aset_def t_def [symmetric] m_def)
  moreover have "early ?s" using e by (simp add: early_def cursor_ok_def)
  moreover have "prints_early s ?s" using m e by (auto simp: prints_early_def printed_on_def t_def)
  ultimately show ?thesis by blast
qed

lemma out_all_enables: "early s \<Longrightarrow> out_all putc cs s = Some s' \<Longrightarrow> cs \<noteq> [] \<Longrightarrow> intr_flag s'"
proof (induction cs arbitrary: s)
  case (Cons c cs)
  obtain t where t: "putc c s = Some t" "early t" "intr_flag t" using putc_early [OF Cons.prems(1), of c] by blast
  then show ?case using Cons.IH [OF t(2)] Cons.prems(2) by (cases cs) auto
qed simp

text \<open>When the loader's magic number is wrong, \<open>entry\<close> prints a message and returns. Nothing has been initialised and
  memory keeps its contents, except for the cells of the screen, mirrored to the first 4000 bytes because no terminal has
  its page yet. Interrupts are on all the same, with no interrupt table loaded: printing has enabled them.\<close>

theorem entry_rejects_magic:
  assumes "early s" "magic \<noteq> 0x2BADB002"
  shows "\<exists>s'. entry addr junk1 junk2 irqs magic mbi s = Some (Returned, s') \<and> console.more s' = console.more s
    \<and> idtr_loaded s' = idtr_loaded s \<and> intr_flag s' \<and> same_but_cells {VIDEO, 0} (phys s) (phys s')"
proof -
  obtain t where t: "clear s = Some t" "early t" "prints_early s t" using clear_early [OF assms(1)] by blast
  let ?f = "ascii ''Invalid magic number: 0x%#x'' @ [10]"
  obtain tx where tx: "format_text ?f [magic] = Some tx" "tx \<noteq> []" by (simp add: ascii_def)
  obtain u where u: "print ?f [magic] t = Some u" "early u" "prints_early t u"
    using runs_print [OF t(2), of ?f "\<lambda>_. [magic]"] printable_formats(1) by (auto simp: early.runs_def)
  have "0 \<notin> set ?f" by (simp add: ascii_def)
  then have "intr_flag u" using print_text [OF _ tx(1), of t] u(1) out_all_enables [OF t(2)] tx(2) by metis
  moreover have p: "prints_early s u" by (rule early.trans [OF t(3) u(3)])
  moreover have "idtr_loaded u = idtr_loaded s" using p by (cases u, cases s, simp add: prints_early_def printed_on_def)
  ultimately show ?thesis
    using t(1) u(1) assms(2) by (intro exI [of _ u]) (simp add: entry_def prints_early_def printed_on_def)
qed

section \<open>Example\<close>

text \<open>The small machine as the boot loader leaves it: the terminals have no page yet.\<close>

definition desc0 :: seg_desc_t where
  "desc0 = \<lparr>seg_lim_15_00 = 0, base_15_00 = 0, base_23_16 = 0, seg_type = 0, seg_sys = 0, seg_dpl = 0, seg_present = 0,
     seg_lim_19_16 = 0, avail = 0, seg_reserved = 0, opsize = 0, granularity = 0, base_31_24 = 0\<rparr>"

definition kernel0 :: kernel where
  "kernel0 = vga.extend (mouse_state.extend (cpu_tables.extend (scheduler.extend (process.extend
       (unpaged\<lparr>terminals := map (\<lambda>i. (terminal0 i)\<lparr>video_mem := 0\<rparr>) [0, 1, 2], temp_curr_running_terminal_idx := 0\<rparr>)
     (scheduler.fields [0, 0, 0] 0 0)) (cpu_tables.fields (replicate 256 gate0) False)) (mouse_state.fields 0 0)) (vga.fields 0))
     (kernel.fields desc0 desc0 0 0 0 0 0x40A000 0x40B000)"

lemma kernel0_simps [simp]:
  "phys kernel0 = image" "terminals kernel0 = map (\<lambda>i. (terminal0 i)\<lparr>video_mem := 0\<rparr>) [0, 1, 2]" "curr_terminal_idx kernel0 = 0"
  "curr_running_terminal_idx kernel0 = 0" "temp_curr_running_terminal_idx kernel0 = 0" "idtr_loaded kernel0 = False"
  "idt kernel0 = replicate 256 gate0" "order kernel0 = [0, 0, 0]" "flag kernel0 = 0" "pcbs kernel0 = replicate 6 shell_pcb"
  "stack_junk kernel0 = replicate 4 0" "phys_addr_available kernel0 = [0, 0, 0, 1, 1, 1]" "sound_freq kernel0 = sound_freq unpaged"
  "curr_dir_dentry kernel0 = some_dentry" "curr_file_dentry kernel0 = some_dentry" "paging_boot kernel0"
  using unpaged_boot
  by (simp_all add: kernel0_def process.defs scheduler.defs cpu_tables.defs mouse_state.defs vga.defs kernel.defs paging_boot_def paging_ok_def)

lemma kernel0_early: "early kernel0"
  by (simp add: early_def cursor_ok_def terminal0_def)

theorem entry_rejects_magic_witness:
  "\<exists>s'. entry (\<lambda>_. 0) desc0 desc0 [] 0x1BADB002 0x9000 kernel0 = Some (Returned, s') \<and> intr_flag s' \<and> \<not> idtr_loaded s'"
  using entry_rejects_magic [OF kernel0_early, of "0x1BADB002"] by force

end
