(* ===== verification/Startup.thy ===== *)
theory Startup
  imports Kernel
begin

text \<open>
  The whole start-up: what each step of \<open>entry\<close> leaves alone, and the theorem that it reaches the state from which the
  timer interrupt starts the three shells.
\<close>

section \<open>What later steps rely on\<close>

text \<open>The state that one component sets up and the following ones must not disturb.\<close>

definition tables_of :: "'z kernel_scheme \<Rightarrow> int list \<times> int \<times> u32 \<times> u32 \<times> dentry_t \<times> dentry_t \<times> PCB_t list \<times> u8 list \<times> int" where
  "tables_of s = (phys_addr_available s, flag_first_execute s, boot_block s, inode_addr s, curr_dir_dentry s, curr_file_dentry s,
     pcbs s, stack_junk s, flag s)"

definition pages_of :: "'z kernel_scheme \<Rightarrow> nat option list \<times> u32 list list \<times> u32 list \<times> u32 list \<times> (nat \<Rightarrow> u32) \<times> u32 \<times> u32 \<times> u32 \<times> u32" where
  "pages_of s = (pde_arr s, pdes s, pte_zero s, pte_one s, addr_pde s, addr_pte_zero s, addr_pte_one s, cr0 s, cr3 s)"

definition descriptors_of :: "'z kernel_scheme \<Rightarrow> idt_desc_t list \<times> bool \<times> seg_desc_t \<times> seg_desc_t \<times> u16 \<times> u16 \<times> u16 \<times> u32
    \<times> u32 \<times> u32" where
  "descriptors_of s = (idt s, idtr_loaded s, ldt_desc_ptr s, tss_desc_ptr s, ldtr s, task_reg s, tss_ss0 s, tss_esp0 s, addr_ldt s, addr_tss s)"

definition core_of where
  "core_of s = (tables_of s, pages_of s, descriptors_of s, length (order s))"

definition quiet :: "'z kernel_scheme \<Rightarrow> 'z kernel_scheme \<Rightarrow> bool" where
  "quiet s t \<longleftrightarrow> core_of t = core_of s \<and> terminals t = terminals s \<and> curr_terminal_idx t = curr_terminal_idx s
     \<and> curr_running_terminal_idx t = curr_running_terminal_idx s
     \<and> temp_curr_running_terminal_idx t = temp_curr_running_terminal_idx s
     \<and> (\<forall>a. boot_safe a \<longrightarrow> phys t a = phys s a) \<and> (sound_ok s \<longrightarrow> sound_ok t)"

lemma quiet_refl: "quiet s s"
  by (simp add: quiet_def)

lemma quiet_trans: "quiet s t \<Longrightarrow> quiet t u \<Longrightarrow> quiet s u"
  by (simp add: quiet_def)

lemma core_same: "console.more t = console.more s \<Longrightarrow> core_of t = core_of s"
  by (cases t, cases s, simp add: core_of_def tables_of_def pages_of_def descriptors_of_def)

text \<open>A step that stores outside the safe memory only, and one that only talks to devices.\<close>

lemma quiet_machine:
  assumes "machine.more t = machine.more (s\<lparr>phys := m\<rparr>)" "\<And>a. boot_safe a \<Longrightarrow> m a = phys s a"
  shows "quiet s t"
proof -
  have "core_of t = core_of s" by (rule core_same) (use assms(1) in \<open>cases t, cases s, simp\<close>)
  moreover have "terminals t = terminals s" "curr_terminal_idx t = curr_terminal_idx s"
    "curr_running_terminal_idx t = curr_running_terminal_idx s" "temp_curr_running_terminal_idx t = temp_curr_running_terminal_idx s"
    "phys t = m" "sound_freq t = sound_freq s"
    using assms(1) by (cases t, cases s, simp)+
  ultimately show ?thesis using assms(2) by (simp add: quiet_def sound_ok_def)
qed

lemma quiet_device: "rtc.more t = rtc.more s \<Longrightarrow> (sound_ok s \<Longrightarrow> sound_ok t) \<Longrightarrow> quiet s t"
proof -
  assume same: "rtc.more t = rtc.more s" and ok: "sound_ok s \<Longrightarrow> sound_ok t"
  have "core_of t = core_of s" by (rule core_same) (use same in \<open>cases t, cases s, simp\<close>)
  moreover have "terminals t = terminals s" "curr_terminal_idx t = curr_terminal_idx s"
    "curr_running_terminal_idx t = curr_running_terminal_idx s" "temp_curr_running_terminal_idx t = temp_curr_running_terminal_idx s"
    "phys t = phys s"
    using same by (cases t, cases s, simp)+
  ultimately show ?thesis using ok by (simp add: quiet_def)
qed

section \<open>The screen\<close>

lemma unsafe_stores:
  assumes "\<And>i. a \<le> i \<Longrightarrow> i < b \<Longrightarrow> \<not> boot_safe (f i)" "a \<le> b" "boot_safe x"
  shows "for_range a b (\<lambda>i m. m(f i := g i m)) m x = m x"
proof (rule for_range_inv [where P = "\<lambda>_ m'. m' x = m x"])
  fix i m' assume "a \<le> i" "i < b" "m' x = m x"
  then show "(m'(f i := g i m')) x = m x" using assms(1) [of i] assms(3) by auto
qed (use assms(2) in simp_all)

lemma video_unsafe: "k < 0x27140 \<Longrightarrow> \<not> boot_safe (0xA0000 + of_nat k)"
proof -
  assume k: "k < 0x27140"
  then have "unat (0xA0000 + of_nat k :: u32) = 0xA0000 + k" using unat_of_nat_u32 [of "0xA0000 + k"] by simp
  then show ?thesis using k by (simp add: boot_safe_def)
qed

lemma quiet_phys: "(\<And>a. boot_safe a \<Longrightarrow> m a = phys s a) \<Longrightarrow> quiet s (s\<lparr>phys := m\<rparr>)"
  by (rule quiet_machine [OF refl])

lemma quiet_mode_X: "quiet s (snd (set_mode_X s))"
proof -
  let ?s = "s\<lparr>target_img := target_img s XOR 0x4000\<rparr>"
  have "quiet s ?s" by (simp add: quiet_def core_of_def tables_of_def pages_of_def descriptors_of_def sound_ok_def)
  moreover have "quiet ?s (snd (set_mode_X s))"
  proof (rule quiet_machine)
    show "machine.more (snd (set_mode_X s)) = machine.more (?s\<lparr>phys := blit mem_image 65536 (\<lambda>_. 0) (phys s)\<rparr>)"
      using mode_X_more(2) [of s] by (cases s, simp)
    show "blit mem_image 65536 (\<lambda>_. 0) (phys s) a = phys ?s a" if "boot_safe a" for a
    proof -
      have "65536 \<le> unat (a - mem_image)" using that unat_lt_u32 [of a] by (auto simp: boot_safe_def unat_sub_u32)
      then show ?thesis by (simp add: blit_outside)
    qed
  qed
  ultimately show ?thesis by (rule quiet_trans)
qed

lemma quiet_picture: "quiet s (draw_picture s)"
  unfolding draw_picture_def
proof (rule quiet_phys, rule unsafe_stores)
  fix i :: nat assume "i < 80 * 193"
  then show "\<not> boot_safe (0xA0000 + 0x4000 + of_nat i)" using video_unsafe [of "0x4000 + i"] by (simp add: add.assoc)
qed simp_all

lemma quiet_column: "n < 80 \<Longrightarrow> quiet s (draw_column n s)"
  unfolding draw_column_def
proof (rule quiet_phys, rule unsafe_stores)
  fix i :: nat assume "n < 80" "i < 16"
  then show "\<not> boot_safe (0xA0000 + of_nat (i * 80) + of_nat n)" using video_unsafe [of "i * 80 + n"] by (simp add: add.assoc)
qed simp_all

lemma quiet_text_mode: "quiet s (set_text_mode_3 c s)"
proof (rule quiet_machine [OF text_mode_more])
  fix a assume a: "boot_safe a"
  then have "font_cell a = None" "61760 \<le> unat (a - 0xB8000)"
    using font_cell_outside [of a] unat_from_video [of 61760 a] by (auto simp: boot_safe_def)
  then show "with_font (if c \<noteq> 0 then blit 0xB8000 61760 blank_text (phys s) else phys s) a = phys s a"
    by (simp add: with_font_def blit_outside)
qed

section \<open>The loading screen\<close>

text \<open>Between two rounds of the waiting loop the clock may tick or not.\<close>

definition clock :: "bool \<Rightarrow> 'z kernel_scheme \<Rightarrow> 'z kernel_scheme" where
  "clock tick = (if tick then RTC_interrupt_handler else (\<lambda>s. s))"

definition tick_count :: "bool list \<Rightarrow> nat" where
  "tick_count ticks = length (filter (\<lambda>b. b) ticks)"

lemma clock_effect: "quiet s (clock b s)" "loading_counter (clock b s) = loading_counter s + (if b then 1 else 0)"
proof -
  have r: "rtc.more (RTC_interrupt_handler s) = rtc.more s" "sound_freq (RTC_interrupt_handler s) = sound_freq s"
    "loading_counter (RTC_interrupt_handler s) = loading_counter s + 1"
    by (simp_all add: RTC_interrupt_handler_def send_eoi_def Let_def io_defs)
  then show "quiet s (clock b s)"
    by (cases b) (auto simp: clock_def sound_ok_def quiet_refl intro!: quiet_device)
  show "loading_counter (clock b s) = loading_counter s + (if b then 1 else 0)" using r by (simp add: clock_def)
qed

lemma load_column_ends:
  assumes "n < 80"
  shows "loading_counter s = of_nat c \<Longrightarrow> c \<le> 2 \<Longrightarrow> 2 \<le> c + tick_count ticks \<Longrightarrow>
    \<exists>rest t. load_column n (map clock ticks) s = Some (map clock rest, t) \<and> quiet s t \<and> loading_counter t = 2
      \<and> tick_count ticks = (2 - c) + tick_count rest"
proof (induction ticks arbitrary: s c)
  case Nil
  then have "c = 2" by (simp add: tick_count_def)
  with Nil have "loading_counter s = 2" "c = 2" by simp_all
  then show ?case by (intro exI [of _ "[]"]) (simp add: load_column.simps quiet_refl tick_count_def)
next
  case (Cons b bs)
  show ?case
  proof (cases "c = 2")
    case True
    then show ?thesis using Cons.prems by (intro exI [of _ "b # bs"]) (simp add: load_column.simps quiet_refl)
  next
    case False
    then have c: "c = 0 \<or> c = 1" using Cons.prems(2) by auto
    let ?t = "clock b (draw_column n s)"
    have "loading_counter ?t = of_nat (c + (if b then 1 else 0))"
      using Cons.prems(1) by (simp add: clock_effect(2) draw_column_def)
    from Cons.IH [OF this] obtain rest t where t: "load_column n (map clock bs) ?t = Some (map clock rest, t)" "quiet ?t t"
      "loading_counter t = 2" "tick_count bs = (2 - (c + (if b then 1 else 0))) + tick_count rest"
      using Cons.prems c by (auto simp: tick_count_def split: if_splits)
    have "quiet s t"
      by (rule quiet_trans [OF quiet_column [OF assms] quiet_trans [OF clock_effect(1) t(2)]])
    moreover have "sint (loading_counter s) < 2" using c Cons.prems(1) by auto
    then have "load_column n (map clock (b # bs)) s = Some (map clock rest, t)"
      using t(1) by (simp add: load_column.simps [of n "clock b # map clock bs"])
    moreover have "tick_count (b # bs) = (2 - c) + tick_count rest" using t(4) c Cons.prems(3) by (auto simp: tick_count_def)
    ultimately show ?thesis using t(3) by blast
  qed
qed

lemma loading_screen_ends:
  fixes s :: "'z kernel_scheme"
  assumes "160 \<le> tick_count ticks" "sound_ok s"
  shows "\<exists>rest t. loading_screen (map clock ticks) s = Some (map clock rest, t) \<and> quiet s t"
proof -
  define P where "P = (\<lambda>n (irqs :: ('z kernel_scheme \<Rightarrow> 'z kernel_scheme) list, t). sound_ok t \<and> quiet s t \<and> (\<exists>rest. irqs = map clock rest \<and> tick_count ticks = 2 * n + tick_count rest))"
  have "\<exists>r. loading_screen (map clock ticks) s = Some r \<and> P 80 r"
    unfolding loading_screen_def
  proof (rule for_opt_inv [where P = P])
    show "P 0 (map clock ticks, s)" using assms(2) by (auto simp: P_def quiet_refl)
    fix n r assume n: "n < 80" and "P n r"
    then obtain bs t where r: "r = (map clock bs, t)" and t: "sound_ok t" "quiet s t" "tick_count ticks = 2 * n + tick_count bs"
      by (auto simp: P_def)
    define u where "u = t\<lparr>loading_counter := 0\<rparr>"
    have u: "loading_counter u = of_nat 0" "quiet t u" using t(1) by (auto simp: u_def sound_ok_def intro!: quiet_device)
    have "2 \<le> 0 + tick_count bs" using t(3) assms(1) n by simp
    from load_column_ends [OF n u(1) _ this] obtain rest v where v: "load_column n (map clock bs) u = Some (map clock rest, v)"
      "quiet u v" "loading_counter v = 2" "tick_count bs = 2 + tick_count rest" by auto
    have ok: "sound_ok v" using t(1) u(2) v(2) by (simp add: quiet_def)
    have sv: "quiet s v" by (rule quiet_trans [OF quiet_trans [OF t(2) u(2)] v(2)])
    obtain w where w: "beep_init v = Some w" "sound_ok w" using beep_ok [OF ok, of beep_init] by blast
    define v' where "v' = (if sound_freq v < 200 then v\<lparr>sound_freq := 1200\<rparr> else v)"
    have "play_sound (sound_freq v' - 100) (v'\<lparr>sound_freq := sound_freq v' - 100\<rparr>) = Some w"
      using w(1) by (simp add: beep_init_def Let_def v'_def [symmetric])
    from play_sound_frame(2) [OF this] have "sound.more w = sound.more v" by (simp add: v'_def)
    then have "quiet v w" using w(2) by (intro quiet_device) (cases w, cases v, simp)
    then have "P (Suc n) (map clock rest, w)" using w(2) quiet_trans [OF sv] t(3) v(4) by (auto simp: P_def)
    then show "\<exists>r'. (case r of (irqs, s) \<Rightarrow> do { let s = s\<lparr>loading_counter := 0\<rparr>;
            (irqs, s) \<leftarrow> load_column n irqs s;
            s \<leftarrow> (if even (sint (loading_counter s)) then beep_init s else Some (nosound s));
            Some (irqs, s) }) = Some r' \<and> P (Suc n) r'"
      using v(1,3) w(1) by (simp add: r u_def [symmetric])
  qed simp
  then show ?thesis by (auto simp: P_def)
qed

section \<open>Colours and cursor\<close>

lemma quiet_colours:
  assumes "length (terminals s) = 3" "\<forall>i<3. video_mem (terminals s ! i) = backup i"
  shows "\<exists>t. colour_pages s = Some t \<and> quiet s t"
proof -
  have "\<exists>t. colour_pages s = Some t \<and> quiet s t"
    unfolding colour_pages_def
  proof (rule for_opt_inv [where P = "\<lambda>_. quiet s"])
    show "quiet s s" by (rule quiet_refl)
    fix i :: nat and t assume i: "i < 3" and t: "quiet s t"
    have tm: "aget (terminals t) (int i) = Some (terminals s ! i)" using t i assms(1) by (simp add: quiet_def aget_def)
    have vm: "video_mem (terminals s ! i) = 0xA0000 + of_nat (0x19000 + i * 4096)"
      using assms(2) i by (simp add: backup_def)
    let ?f = "\<lambda>j m. let m = m(VIDEO + of_nat (j * 2) + 1 := 1) in m(video_mem (terminals s ! i) + 1 + of_nat (j * 2) := 1 + of_nat i)"
    define m where "m = for_range 0 (80 * 25) ?f (phys t)"
    have "m x = phys t x" if x: "boot_safe x" for x
      unfolding m_def
    proof (rule for_range_inv [where P = "\<lambda>_ m'. m' x = phys t x"])
      fix j :: nat and m' assume j: "j < 80 * 25" and m': "m' x = phys t x"
      have e: "VIDEO + of_nat (j * 2) + 1 = 0xA0000 + of_nat (0x18001 + j * 2)"
        "video_mem (terminals s ! i) + 1 + of_nat (j * 2) = 0xA0000 + of_nat (0x19001 + i * 4096 + j * 2)"
        unfolding vm by simp_all
      have "\<not> boot_safe (VIDEO + of_nat (j * 2) + 1)" "\<not> boot_safe (video_mem (terminals s ! i) + 1 + of_nat (j * 2))"
        unfolding e by (rule video_unsafe, use i j in simp)+
      then have "VIDEO + of_nat (j * 2) + 1 \<noteq> x" "video_mem (terminals s ! i) + 1 + of_nat (j * 2) \<noteq> x" using x by metis+
      then show "?f j m' x = phys t x" using m' by (simp add: Let_def del: of_nat_mult)
    qed simp_all
    then have "quiet s (t\<lparr>phys := m\<rparr>)" by (intro quiet_trans [OF t quiet_phys])
    then show "\<exists>t'. do { tm \<leftarrow> aget (terminals t) (int i);
            Some (t\<lparr>phys := for_range 0 (80 * 25) (\<lambda>j m.
              let m = m(VIDEO + of_nat (j * 2) + 1 := 1)
              in m(video_mem tm + 1 + of_nat (j * 2) := 1 + of_nat i)) (phys t)\<rparr>) } = Some t' \<and> quiet s t'"
      unfolding tm m_def by simp
  qed simp
  then show ?thesis .
qed

lemma quiet_cursor: "quiet s (shape_cursor s)"
proof (rule quiet_machine [where m = "phys s"])
  show "machine.more (shape_cursor s) = machine.more (s\<lparr>phys := phys s\<rparr>)" by (simp add: shape_cursor_def Let_def split_def)
qed simp

lemma start_screen_ok:
  assumes "160 \<le> tick_count ticks" "sound_ok s" "length (terminals s) = 3" "\<forall>i<3. video_mem (terminals s ! i) = backup i"
  shows "\<exists>t. start_screen (map clock ticks) s = Some t \<and> quiet s t"
proof -
  define s1 where "s1 = draw_picture (snd (set_mode_X (s\<lparr>loading_counter := 0, wait_flag := 0\<rparr>)))"
  have "quiet s (s\<lparr>loading_counter := 0, wait_flag := 0\<rparr>)"
    by (simp add: quiet_def core_of_def tables_of_def pages_of_def descriptors_of_def sound_ok_def)
  then have q1: "quiet s s1" unfolding s1_def by (intro quiet_trans [OF _ quiet_picture] quiet_trans [OF _ quiet_mode_X])
  then have "sound_ok s1" using assms(2) by (simp add: quiet_def)
  then obtain rest s2 where s2: "loading_screen (map clock ticks) s1 = Some (map clock rest, s2)" "quiet s1 s2"
    using loading_screen_ends [OF assms(1)] by blast
  define s3 where "s3 = nosound (set_text_mode_3 1 s2)"
  have "quiet (set_text_mode_3 1 s2) s3" unfolding s3_def
    by (rule quiet_device) (cases "nosound (set_text_mode_3 1 s2)", cases "set_text_mode_3 1 s2", simp add: sound_ok_def nosound_def io_defs, simp add: sound_ok_def)
  then have q3: "quiet s s3" by (rule quiet_trans [OF quiet_trans [OF quiet_trans [OF q1 s2(2)] quiet_text_mode]])
  then obtain s4 where s4: "colour_pages s3 = Some s4" "quiet s3 s4"
    using quiet_colours [of s3] assms(3,4) by (auto simp: quiet_def)
  have "start_screen (map clock ticks) s = Some (shape_cursor s4)"
    using s2(1) s4(1) by (simp add: start_screen_def s1_def s3_def split_def)
  then show ?thesis using quiet_trans [OF quiet_trans [OF q3 s4(2)] quiet_cursor] by blast
qed

section \<open>Mouse and timer\<close>

lemma quiet_mouse: "quiet s (mouse_init s)"
proof -
  define m where "m = (phys s)(cell VIDEO (80 * 13 + 40) := 63)"
  define s0 where "s0 = (cli s)\<lparr>mouse_x := 40, mouse_y := 13, phys := m\<rparr>"
  have "(cli s)\<lparr>mouse_x := 40, mouse_y := 13, phys := (phys (cli s))(VIDEO + mark_offset ((cli s)\<lparr>mouse_x := 40, mouse_y := 13\<rparr>) := 63)\<rparr> = s0"
    by (simp add: s0_def m_def cell_def mark_offset_def cli_def)
  then have "machine.more (mouse_init s) = machine.more (enable_irq 12 s0)"
    unfolding mouse_init_def Let_def by (simp add: case_prod_beta)
  then have "sound.more (mouse_init s) = sound.more (enable_irq 12 s0)" "sound_freq (mouse_init s) = sound_freq (enable_irq 12 s0)"
    by (cases "mouse_init s", cases "enable_irq 12 s0", simp)+
  then have same: "sound.more (mouse_init s) = sound.more s0" "sound_freq (mouse_init s) = sound_freq s0" by simp_all
  then have "quiet s0 (mouse_init s)" by (intro quiet_device) (cases "mouse_init s", cases s0, simp, simp add: sound_ok_def)
  moreover have "quiet s s0"
  proof -
    have "\<not> boot_safe (cell VIDEO (80 * 13 + 40))" using video_unsafe [of "0x18000 + 2160"] by (simp add: cell_def)
    then show ?thesis
      by (auto simp: s0_def m_def quiet_def core_of_def tables_of_def pages_of_def descriptors_of_def sound_ok_def io_defs)
  qed
  ultimately show ?thesis using quiet_trans by blast
qed

lemma PIT_init_ok:
  assumes "length (order s) = 3"
  shows "\<exists>t. PIT_init s = Some t \<and> quiet (s\<lparr>curr_running_terminal_idx := 0\<rparr>) t \<and> intr_flag t"
proof -
  define s0 where "s0 = (cli (enable_irq 0 s))\<lparr>order := [0, 1, 2], curr_running_terminal_idx := 0\<rparr>"
  define t where "t = sti (outb (ucast (drop_bit 8 reload_val)) 0x40 (outb (ucast (reload_val AND 0xFF)) 0x40 (outb 0x34 0x43 s0)))"
  obtain a b c where o: "order s = [a, b, c]" using assms by (auto simp: length_Suc_conv numeral_3_eq_3)
  have more: "sound.more (cli (enable_irq 0 s)) = sound.more s" "sound_freq (cli (enable_irq 0 s)) = sound_freq s" by simp_all
  then have "order (cli (enable_irq 0 s)) = order s" by (cases "cli (enable_irq 0 s)", cases s, simp)
  then have "order (enable_irq 0 s) = [a, b, c]" using o by (simp add: cli_def)
  then have "PIT_init s = Some t" by (simp add: PIT_init_def aset_def cli_def t_def s0_def Let_def)
  moreover have "quiet (s\<lparr>curr_running_terminal_idx := 0\<rparr>) s0"
  proof -
    let ?u = "cli (enable_irq 0 s)"
    have "quiet s ?u" by (rule quiet_device) (use more in \<open>cases ?u, cases s, simp\<close>, use more in \<open>simp add: sound_ok_def\<close>)
    then show ?thesis
      using o by (simp add: quiet_def s0_def core_of_def tables_of_def pages_of_def descriptors_of_def sound_ok_def)
  qed
  moreover have "quiet s0 t"
    by (rule quiet_machine [where m = "phys s0"]) (simp_all add: t_def)
  moreover have "intr_flag t" by (simp add: t_def)
  ultimately show ?thesis using quiet_trans by blast
qed

section \<open>The components in order\<close>

lemma keyboard_init_ok:
  assumes "length (terminals s) = 3" "\<forall>i<3. fresh_terminal i (terminals s ! i)"
  shows "\<exists>ts. keyboard_init s = Some (enable_irq 1 (s\<lparr>terminals := ts\<rparr>)) \<and> length ts = 3 \<and> (\<forall>i<3. fresh_terminal i (ts ! i))"
proof -
  define ts where "ts = map (\<lambda>t. t\<lparr>typing_finish := 0\<rparr>) (terminals s)"
  obtain a b c where l: "terminals s = [a, b, c]" using assms(1) by (auto simp: length_Suc_conv numeral_3_eq_3)
  have "keyboard_init s = Some (enable_irq 1 (s\<lparr>terminals := ts\<rparr>))"
    by (simp add: keyboard_init_def for_opt_3 upd_terminal_eq l ts_def)
  moreover have "fresh_terminal i (t\<lparr>typing_finish := 0\<rparr>) = fresh_terminal i t" for i t
    by (simp add: fresh_terminal_def terminal_ok_def line_ok_def)
  ultimately show ?thesis using assms by (intro exI [of _ ts]) (simp add: ts_def)
qed

lemma device_frames:
  "sound.more (i8259_init s) = sound.more s" "sound_freq (i8259_init s) = sound_freq s"
  "rtc.more (RTC_init t) = rtc.more t" "sound_freq (RTC_init t) = sound_freq t"
  "rtc.more (enable_irq n t) = rtc.more t"
proof -
  show "sound.more (i8259_init s) = sound.more s" "sound_freq (i8259_init s) = sound_freq s"
    by (simp_all add: i8259_init_def Let_def io_defs)
  show e: "rtc.more (enable_irq n t) = rtc.more t" for n and t :: "'b rtc_scheme"
    using irq_more(1) [of n t] by (cases "enable_irq n t", cases t, simp)
  show "rtc.more (RTC_init t) = rtc.more t" "sound_freq (RTC_init t) = sound_freq t"
    by (simp_all add: RTC_init_def RTC_set_rate_def Let_def io_defs) (simp_all add: enable_irq_def Let_def io_defs)
qed

text \<open>What the loader and the linker provide before \<open>entry\<close> runs: static data is zero where it has no initialiser, and
  \<open>sound_freq\<close> is in the range it starts in.\<close>

definition static_ok :: "'z kernel_scheme \<Rightarrow> bool" where
  "static_ok s \<longleftrightarrow> early s \<and> terminals_declared s \<and> curr_running_terminal_idx s = 0 \<and> temp_curr_running_terminal_idx s = 0
     \<and> sound_ok s \<and> length (idt s) = 256 \<and> paging_boot s \<and> length (order s) = 3 \<and> flag s = 0
     \<and> length (pcbs s) = 6 \<and> (\<forall>p\<in>set (pcbs s). pcb_ok p) \<and> length (stack_junk s) = 4"

lemma init_devices_ok:
  fixes s :: "'z kernel_scheme" and mbi :: u32
  assumes ok: "length (idt s) = 256" "paging_boot s" "terminals_declared s"
  defines "bb \<equiv> load32 (phys s) (mods_addr mbi (phys s))"
  shows "\<exists>t ds ts u. init_devices addr mbi s = Some t \<and> rtc.more t = rtc.more (u\<lparr>flag_first_execute := 1,
      phys_addr_available := replicate 6 1, terminals := ts, curr_terminal_idx := 0\<rparr>)
    \<and> u = loaded 0 (s\<lparr>idt := ds, idtr_loaded := True, boot_block := bb, inode_addr := bb + 4096, pde_arr := map Some [0..<7],
        pte_zero := identity_table, pdes := (pdes s)[0 := kernel_entries s (pdes s ! 0)]\<rparr>)
    \<and> paging_inv u \<and> sound_freq t = sound_freq s \<and> length ds = 256 \<and> length ts = 3 \<and> (\<forall>i<3. fresh_terminal i (ts ! i))"
proof -
  obtain ds where ds: "idt_init addr s = Some (s\<lparr>idt := ds, idtr_loaded := True\<rparr>)" "length ds = 256"
    using idt_init_eq [OF ok(1)] by blast
  define s2 where "s2 = s\<lparr>idt := ds, idtr_loaded := True, boot_block := bb, inode_addr := bb + 4096\<rparr>"
  have s2: "file_sys_init (load32 (phys (s\<lparr>idt := ds, idtr_loaded := True\<rparr>)) (mods_addr mbi (phys (s\<lparr>idt := ds, idtr_loaded := True\<rparr>))))
      (s\<lparr>idt := ds, idtr_loaded := True\<rparr>) = s2"
    by (simp add: file_sys_init_def s2_def bb_def)
  have pb: "paging_boot s2" using ok(2) by (simp add: s2_def paging_boot_def paging_ok_def)
  define u where "u = loaded 0 (s2\<lparr>pde_arr := map Some [0..<7], pte_zero := identity_table, pdes := (pdes s2)[0 := kernel_entries s2 (pdes s2 ! 0)]\<rparr>)"
  have u: "map_page_init s2 = Some u" unfolding u_def by (rule map_page_init_eq) (use pb in \<open>simp add: paging_boot_def\<close>)
  have inv: "paging_inv u" using map_page_init_inv [OF pb] u by auto
  define s4 where "s4 = i8259_init u"
  have m4: "sound.more s4 = sound.more u" "sound_freq s4 = sound_freq u" by (simp_all add: s4_def device_frames)
  have f4: "terminals s4 = terminals s" "phys_addr_available s4 = phys_addr_available s"
  proof -
    have "terminals s4 = terminals u" "phys_addr_available s4 = phys_addr_available u" using m4(1) by (cases s4, cases u, simp)+
    then show "terminals s4 = terminals s" "phys_addr_available s4 = phys_addr_available s" by (simp_all add: u_def loaded_def s2_def)
  qed
  have d4: "terminals_declared s4" using ok(3) by (simp add: terminals_declared_def f4)
  obtain f where f: "terminal_init s4 = Some (s4\<lparr>flag_first_execute := 1, phys_addr_available := replicate 6 1,
      terminals := (terminals s4)[0 := f 0, 1 := f 1, 2 := f 2], curr_terminal_idx := 0\<rparr>)" "\<forall>i<3. fresh_terminal i (f i)"
    using terminal_init_eq [OF d4] by blast
  define s5 where "s5 = s4\<lparr>flag_first_execute := 1, phys_addr_available := replicate 6 1,
      terminals := (terminals s4)[0 := f 0, 1 := f 1, 2 := f 2], curr_terminal_idx := 0\<rparr>"
  have l5: "length (terminals s5) = 3" using d4 by (simp add: s5_def terminals_declared_def)
  have t5: "\<forall>i<3. fresh_terminal i (terminals s5 ! i)" using f(2) d4 by (auto simp: s5_def terminals_declared_def lt3)
  obtain ts where ts: "keyboard_init s5 = Some (enable_irq 1 (s5\<lparr>terminals := ts\<rparr>))" "length ts = 3" "\<forall>i<3. fresh_terminal i (ts ! i)"
    using keyboard_init_ok [OF l5 t5] by blast
  define t where "t = RTC_init (enable_irq 1 (s5\<lparr>terminals := ts\<rparr>))"
  have run: "init_devices addr mbi s = Some t"
    using ds(1) s2 u f(1) [folded s5_def] ts(1) by (simp add: init_devices_def s4_def [symmetric] t_def)
  have "rtc.more t = rtc.more (s5\<lparr>terminals := ts\<rparr>)" "sound_freq t = sound_freq s5" by (simp_all add: t_def device_frames)
  moreover have "rtc.more (s5\<lparr>terminals := ts\<rparr>) = rtc.more (u\<lparr>flag_first_execute := 1, phys_addr_available := replicate 6 1,
      terminals := ts, curr_terminal_idx := 0\<rparr>)"
    using m4(1) by (cases s4, cases u, simp add: s5_def)
  moreover have "sound_freq s5 = sound_freq s" using m4(2) by (simp add: s5_def u_def loaded_def s2_def)
  moreover have "u = loaded 0 (s\<lparr>idt := ds, idtr_loaded := True, boot_block := bb, inode_addr := bb + 4096, pde_arr := map Some [0..<7],
        pte_zero := identity_table, pdes := (pdes s)[0 := kernel_entries s (pdes s ! 0)]\<rparr>)"
    by (simp add: u_def s2_def kernel_entries_def)
  ultimately show ?thesis using run inv ds(2) ts(2,3) by (intro exI [of _ t] exI [of _ ds] exI [of _ ts] exI [of _ u]) simp
qed

section \<open>The kernel boots\<close>

text \<open>The first module is a disk with a shell, outside the memory that the start-up writes.\<close>

definition disk_ok :: "u32 \<Rightarrow> 'z kernel_scheme \<Rightarrow> bool" where
  "disk_ok bb s \<longleftrightarrow> (let t = s\<lparr>boot_block := bb, inode_addr := bb + 4096\<rparr> in
     fs_ready t \<and> found t shell_name \<and> loadable t shell_name \<and> take 4 (program_file t shell_name) = elf_magic
     \<and> (\<forall>x\<in>boot_region bb. unat x < 8388608) \<and> (\<forall>x\<in>shell_bytes t. boot_safe x))"

lemma safe_off_screen: "(\<And>x. x \<in> A \<Longrightarrow> boot_safe x) \<Longrightarrow> off_screen A"
proof -
  assume A: "\<And>x. x \<in> A \<Longrightarrow> boot_safe x"
  have "\<not> boot_safe (cell b (int k))" if "b \<in> text_pages" "k < 2000" for b k
    using unat_cell [of b k] that by (auto simp: boot_safe_def text_pages_def)
  then show ?thesis using A by (auto simp: off_screen_def)
qed

lemma disk_shell_ready:
  fixes s t :: "'z kernel_scheme"
  assumes disk: "disk_ok bb s" and t: "paging_inv t" "length (stack_junk t) = 4" "boot_block t = bb" "inode_addr t = bb + 4096"
      "curr_dir_dentry t = curr_dir_dentry s" "curr_file_dentry t = curr_file_dentry s"
    and mem: "\<And>a. boot_safe a \<Longrightarrow> phys t a = phys s a"
  shows "shell_ready t" "off_screen (shell_bytes t)"
    "shell_entry_point t = shell_entry_point (s\<lparr>boot_block := bb, inode_addr := bb + 4096\<rparr>)"
proof -
  define w where "w = s\<lparr>boot_block := bb, inode_addr := bb + 4096\<rparr>"
  have w: "fs_ready w" "found w shell_name" "loadable w shell_name" "take 4 (program_file w shell_name) = elf_magic"
    "\<forall>x\<in>boot_region bb. unat x < 8388608" "\<forall>x\<in>shell_bytes w. boot_safe x"
    using disk by (simp_all add: disk_ok_def w_def Let_def)
  define v where "v = t\<lparr>phys := phys s\<rparr>"
  have f: "phys v = phys w" "boot_block v = boot_block w" "inode_addr v = inode_addr w" "curr_dir_dentry v = curr_dir_dentry w"
    "curr_file_dentry v = curr_file_dentry w" "boot_block w = bb" by (simp_all add: v_def w_def t)
  note frame = disk_frame [OF f(1-5)]
  have inv: "paging_inv v" using t(1) by (simp add: v_def paging_inv_def paging_ok_def maps_kernel_def slot_directory_def)
  have stack: "stack_junk v = stack_junk t" by (simp add: v_def)
  have ready: "shell_ready v"
    using w inv t(2) stack by (simp add: shell_ready_def frame f)
  have pv: "phys v = phys s" by (simp add: v_def)
  have m: "phys t x = phys v x" if "x \<in> shell_bytes v" for x using that w(6) mem by (simp add: frame pv)
  have g: "boot_block t = boot_block v" "inode_addr t = inode_addr v" "curr_dir_dentry t = curr_dir_dentry v"
    "curr_file_dentry t = curr_file_dentry v" "stack_junk t = stack_junk v" by (simp_all add: v_def)
  note r = shell_ready_agree [OF ready g t(1) m]
  have pi: "program_inode t shell_name = program_inode v shell_name" using r by blast
  show "shell_ready t" by (rule r(1))
  show "shell_entry_point t = shell_entry_point (s\<lparr>boot_block := bb, inode_addr := bb + 4096\<rparr>)"
    using r frame(4) by (simp add: shell_entry_point_def w_def)
  have "inode_ok (boot_block v) (inode_addr v) (program_inode v shell_name) (phys v)"
    using ready by (simp add: shell_ready_def loadable_def)
  then have "footprint (boot_block v) (inode_addr v) (program_inode v shell_name) (phys t)
      = footprint (boot_block v) (inode_addr v) (program_inode v shell_name) (phys v)"
    using m by (intro footprint_same) (auto simp: shell_bytes_def)
  then have "shell_bytes t = shell_bytes v" by (simp add: shell_bytes_def pi g)
  then show "off_screen (shell_bytes t)" using w(6) by (simp add: safe_off_screen frame)
qed

text \<open>The address that a descriptor encodes.\<close>

definition seg_base :: "seg_desc_t \<Rightarrow> u32" where
  "seg_base d = push_bit 24 (ucast (base_31_24 d)) OR push_bit 16 (ucast (base_23_16 d)) OR ucast (base_15_00 d)"

lemma seg_base_params [simp]:
  fixes a :: u32
  shows "seg_base (SET_LDT_PARAMS a l d) = a" "seg_base (SET_TSS_PARAMS a l d) = a"
proof -
  have m: "(0xFF000000 :: u32) = push_bit 24 (mask 8)" "(0xFF0000 :: u32) = push_bit 16 (mask 8)" "(0xFFFF :: u32) = mask 16"
    by (simp_all add: mask_eq_exp_minus_1)
  have "push_bit 24 (ucast (ucast (drop_bit 24 (a AND 0xFF000000)) :: u8))
      OR push_bit 16 (ucast (ucast (drop_bit 16 (a AND 0xFF0000)) :: u8)) OR ucast (ucast (a AND 0xFFFF) :: u16) = a"
    unfolding m
  proof (rule bit_word_eqI)
    fix n assume n: "n < LENGTH(32)"
    consider "n < 16" | k where "n = 16 + k" "k < 8" | k where "n = 24 + k" "k < 8"
    proof (cases "n < 16"; cases "n < 24")
      assume "\<not> n < 16" "n < 24"
      then show thesis using that(2) [of "n - 16"] by simp
    next
      assume "\<not> n < 16" "\<not> n < 24"
      then show thesis using that(3) [of "n - 24"] n by simp
    qed (use that in auto)
    then show "bit (push_bit 24 (ucast (ucast (drop_bit 24 (a AND push_bit 24 (mask 8))) :: u8))
      OR push_bit 16 (ucast (ucast (drop_bit 16 (a AND push_bit 16 (mask 8))) :: u8)) OR ucast (ucast (a AND mask 16) :: u16) :: u32) n = bit a n"
      by cases (simp_all add: bit_simps)
  qed
  then show "seg_base (SET_LDT_PARAMS a l d) = a" "seg_base (SET_TSS_PARAMS a l d) = a"
    by (simp_all add: seg_base_def SET_LDT_PARAMS_def SET_TSS_PARAMS_def Let_def)
qed

lemma prints_static:
  assumes "early t" "prints_early s t" "static_ok s"
  shows "static_ok t"
proof -
  obtain x y where t: "terminals t = (terminals s)[0 := (terminals s ! 0)\<lparr>screen_x := x, screen_y := y\<rparr>]"
    using assms(2) by (auto simp: prints_early_def printed_on_def)
  have m: "console.more t = console.more s" "curr_running_terminal_idx t = curr_running_terminal_idx s"
    "temp_curr_running_terminal_idx t = temp_curr_running_terminal_idx s" "sound_freq t = sound_freq s"
    using assms(2) by (simp_all add: prints_early_def printed_on_def)
  from m(1) have "phys_addr_available t = phys_addr_available s" "idt t = idt s" "order t = order s" "flag t = flag s" "pcbs t = pcbs s"
    "stack_junk t = stack_junk s" "paging_boot t = paging_boot s"
    by (cases t, cases s, simp add: paging_boot_def paging_ok_def)+
  moreover have "length (share_buf p) = 128 \<and> length (typed_buf p) = 128 \<and> length (phys_mem_idx p) = 6
      \<and> length (buffer_for_ec p) = 20 \<and> (\<forall>r\<in>set (buffer_for_ec p). length r = 128)" if "p = terminals s ! 0" for p
    using assms(3) nth_mem [of 0 "terminals s"] unfolding static_ok_def terminals_declared_def that by fastforce
  moreover from calculation have "terminals_declared t"
    using assms(3) t by (auto simp: static_ok_def terminals_declared_def dest!: set_update_subset_insert [THEN subsetD])
  ultimately show ?thesis using assms(1,3) m by (simp add: static_ok_def sound_ok_def)
qed

lemma quiet_paging: "quiet s t \<Longrightarrow> paging_inv s \<Longrightarrow> paging_inv t"
  by (simp add: quiet_def core_of_def pages_of_def paging_inv_def paging_ok_def maps_kernel_def slot_directory_def)

text \<open>What is printed before the components are initialised.\<close>

lemma early_output:
  fixes mbi :: u32
  assumes "early s" "multiboot_ok mbi (phys s)" "\<not> (CHECK_FLAG (mbi_flags mbi (phys s)) 4 \<and> CHECK_FLAG (mbi_flags mbi (phys s)) 5)"
  shows "\<exists>t u. clear s = Some t \<and> print_multiboot mbi t = Some (True, u) \<and> early u \<and> prints_early s u"
proof -
  obtain t where t: "clear s = Some t" "early t" "prints_early s t" using clear_early [OF assms(1)] by blast
  have ok: "multiboot_ok mbi (phys t)" by (rule multiboot_ok_early [OF assms(2) t(3)])
  have "mbi_flags mbi (phys t) = mbi_flags mbi (phys s)"
    using mbi_same(1) [OF t(3)] assms(2) by (simp add: multiboot_ok_def)
  then obtain u where "print_multiboot mbi t = Some (True, u)" "early u" "prints_early t u"
    using print_multiboot_ok [OF t(2) ok] assms(3) by auto
  then show ?thesis using t early.trans [OF t(3)] by blast
qed

text \<open>What the set-up components are like, and that the screen code that follows keeps it.\<close>

definition set_up :: "u32 \<Rightarrow> 'z kernel_scheme \<Rightarrow> 'z kernel_scheme \<Rightarrow> bool" where
  "set_up bb s t \<longleftrightarrow> idtr_loaded t \<and> paging_inv t \<and> cr3 t = addr_pde t 0 \<and> bit (cr0 t) 31
     \<and> boot_block t = bb \<and> inode_addr t = bb + 4096
     \<and> curr_dir_dentry t = curr_dir_dentry s \<and> curr_file_dentry t = curr_file_dentry s \<and> flag t = 0 \<and> flag_first_execute t = 1
     \<and> pcbs t = pcbs s \<and> length (pcbs s) = 6 \<and> (\<forall>p\<in>set (pcbs s). pcb_ok p) \<and> length (stack_junk t) = 4 \<and> length (order t) = 3
     \<and> phys_addr_available t = replicate 6 1
     \<and> length (terminals t) = 3 \<and> (\<forall>i<3. fresh_terminal i (terminals t ! i)) \<and> curr_terminal_idx t = 0
     \<and> curr_running_terminal_idx t = 0 \<and> temp_curr_running_terminal_idx t = 0 \<and> sound_ok t
     \<and> seg_base (ldt_desc_ptr t) = addr_ldt t \<and> ldtr t = KERNEL_LDT
     \<and> seg_base (tss_desc_ptr t) = addr_tss t \<and> task_reg t = KERNEL_TSS \<and> tss_ss0 t = KERNEL_DS \<and> tss_esp0 t = 0x800000
     \<and> (\<forall>a. boot_safe a \<longrightarrow> phys t a = phys s a)"

lemma set_up_quiet: "set_up bb s t \<Longrightarrow> quiet t u \<Longrightarrow> set_up bb s u"
  using quiet_paging [of t u]
  by (simp add: set_up_def quiet_def core_of_def tables_of_def pages_of_def descriptors_of_def)

lemma init_devices_sets_up:
  fixes s :: "'z kernel_scheme" and mbi :: u32
  assumes s: "static_ok s" and u: "prints_early s u" "early u" and mbi: "block_safe mbi 52"
  defines "bb \<equiv> load32 (phys s) (mods_addr mbi (phys s))"
  assumes md: "block_safe (mods_addr mbi (phys s)) 4"
  shows "\<exists>t. init_devices addr mbi (construct_tss j2 (construct_ldt j1 u)) = Some t \<and> set_up bb s t"
proof -
  define d where "d = construct_tss j2 (construct_ldt j1 u)"
  have ok: "static_ok u" by (rule prints_static [OF u(2,1) s])
  have d: "length (idt d) = 256" "paging_boot d" "terminals_declared d" "sound_ok d" "phys d = phys u" "flag d = 0" "pcbs d = pcbs u"
    "stack_junk d = stack_junk u" "order d = order u" "curr_dir_dentry d = curr_dir_dentry u" "curr_file_dentry d = curr_file_dentry u"
    "curr_running_terminal_idx d = 0" "temp_curr_running_terminal_idx d = 0" "seg_base (ldt_desc_ptr d) = addr_ldt d"
    "seg_base (tss_desc_ptr d) = addr_tss d" "ldtr d = KERNEL_LDT" "task_reg d = KERNEL_TSS" "tss_ss0 d = KERNEL_DS" "tss_esp0 d = 0x800000"
    using ok by (simp_all add: d_def construct_ldt_def construct_tss_def Let_def static_ok_def paging_boot_def paging_ok_def
        terminals_declared_def sound_ok_def)
  have "load32 (phys d) (mods_addr mbi (phys d)) = bb"
    using mbi_same(3) [OF u(1) mbi] prints_early_load32 [OF u(1) md, of 0] by (simp add: d(5) bb_def)
  with init_devices_ok [OF d(1-3), of addr mbi] obtain t ds ts v where t: "init_devices addr mbi d = Some t"
      "rtc.more t = rtc.more (v\<lparr>flag_first_execute := 1, phys_addr_available := replicate 6 1, terminals := ts, curr_terminal_idx := 0\<rparr>)"
    and v: "v = loaded 0 (d\<lparr>idt := ds, idtr_loaded := True, boot_block := bb, inode_addr := bb + 4096, pde_arr := map Some [0..<7],
        pte_zero := identity_table, pdes := (pdes d)[0 := kernel_entries d (pdes d ! 0)]\<rparr>)"
    and r: "paging_inv v" "sound_freq t = sound_freq d" "length ts = 3" "\<forall>i<3. fresh_terminal i (ts ! i)"
    by auto
  define w where "w = v\<lparr>flag_first_execute := 1, phys_addr_available := replicate 6 1, terminals := ts, curr_terminal_idx := 0\<rparr>"
  have same: "curr_dir_dentry u = curr_dir_dentry s" "curr_file_dentry u = curr_file_dentry s" "pcbs u = pcbs s"
    using u(1) by (cases u, cases s, simp add: prints_early_def printed_on_def)+
  have "paging_inv w" using r(1) by (simp add: w_def paging_inv_def paging_ok_def maps_kernel_def slot_directory_def)
  moreover have "bit (cr0 d OR 0x80000000) 31" by (simp add: bit_or_iff)
  ultimately have "set_up bb s w"
    using d r ok prints_early_safe [OF u(1)] same
    by (simp add: set_up_def w_def v loaded_def static_ok_def sound_ok_def)
  moreover have "quiet w t"
    by (rule quiet_device) (use t(2) r(2) d(4) in \<open>simp_all add: w_def v loaded_def sound_ok_def\<close>)
  ultimately show ?thesis using t(1) set_up_quiet by (auto simp: d_def)
qed

lemma set_up_ready:
  assumes "set_up bb s t" "disk_ok bb s"
  shows "booting 0 t" "keyboard_ok t" "console_ok t" "run_idx t = 0" "off_screen (shell_bytes t)"
    "shell_entry_point t = shell_entry_point (s\<lparr>boot_block := bb, inode_addr := bb + 4096\<rparr>)"
proof -
  note t = assms(1) [unfolded set_up_def]
  have shell: "shell_ready t" "off_screen (shell_bytes t)"
    "shell_entry_point t = shell_entry_point (s\<lparr>boot_block := bb, inode_addr := bb + 4096\<rparr>)"
    using disk_shell_ready [OF assms(2), of t] t by auto
  then show "off_screen (shell_bytes t)"
    "shell_entry_point t = shell_entry_point (s\<lparr>boot_block := bb, inode_addr := bb + 4096\<rparr>)" by simp_all
  have st: "stack t i = []" "stack_ok (terminals t ! i)" if "i < 3" for i
    using stack_ofI [of "terminals t ! i" "[]" 6] t that by (simp_all add: fresh_terminal_def stack_ok_def)
  then have "stacks_ok t" using t by (simp add: stacks_ok_def)
  then have "procs_ok t" using t st by (simp add: procs_ok_def)
  then show "booting 0 t" using shell(1) st t by (simp add: booting_def)
  show "console_ok t" "keyboard_ok t" using t by (simp_all add: console_ok_def keyboard_ok_def fresh_terminal_def)
  show "run_idx t = 0" using t by (simp add: run_idx_def)
qed

lemma set_up_tick:
  fixes s :: "'z kernel_scheme"
  assumes t: "set_up bb s t" and disk: "disk_ok bb s"
  shows "\<exists>y. PIT_interrupt_handler t = Some (Entered (shell_entry_point (s\<lparr>boot_block := bb, inode_addr := bb + 4096\<rparr>)) 0x083FFFFC, y)"
proof -
  note r = set_up_ready [OF t disk]
  show ?thesis using tick_first [OF r(1,4) _ r(3,5)] t r(6) by (auto simp: set_up_def)
qed

lemma entry_sets_up:
  fixes s :: "'z kernel_scheme" and mbi :: u32
  defines "bb \<equiv> load32 (phys s) (mods_addr mbi (phys s))"
  assumes s: "static_ok s" and mbi: "multiboot_ok mbi (phys s)"
      "\<not> (CHECK_FLAG (mbi_flags mbi (phys s)) 4 \<and> CHECK_FLAG (mbi_flags mbi (phys s)) 5)" "block_safe (mods_addr mbi (phys s)) 4"
    and ticks: "160 \<le> tick_count ticks"
  shows "\<exists>t. entry addr junk1 junk2 (map clock ticks) 0x2BADB002 mbi s = Some (Idle, t) \<and> intr_flag t \<and> set_up bb s t"
proof -
  obtain s1 u where u: "clear s = Some s1" "print_multiboot mbi s1 = Some (True, u)" "early u" "prints_early s u"
    using early_output [OF _ mbi(1,2)] s by (auto simp: static_ok_def)
  have safe: "block_safe mbi 52" using mbi(1) by (simp add: multiboot_ok_def)
  obtain v where v: "init_devices addr mbi (construct_tss junk2 (construct_ldt junk1 u)) = Some v" "set_up bb s v"
    using init_devices_sets_up [OF s u(4,3) safe mbi(3), of addr junk2 junk1] unfolding bb_def by blast
  note v' = v(2) [unfolded set_up_def]
  obtain w where w: "start_screen (map clock ticks) v = Some w" "quiet v w"
    using start_screen_ok [OF ticks, of v] v' by (auto simp: fresh_terminal_def terminal_ok_def)
  have m: "set_up bb s (mouse_init w)" by (rule set_up_quiet [OF v(2) quiet_trans [OF w(2) quiet_mouse]])
  then have "(mouse_init w)\<lparr>curr_running_terminal_idx := 0\<rparr> = mouse_init w" by (simp add: set_up_def)
  then obtain x where x: "PIT_init (mouse_init w) = Some x" "quiet (mouse_init w) x" "intr_flag x"
    using PIT_init_ok [of "mouse_init w"] m by (auto simp: set_up_def)
  have t: "set_up bb s (sti x)"
    by (rule set_up_quiet [OF set_up_quiet [OF m x(2)]], rule quiet_machine [where m = "phys x"]) simp_all
  moreover have "entry addr junk1 junk2 (map clock ticks) 0x2BADB002 mbi s = Some (Idle, sti x)"
    using u(1,2) v(1) w(1) x(1) by (simp add: entry_def)
  moreover have "intr_flag (sti x)" by simp
  ultimately show ?thesis by blast
qed

text \<open>C5. On a machine whose boot loader hands over a well-formed information structure and, as first module, a disk with
  the shell on it, and whose clock keeps ticking during the loading picture, \<open>entry\<close> reaches its idle loop with
  interrupts on: the interrupt table is loaded, paging is on with the kernel's directory, the task state segment is in
  place, no program runs and every slot and terminal is free. The first timer interrupt then enters the shell at its entry
  point.\<close>

theorem kernel_boots:
  fixes s :: "'z kernel_scheme" and mbi :: u32
  defines "bb \<equiv> load32 (phys s) (mods_addr mbi (phys s))"
  assumes s: "static_ok s" and mbi: "multiboot_ok mbi (phys s)"
      "\<not> (CHECK_FLAG (mbi_flags mbi (phys s)) 4 \<and> CHECK_FLAG (mbi_flags mbi (phys s)) 5)" "block_safe (mods_addr mbi (phys s)) 4"
    and disk: "disk_ok bb s" and ticks: "160 \<le> tick_count ticks"
  shows "\<exists>t. entry addr junk1 junk2 (map clock ticks) 0x2BADB002 mbi s = Some (Idle, t)
    \<and> intr_flag t \<and> set_up bb s t \<and> booting 0 t \<and> keyboard_ok t
    \<and> (\<exists>t'. PIT_interrupt_handler t
        = Some (Entered (shell_entry_point (s\<lparr>boot_block := bb, inode_addr := bb + 4096\<rparr>)) 0x083FFFFC, t'))"
proof -
  obtain t where e: "entry addr junk1 junk2 (map clock ticks) 0x2BADB002 mbi s = Some (Idle, t)" "intr_flag t" and t: "set_up bb s t"
    using entry_sets_up [OF s mbi ticks] unfolding bb_def by blast
  then show ?thesis using e set_up_ready(1,2) [OF t disk] set_up_tick [OF t disk] by (intro exI [of _ t]) simp
qed

section \<open>Example\<close>

lemma kernel0_static: "static_ok kernel0"
proof -
  have "terminals_declared kernel0" by (simp add: terminals_declared_def terminal0_def)
  moreover have "sound_ok kernel0" by (simp add: sound_ok_def unpaged_def paging.defs process.defs paging0_def file_system.defs fs0_def
        terminal_state.defs Terminal.boot0_def keyboard.defs keyboard0_def console.defs console0_def)
  ultimately show ?thesis using kernel0_early shell_pcb_ok by (simp add: static_ok_def)
qed

lemma block_at: "4000 \<le> k \<Longrightarrow> k + n \<le> 0xA0000 \<Longrightarrow> block_safe (of_nat k) n"
proof -
  assume k: "4000 \<le> k" "k + n \<le> 0xA0000"
  have "boot_safe (of_nat k + of_nat i)" if "i < n" for i
    using k that unat_of_nat_u32 [of "k + i"] by (simp add: boot_safe_def)
  then show "block_safe (of_nat k) n" by (simp add: block_safe_def)
qed

lemma kernel0_mbi:
  "mbi_flags 0x9000 image = 8" "mods_addr 0x9000 image = 0x9100" "load32 image 0x9100 = 0x10000" "multiboot_ok 0x9000 image"
proof -
  show f: "mbi_flags 0x9000 image = 8" "mods_addr 0x9000 image = 0x9100" "load32 image 0x9100 = 0x10000"
    by (simp_all add: mbi_flags_def mods_addr_def load32_def image_def)
  show "multiboot_ok 0x9000 image"
    using block_at [of "0x9000" 52] by (simp add: multiboot_ok_def f CHECK_FLAG_def)
qed

lemma kernel0_disk: "disk_ok 0x10000 kernel0" "shell_entry_point (kernel0\<lparr>boot_block := 0x10000, inode_addr := 0x11000\<rparr>) = 0x08048018"
proof -
  define t where "t = kernel0\<lparr>boot_block := 0x10000, inode_addr := 0x11000\<rparr>"
  note d = disk_frame [of t machine0, unfolded t_def, simplified, folded t_def]
  have "boot_safe x" "unat x < 8388608" if "x \<in> shell_bytes machine0" for x
    using shell_bytes_range [OF that] by (simp_all add: boot_safe_def)
  moreover have "boot_region 0x10000 \<subseteq> shell_bytes machine0" by (simp add: shell_bytes_def)
  ultimately show "disk_ok 0x10000 kernel0"
    using d shell_start(2) shell_file(1,3,4) by (auto simp: disk_ok_def t_def [symmetric])
  show "shell_entry_point (kernel0\<lparr>boot_block := 0x10000, inode_addr := 0x11000\<rparr>) = 0x08048018"
    using d(4) shell_file(5) shell_entry by (simp add: shell_entry_point_def t_def)
qed

theorem kernel_boots_witness:
  "\<exists>t t'. entry (\<lambda>_. 0x402345) desc0 desc0 (map clock (replicate 160 True)) 0x2BADB002 0x9000 kernel0 = Some (Idle, t)
    \<and> booting 0 t \<and> PIT_interrupt_handler t = Some (Entered 0x08048018 0x083FFFFC, t')"
proof -
  have "160 \<le> tick_count (replicate 160 True)" by (simp add: tick_count_def)
  then show ?thesis
    using kernel_boots [OF kernel0_static, of "0x9000" "replicate 160 True" "\<lambda>_. 0x402345" desc0 desc0] kernel0_mbi kernel0_disk
      block_at [of "0x9100" 4]
    by (auto simp: CHECK_FLAG_def)
qed

end
