(* ===== verification/Drivers.thy ===== *)
theory Drivers
  imports Mouse
begin

text \<open>
  What the drivers leave alone. The console, the keyboard, the mouse, the terminals and the file system run on behalf of
  whatever program happens to be there; the lemmas show that none of them touches the process table, the page tables or a
  terminal's list of programs, on any path that has a result.
\<close>

section \<open>Loops that may be undefined\<close>

lemma for_opt_keeps:
  assumes "for_opt a b f s = Some s'" "P s" "\<And>i s s'. P s \<Longrightarrow> f i s = Some s' \<Longrightarrow> P s'"
  shows "P s'"
proof (cases "a \<le> b")
  case True
  then show ?thesis
    using assms(1)
  proof (induction b arbitrary: s' rule: dec_induct)
    case base
    then show ?case using assms(2) by simp
  next
    case (step n)
    then obtain t where "for_opt a n f s = Some t" "f n t = Some s'" by (auto simp: for_opt_Suc bind_eq_Some_conv)
    then show ?case using step.IH assms(3) by blast
  qed
next
  case False
  then show ?thesis using assms(1,2) by simp
qed

lemma for_opt_last: "for_opt a (Suc b) f s = Some s' \<Longrightarrow> a \<le> b \<Longrightarrow> \<exists>t. for_opt a b f s = Some t \<and> f b t = Some s'"
  by (auto simp: for_opt_Suc bind_eq_Some_conv)

lemma out_all_keeps:
  assumes "\<And>c s s'. P s \<Longrightarrow> out c s = Some s' \<Longrightarrow> P s'"
  shows "out_all out cs s = Some s' \<Longrightarrow> P s \<Longrightarrow> P s'"
  by (induction cs arbitrary: s) (auto simp: bind_eq_Some_conv intro: assms)

section \<open>Stores through a pointer\<close>

text \<open>What holds before and after every single store holds after the routines that store a buffer byte by byte.\<close>

locale keeping_store =
  fixes put :: "'b \<Rightarrow> nat \<Rightarrow> u8 \<Rightarrow> 'b option"
    and keeps :: "'b \<Rightarrow> bool"
  assumes put_keeps: "put b i x = Some b' \<Longrightarrow> keeps b \<Longrightarrow> keeps b'"
begin

lemma strcpy_loop_keeps: "strcpy_loop put dest src i = Some r \<Longrightarrow> keeps dest \<Longrightarrow> keeps (fst r)"
proof -
  have "p = put \<longrightarrow> keeps dest \<longrightarrow> keeps (fst r)" if "strcpy_loop p dest src i = Some r" for p
    by (rule strcpy_loop.raw_induct [where P = "\<lambda>p dest src i r. p = put \<longrightarrow> keeps dest \<longrightarrow> keeps (fst r)", OF _ that])
      (auto simp: bind_eq_Some_conv split: if_splits, (use put_keeps in blast)?)
  then show "strcpy_loop put dest src i = Some r \<Longrightarrow> keeps dest \<Longrightarrow> keeps (fst r)" by blast
qed

lemma strcpy_keeps: "strcpy put dest src = Some d \<Longrightarrow> keeps dest \<Longrightarrow> keeps d"
  by (auto simp: strcpy_def bind_eq_Some_conv dest!: strcpy_loop_keeps intro: put_keeps)

lemma strncpy_copy_keeps: "strncpy_copy put dest src i n = Some r \<Longrightarrow> keeps dest \<Longrightarrow> keeps (fst r)"
proof -
  have "p = put \<longrightarrow> keeps dest \<longrightarrow> keeps (fst r)" if "strncpy_copy p dest src i n = Some r" for p
    by (rule strncpy_copy.raw_induct [where P = "\<lambda>p dest src i n r. p = put \<longrightarrow> keeps dest \<longrightarrow> keeps (fst r)", OF _ that])
      (auto simp: bind_eq_Some_conv split: if_splits, (use put_keeps in blast)?)
  then show "strncpy_copy put dest src i n = Some r \<Longrightarrow> keeps dest \<Longrightarrow> keeps (fst r)" by blast
qed

lemma put_list_keeps: "put_list put b i xs = Some b' \<Longrightarrow> keeps b \<Longrightarrow> keeps b'"
  by (induction xs arbitrary: b i) (auto simp: bind_eq_Some_conv intro: put_keeps)

lemma strncpy_keeps: "strncpy put dest src n = Some d \<Longrightarrow> keeps dest \<Longrightarrow> keeps d"
  by (auto simp: strncpy_def bind_eq_Some_conv strncpy_pad_eq dest!: strncpy_copy_keeps intro: put_list_keeps)

lemma copy_block_keeps: "copy_block memof put base addr i len b = Some (j, l, b') \<Longrightarrow> keeps b \<Longrightarrow> keeps b'"
proof (induction "4096 - addr" arbitrary: addr i len b)
  case 0
  then show ?case by (subst (asm) copy_block.simps) simp
next
  case (Suc n)
  have n: "n = 4096 - Suc addr" using Suc.hyps(2) by simp
  show ?case
    using Suc.prems
    by (subst (asm) copy_block.simps) (auto simp: bind_eq_Some_conv split: if_splits intro: put_keeps Suc.hyps(1) [OF n])
qed

lemma read_blocks_keeps: "read_blocks memof put bb ia ino head blk addr i len b = Some (r, b') \<Longrightarrow> keeps b \<Longrightarrow> keeps b'"
proof (induction "1023 - blk" arbitrary: blk addr i len b)
  case 0
  then show ?case by (subst (asm) read_blocks.simps) (auto split: if_splits)
next
  case (Suc n)
  have n: "n = 1023 - Suc blk" using Suc.hyps(2) by simp
  show ?case
    using Suc.prems
    by (subst (asm) read_blocks.simps)
      (auto simp: bind_eq_Some_conv Let_def split: if_splits intro: copy_block_keeps Suc.hyps(1) [OF n])
qed

lemma read_data_keeps: "read_data memof put bb ia ino off n b = Some (r, b') \<Longrightarrow> keeps b \<Longrightarrow> keeps b'"
  by (auto simp: read_data_def Let_def bind_eq_Some_conv split: if_splits dest: read_blocks_keeps)

end

section \<open>The console\<close>

text \<open>\<open>s'\<close> is \<open>s\<close> with other text on the terminals and other input lines.\<close>

definition console_step :: "'z console_scheme \<Rightarrow> 'z console_scheme \<Rightarrow> bool" where
  "console_step s s' \<longleftrightarrow> keyboard_ok s' \<and> curr_running_terminal_idx s' = curr_running_terminal_idx s
     \<and> (\<forall>j<3. phys_mem_idx (terminals s' ! j) = phys_mem_idx (terminals s ! j)) \<and> console.more s' = console.more s"

named_theorems console_steps \<open>an operation of the console is a console step\<close>

lemma console_step_refl: "keyboard_ok s \<Longrightarrow> console_step s s"
  by (simp add: console_step_def)

lemma console_step_trans: "console_step s t \<Longrightarrow> console_step t u \<Longrightarrow> console_step s u"
  by (simp add: console_step_def)

lemma console_stepD: "console_step s t \<Longrightarrow> keyboard_ok t"
  by (simp add: console_step_def)

lemma console_step_edited:
  assumes "keyboard_ok s" "edited t s s'" "phys_mem_idx t = phys_mem_idx (cur s)"
  shows "console_step s s'"
proof -
  note c = console_okD [OF keyboard_okD(1) [OF assms(1)]]
  have e: "\<exists>x y. cur s' = t\<lparr>screen_x := x, screen_y := y\<rparr>" "curr_terminal_idx s' = curr_terminal_idx s"
    "\<forall>j<3. j \<noteq> nat (curr_terminal_idx s) \<longrightarrow> terminals s' ! j = terminals s ! j"
    using assms(2) unfolding edited_def by blast+
  have "phys_mem_idx (terminals s' ! nat (curr_terminal_idx s)) = phys_mem_idx (terminals s ! nat (curr_terminal_idx s))"
    using e(1,2) assms(3) by (auto simp: cur_def)
  then have "\<forall>j<3. phys_mem_idx (terminals s' ! j) = phys_mem_idx (terminals s ! j)" using e(3) by metis
  then show ?thesis using assms(2) by (simp add: console_step_def edited_def)
qed

lemma console_step_device:
  assumes "keyboard_ok s" "sound.more s' = sound.more s" "sound_freq s' = sound_freq s"
  shows "console_step s s'"
  using assms keyboard_ok_frame [OF assms(2,3)] by (simp add: console_step_def console_frame [OF assms(2)])

lemma console_step_phys: "keyboard_ok s \<Longrightarrow> console_step s (s\<lparr>phys := m\<rparr>)"
  by (simp add: console_step_def)

lemma console_step_upd:
  assumes "keyboard_ok s" "upd_curr f s = Some s'"
    and "\<And>t. f (cur s) = Some t \<Longrightarrow> terminal_ok (nat (curr_terminal_idx s)) t \<and> line_ok t \<and> phys_mem_idx t = phys_mem_idx (cur s)"
  shows "console_step s s'"
proof -
  obtain t where t: "f (cur s) = Some t" "s' = set_cur t s"
    using assms(2) by (auto simp: upd_curr_eq [OF keyboard_okD(1) [OF assms(1)]])
  then show ?thesis using console_step_edited [OF assms(1) edited_set_cur [OF assms(1)]] assms(3) [OF t(1)] by blast
qed

lemma putc_console_step [console_steps]: "keyboard_ok s \<Longrightarrow> putc c s = Some s' \<Longrightarrow> console_step s s'"
  using edited_putc [of s c] console_step_edited by fastforce

lemma beep_console_step [console_steps]: "keyboard_ok s \<Longrightarrow> beep s = Some s' \<Longrightarrow> console_step s s'"
  using edited_beep [of s] console_step_edited by fastforce

lemma clear_console_step [console_steps]: "keyboard_ok s \<Longrightarrow> clear s = Some s' \<Longrightarrow> console_step s s'"
  using edited_clear [of s] console_step_edited by fastforce

lemma clear_buffer_console_step [console_steps]: "keyboard_ok s \<Longrightarrow> clear_buffer s = Some s' \<Longrightarrow> console_step s s'"
  using edited_clear_buffer [of s] console_step_edited [of s _ s'] by fastforce

lemma putc_background_console_step [console_steps]:
  assumes "keyboard_ok s" "putc_background c s = Some s'"
  shows "console_step s s'"
proof -
  note ok = keyboard_okD [OF assms(1)]
  define i where "i = nat (temp_curr_running_terminal_idx s)"
  have i3: "i < 3" using console_okD [OF ok(1)] by (simp add: i_def)
  obtain x y m' where e: "putc_background c s = Some (sti ((cli s)
       \<lparr>scr_x := screen_x (terminals s ! i), scr_y := screen_y (terminals s ! i), phys := m',
         terminals := (terminals s)[i := (terminals s ! i)\<lparr>screen_x := x, screen_y := y\<rparr>]\<rparr>))" and c: "cursor_ok x y"
    by (rule background_effect [OF ok(1) i_def, where c = c])
  have s': "s' = sti ((cli s)\<lparr>scr_x := screen_x (terminals s ! i), scr_y := screen_y (terminals s ! i), phys := m',
      terminals := (terminals s)[i := (terminals s ! i)\<lparr>screen_x := x, screen_y := y\<rparr>]\<rparr>)"
    using e assms(2) by simp
  have len: "length (terminals s) = 3" using console_okD [OF ok(1)] by simp
  have t: "terminals s' = (terminals s)[i := (terminals s ! i)\<lparr>screen_x := x, screen_y := y\<rparr>]" by (simp add: s')
  have "console_ok s'"
    by (rule console_ok_update [OF ok(1) i3 console_terminal_update [OF ok(1) i3 c]]) (simp_all add: s')
  moreover have "sound_ok s'" using ok(2) by (simp add: sound_ok_def s')
  moreover have "\<forall>j<3. line_ok (terminals s' ! j)"
  proof (intro allI impI)
    fix j :: nat assume "j < 3"
    then show "line_ok (terminals s' ! j)" using assms(1) len by (cases "j = i") (simp_all add: keyboard_ok_def t)
  qed
  moreover have "\<forall>j<3. phys_mem_idx (terminals s' ! j) = phys_mem_idx (terminals s ! j)"
    using len i3 by (auto simp: t nth_list_update)
  ultimately show ?thesis by (simp add: console_step_def keyboard_ok_def s')
qed

lemma print_console_step:
  assumes "keyboard_ok s" "printf (arr_get (cs @ [0])) [] s = Some (n, s')" "0 \<notin> set cs" "37 \<notin> set cs"
  shows "console_step s s'"
proof -
  have c: "is_cstr (arr_get (cs @ [0])) cs" using is_cstr_append_arr [of cs "[]"] assms(3) by simp
  have "out_all putc cs s = Some s'"
    using printf_loop_text(1) [OF c format_text_plain [OF assms(4), of "[]"], of 0 s] assms(2)
    by (auto simp: printf_def)
  then show ?thesis
    using out_all_keeps [of "console_step s" putc] console_step_trans putc_console_step console_stepD console_step_refl [OF assms(1)]
    by blast
qed

section \<open>The keyboard\<close>

text \<open>The same for the layers that have state above the console.\<close>

definition driver_step :: "'z keyboard_scheme \<Rightarrow> 'z keyboard_scheme \<Rightarrow> bool" where
  "driver_step s s' \<longleftrightarrow> keyboard_ok s' \<and> curr_running_terminal_idx s' = curr_running_terminal_idx s
     \<and> (\<forall>j<3. phys_mem_idx (terminals s' ! j) = phys_mem_idx (terminals s ! j)) \<and> keyboard.more s' = keyboard.more s"

lemma driver_step_trans: "driver_step s t \<Longrightarrow> driver_step t u \<Longrightarrow> driver_step s u"
  by (simp add: driver_step_def)

lemma driver_step_console: "console_step s s' \<Longrightarrow> driver_step s s'"
  using keyboard_more(8) [of s' s] by (simp add: console_step_def driver_step_def)

lemma enter_full_undefined:
  assumes ok: "keyboard_ok s" and idx: "\<not> curr_char_idx (cur s) < 128"
  shows "enter_line s = None"
proof -
  obtain s1 where s1: "putc 10 s = Some s1" "edited (cur s) s s1" using edited_putc [OF ok] by blast
  note ok1 = keyboard_okD [OF edited_keyboard_ok [OF s1(2)]]
  have "\<not> curr_char_idx (cur s1) < 128" using s1(2) idx by (auto simp: edited_def)
  then show ?thesis
    using with_history_ok [OF ok1(4,3)] terminal_okD(1) [OF ok1(4)]
    by (simp add: enter_line_def s1(1) upd_curr_eq [OF ok1(1)] store_history_eq [OF ok1(4,3)] aset_def)
qed

lemma modifier_keys_more:
  "modifier_keys c s = (s1, finish, ins_flag) \<Longrightarrow> terminals s1 = terminals s \<and> keyboard.more s1 = keyboard.more s
   \<and> curr_running_terminal_idx s1 = curr_running_terminal_idx s"
  unfolding modifier_keys_def by (auto split: if_splits)

lemma full_line_console_step [console_steps]:
  assumes "keyboard_ok s" "full_line s = Some s'"
  shows "console_step s s'" "curr_char_idx (cur s') = 0"
proof -
  have e: "edited (deliver (typed_buf (cur s)) (cur s)) s s'" using full_line_ok [OF assms(1)] assms(2) by auto
  show "console_step s s'" by (rule console_step_edited [OF assms(1) e]) (simp add: deliver_def with_history_def Let_def)
  show "curr_char_idx (cur s') = 0" using e by (auto simp: edited_def deliver_def)
qed

lemma enter_line_console_step [console_steps]:
  assumes "keyboard_ok s" "enter_line s = Some s'"
  shows "console_step s s'"
proof -
  have "curr_char_idx (cur s) < 128" using enter_full_undefined [OF assms(1)] assms(2) by fastforce
  from enter_line_ok [OF assms(1) this] assms(2)
  have e: "edited (deliver ((typed_buf (cur s))[nat (curr_char_idx (cur s)) := 10]) (cur s)) s s'" by auto
  show ?thesis by (rule console_step_edited [OF assms(1) e]) (simp add: deliver_def with_history_def Let_def)
qed

lemma recall_loop_console_step:
  assumes "recall_loop ec i s = Some s'" "keyboard_ok s" "0 \<le> ec" "ec < 20"
  shows "\<exists>l. is_cstr (arr_get (buffer_for_ec (cur s) ! nat ec)) l"
proof -
  note ok = keyboard_okD [OF assms(2)]
  have "aget (buffer_for_ec (cur s)) ec = Some (buffer_for_ec (cur s) ! nat ec)"
    using assms(3,4) terminal_okD(3) [OF ok(4)] by (simp add: aget_in)
  then show ?thesis
    using assms(1) by (subst (asm) recall_loop.simps) (auto simp: curr_terminal_eq [OF ok(1)] bind_eq_Some_conv strlen_Some_iff)
qed

lemma recall_console_step [console_steps]:
  assumes ok: "keyboard_ok s" and r: "recall_command s = Some s'"
  shows "console_step s s'"
proof (cases "0 < buffer_ec_idx (cur s)")
  case False
  then show ?thesis
    using r console_step_refl [OF ok] by (simp add: recall_command_def curr_terminal_eq [OF keyboard_okD(1) [OF ok]])
next
  case True
  define e where "e = buffer_ec_idx (cur s) - 1"
  note ok' = keyboard_okD [OF ok]
  have e: "0 \<le> e" "e < 20" using True ok'(3) by (auto simp: e_def line_ok_def)
  let ?f = "\<lambda>t. Some (t\<lparr>buffer_ec_idx := e\<rparr>)"
  define s1 where "s1 = set_cur ((cur s)\<lparr>buffer_ec_idx := e\<rparr>) s"
  have t: "terminal_ok (nat (curr_terminal_idx s)) ((cur s)\<lparr>buffer_ec_idx := e\<rparr>)" "line_ok ((cur s)\<lparr>buffer_ec_idx := e\<rparr>)"
    using ok' e by (simp_all add: line_ok_def)
  note u = edited_upd [where f = ?f, OF ok refl t, folded s1_def]
  obtain s2 where s2: "erase_line s1 = Some s2" "edited ((cur s1)\<lparr>curr_char_idx := 0\<rparr>) s1 s2"
    using erase_line_ok [OF u(3)] by blast
  obtain s3 where s3: "clear_buffer s2 = Some s3" "edited ((cur s2)\<lparr>typed_buf := replicate 128 0\<rparr>) s2 s3"
      "cur s3 = (cur s2)\<lparr>typed_buf := replicate 128 0\<rparr>"
    using edited_clear_buffer [OF edited_keyboard_ok [OF s2(2)]] by blast
  obtain s4 where "recall_loop e 0 s3 = Some s4"
    using r True u(1) s2(1) s3(1)
    by (auto simp: recall_command_def curr_terminal_eq [OF ok'(1)] e_def [symmetric] bind_eq_Some_conv)
  then obtain l where "is_cstr (arr_get (buffer_for_ec (cur s3) ! nat e)) l"
    using recall_loop_console_step [OF _ edited_keyboard_ok [OF s3(2)] e] by blast
  moreover have "buffer_for_ec (cur s3) = buffer_for_ec (cur s)" using s2(2) u(4) by (auto simp: s3(3) edited_def)
  ultimately obtain l where "is_cstr (arr_get (buffer_for_ec (cur s) ! nat (buffer_ec_idx (cur s) - 1))) l"
    by (auto simp: e_def)
  from recall_command_ok [OF ok True this] r show ?thesis using console_step_edited [OF ok] by auto
qed

lemma print_key_console_step [console_steps]:
  assumes "keyboard_ok s" "print_key (scancode_table t) c ins s = Some s'" "curr_char_idx (cur s) < 128" "0 < c" "c < 0x3B"
  shows "console_step s s'"
proof (cases ins)
  case True
  then show ?thesis using assms(1,2) console_step_refl by (auto simp: print_key_def)
next
  case False
  then show ?thesis
    using print_key_ok [OF assms(1,3,4,5) scancode_table_length [of t]] assms(2) console_step_edited [OF assms(1)]
    by (auto simp: with_char_def)
qed

lemma switch_driver_step:
  fixes s :: "'z keyboard_scheme"
  assumes "keyboard_ok s" "switch_terminal c s = Some s'" "0x3B \<le> c" "c \<le> 0x3D"
  shows "driver_step s s'"
proof -
  have "keyboard_ok s'" "terminals s' = terminals s" using switch_terminal_ok [OF assms(1,3,4)] assms(2) by auto
  moreover have "console.more s' = console.more s" "curr_running_terminal_idx s' = curr_running_terminal_idx s"
    using assms(2) by (auto simp: switch_terminal_def mark_cursor_def bind_eq_Some_conv)
  ultimately show ?thesis using keyboard_more(8) [of s' s] by (simp add: driver_step_def)
qed

lemma handle_scancode_driver_step:
  fixes s :: "'z keyboard_scheme"
  assumes ok: "keyboard_ok s" and r: "handle_scancode c s = Some s'"
  shows "driver_step s s'"
proof -
  obtain s1 fin ins where mk: "modifier_keys c s = (s1, fin, ins)" by (cases "modifier_keys c s") auto
  note m = modifier_keys_ok [OF mk] modifier_keys_more [OF mk]
  have ok1: "keyboard_ok s1" using m ok by simp
  have s1: "driver_step s s1" using m ok by (simp add: driver_step_def)
  note h = r [unfolded handle_scancode_def mk Let_def split]
  have "driver_step s1 s'"
  proof (cases "fin \<or> (\<not> (c > 0 \<and> c < 0x3B) \<or> c = 0x37) \<and> c \<noteq> 0x48 \<and> \<not> (la_on s1 \<and> c \<ge> 0x3B \<and> c \<le> 0x3D)")
    case True
    then have "s' = s1" using h by (auto split: if_splits)
    then show ?thesis using driver_step_console [OF console_step_refl [OF ok1]] by simp
  next
    case act: False
    show ?thesis
    proof (cases "la_on s1 \<and> c \<ge> 0x3B \<and> c \<le> 0x3D \<or> c = 0x48")
      case True
      then show ?thesis
        using h act switch_driver_step [OF ok1, of c s'] driver_step_console [OF recall_console_step [OF ok1, of s']]
        by (auto split: if_splits)
    next
      case False
      then have c: "0 < c" "c < 0x3B" "c \<noteq> 0x37" "c \<noteq> 0x48" "\<not> (la_on s1 \<and> c \<ge> 0x3B \<and> c \<le> 0x3D)" using act by auto
      have lt: "curr_char_idx (cur s1) = 128 \<or> curr_char_idx (cur s1) < 128"
        using keyboard_okD(3) [OF ok1] by (auto simp: line_ok_def)
      have print: "console_step t s'" if "keyboard_ok t" "curr_char_idx (cur t) < 128" "print_key (scancode_table t) c ins t = Some s'"
        for t using print_key_console_step [OF that(1,3,2) c(1,2)] .
      note g = aget_lower [OF c(1,2)]
      have la: "\<not> fin" "\<not> (la_on s1 \<and> c \<ge> 0x3B \<and> c \<le> 0x3D)" "c \<noteq> 0x48" "\<not> (\<not> (c > 0 \<and> c < 0x3B) \<or> c = 0x37)"
        using act c by auto
      note h1 = h [unfolded if_not_P [OF la(1)] if_not_P [OF la(2)] if_not_P [OF la(3)] if_not_P [OF la(4)] g(1)
          curr_terminal_eq [OF keyboard_okD(1) [OF ok1]] Option.bind.bind_lunit g(2)]
      have "console_step s1 s'"
      proof (cases "c = 0x1C")
        case True
        then show ?thesis using h1 enter_line_console_step [OF ok1] by simp
      next
        case enter: False
        show ?thesis
        proof (cases "curr_char_idx (cur s1) = 128")
          case True
          then obtain s2 where s2: "full_line s1 = Some s2" "print_key (scancode_table s2) c ins s2 = Some s'"
            using h1 enter by (auto simp: bind_eq_Some_conv)
          note f = full_line_console_step [OF ok1 s2(1)]
          show ?thesis using console_step_trans [OF f(1) print [OF console_stepD [OF f(1)] _ s2(2)]] f(2) by simp
        next
          case False
          then have "curr_char_idx (cur s1) < 128" using lt by simp
          then show ?thesis
            using h1 enter False print [OF ok1] ctrl_l_ok [OF ok1] backspace_ok [OF ok1] console_step_edited [OF ok1, of _ s']
            by (fastforce split: if_splits)
        qed
      qed
      then show ?thesis by (rule driver_step_console)
    qed
  qed
  then show ?thesis by (rule driver_step_trans [OF s1])
qed

lemma driver_step_device:
  fixes s :: "'z keyboard_scheme"
  assumes "keyboard_ok s" "sound.more s' = sound.more s" "sound_freq s' = sound_freq s"
  shows "driver_step s s'"
  by (rule driver_step_console [OF console_step_device [OF assms]])

lemma keyboard_driver_step:
  fixes s :: "'z keyboard_scheme"
  assumes "keyboard_ok s" "keyboard_interrupt_handler s = Some s'"
  shows "driver_step s s'"
proof -
  note p = handler_prologue [OF assms(1)]
  let ?s1 = "snd (inb 0x60 (snd (inb 0x64 (nosound (cli s)))))"
  obtain s2 where s2: "handle_scancode (scancode s) ?s1 = Some s2" "s' = send_eoi 1 (sti s2)"
    using assms(2) p(3) by (auto simp: bind_eq_Some_conv)
  have "driver_step s ?s1" by (rule driver_step_device [OF assms(1)]) simp_all
  moreover have "driver_step ?s1 s2" by (rule handle_scancode_driver_step [OF p(1) s2(1)])
  moreover have "driver_step s2 s'"
    using calculation(2) by (intro driver_step_device) (simp_all add: s2(2) driver_step_def)
  ultimately show ?thesis using driver_step_trans by blast
qed

section \<open>The clock and the mouse\<close>

lemma clock_driver_step:
  fixes s :: "'z keyboard_scheme"
  assumes "keyboard_ok s"
  shows "driver_step s (RTC_interrupt_handler s)"
proof -
  have r: "rtc.more (RTC_interrupt_handler s) = rtc.more s" "sound_freq (RTC_interrupt_handler s) = sound_freq s"
    by (simp_all add: RTC_interrupt_handler_def Let_def io_defs send_eoi_def)
  have "terminals (RTC_interrupt_handler s) = terminals s" "curr_running_terminal_idx (RTC_interrupt_handler s) = curr_running_terminal_idx s"
    "curr_terminal_idx (RTC_interrupt_handler s) = curr_terminal_idx s" "keyboard.more (RTC_interrupt_handler s) = keyboard.more s"
    "temp_curr_running_terminal_idx (RTC_interrupt_handler s) = temp_curr_running_terminal_idx s"
    using r(1) by (cases s, cases "RTC_interrupt_handler s", simp)+
  then show ?thesis using assms r(2) by (simp add: driver_step_def keyboard_ok_def console_ok_def sound_ok_def)
qed

lemma type_word_console_step:
  "type_word buf i s = Some s' \<Longrightarrow> keyboard_ok s \<Longrightarrow> curr_char_idx (cur s) = int i \<Longrightarrow> console_step s s'"
proof (induction "length buf - i" arbitrary: i s)
  case 0
  then show ?case by (subst (asm) type_word.simps) (simp add: aget_def)
next
  case (Suc n)
  note ok = Suc.prems(2)
  obtain c where c: "aget buf (int i) = Some c" using Suc.prems(1) by (subst (asm) type_word.simps) (auto simp: bind_eq_Some_conv)
  show ?case
  proof (cases "c = 0")
    case True
    then show ?thesis using Suc.prems(1) c console_step_refl [OF ok] by (subst (asm) type_word.simps) simp
  next
    case False
    let ?f = "\<lambda>t. do { b \<leftarrow> aset (typed_buf t) (int i) c; Some (t\<lparr>typed_buf := b, curr_char_idx := curr_char_idx t + 1\<rparr>) }"
    obtain s1 s2 where s1: "putc c s = Some s1" and s2: "upd_curr ?f s1 = Some s2" and r: "type_word buf (Suc i) s2 = Some s'"
      using Suc.prems(1) c False by (subst (asm) type_word.simps) (auto simp: bind_eq_Some_conv)
    obtain x where "edited (cur s) s s1" using edited_putc [OF ok, of c] s1 by auto
    then have c1: "curr_char_idx (cur s1) = int i" using Suc.prems(3) by (auto simp: edited_def)
    have p: "console_step s s1" by (rule putc_console_step [OF ok s1])
    note ok1 = console_stepD [OF p]
    note ok1' = keyboard_okD [OF ok1]
    have f: "terminal_ok (nat (curr_terminal_idx s1)) t \<and> line_ok t \<and> phys_mem_idx t = phys_mem_idx (cur s1)
        \<and> curr_char_idx t = int (Suc i)" if "?f (cur s1) = Some t" for t
      using that ok1' c1 terminal_okD(1) [OF ok1'(4)] by (auto simp: bind_eq_Some_conv aset_eq_Some line_ok_def)
    have u: "console_step s1 s2" by (rule console_step_upd [OF ok1 s2]) (use f in blast)
    have "curr_char_idx (cur s2) = int (Suc i)"
      using s2 f ok1'(1) by (auto simp: upd_curr_eq)
    from Suc.hyps(1) [OF _ r console_stepD [OF u] this] Suc.hyps(2) show ?thesis
      using console_step_trans [OF console_step_trans [OF p u]] by simp
  qed
qed

lemma left_click_console_step [console_steps]:
  assumes "left_click y s = Some s'" "keyboard_ok s"
  shows "console_step s s'"
proof -
  define f :: "nat \<Rightarrow> 'a console_scheme \<Rightarrow> 'a console_scheme option" where "f = (\<lambda>i. upd_curr (\<lambda>t.
    do { b \<leftarrow> aset (typed_buf t) (int i) 0; Some (t\<lparr>typed_buf := b, curr_char_idx := 0\<rparr>) }))"
  obtain buf s1 where s1: "for_opt 0 (Suc 127) f s = Some s1" and r: "type_word buf 0 s1 = Some s'"
    using assms(1) by (auto simp: left_click_def bind_eq_Some_conv f_def)
  have step: "console_step t t' \<and> curr_char_idx (cur t') = 0" if "keyboard_ok t" "f i t = Some t'" for i t t'
  proof -
    note ok = keyboard_okD [OF that(1)]
    have "console_step t t'"
      by (rule console_step_upd [OF that [unfolded f_def]]) (use ok in \<open>auto simp: bind_eq_Some_conv aset_eq_Some line_ok_def\<close>)
    then show ?thesis using that(2) ok(1) by (auto simp: upd_curr_eq bind_eq_Some_conv f_def)
  qed
  obtain s0 where s0: "for_opt 0 127 f s = Some s0" "f 127 s0 = Some s1" using for_opt_last [OF s1] by blast
  have p: "console_step s s0"
    by (rule for_opt_keeps [where P = "console_step s", OF s0(1) console_step_refl [OF assms(2)]]) (use step console_step_trans console_stepD in blast)
  have q: "console_step s0 s1" "curr_char_idx (cur s1) = 0" using step [OF console_stepD [OF p] s0(2)] by simp_all
  show ?thesis
    using type_word_console_step [OF r console_stepD [OF q(1)]] q(2) console_step_trans [OF console_step_trans [OF p q(1)]] by simp
qed

section \<open>The processes\<close>

text \<open>\<open>s'\<close> has the processes of \<open>s\<close>: their slots, control blocks, page tables, and their places on the terminals.\<close>

definition same_processes :: "'z process_scheme \<Rightarrow> 'z process_scheme \<Rightarrow> bool" where
  "same_processes s s' \<longleftrightarrow> keyboard_ok s' \<and> curr_running_terminal_idx s' = curr_running_terminal_idx s
     \<and> (\<forall>j<3. phys_mem_idx (terminals s' ! j) = phys_mem_idx (terminals s ! j)) \<and> phys_addr_available s' = phys_addr_available s
     \<and> pcbs s' = pcbs s \<and> same_tables s s' \<and> cr3 s' = cr3 s"

lemma same_processes_refl: "keyboard_ok s \<Longrightarrow> same_processes s s"
  by (simp add: same_processes_def same_tables_def)

lemma same_processes_trans: "same_processes s t \<Longrightarrow> same_processes t u \<Longrightarrow> same_processes s u"
  by (simp add: same_processes_def same_tables_def)

lemma same_processesD: "same_processes s t \<Longrightarrow> keyboard_ok t"
  by (simp add: same_processes_def)

lemma same_processes_driver:
  fixes s :: "'z process_scheme"
  assumes "driver_step s s'"
  shows "same_processes s s'"
proof -
  have "keyboard.more s' = keyboard.more s" using assms by (simp add: driver_step_def)
  then have "phys_addr_available s' = phys_addr_available s" "file_system.more s' = file_system.more s" by (cases s, cases s', simp)+
  moreover from this(2) have "pcbs s' = pcbs s" "same_tables s s'" "cr3 s' = cr3 s"
    by (cases s, cases s', simp add: same_tables_def)+
  ultimately show ?thesis using assms by (simp add: same_processes_def driver_step_def)
qed

lemma same_processes_console:
  fixes s :: "'z process_scheme"
  shows "console_step s s' \<Longrightarrow> same_processes s s'"
  by (rule same_processes_driver [OF driver_step_console])

lemma same_processes_device:
  fixes s :: "'z process_scheme"
  assumes "keyboard_ok s" "sound.more s' = sound.more s" "sound_freq s' = sound_freq s"
  shows "same_processes s s'"
  by (rule same_processes_console [OF console_step_device [OF assms]])

lemma same_processes_phys: "keyboard_ok s \<Longrightarrow> same_processes s (s\<lparr>phys := m\<rparr>)"
  by (simp add: same_processes_def same_tables_def)

lemma mouse_same_processes:
  fixes s :: "'z mouse_state_scheme"
  assumes ok: "keyboard_ok s" and r: "mouse_interrupt_handler s = Some s'"
  shows "same_processes s s'"
proof -
  have fin: "same_processes t (sti (send_eoi 12 t))" if "keyboard_ok t" for t :: "'z mouse_state_scheme"
    using that by (rule same_processes_device) simp_all
  define s1 where "s1 = snd (inb 0x64 (cli s))"
  define p0 where "p0 = fst (inb 0x60 s1)"
  define s2 where "s2 = snd (inb 0x60 s1)"
  define s5 where "s5 = snd (inb 0x60 (snd (inb 0x60 (snd (inb 0x60 s2)))))"
  have d: "same_processes s s1" "same_processes s s2" "same_processes s s5"
    using ok by (auto intro: same_processes_device simp: s1_def s2_def s5_def)
  show ?thesis
  proof (cases "fst (inb 0x64 (cli s)) AND 0x21 \<noteq> 0x21 \<or> p0 AND 0xC0 \<noteq> 0")
    case True
    then have "s' = sti (send_eoi 12 s1) \<or> s' = sti (send_eoi 12 s2)"
      using r by (auto simp: mouse_interrupt_handler_def Let_def case_prod_beta s1_def s2_def p0_def split: if_splits)
    then show ?thesis using d fin same_processesD same_processes_trans by blast
  next
    case False
    then obtain dx dy s6 s7 where s6: "erase_mark s5 = Some s6"
      and s7: "(if p0 AND 1 = 1 then left_click (mouse_y (draw_mark (move_mouse dx dy s6))) (draw_mark (move_mouse dx dy s6))
          else Some (draw_mark (move_mouse dx dy s6))) = Some s7" and s': "s' = sti (send_eoi 12 s7)"
      using r by (auto simp: mouse_interrupt_handler_def Let_def case_prod_beta s1_def s2_def p0_def s5_def bind_eq_Some_conv simp del: fst_inb)
    obtain m where m: "s6 = s5\<lparr>phys := m\<rparr>" using s6 by (auto simp: erase_mark_def bind_eq_Some_conv Let_def)
    define t where "t = draw_mark (move_mouse dx dy s6)"
    have t: "same_processes s5 t"
    proof -
      obtain m' x y where "t = s5\<lparr>mouse_x := x, mouse_y := y, phys := m'\<rparr>"
        by (rule that) (simp add: t_def m draw_mark_def move_mouse_eq)
      then show ?thesis
        using same_processesD [OF d(3)]
        by (simp add: same_processes_def same_tables_def keyboard_ok_def console_ok_def sound_ok_def)
    qed
    have "same_processes t s7"
    proof (cases "p0 AND 1 = 1")
      case True
      then have "left_click (mouse_y t) t = Some s7" using s7 by (simp add: t_def)
      then show ?thesis using same_processes_console [OF left_click_console_step] same_processesD [OF t] by blast
    next
      case False
      then have "s7 = t" using s7 by (simp add: t_def)
      then show ?thesis using same_processes_refl [OF same_processesD [OF t]] by simp
    qed
    then have "same_processes s s7" by (rule same_processes_trans [OF same_processes_trans [OF d(3) t]])
    then show ?thesis unfolding s' using same_processes_trans [OF _ fin [OF same_processesD]] by blast
  qed
qed

section \<open>System calls on descriptors\<close>

lemma user_put_phys: "user_put a s i x = Some s' \<Longrightarrow> \<exists>m. s' = s\<lparr>phys := m\<rparr>"
  by (auto simp: user_put_def bind_eq_Some_conv split: if_splits)

lemma user_put_same_processes:
  fixes s :: "'z process_scheme"
  shows "user_put a t i x = Some t' \<Longrightarrow> same_processes s t \<Longrightarrow> same_processes s t'"
  using user_put_phys same_processes_phys same_processes_trans same_processesD by blast

interpretation user_store: keeping_store "user_put a" "same_processes s" for a :: u32 and s :: "'z process_scheme"
  by unfold_locales (rule user_put_same_processes)

lemma user_store32_same_processes:
  fixes s :: "'z process_scheme"
  shows "user_store32 a v t = Some t' \<Longrightarrow> same_processes s t \<Longrightarrow> same_processes s t'"
  by (auto simp: user_store32_def bind_eq_Some_conv dest!: user_put_same_processes)

lemma terminal_write_same_processes:
  fixes s :: "'z process_scheme"
  assumes "terminal_write get null n s = Some (r, s')" "keyboard_ok s"
  shows "same_processes s s'"
proof -
  define s1 where "s1 = (disable_irq 0 (cli s))\<lparr>temp_curr_running_terminal_idx := curr_running_terminal_idx s\<rparr>"
  have d: "same_processes s (disable_irq 0 (cli s))" by (rule same_processes_device [OF assms(2)]) simp_all
  have r: "curr_running_terminal_idx (disable_irq 0 (cli s)) = curr_running_terminal_idx s" using d by (simp add: same_processes_def)
  have "same_processes (disable_irq 0 (cli s)) s1"
    using same_processesD [OF d]
    by (simp add: s1_def same_processes_def same_tables_def keyboard_ok_def console_ok_def sound_ok_def r)
  then have s1: "console_step s1 s1" "same_processes s s1"
    using same_processes_trans [OF d] same_processesD console_step_refl by blast+
  let ?f = "\<lambda>i s. do { c \<leftarrow> get s i; if curr_terminal_idx s = temp_curr_running_terminal_idx s then putc c s else putc_background c s }"
  show ?thesis
  proof (cases "null \<or> n < 0")
    case True
    then have "s' = s1" using assms(1) by (auto simp: terminal_write_def Let_def s1_def r split: if_splits)
    then show ?thesis using s1 by simp
  next
    case False
    then obtain s2 s3 where s2: "for_opt 0 (nat n) ?f s1 = Some s2"
      and s3: "(if n = 128 then putc 10 s2 else Some s2) = Some s3" and s': "s' = sti (enable_irq 0 s3)"
      using assms(1) by (auto simp: terminal_write_def Let_def s1_def r bind_eq_Some_conv)
    have p: "console_step s1 s2"
    proof (rule for_opt_keeps [where P = "console_step s1", OF s2 s1(1)])
      fix i t t' assume t: "console_step s1 t" "?f i t = Some t'"
      then have "console_step t t'"
        using putc_console_step [OF console_stepD [OF t(1)], of _ t'] putc_background_console_step [OF console_stepD [OF t(1)], of _ t']
        by (auto simp: bind_eq_Some_conv split: if_splits)
      then show "console_step s1 t'" by (rule console_step_trans [OF t(1)])
    qed
    have "console_step s2 s3"
      using s3 putc_console_step [OF console_stepD [OF p]] console_step_refl [OF console_stepD [OF p]] by (auto split: if_splits)
    then have "console_step s1 s3" by (rule console_step_trans [OF p])
    moreover from this have "console_step s3 s'" by (intro console_step_device) (simp_all add: console_stepD s')
    ultimately show ?thesis using same_processes_trans [OF s1(2)] same_processes_console console_step_trans by blast
  qed
qed

lemma terminal_open_same_processes:
  fixes s :: "'z process_scheme"
  assumes "keyboard_ok s" "terminal_open s = Some (r, s')"
  shows "same_processes s s'"
proof -
  obtain b where "s' = s\<lparr>share_buffer := b\<rparr>" using assms(2) by (auto simp: terminal_open_def bind_eq_Some_conv)
  then show ?thesis
    using assms(1) by (simp add: same_processes_def same_tables_def keyboard_ok_def console_ok_def sound_ok_def)
qed

lemma set_rate_more: "rtc.more (RTC_set_rate n s) = rtc.more s" "sound_freq (RTC_set_rate n s) = sound_freq s"
  by (simp_all add: RTC_set_rate_def Let_def io_defs)

lemma same_processes_rtc:
  fixes s :: "'z process_scheme"
  assumes "keyboard_ok s" "rtc.more s' = rtc.more s" "sound_freq s' = sound_freq s"
  shows "same_processes s s'"
proof -
  have "terminals s' = terminals s" "curr_running_terminal_idx s' = curr_running_terminal_idx s" "curr_terminal_idx s' = curr_terminal_idx s"
    "temp_curr_running_terminal_idx s' = temp_curr_running_terminal_idx s" "keyboard.more s' = keyboard.more s"
    using assms(2) by (cases s, cases s', simp)+
  then show ?thesis
    using assms(1,3) by (intro same_processes_driver) (simp add: driver_step_def keyboard_ok_def console_ok_def sound_ok_def)
qed

lemma RTC_write_same_processes:
  fixes s :: "'z process_scheme"
  assumes "keyboard_ok s" "RTC_write m buf n s = Some (r, s')"
  shows "same_processes s s'"
proof -
  have "rtc.more s' = rtc.more s \<and> sound_freq s' = sound_freq s"
    using assms(2) set_rate_more [of _ "cli s"] by (auto simp: RTC_write_def Let_def bind_eq_Some_conv io_defs split: if_splits option.splits)
  then show ?thesis using same_processes_rtc [OF assms(1)] by blast
qed

text \<open>The file system changes its own fields and what is read goes through the store.\<close>

lemma same_processes_fields:
  fixes s :: "'z process_scheme"
  assumes "keyboard_ok s"
  shows "same_processes s (s\<lparr>curr_dir_dentry := d, directory_index := k\<rparr>)" "same_processes s (s\<lparr>curr_dir_dentry := d\<rparr>)"
    "same_processes s (s\<lparr>directory_index := k\<rparr>)" "same_processes s (s\<lparr>last_round := n\<rparr>)"
    "same_processes s (s\<lparr>last_round := n, curr_file_dentry := d\<rparr>)"
  using assms by (simp_all add: same_processes_def same_tables_def keyboard_ok_def console_ok_def sound_ok_def)

lemma dir_read_same_processes:
  fixes s :: "'z process_scheme"
  assumes "keyboard_ok s" "dir_read (user_put a) s = Some (r, s')"
  shows "same_processes s s'"
proof -
  obtain ret d where rd: "read_dentry_by_index (boot_block s) (phys s) (directory_index s) (curr_dir_dentry s) = Some (ret, d)"
    using assms(2) by (auto simp: dir_read_def bind_eq_Some_conv)
  define t where "t = s\<lparr>curr_dir_dentry := d, directory_index := directory_index s + 1\<rparr>"
  have t: "same_processes s t" unfolding t_def by (rule same_processes_fields(1) [OF assms(1)])
  show ?thesis
  proof (cases "ret = -1")
    case True
    then have "s' = t\<lparr>directory_index := 0\<rparr>" using assms(2) rd by (simp add: dir_read_def t_def)
    then show ?thesis using same_processes_trans [OF t same_processes_fields(3) [OF same_processesD [OF t]]] by simp
  next
    case False
    then obtain j where j: "for_opt 0 j (\<lambda>j s. do { c \<leftarrow> aget (file_name (curr_dir_dentry s)) (int j); user_put a s j c }) t = Some s'"
      using assms(2) rd by (auto simp: dir_read_def t_def [symmetric] bind_eq_Some_conv Let_def)
    show ?thesis
      by (rule for_opt_keeps [where P = "same_processes s", OF j t]) (auto simp: bind_eq_Some_conv intro: user_put_same_processes)
  qed
qed

lemma file_read_same_processes:
  fixes s :: "'z process_scheme"
  assumes "keyboard_ok s" "file_read (user_put a) n fd s = Some (r, fd', s')"
  shows "same_processes s s'"
proof -
  obtain len t where t: "read_data phys (user_put a) (boot_block s) (inode_addr s) (fd_inode fd) (file_position fd) (word_of_int n) s = Some (len, t)"
    using assms(2) by (auto simp: file_read_def bind_eq_Some_conv)
  have k: "same_processes s t" by (rule user_store.read_data_keeps [OF t same_processes_refl [OF assms(1)]])
  have "s' = t \<or> (\<exists>n. s' = t\<lparr>last_round := n\<rparr>)" using assms(2) t by (auto simp: file_read_def Let_def split: if_splits)
  then show ?thesis using k same_processes_trans [OF k same_processes_fields(4) [OF same_processesD [OF k]]] by blast
qed

lemma dir_open_same_processes:
  fixes s :: "'z process_scheme"
  assumes "keyboard_ok s" "dir_open null name s = Some (r, s')"
  shows "same_processes s s'"
  using assms same_processes_fields(2) [OF assms(1)] by (auto simp: dir_open_def bind_eq_Some_conv)

lemma file_open_same_processes:
  fixes s :: "'z process_scheme"
  assumes "keyboard_ok s" "file_open null name s = Some (r, s')"
  shows "same_processes s s'"
  using assms same_processes_fields(5) [OF assms(1)] by (auto simp: file_open_def bind_eq_Some_conv Let_def)

end
