(* ===== verification/Invariant.thy ===== *)
theory Invariant
  imports Drivers
begin

text \<open>
  The invariant of the running kernel: the terminals and their input lines, the process table, the page tables and the page
  directories that the control blocks and the processor refer to are consistent with each other. The operations on
  processes, \<open>execute\<close>, \<open>halt\<close> and the exceptions, keep it on all paths that have a result.
\<close>

section \<open>The invariant\<close>

text \<open>The directory of slot \<open>k\<close> has been prepared for a program.\<close>

definition slot_ready :: "'z paging_scheme \<Rightarrow> nat \<Rightarrow> bool" where
  "slot_ready s k \<longleftrightarrow> slot_directory s k (pdes s ! Suc k)"

text \<open>A page directory that the processor can be given: the kernel's own or a prepared one. Both map the kernel.\<close>

definition usable_directory :: "'z paging_scheme \<Rightarrow> u32 \<Rightarrow> bool" where
  "usable_directory s a \<longleftrightarrow> a = addr_pde s 0 \<or> (\<exists>k<6. a = addr_pde s (Suc k) \<and> slot_ready s k)"

text \<open>A program on a terminal: its directory is prepared, and \<open>halt\<close> can load its parent's.\<close>

definition program_ready :: "'z process_scheme \<Rightarrow> int \<Rightarrow> bool" where
  "program_ready s x \<longleftrightarrow> slot_ready s (nat x) \<and> usable_directory s (parent_PDBR (pcbs s ! nat x))"

text \<open>The directory that the scheduler saved for slot \<open>x\<close> can be loaded.\<close>

definition saved :: "'z process_scheme \<Rightarrow> int \<Rightarrow> bool" where
  "saved s x \<longleftrightarrow> usable_directory s (curr_PDBR (pcbs s ! nat x))"

text \<open>The start, until the scheduler has left the first terminal: slot 0 is the first terminal's shell.\<close>

definition first_terminal :: "'z console_scheme \<Rightarrow> bool" where
  "first_terminal s \<longleftrightarrow> run_idx s = 0 \<and> stack s 1 = [] \<and> stack s 2 = [] \<and> (stack s 0 = [] \<or> hd (stack s 0) = 0)"

text \<open>While a program is being started, its slot is in \<open>A\<close>: it is taken and not ready yet.\<close>

definition inv_but :: "int set \<Rightarrow> 'z process_scheme \<Rightarrow> bool" where
  "inv_but A s \<longleftrightarrow> keyboard_ok s \<and> procs_ok s \<and> paging_inv s \<and> usable_directory s (cr3 s)
     \<and> (\<forall>i<3. \<forall>x\<in>set (stack s i). x \<notin> A \<longrightarrow> program_ready s x)
     \<and> (\<forall>i<3. i \<noteq> run_idx s \<longrightarrow> stack s i \<noteq> [] \<longrightarrow> saved s (last (stack s i)))
     \<and> (saved s 0 \<or> first_terminal s)"

definition kernel_inv :: "'z process_scheme \<Rightarrow> bool" where
  "kernel_inv s \<longleftrightarrow> keyboard_ok s \<and> procs_ok s \<and> paging_inv s \<and> usable_directory s (cr3 s)
     \<and> (\<forall>i<3. \<forall>x\<in>set (stack s i). program_ready s x)
     \<and> (\<forall>i<3. i \<noteq> run_idx s \<longrightarrow> stack s i \<noteq> [] \<longrightarrow> saved s (last (stack s i)))
     \<and> (saved s 0 \<or> first_terminal s)"

lemma kernel_inv_but: "kernel_inv s \<longleftrightarrow> inv_but {} s"
  by (simp add: kernel_inv_def inv_but_def)

lemma inv_butD:
  "inv_but A s \<Longrightarrow> keyboard_ok s" "inv_but A s \<Longrightarrow> procs_ok s" "inv_but A s \<Longrightarrow> paging_inv s"
  "inv_but A s \<Longrightarrow> usable_directory s (cr3 s)" "inv_but A s \<Longrightarrow> length (pcbs s) = 6" "inv_but A s \<Longrightarrow> stacks_ok s"
  by (auto simp: inv_but_def procs_ok_def)

lemmas kernel_invD = inv_butD [where A = "{}", folded kernel_inv_but]

lemma inv_but_ready: "inv_but {x} s \<Longrightarrow> program_ready s x \<Longrightarrow> kernel_inv s"
  by (auto simp: kernel_inv_def inv_but_def)

section \<open>Changes that keep it\<close>

lemma same_tables_ready:
  assumes "same_tables s s'"
  shows "slot_ready s' = slot_ready s" "usable_directory s' = usable_directory s"
proof -
  show r: "slot_ready s' = slot_ready s"
    using assms by (simp add: fun_eq_iff slot_ready_def slot_directory_def maps_kernel_def same_tables_def)
  show "usable_directory s' = usable_directory s"
    using assms by (simp add: fun_eq_iff usable_directory_def r same_tables_def)
qed

lemma stack_range:
  assumes "stacks_ok s" "i < 3" "x \<in> set (stack s i)"
  shows "0 \<le> x" "x < 6"
proof -
  have "set (stack s i) \<subseteq> {0..<6}" using assms(1,2) by (simp add: stacks_ok_def)
  then show "0 \<le> x" "x < 6" using assms(3) by auto
qed

text \<open>The general step: the terminal lists stay, control blocks and page tables may change.\<close>

lemma inv_step:
  assumes inv: "inv_but A s" and ok: "keyboard_ok s'" "procs_ok s'" "paging_inv s'" "usable_directory s' (cr3 s')"
    and st: "\<And>i. i < 3 \<Longrightarrow> stack s' i = stack s i" "run_idx s' = run_idx s"
    and ready: "\<And>i x. i < 3 \<Longrightarrow> x \<in> set (stack s i) \<Longrightarrow> x \<notin> A \<Longrightarrow> program_ready s x \<Longrightarrow> program_ready s' x"
    and saved: "\<And>x. 0 \<le> x \<Longrightarrow> x < 6 \<Longrightarrow> saved s x \<Longrightarrow> saved s' x"
  shows "inv_but A s'"
proof -
  have "saved s' (last (stack s i))" if "i < 3" "i \<noteq> run_idx s" "stack s i \<noteq> []" for i
  proof -
    have "last (stack s i) \<in> set (stack s i)" using that(3) by simp
    then show ?thesis
      using stack_range [OF inv_butD(6) [OF inv] that(1)] saved [of "last (stack s i)"] inv that by (simp add: inv_but_def)
  qed
  moreover have "program_ready s' x" if "i < 3" "x \<in> set (stack s i)" "x \<notin> A" for i x
    using ready [OF that] inv that by (auto simp: inv_but_def)
  moreover have "saved s' 0 \<or> first_terminal s'"
    using inv saved [of 0] st by (auto simp: inv_but_def first_terminal_def)
  ultimately show ?thesis using ok st by (simp add: inv_but_def)
qed

lemma inv_same_processes:
  assumes "same_processes s s'" "inv_but A s"
  shows "inv_but A s'"
proof -
  have ts: "same_tables s s'" and ok: "keyboard_ok s'" and f: "phys_addr_available s' = phys_addr_available s" "pcbs s' = pcbs s"
    "cr3 s' = cr3 s" "\<And>i. i < 3 \<Longrightarrow> phys_mem_idx (terminals s' ! i) = phys_mem_idx (terminals s ! i)"
    "curr_running_terminal_idx s' = curr_running_terminal_idx s"
    using assms(1) by (simp_all add: same_processes_def)
  have con: "console_ok s'" using ok by (rule keyboard_okD(1))
  have idx: "curr_running_terminal_idx s' \<in> {0, 1, 2}" "curr_terminal_idx s' \<in> {0, 1, 2}" "length (terminals s') = 3"
    using con unfolding console_ok_def by blast+
  have st: "stack s' i = stack s i" if "i < 3" for i using f(4) [OF that] by (simp add: stack_of_def)
  have procs: "procs_ok s'" by (rule procs_ok_stacks [OF inv_butD(2) [OF assms(2)] idx(3) f(4,2,1) idx(1,2)])
  have pg: "paging_inv s'" using inv_butD(3) [OF assms(2)] paging_inv_same_tables [OF ts] by simp
  show ?thesis
    by (rule inv_step [OF assms(2) ok procs pg])
      (use inv_butD(4) [OF assms(2)] f st in \<open>simp_all add: run_idx_def program_ready_def saved_def same_tables_ready [OF ts]\<close>)
qed

text \<open>A change of one control block.\<close>

lemma inv_upd_pcb:
  assumes upd: "upd_pcb k f s = Some s'" and inv: "inv_but A s"
    and f: "\<And>p p'. f p = Some p' \<Longrightarrow> pcb_ok p \<Longrightarrow> pcb_ok p'"
      "\<And>p p'. f p = Some p' \<Longrightarrow> pcb_ok p \<Longrightarrow> usable_directory s (curr_PDBR p) \<Longrightarrow> usable_directory s (curr_PDBR p')"
      "\<And>p p'. f p = Some p' \<Longrightarrow> pcb_ok p \<Longrightarrow> k \<notin> A \<Longrightarrow> usable_directory s (parent_PDBR p) \<Longrightarrow> usable_directory s (parent_PDBR p')"
  shows "inv_but A s'" "0 \<le> k" "k < 6" "f (pcbs s ! nat k) = Some (pcbs s' ! nat k)" "same_tables s s'" "cr3 s' = cr3 s"
    "terminals s' = terminals s" "curr_running_terminal_idx s' = curr_running_terminal_idx s"
    "j \<noteq> nat k \<Longrightarrow> pcbs s' ! j = pcbs s ! j"
proof -
  note len = inv_butD(5) [OF inv]
  obtain p p' where p: "0 \<le> k" "nat k < length (pcbs s)" "p = pcbs s ! nat k" "f p = Some p'" "s' = s\<lparr>pcbs := (pcbs s)[nat k := p']\<rparr>"
    using upd by (auto simp: upd_pcb_def bind_eq_Some_conv aget_eq_Some aset_eq_Some nat_less_iff)
  show "0 \<le> k" "k < 6" "f (pcbs s ! nat k) = Some (pcbs s' ! nat k)" and ts: "same_tables s s'" and c: "cr3 s' = cr3 s"
    and t: "terminals s' = terminals s" "curr_running_terminal_idx s' = curr_running_terminal_idx s"
    and "j \<noteq> nat k \<Longrightarrow> pcbs s' ! j = pcbs s ! j"
    using p len by (simp_all add: same_tables_def)
  have pok: "pcb_ok p" using inv_butD(2) [OF inv] p(2,3) by (simp add: procs_ok_def)
  then have "procs_ok s'"
    using f(1) [OF p(4)] by (intro procs_ok_pcbs [OF inv_butD(2) [OF inv], of p' s' "nat k"]) (simp_all add: p(5))
  moreover have "keyboard_ok s'" using inv_butD(1) [OF inv] by (simp add: p(5) keyboard_ok_def console_ok_def sound_ok_def)
  moreover have "paging_inv s'" using inv_butD(3) [OF inv] paging_inv_same_tables [OF ts] by simp
  moreover have "saved s' x" if "saved s x" for x
    using that f(2) [OF p(4) pok] p(2,3) by (cases "nat x = nat k") (simp_all add: saved_def same_tables_ready [OF ts], simp_all add: p(5))
  moreover have "program_ready s' x" if "i < 3" "x \<in> set (stack s i)" "x \<notin> A" "program_ready s x" for i x
  proof (cases "x = k")
    case True
    then show ?thesis
      using that f(3) [OF p(4) pok] p(2,3) by (simp add: program_ready_def same_tables_ready [OF ts]) (simp add: p(5))
  next
    case False
    then have "nat x \<noteq> nat k" using p(1) stack_range [OF inv_butD(6) [OF inv] that(1,2)] by simp
    then show ?thesis using that(4) by (simp add: program_ready_def same_tables_ready [OF ts]) (simp add: p(5))
  qed
  ultimately show "inv_but A s'"
    using inv_butD(4) [OF inv] t c
    by (intro inv_step [OF inv, of s']) (simp_all add: same_tables_ready [OF ts] run_idx_def)
qed

lemma inv_cr3:
  assumes inv: "inv_but A s" and a: "usable_directory s a"
  shows "inv_but A (s\<lparr>cr3 := a\<rparr>)"
proof -
  have ts: "same_tables s (s\<lparr>cr3 := a\<rparr>)" by (simp add: same_tables_def)
  have "keyboard_ok (s\<lparr>cr3 := a\<rparr>)" "procs_ok (s\<lparr>cr3 := a\<rparr>)" "paging_inv (s\<lparr>cr3 := a\<rparr>)"
    using inv_butD(1-3) [OF inv] paging_inv_same_tables [OF ts]
    by (simp_all add: keyboard_ok_def console_ok_def sound_ok_def procs_ok_def stacks_ok_def)
  then show ?thesis
    by (intro inv_step [OF inv]) (simp_all add: a same_tables_ready [OF ts] program_ready_def saved_def run_idx_def)
qed

text \<open>The scheduler goes on to another terminal once the running program's context is saved.\<close>

lemma inv_next_terminal:
  assumes inv: "kernel_inv s" and n: "n \<in> {0, 1, 2}" and first: "saved s 0"
    and own: "stack s (run_idx s) \<noteq> [] \<Longrightarrow> saved s (last (stack s (run_idx s)))"
  shows "kernel_inv (s\<lparr>curr_running_terminal_idx := n\<rparr>)"
proof -
  let ?t = "s\<lparr>curr_running_terminal_idx := n\<rparr>"
  have ts: "same_tables s ?t" by (simp add: same_tables_def)
  have "procs_ok ?t" "keyboard_ok ?t" using inv n by (auto simp: kernel_inv_def procs_ok_def stacks_ok_def keyboard_ok_def console_ok_def sound_ok_def)
  moreover have "paging_inv ?t" using kernel_invD(3) [OF inv] paging_inv_same_tables [OF ts] by simp
  moreover have same: "saved ?t = saved s" "program_ready ?t = program_ready s"
    by (simp_all add: fun_eq_iff saved_def program_ready_def same_tables_ready [OF ts])
  moreover have "saved s (last (stack s i))" if "i < 3" "stack s i \<noteq> []" for i
    using inv own that by (cases "i = run_idx s") (simp_all add: kernel_inv_def)
  ultimately show ?thesis using inv first unfolding kernel_inv_def same_tables_ready [OF ts] by simp
qed

text \<open>New page tables: what was ready stays ready.\<close>

lemma inv_tables:
  assumes inv: "inv_but A s" and pg: "paging_inv s'" "addr_pde s' = addr_pde s" "usable_directory s' (cr3 s')"
    and ready: "\<And>k. k < 6 \<Longrightarrow> slot_ready s k \<Longrightarrow> slot_ready s' k"
    and rest: "keyboard_ok s'" "terminals s' = terminals s" "pcbs s' = pcbs s" "phys_addr_available s' = phys_addr_available s"
      "curr_running_terminal_idx s' = curr_running_terminal_idx s" "curr_terminal_idx s' = curr_terminal_idx s"
  shows "inv_but A s'"
proof (rule inv_step [OF inv rest(1) _ pg(1,3)])
  have k: "usable_directory s' a" if "usable_directory s a" for a using that ready pg(2) by (auto simp: usable_directory_def)
  then show "saved s' x" if "saved s x" for x using that rest(3) by (simp add: saved_def)
  show "program_ready s' x" if "i < 3" "x \<in> set (stack s i)" "program_ready s x" for i x
  proof -
    have "nat x < 6" using stack_range [OF inv_butD(6) [OF inv] that(1,2)] by simp
    then show ?thesis using that(3) k ready rest(3) by (simp add: program_ready_def)
  qed
qed (use inv_butD(2) [OF inv] rest in \<open>simp_all add: run_idx_def procs_ok_def stacks_ok_def\<close>)

section \<open>Page tables and terminals\<close>

lemma inv_set_page:
  assumes inv: "inv_but A s" and k: "k < 6" and r: "set_page 32 (slot_base k) (int (Suc k)) False v s = Some s'"
  shows "inv_but A s'" "usable_directory s' (cr3 s')" "slot_ready s' k" "pcbs s' = pcbs s"
    "usable_directory s a \<Longrightarrow> usable_directory s' a"
proof -
  note pi = inv_butD(3) [OF inv]
  have eq: "s' = loaded (Suc k) (s\<lparr>pte_zero := identity_table,
        pdes := (pdes s)[Suc k := (kernel_entries s (pdes s ! Suc k))[32 := slot_base k OR 0x87]]\<rparr>)"
    and p: "paging_inv s'" "cr3 s' = addr_pde s' (Suc k)" "slot_ready s' k"
    using set_page_inv [OF pi k, of v] r by (auto simp: slot_ready_def)
  have same: "slot_ready s' j" if "slot_ready s j" for j
    using that p(3) by (cases "j = k") (simp_all add: eq loaded_def slot_ready_def slot_directory_def maps_kernel_def)
  show kd: "usable_directory s' (cr3 s')" using p(2,3) k by (auto simp: usable_directory_def)
  have "keyboard_ok s'" using inv_butD(1) [OF inv] by (simp add: eq loaded_def keyboard_ok_def console_ok_def sound_ok_def)
  then show "inv_but A s'"
    using same by (intro inv_tables [OF inv p(1) _ kd]) (auto simp: eq loaded_def)
  show "slot_ready s' k" by (rule p(3))
  show "pcbs s' = pcbs s" by (simp add: eq loaded_def)
  show "usable_directory s a \<Longrightarrow> usable_directory s' a"
    using same by (auto simp: usable_directory_def eq loaded_def)
qed

lemma inv_set_page_1:
  assumes inv: "inv_but A s" and k: "k < 6" and t: "t < 3"
    and r: "set_page_1 32 (slot_base k) (int (Suc k)) True v (int t) s = Some s'"
  shows "inv_but A s'"
proof -
  note pi = inv_butD(3) [OF inv]
  have eq: "s' = loaded (Suc k) (s\<lparr>pte_zero := identity_table,
        pdes := (pdes s)[Suc k := (kernel_entries s (pdes s ! Suc k))[32 := slot_base k OR 0x87, 34 := addr_pte_one s OR 7]],
        pte_one := (pte_one s)[Suc t := backup t OR 7]\<rparr>)"
    and p: "paging_inv s'" "cr3 s' = addr_pde s' (Suc k)" "slot_ready s' k"
    using set_page_1_inv [OF pi k t, of v] r by (auto simp: slot_ready_def)
  have same: "slot_ready s' j" if "slot_ready s j" for j
    using that p(3) by (cases "j = k") (simp_all add: eq loaded_def slot_ready_def slot_directory_def maps_kernel_def)
  have kd: "usable_directory s' (cr3 s')" using p(2,3) k by (auto simp: usable_directory_def)
  have "keyboard_ok s'" using inv_butD(1) [OF inv] by (simp add: eq loaded_def keyboard_ok_def console_ok_def sound_ok_def)
  then show ?thesis
    using same by (intro inv_tables [OF inv p(1) _ kd]) (auto simp: eq loaded_def)
qed

lemma upd_terminal_ok:
  assumes "keyboard_ok s" "upd_terminal i f s = Some s'"
    and "\<And>t. f (terminals s ! nat i) = Some t \<Longrightarrow> terminal_ok (nat i) t \<and> line_ok t"
  obtains t where "f (terminals s ! nat i) = Some t" "s' = s\<lparr>terminals := (terminals s)[nat i := t]\<rparr>" "nat i < 3" "keyboard_ok s'"
proof -
  note c = keyboard_okD [OF assms(1)]
  have len: "length (terminals s) = 3" using console_okD [OF c(1)] by simp
  obtain t where t: "f (terminals s ! nat i) = Some t" "s' = s\<lparr>terminals := (terminals s)[nat i := t]\<rparr>" "nat i < 3"
    using assms(2) len by (auto simp: upd_terminal_def bind_eq_Some_conv aget_eq_Some aset_eq_Some nat_less_iff)
  note ok = assms(3) [OF t(1)]
  have "console_ok s'" by (rule console_ok_update [OF c(1) t(3), of t]) (use ok in \<open>simp_all add: t(2)\<close>)
  moreover have "line_ok (terminals s' ! j)" if "j < 3" for j
    using that ok assms(1) len by (cases "j = nat i") (simp_all add: t(2) keyboard_ok_def)
  ultimately have "keyboard_ok s'" using c(2) by (simp add: keyboard_ok_def sound_ok_def t(2))
  then show thesis using that t by blast
qed

lemma same_processes_upd:
  fixes s :: "'z process_scheme"
  assumes "keyboard_ok s" "upd_terminal i f s = Some s'"
    and "\<And>t. f (terminals s ! nat i) = Some t \<Longrightarrow> terminal_ok (nat i) t \<and> line_ok t \<and> phys_mem_idx t = phys_mem_idx (terminals s ! nat i)"
  shows "same_processes s s'"
proof -
  obtain t where t: "f (terminals s ! nat i) = Some t" "s' = s\<lparr>terminals := (terminals s)[nat i := t]\<rparr>" "nat i < 3" "keyboard_ok s'"
    using upd_terminal_ok [OF assms(1,2)] assms(3) by blast
  have "length (terminals s) = 3" using console_okD [OF keyboard_okD(1) [OF assms(1)]] by simp
  moreover have "phys_mem_idx t = phys_mem_idx (terminals s ! nat i)" using assms(3) [OF t(1)] by simp
  ultimately have "phys_mem_idx (terminals s' ! j) = phys_mem_idx (terminals s ! j)" if "j < 3" for j
    using that by (cases "j = nat i") (simp_all add: t(2))
  then show ?thesis using t(4) by (simp add: same_processes_def same_tables_def t(2))
qed

lemma running_ok:
  assumes "keyboard_ok s"
  shows "terminal_ok (run_idx s) (terminals s ! run_idx s)" "line_ok (terminals s ! run_idx s)"
    "terminal_ok (nat (curr_terminal_idx s)) (terminals s ! nat (curr_terminal_idx s))" "line_ok (terminals s ! nat (curr_terminal_idx s))"
  using console_okD [OF keyboard_okD(1) [OF assms]] assms keyboard_okD(3,4) [OF assms] by (simp_all add: run_idx_def keyboard_ok_def cur_def)

lemma noted_terminal_ok:
  assumes "(if process_depth t < 6 then do { ph \<leftarrow> aset (phys_mem_idx t) (process_depth t) k; Some (t\<lparr>phys_mem_idx := ph\<rparr>) } else Some t) = Some u"
    and "terminal_ok i t" "line_ok t"
  shows "terminal_ok i u \<and> line_ok u"
proof (cases "process_depth t < 6")
  case True
  then obtain ph where "u = t\<lparr>phys_mem_idx := ph\<rparr>" "length ph = length (phys_mem_idx t)"
    using assms(1) by (auto simp: bind_eq_Some_conv aset_eq_Some)
  then show ?thesis using assms(2,3) by (simp add: terminal_ok_def line_ok_def)
next
  case False
  then show ?thesis using assms by simp
qed

lemma inv_allocate:
  assumes inv: "inv_but {} s" and r: "allocate_slot s = Some (slot, s')"
  shows "slot = None \<and> s' = s \<or> (\<exists>k<6. slot = Some (int k) \<and> inv_but {int k} s')"
proof -
  define k where "k = first_index (\<lambda>v. v \<noteq> 0) (phys_addr_available s)"
  note a = allocate_slot_eq [OF inv_butD(2) [OF inv] k_def]
  show ?thesis
  proof (cases "k < 6")
    case False
    then show ?thesis using a(1) r by simp
  next
    case True
    obtain t where t: "slot = Some (int k)"
      "s' = s\<lparr>phys_addr_available := (phys_addr_available s)[k := 0], terminals := (terminals s)[run_idx s := t]\<rparr>"
      "stack_of t = stack s (run_idx s) @ [int k]" "procs_ok s'"
      using a(2) [OF True] r by auto
    note ok = inv_butD(1) [OF inv]
    let ?s = "s\<lparr>phys_addr_available := (phys_addr_available s)[k := 0]\<rparr>"
    have oks: "keyboard_ok ?s" using ok by (simp add: keyboard_ok_def console_ok_def sound_ok_def)
    let ?f = "\<lambda>t. if process_depth t < 6
        then do { ph \<leftarrow> aset (phys_mem_idx t) (process_depth t) (int k); Some (t\<lparr>phys_mem_idx := ph\<rparr>) } else Some t"
    have len: "length (phys_addr_available s) = 6" using inv_butD(2) [OF inv] by (simp add: procs_ok_def)
    then have i: "first_index (\<lambda>v. v \<noteq> 0) (take 6 (phys_addr_available s)) = k" by (simp add: k_def)
    have av: "aset (phys_addr_available s) (int k) 0 = Some ((phys_addr_available s)[k := 0])" using True len by (simp add: aset_in)
    have "\<not> 6 \<le> k" using True by simp
    then have "do { s \<leftarrow> upd_running ?f ?s; Some (Some (int k), s) } = Some (slot, s')"
      using r unfolding allocate_slot_def i av Let_def by (simp only: if_False Option.bind.bind_lunit)
    then have "upd_running ?f ?s = Some s'" by (simp only: bind_eq_Some_conv) auto
    moreover have "terminal_ok (nat (curr_running_terminal_idx ?s)) u \<and> line_ok u"
      if "?f (terminals ?s ! nat (curr_running_terminal_idx ?s)) = Some u" for u
      using noted_terminal_ok [OF that] running_ok(1,2) [OF oks] by (simp only: run_idx_def)
    ultimately have kb: "keyboard_ok s'" using upd_terminal_ok [OF oks] by blast
    have ts: "same_tables s s'" by (simp add: t(2) same_tables_def)
    have lt: "length (terminals s) = 3" "run_idx s < 3"
      using inv_butD(6) [OF inv] running_process_eq(1) [of s] by (simp_all add: stacks_ok_def)
    have st: "stack s' i = (if i = run_idx s then stack s i @ [int k] else stack s i)" if "i < 3" for i
      using that t(3) lt by (simp add: t(2))
    have same: "saved s' = saved s" "program_ready s' = program_ready s" "run_idx s' = run_idx s"
      by (simp_all add: fun_eq_iff saved_def program_ready_def same_tables_ready [OF ts]) (simp_all add: t(2) run_idx_def)
    have "program_ready s x" if "i < 3" "x \<in> set (stack s' i)" "x \<noteq> int k" for i x
      using that st [OF that(1)] inv by (auto simp: inv_but_def split: if_splits)
    moreover have "saved s (last (stack s' i))" if "i < 3" "i \<noteq> run_idx s" "stack s' i \<noteq> []" for i
      using that st [OF that(1)] inv by (simp add: inv_but_def)
    moreover have "saved s 0 \<or> first_terminal s'"
    proof (cases "saved s 0")
      case False
      then have f: "first_terminal s" using inv by (simp add: inv_but_def)
      have "k = 0" if "stack s 0 = []"
      proof -
        have "stack s i = []" if "i < 3" for i
        proof -
          have "i = 0 \<or> i = 1 \<or> i = 2" using that by auto
          then show ?thesis using f \<open>stack s 0 = []\<close> by (auto simp: first_terminal_def)
        qed
        then have "\<not> (\<exists>i<3. int 0 \<in> set (stack s i))" by auto
        then have "phys_addr_available s ! 0 \<noteq> 0" using inv_butD(2) [OF inv] by (simp add: procs_ok_def)
        then show ?thesis using len by (cases "phys_addr_available s") (simp_all add: k_def)
      qed
      then show ?thesis using f st by (cases "stack s 0") (auto simp: first_terminal_def same)
    qed simp
    moreover have "paging_inv s'" using inv_butD(3) [OF inv] paging_inv_same_tables [OF ts] by simp
    moreover have "cr3 s' = cr3 s" by (simp add: t(2))
    ultimately have "inv_but {int k} s'"
      using inv_butD(4) [OF inv] kb t(4) unfolding inv_but_def same_tables_ready [OF ts] same by simp
    then show ?thesis using t(1) True by blast
  qed
qed

lemma kernel_inv_same: "kernel_inv s \<Longrightarrow> same_processes s s' \<Longrightarrow> kernel_inv s'"
  unfolding kernel_inv_but by (rule inv_same_processes)

lemma kernel_inv_device:
  "kernel_inv s \<Longrightarrow> sound.more s' = sound.more s \<Longrightarrow> sound_freq s' = sound_freq s \<Longrightarrow> kernel_inv s'"
  using kernel_inv_same same_processes_device kernel_invD(1) by blast

section \<open>execute\<close>

interpretation array_store: keeping_store arr_put "\<lambda>a. length a = n" for n
  by unfold_locales (auto simp: arr_put_def split: if_splits)

lemma strcpy_array: "strcpy arr_put a src = Some b \<Longrightarrow> length b = length a \<and> 0 \<in> set b"
proof -
  assume r: "strcpy arr_put a src = Some b"
  then obtain d i where d: "arr_put d i 0 = Some b" by (auto simp: strcpy_def bind_eq_Some_conv)
  then have "0 \<in> set b" by (auto simp: arr_put_def set_update_memI split: if_splits)
  then show ?thesis using array_store.strcpy_keeps [OF r, of "length a"] by simp
qed

lemma init_pcb_known:
  assumes "init_pcb a b c p = Some p'" "pcb_ok p"
  shows "pcb_ok p'" "parent_PDBR p' = parent_PDBR p" "curr_PDBR p' = curr_PDBR p"
proof -
  obtain ar where ar: "(case a of None \<Rightarrow> aset (arg p) 0 0 | Some x \<Rightarrow> strcpy arr_put (arg p) (arr_get x)) = Some ar"
    using assms(1) by (auto simp: init_pcb_def bind_eq_Some_conv Let_def split: option.splits)
  have f8: "length (file_descriptor_tabele p) = 8" using assms(2) by (simp add: pcb_ok_def)
  have p': "p' = p\<lparr>parent_ebp := b, parent_esp := c, arg := ar, file_descriptor_tabele := fresh_descriptors\<rparr>"
    using assms(1) ar f8 by (simp add: init_pcb_def init_descriptors_eq Let_def cong: option.case_cong)
  have "length ar = length (arg p) \<and> 0 \<in> set ar"
    using ar by (cases a) (auto simp: aset_eq_Some set_update_memI dest!: strcpy_array)
  then show "pcb_ok p'" using assms(2) by (auto simp: p' pcb_ok_def fresh_descriptors_def)
  show "parent_PDBR p' = parent_PDBR p" "curr_PDBR p' = curr_PDBR p" by (simp_all add: p')
qed

lemma same_processes_cpu:
  fixes s :: "'z process_scheme"
  assumes "keyboard_ok s"
  shows "same_processes s (s\<lparr>tss_ss0 := a, tss_esp0 := b\<rparr>)" "same_processes s (s\<lparr>ebp := c, esp := d\<rparr>)"
    "same_processes s (s\<lparr>esp := d, ebp := c\<rparr>)" "same_processes s (s\<lparr>exception_flag := n\<rparr>)" "same_processes s (s\<lparr>tss_esp0 := b\<rparr>)"
  using assms by (simp_all add: same_processes_def same_tables_def keyboard_ok_def console_ok_def sound_ok_def)

lemma slot_address: "0x800000 + word_of_int (int k * 0x400000) = slot_base k"
  by (simp add: slot_base_def)

text \<open>From the taken slot to a program that runs: its parent's directory is the one loaded, a shell's its own.\<close>

lemma inv_start_program:
  assumes inv: "inv_but {int k} s" and k: "k < 6" and r: "start_program (int k) a ino s = Some (c, s')"
  shows "kernel_inv s'"
proof -
  obtain s1 s2 s3 s4 n s5 where s1: "upd_pcb (int k) (init_pcb a (ebp s) (esp s)) s = Some s1"
    and s2: "save_parent (int k) s1 = Some s2"
    and s3: "set_page 32 (0x800000 + word_of_int (int k * 0x400000)) (int k + 1) False (-1) s2 = Some s3"
    and s4: "(if int k < 3 then upd_pcb (int k) (\<lambda>p. Some (p\<lparr>parent_PDBR := cr3 s3\<rparr>)) s3 else Some s3) = Some s4"
    and s5: "read_data phys (user_put VMSTART) (boot_block s4) (inode_addr s4) ino 0 (word_of_int (get_file_size (inode_addr s4) ino (phys s4))) s4 = Some (n, s5)"
    and s': "s' = s5\<lparr>tss_ss0 := KERNEL_DS, tss_esp0 := 0x800000 - word_of_int (int k * 0x2000)\<rparr>"
    using r by (auto simp: start_program_def bind_eq_Some_conv Let_def)
  have i1: "inv_but {int k} s1" by (rule inv_upd_pcb [OF s1 inv]) (simp_all add: init_pcb_known)
  have i2: "inv_but {int k} s2 \<and> (\<not> k < 3 \<longrightarrow> usable_directory s2 (parent_PDBR (pcbs s2 ! k)))"
  proof (cases "k < 3")
    case True
    then have u: "upd_pcb (int k) (\<lambda>p. Some (p\<lparr>parent_esp0 := 0x800000 - word_of_int (int k * 0x2000), parent_ss0 := KERNEL_DS\<rparr>)) s1 = Some s2"
      using s2 by (simp add: save_parent_def)
    have "inv_but {int k} s2" by (rule inv_upd_pcb [OF u i1]) (auto simp: pcb_ok_def)
    then show ?thesis using True by simp
  next
    case False
    then have u: "upd_pcb (int k) (\<lambda>p. Some (p\<lparr>parent_PDBR := cr3 s1, parent_esp0 := tss_esp0 s1, parent_ss0 := tss_ss0 s1\<rparr>)) s1 = Some s2"
      using s2 by (simp add: save_parent_def)
    have "inv_but {int k} s2 \<and> pcbs s2 ! k = (pcbs s1 ! k)\<lparr>parent_PDBR := cr3 s1, parent_esp0 := tss_esp0 s1, parent_ss0 := tss_ss0 s1\<rparr>
        \<and> same_tables s1 s2"
      using inv_upd_pcb [OF u i1] by (auto simp: pcb_ok_def)
    then show ?thesis using inv_butD(4) [OF i1] same_tables_ready(2) [of s1 s2] by simp
  qed
  have "int k + 1 = int (Suc k)" by simp
  note p = inv_set_page [OF conjunct1 [OF i2] k s3 [unfolded slot_address this]]
  have i4: "inv_but {int k} s4 \<and> program_ready s4 (int k)"
  proof (cases "k < 3")
    case True
    then have u: "upd_pcb (int k) (\<lambda>p. Some (p\<lparr>parent_PDBR := cr3 s3\<rparr>)) s3 = Some s4" using s4 by simp
    have "inv_but {int k} s4 \<and> pcbs s4 ! k = (pcbs s3 ! k)\<lparr>parent_PDBR := cr3 s3\<rparr> \<and> same_tables s3 s4"
      using inv_upd_pcb [OF u p(1)] by (auto simp: pcb_ok_def)
    then show ?thesis using p(2,3) same_tables_ready [of s3 s4] by (simp add: program_ready_def)
  next
    case False
    then show ?thesis using s4 p i2 by (simp add: program_ready_def)
  qed
  then have i4: "kernel_inv s4" using inv_but_ready by blast
  have "same_processes s4 s5" by (rule user_store.read_data_keeps [OF s5 same_processes_refl [OF kernel_invD(1) [OF i4]]])
  then have "same_processes s4 s'" unfolding s' using same_processes_cpu(1) same_processesD same_processes_trans by blast
  then show ?thesis by (rule kernel_inv_same [OF i4])
qed

lemma mark_hello_same_processes:
  fixes s :: "'z process_scheme"
  assumes "keyboard_ok s" "mark_hello command len s = Some s'"
  shows "same_processes s s'"
proof -
  have "s' = s \<or> upd_curr (\<lambda>t. Some (t\<lparr>hello_flag := 1\<rparr>)) s = Some s'"
    using assms(2) by (auto simp: mark_hello_def bind_eq_Some_conv split: if_splits)
  then show ?thesis
    using same_processes_refl [OF assms(1)] same_processes_upd [OF assms(1), of "curr_terminal_idx s" "\<lambda>t. Some (t\<lparr>hello_flag := 1\<rparr>)" s']
      running_ok(3,4) [OF assms(1)] by (auto simp: line_ok_def)
qed

lemma inv_execute:
  assumes inv: "kernel_inv s" and r: "execute null command s = Some (c, s')"
  shows "kernel_inv s'"
proof -
  note same = kernel_inv_same
  have i1: "kernel_inv (cli s)" by (rule kernel_inv_device [OF inv]) simp_all
  show ?thesis
  proof (cases null)
    case True
    then show ?thesis using r i1 by (simp add: execute_def Let_def)
  next
    case False
    define s1 where "s1 = enable_irq 0 ((cli s)\<lparr>exception_flag := 0\<rparr>)"
    have i2: "kernel_inv ((cli s)\<lparr>exception_flag := 0\<rparr>)" by (rule same [OF i1 same_processes_cpu(4) [OF kernel_invD(1) [OF i1]]])
    have i3: "kernel_inv s1" unfolding s1_def by (rule kernel_inv_device [OF i2]) simp_all
    obtain len s2 fl f ca ex d where s2: "mark_hello command len s1 = Some s2"
      and d: "read_dentry_by_name (boot_block s2) (phys s2) False (arr_get f) local_dentry = Some (ex, d)"
      and rest: "(if ex = -1 then Some (Return (-1), s2)
             else
               do { buf_elf \<leftarrow> read_header s2 (inode_idx d) 0;
                    if buf_elf \<noteq> elf_magic then Some (Return (-1), s2)
                    else
                      do { (slot, s) \<leftarrow> allocate_slot s2;
                           case slot of
                             None \<Rightarrow> Some (Return (-1), s)
                           | Some curr_idx \<Rightarrow> start_program curr_idx ca (inode_idx d) s } }) = Some (c, s')"
      using r False by (auto simp: execute_def Let_def bind_eq_Some_conv s1_def)
    have i4: "kernel_inv s2" by (rule same [OF i3 mark_hello_same_processes [OF kernel_invD(1) [OF i3] s2]])
    show ?thesis
    proof (cases "s' = s2")
      case True
      then show ?thesis using i4 by simp
    next
      case False
      then obtain slot s3 where s3: "allocate_slot s2 = Some (slot, s3)"
        and s': "(case slot of None \<Rightarrow> Some (Return (-1), s3) | Some k \<Rightarrow> start_program k ca (inode_idx d) s3) = Some (c, s')"
        using rest by (auto simp: bind_eq_Some_conv split: if_splits)
      from inv_allocate [OF i4 [unfolded kernel_inv_but] s3] show ?thesis
        using s' False inv_start_program by auto
    qed
  qed
qed

section \<open>halt and the exceptions\<close>

lemma halt_needs_program:
  assumes "stacks_ok s" "halt status s = Some r"
  shows "stack s (run_idx s) \<noteq> []"
proof
  assume e: "stack s (run_idx s) = []"
  note run = running_process_eq [OF assms(1)]
  have "stack_ok (terminals s ! run_idx s)" using assms(1) run(1) by (simp add: stacks_ok_def)
  then have "process_depth (terminals s ! run_idx s) = 0" using process_depth_eq e by simp
  then have "aget (phys_mem_idx (terminals s ! run_idx s)) (process_depth (terminals s ! run_idx s) - 1) = None" by (simp add: aget_def)
  moreover have "running_terminal (cli s) = Some (terminals s ! run_idx s)" using run(2) by simp
  ultimately have "halt status s = None" unfolding halt_def Let_def by (simp only: Option.bind.bind_lunit Option.bind.bind_lzero)
  then show False using assms(2) by simp
qed

lemma halted_top_gone:
  fixes s :: "'z process_scheme"
  assumes "stacks_ok s" "stack s (run_idx s) = xs @ [x]" "i < 3"
  shows "i = run_idx s \<Longrightarrow> x \<notin> set xs" "i \<noteq> run_idx s \<Longrightarrow> x \<notin> set (stack s i)"
proof -
  have r: "run_idx s < 3" by (rule running_process_eq(1) [OF assms(1)])
  have "distinct (xs @ [x])" using assms(1) r by (simp add: stacks_ok_def flip: assms(2))
  then show "x \<notin> set xs" by simp
  show "x \<notin> set (stack s i)" if "i \<noteq> run_idx s"
  proof -
    have "set (stack s i) \<inter> set (stack s (run_idx s)) = {}" using assms(1,3) r that by (simp add: stacks_ok_def)
    then show ?thesis using assms(2) by auto
  qed
qed

text \<open>The program on top is gone, its parent's directory is loaded; every other program keeps its context.\<close>

lemma inv_halted:
  assumes inv: "kernel_inv s" and k: "stack s (run_idx s) = xs @ [int k]" "k < 6" and h: "halted k xs s s1"
  shows "kernel_inv s1"
proof -
  note st = kernel_invD(6) [OF inv]
  note run = running_process_eq(1) [OF st]
  have ts: "same_tables s s1" and kb: "keyboard_ok s1" "procs_ok s1" and r: "run_idx s1 = run_idx s" "cr3 s1 = parent_PDBR (pcbs s ! k)"
    and stack: "\<And>i. i < 3 \<Longrightarrow> stack s1 i = (if i = run_idx s then xs else stack s i)"
    using h kernel_invD(1) [OF inv] by (simp_all add: halted_def)
  obtain p where p: "pcbs s1 = (pcbs s)[k := p]" "curr_PDBR p = curr_PDBR (pcbs s ! k)" using h by (auto simp: halted_def)
  have "program_ready s (int k)" using inv run k(1) by (simp add: kernel_inv_def)
  then have cr3: "usable_directory s (cr3 s1)" by (simp add: program_ready_def r)
  have saved: "saved s1 = saved s"
  proof
    show "saved s1 x = saved s x" for x
      using p k(2) kernel_invD(5) [OF inv] by (cases "nat x = k") (simp_all add: saved_def same_tables_ready [OF ts])
  qed
  have "program_ready s1 x" if "i < 3" "x \<in> set (stack s1 i)" for i x
  proof -
    have x: "x \<in> set (stack s i)" "x \<noteq> int k"
      using that stack k(1) halted_top_gone [OF st k(1) that(1)] by (auto split: if_splits)
    then have "nat x \<noteq> k" using stack_range [OF st that(1) x(1)] by auto
    moreover have "program_ready s x" using inv that(1) x(1) by (simp add: kernel_inv_def)
    ultimately show ?thesis by (simp add: program_ready_def same_tables_ready [OF ts] p(1))
  qed
  moreover have "saved s (last (stack s1 i))" if "i < 3" "i \<noteq> run_idx s" "stack s1 i \<noteq> []" for i
    using that stack inv by (simp add: kernel_inv_def)
  moreover have "saved s 0 \<or> first_terminal s1"
  proof -
    have "first_terminal s1" if f: "first_terminal s"
      using f stack k(1) by (cases xs) (auto simp: first_terminal_def r)
    then show ?thesis using inv by (auto simp: kernel_inv_def)
  qed
  moreover have "paging_inv s1" using kernel_invD(3) [OF inv] paging_inv_same_tables [OF ts] by simp
  ultimately show ?thesis using kb cr3 unfolding kernel_inv_def same_tables_ready [OF ts] saved r(1) by simp
qed

lemma inv_halt:
  assumes inv: "kernel_inv s" and r: "halt status s = Some (c, s')"
  shows "kernel_inv s'"
proof -
  note ok = kernel_invD(2) [OF inv] and st = kernel_invD(6) [OF inv]
  define xs where "xs = butlast (stack s (run_idx s))"
  define k where "k = nat (last (stack s (run_idx s)))"
  have ne: "stack s (run_idx s) \<noteq> []" by (rule halt_needs_program [OF st r])
  note run = running_process_eq(1) [OF st]
  note l = last_stack_range [OF st run ne]
  have k: "stack s (run_idx s) = xs @ [int k]" "k < 6" using ne l by (simp_all add: xs_def k_def)
  obtain s1 where h: "halted k xs s s1" and e: "halt status s =
    (if k < 3 then do { let (ebp', esp') = execute_frame s (parent_ebp (pcbs s ! k) + 8);
                        (c, t) \<leftarrow> execute False (arr_get shell_command) (s1\<lparr>ebp := ebp', esp := esp'\<rparr>);
                        case c of Return _ \<Rightarrow> Some (Resume (ucast (if exception_flag s = 1 then 255 else status) + word_of_int (exception_flag t))
                            (parent_ebp (pcbs s ! k)), t\<lparr>esp := parent_esp (pcbs s ! k), ebp := parent_ebp (pcbs s ! k)\<rparr>)
                        | _ \<Rightarrow> Some (c, t) }
     else Some (Resume (halt_status status s) (parent_ebp (pcbs s ! k)),
            s1\<lparr>esp := parent_esp (pcbs s ! k), ebp := parent_ebp (pcbs s ! k)\<rparr>))"
    using halt_eq [OF ok k(1), of status] by blast
  have i1: "kernel_inv s1" by (rule inv_halted [OF inv k h])
  have regs: "kernel_inv (t\<lparr>ebp := a, esp := b\<rparr>)" "kernel_inv (t\<lparr>esp := b, ebp := a\<rparr>)" if "kernel_inv t" for t :: "'a process_scheme" and a b
    using that by (blast intro: kernel_inv_same same_processes_cpu kernel_invD(1))+
  show ?thesis
  proof (cases "k < 3")
    case False
    then show ?thesis using r e regs [OF i1] by auto
  next
    case True
    obtain b' e' where f: "execute_frame s (parent_ebp (pcbs s ! k) + 8) = (b', e')" by fastforce
    obtain c' t where t: "execute False (arr_get shell_command) (s1\<lparr>ebp := b', esp := e'\<rparr>) = Some (c', t)"
      using r True unfolding e by (auto simp: f bind_eq_Some_conv)
    have "kernel_inv t" by (rule inv_execute [OF regs(1) [OF i1] t])
    moreover have "s' = t \<or> (\<exists>a b. s' = t\<lparr>esp := a, ebp := b\<rparr>)"
      using r True t unfolding e by (auto simp: f split: control.splits)
    ultimately show ?thesis using regs(2) by blast
  qed
qed

lemma inv_exception:
  assumes inv: "kernel_inv s" and h: "exception_handler h = Some f" and r: "f s = Some (c, s')"
  shows "kernel_inv s'"
proof -
  define line where "line = ascii (exception_line h)"
  note e = exception_handler_line [OF h, folded line_def]
  have l: "print_and_halt line s = Some (c, s')" "0 \<notin> set line" "37 \<notin> set line" using r e by simp_all
  obtain n t where t: "printf (arr_get ((line @ [10]) @ [0])) [] s = Some (n, t)" "halt 0 (t\<lparr>exception_flag := 1\<rparr>) = Some (c, s')"
    using l(1) by (auto simp: print_and_halt_def bind_eq_Some_conv)
  have "console_step s t" by (rule print_console_step [OF kernel_invD(1) [OF inv] t(1)]) (use l in simp_all)
  then have i: "kernel_inv t" by (rule kernel_inv_same [OF inv same_processes_console])
  have "kernel_inv (t\<lparr>exception_flag := 1\<rparr>)" by (rule kernel_inv_same [OF i same_processes_cpu(4) [OF kernel_invD(1) [OF i]]])
  then show ?thesis using t(2) by (rule inv_halt)
qed

end
