(* ===== verification/Handlers.thy ===== *)
theory Handlers
  imports Invariant
begin

text \<open>
  The system calls and the timer interrupt keep the invariant of the kernel. A driver that waits lets interrupts in, which may
  switch to other programs; of what happens meanwhile only the invariant itself is used.
\<close>

section \<open>Waiting\<close>

lemma wait_until_keeps:
  "wait_until c irqs s = Some s' \<Longrightarrow> P s \<Longrightarrow> (\<And>h t. h \<in> set irqs \<Longrightarrow> P t \<Longrightarrow> P (h t)) \<Longrightarrow> P s'"
proof (induction irqs arbitrary: s)
  case (Cons h irqs)
  then show ?case by (cases "c s") auto
qed (simp split: if_splits)

text \<open>What the interrupt handlers of a waiting call do.\<close>

abbreviation keep_inv :: "('z process_scheme \<Rightarrow> 'z process_scheme) list \<Rightarrow> bool" where
  "keep_inv irqs \<equiv> \<forall>h\<in>set irqs. \<forall>t. kernel_inv t \<longrightarrow> kernel_inv (h t)"

lemma inv_console: "kernel_inv s \<Longrightarrow> console_step s s' \<Longrightarrow> kernel_inv s'"
  using kernel_inv_same same_processes_console by blast

lemma inv_upd_running:
  assumes "kernel_inv s" "upd_running f s = Some s'"
    and "\<And>t. f (terminals s ! run_idx s) = Some t \<Longrightarrow> terminal_ok (run_idx s) t \<and> line_ok t \<and> phys_mem_idx t = phys_mem_idx (terminals s ! run_idx s)"
  shows "kernel_inv s'"
  by (rule kernel_inv_same [OF assms(1)], rule same_processes_upd [OF kernel_invD(1) [OF assms(1)], of "curr_running_terminal_idx s" f])
    (use assms(2,3) in \<open>simp_all add: run_idx_def\<close>)

lemma inv_upd_curr:
  assumes "kernel_inv s" "upd_curr f s = Some s'"
    and "\<And>t. f (cur s) = Some t \<Longrightarrow> terminal_ok (nat (curr_terminal_idx s)) t \<and> line_ok t \<and> phys_mem_idx t = phys_mem_idx (cur s)"
  shows "kernel_inv s'"
  by (rule inv_console [OF assms(1)], rule console_step_upd [OF kernel_invD(1) [OF assms(1)] assms(2,3)]) simp

section \<open>Descriptors\<close>

text \<open>A call that replaces one descriptor of the running process by one whose driver is known.\<close>

lemma set_fd_known:
  assumes "set_fd i d p = Some p'"
  shows "pcb_ok p \<Longrightarrow> fd_flags d = 0 \<or> file_operation_table_ptr d \<noteq> None \<Longrightarrow> pcb_ok p'"
    "parent_PDBR p' = parent_PDBR p" "curr_PDBR p' = curr_PDBR p"
proof -
  obtain fds where p': "p' = p\<lparr>file_descriptor_tabele := fds\<rparr>" "aset (file_descriptor_tabele p) i d = Some fds"
    using assms by (auto simp: set_fd_def bind_eq_Some_conv)
  then show "parent_PDBR p' = parent_PDBR p" "curr_PDBR p' = curr_PDBR p" by simp_all
  assume "pcb_ok p" "fd_flags d = 0 \<or> file_operation_table_ptr d \<noteq> None"
  then show "pcb_ok p'" using p' by (auto simp: pcb_ok_def aset_eq_Some dest!: set_update_subset_insert [THEN subsetD])
qed

lemma inv_set_fd:
  assumes "kernel_inv s" "upd_pcb k (set_fd i d) s = Some s'" "fd_flags d = 0 \<or> file_operation_table_ptr d \<noteq> None"
  shows "kernel_inv s'"
proof -
  have "inv_but {} s'"
    by (rule inv_upd_pcb [OF assms(2) assms(1) [unfolded kernel_inv_but]]) (use set_fd_known assms(3) in auto)
  then show ?thesis by (simp add: kernel_inv_but)
qed

section \<open>read\<close>

lemma inv_terminal_read:
  assumes inv: "kernel_inv s" and irqs: "keep_inv irqs"
    and r: "terminal_read get (user_put a) null n irqs s = Some (c, s')"
  shows "kernel_inv s'"
proof (cases "null \<or> n < 0")
  case True
  then show ?thesis using r inv by (auto simp: terminal_read_def split: if_splits)
next
  case False
  define ret where "ret = nat (if n > 128 then 128 else n)"
  obtain s1 s2 s3 s4 where s1: "wait_until line_ready irqs (sti s) = Some s1"
    and s2: "for_opt 0 ret (\<lambda>i s. do { t \<leftarrow> running_terminal s; x \<leftarrow> aget (share_buf t) (int i); user_put a s i x }) (cli s1) = Some s2"
    and s3: "upd_running (\<lambda>t. Some (t\<lparr>typing_finish := 0\<rparr>)) s2 = Some s3"
    and s4: "clear_buffer s3 = Some s4" and s': "upd_curr (\<lambda>t. Some (t\<lparr>curr_char_idx := 0\<rparr>)) s4 = Some s'"
    using r False by (auto simp: terminal_read_def bind_eq_Some_conv Let_def ret_def)
  have i0: "kernel_inv (sti s)" by (rule kernel_inv_device [OF inv]) simp_all
  have i1: "kernel_inv s1" by (rule wait_until_keeps [where P = kernel_inv, OF s1 i0]) (use irqs in blast)
  have i1': "kernel_inv (cli s1)" by (rule kernel_inv_device [OF i1]) simp_all
  have "same_processes (cli s1) s2"
    by (rule for_opt_keeps [where P = "same_processes (cli s1)", OF s2 same_processes_refl [OF kernel_invD(1) [OF i1']]])
      (auto simp: bind_eq_Some_conv intro: user_put_same_processes)
  then have i2: "kernel_inv s2" by (rule kernel_inv_same [OF i1'])
  have i3: "kernel_inv s3"
    by (rule inv_upd_running [OF i2 s3]) (use running_ok(1,2) [OF kernel_invD(1) [OF i2]] in \<open>auto simp: line_ok_def\<close>)
  have i4: "kernel_inv s4" by (rule inv_console [OF i3 clear_buffer_console_step [OF kernel_invD(1) [OF i3] s4]])
  show ?thesis
    by (rule inv_upd_curr [OF i4 s']) (use keyboard_okD(3,4) [OF kernel_invD(1) [OF i4]] in \<open>auto simp: line_ok_def\<close>)
qed

lemma inv_RTC_read:
  fixes s :: "'z process_scheme"
  assumes inv: "kernel_inv s" and irqs: "keep_inv irqs" and r: "RTC_read irqs s = Some (c, s')"
  shows "kernel_inv s'"
proof -
  define s0 where "s0 = disable_irq 1 (disable_irq 0 (sti s))"
  obtain s1 where s1: "wait_until (\<lambda>s. interrupt_bool s \<noteq> 0) irqs (s0\<lparr>interrupt_bool := 0\<rparr>) = Some s1" "s' = enable_irq 1 (enable_irq 0 s1)"
    using r by (auto simp: RTC_read_def Let_def bind_eq_Some_conv s0_def)
  have i0: "kernel_inv s0" unfolding s0_def by (rule kernel_inv_device [OF inv]) simp_all
  have "kernel_inv (s0\<lparr>interrupt_bool := 0\<rparr>)"
    by (rule kernel_inv_same [OF i0 same_processes_rtc [OF kernel_invD(1) [OF i0]]]) simp_all
  then have i1: "kernel_inv s1" by (rule wait_until_keeps [where P = kernel_inv, OF s1(1)]) (use irqs in blast)
  show ?thesis unfolding s1(2) by (rule kernel_inv_device [OF i1]) simp_all
qed

lemma file_read_fd: "file_read put n fd s = Some (r, fd', s') \<Longrightarrow> fd_flags fd' = fd_flags fd \<and> file_operation_table_ptr fd' = file_operation_table_ptr fd"
proof -
  assume r: "file_read put n fd s = Some (r, fd', s')"
  then obtain len t where t: "read_data phys put (boot_block s) (inode_addr s) (fd_inode fd) (file_position fd) (word_of_int n) s = Some (len, t)"
    by (auto simp: file_read_def bind_eq_Some_conv)
  have "fd' = fd \<or> (\<exists>x. fd' = fd\<lparr>file_position := x\<rparr>)" using r t by (auto simp: file_read_def Let_def split: if_splits)
  then show ?thesis by auto
qed

lemma inv_driver_read:
  assumes inv: "kernel_inv s" and irqs: "keep_inv irqs" and r: "driver_read table fd buf n irqs s = Some (c, fd', s')"
  shows "kernel_inv s'" "fd_flags fd' = fd_flags fd \<and> file_operation_table_ptr fd' = file_operation_table_ptr fd"
proof -
  note kb = kernel_invD(1) [OF inv]
  show "kernel_inv s'"
  proof (cases table)
    case FILE_jumptable
    then show ?thesis using r kernel_inv_same [OF inv file_read_same_processes [OF kb]] by (auto simp: driver_read_def)
  next
    case DIR_jumptable
    then show ?thesis using r kernel_inv_same [OF inv dir_read_same_processes [OF kb]] by (auto simp: driver_read_def bind_eq_Some_conv)
  qed (use r inv_terminal_read [OF inv irqs] inv_RTC_read [OF inv irqs] in \<open>auto simp: driver_read_def bind_eq_Some_conv\<close>)
  show "fd_flags fd' = fd_flags fd \<and> file_operation_table_ptr fd' = file_operation_table_ptr fd"
    using r by (cases table) (auto simp: driver_read_def bind_eq_Some_conv dest: file_read_fd)
qed

lemma inv_cli: "kernel_inv s \<Longrightarrow> kernel_inv (cli s)"
  and inv_sti: "kernel_inv s \<Longrightarrow> kernel_inv (sti s)"
  and inv_eoi: "kernel_inv s \<Longrightarrow> kernel_inv (send_eoi 0 s)"
  by (rule kernel_inv_device; simp add: send_eoi_more)+

lemma inv_sys_read:
  assumes inv: "kernel_inv s" and irqs: "keep_inv irqs" and r: "sys_read fd buf n irqs s = Some (c, s')"
  shows "kernel_inv s'"
proof (cases "s' = cli s")
  case True
  then show ?thesis using inv_cli [OF inv] by simp
next
  case False
  then obtain k p d table d' s1 where d: "fd_flags d \<noteq> 0" "file_operation_table_ptr d = Some table"
    and s1: "driver_read table d buf n irqs (cli s) = Some (c, d', s1)" "upd_pcb k (set_fd fd d') s1 = Some s'"
    using r by (auto simp: sys_read_def Let_def bind_eq_Some_conv split: if_splits)
  note i = inv_driver_read [OF inv_cli [OF inv] irqs s1(1)]
  show ?thesis by (rule inv_set_fd [OF i(1) s1(2)]) (use i(2) d in simp)
qed

section \<open>write, open, close\<close>

lemma inv_driver_write:
  assumes inv: "kernel_inv s" and r: "driver_write table buf n s = Some (c, s')"
  shows "kernel_inv s'"
proof -
  note kb = kernel_invD(1) [OF inv]
  show ?thesis
  proof (cases table)
    case RTC_jumptable
    then show ?thesis using r kernel_inv_same [OF inv RTC_write_same_processes [OF kb]] by (auto simp: driver_write_def split: if_splits)
  qed (use r kernel_inv_same [OF inv terminal_write_same_processes [OF _ kb]] inv in
      \<open>auto simp: driver_write_def dir_write_def file_write_def\<close>)
qed

lemma inv_sys_write:
  assumes inv: "kernel_inv s" and r: "sys_write fd buf n s = Some (c, s')"
  shows "kernel_inv s'"
proof (cases "s' = cli s")
  case True
  then show ?thesis using inv_cli [OF inv] by simp
next
  case False
  then obtain table where "driver_write table buf n (cli s) = Some (c, s')"
    using r by (auto simp: sys_write_def Let_def bind_eq_Some_conv split: if_splits)
  then show ?thesis by (rule inv_driver_write [OF inv_cli [OF inv]])
qed

lemma inv_RTC_open: "kernel_inv s \<Longrightarrow> kernel_inv (snd (RTC_open (s :: 'z process_scheme)))"
  by (rule kernel_inv_same [OF _ same_processes_rtc [OF kernel_invD(1)]]) (simp_all add: RTC_open_def set_rate_more)

lemma inv_driver_open:
  assumes inv: "kernel_inv s" and r: "driver_open table name s = Some (c, s')"
  shows "kernel_inv s'"
proof -
  note kb = kernel_invD(1) [OF inv]
  show ?thesis
  proof (cases table)
    case RTC_jumptable
    then show ?thesis using r inv_RTC_open [OF inv] by (auto simp: driver_open_def)
  next
    case DIR_jumptable
    then show ?thesis using r kernel_inv_same [OF inv dir_open_same_processes [OF kb]] by (auto simp: driver_open_def)
  next
    case FILE_jumptable
    then show ?thesis using r kernel_inv_same [OF inv file_open_same_processes [OF kb]] by (auto simp: driver_open_def)
  qed (use r kernel_inv_same [OF inv terminal_open_same_processes [OF kb]] in \<open>auto simp: driver_open_def\<close>)
qed

lemma inv_sys_open:
  assumes inv: "kernel_inv s" and r: "sys_open null name s = Some (c, s')"
  shows "kernel_inv s'"
proof (cases "s' = cli s")
  case True
  then show ?thesis using inv_cli [OF inv] by simp
next
  case False
  define d where "d e = (if file_type e = 0 then open_descriptor RTC_jumptable 0
    else if file_type e = 1 then open_descriptor DIR_jumptable 0 else open_descriptor FILE_jumptable (inode_idx e))" for e :: dentry_t
  have d: "file_operation_table_ptr (d e) \<noteq> None" for e by (simp add: d_def)
  obtain k i e s1 table c' where s1: "upd_pcb k (set_fd (int i) (d e)) (cli s) = Some s1" "driver_open table name s1 = Some (c', s')"
    using r [unfolded sys_open_def Let_def, folded d_def] False by (auto simp: bind_eq_Some_conv split: if_splits)
  show ?thesis by (rule inv_driver_open [OF inv_set_fd [OF inv_cli [OF inv] s1(1)] s1(2)]) (simp add: d)
qed

lemma inv_sys_close:
  assumes inv: "kernel_inv s" and r: "sys_close fd s = Some (c, s')"
  shows "kernel_inv s'"
proof (cases "s' = s")
  case False
  then obtain k where "upd_pcb k (set_fd fd closed_descriptor) s = Some s'"
    using r by (auto simp: sys_close_def bind_eq_Some_conv split: if_splits)
  then show ?thesis by (rule inv_set_fd [OF inv]) simp
qed (use inv in simp)

section \<open>getargs and vidmap\<close>

lemma inv_getargs:
  assumes inv: "kernel_inv s" and r: "getargs buf n s = Some (c, s')"
  shows "kernel_inv s'"
proof (cases "s' = cli s")
  case True
  then show ?thesis using inv_cli [OF inv] by simp
next
  case False
  have refl: "same_processes (cli s) (cli s)" by (rule same_processes_refl [OF kernel_invD(1) [OF inv_cli [OF inv]]])
  note copies = user_store.strcpy_keeps [OF _ refl] user_store.strncpy_keeps [OF _ refl]
  have "\<exists>s1. s' = sti s1 \<and> same_processes (cli s) s1"
    using r False by (auto simp: getargs_def Let_def bind_eq_Some_conv split: if_splits) (use copies in blast)+
  then show ?thesis using inv_sti kernel_inv_same [OF inv_cli [OF inv]] by blast
qed

lemma inv_vidmap:
  assumes inv: "kernel_inv s" and r: "vidmap ptr s = Some (c, s')"
  shows "kernel_inv s'"
proof (cases "ptr < 0x08000000 \<or> ptr \<ge> 0x08400000")
  case True
  then show ?thesis using r inv by (auto simp: vidmap_def split: if_splits)
next
  case False
  note con = keyboard_okD [OF kernel_invD(1) [OF inv]]
  define t where "t = nat (curr_terminal_idx s)"
  have t3: "t < 3" "curr_terminal_idx s = int t" using kernel_invD(6) [OF inv] by (auto simp: stacks_ok_def t_def)
  obtain v s1 s2 where v: "top_process (terminals s ! t) = Some v" and s1: "upd_curr (\<lambda>t. Some (t\<lparr>vid_on := 1\<rparr>)) s = Some s1"
    and s2: "set_page_1 32 (0x800000 + word_of_int (v * 0x400000)) (v + 1) True (-1) (curr_terminal_idx s1) s1 = Some s2"
    and s': "user_store32 ptr (0x08801000 + word_of_int (4096 * curr_terminal_idx s2)) s2 = Some s'"
    using r False by (auto simp: vidmap_def bind_eq_Some_conv curr_terminal_eq [OF con(1)] cur_def t_def)
  have "stack_ok (terminals s ! t)" using kernel_invD(6) [OF inv] t3 by (simp add: stacks_ok_def)
  then have ne: "stack s t \<noteq> []" "v = last (stack s t)" using v top_process_eq by (auto split: if_splits)
  define k where "k = nat v"
  have k: "k < 6" "v = int k" using last_stack_range [OF kernel_invD(6) [OF inv] t3(1) ne(1)] ne(2) by (simp_all add: k_def)
  have i1: "kernel_inv s1" by (rule inv_upd_curr [OF inv s1]) (use con(3,4) in \<open>auto simp: line_ok_def\<close>)
  have c1: "curr_terminal_idx s1 = int t" using s1 t3(2) by (auto simp: upd_terminal_def bind_eq_Some_conv)
  have "int k + 1 = int (Suc k)" by simp
  from inv_set_page_1 [OF i1 [unfolded kernel_inv_but] k(1) t3(1) s2 [unfolded c1 k(2) slot_address this]] have i2: "kernel_inv s2" by (simp add: kernel_inv_but)
  show ?thesis
    by (rule kernel_inv_same [OF i2 user_store32_same_processes [OF s' same_processes_refl [OF kernel_invD(1) [OF i2]]]])
qed

section \<open>The system call handler\<close>

lemma returned_eq: "returned r = Some (c, s') \<Longrightarrow> \<exists>n. r = Some (n, s')"
  by (auto simp: returned_def)

lemma inv_syscall:
  assumes inv: "kernel_inv s" and irqs: "keep_inv irqs" and r: "syscall_handler irqs eax ebx ecx edx s = Some (c, s')"
  shows "kernel_inv s'"
proof (cases "sint eax < 1 \<or> sint eax > 10")
  case True
  then show ?thesis using r inv by (auto simp: syscall_handler_def)
next
  case False
  note defined = r [unfolded syscall_handler_def if_not_P [OF False]]
  consider "halt (ucast ebx) s = Some (c, s')" | "execute (ebx = 0) (user_get ebx s) s = Some (c, s')"
    | n where "sys_read (sint ebx) ecx (sint edx) irqs s = Some (n, s')" | n where "sys_write (sint ebx) ecx (sint edx) s = Some (n, s')"
    | n where "sys_open (ebx = 0) (user_get ebx s) s = Some (n, s')" | n where "sys_close (sint ebx) s = Some (n, s')"
    | n where "getargs ebx (sint ecx) s = Some (n, s')" | n where "vidmap ebx s = Some (n, s')" | "s' = s"
    using defined by (auto split: if_splits dest!: returned_eq)
  then show ?thesis
    by cases ((erule inv_halt [OF inv] inv_execute [OF inv] inv_sys_read [OF inv irqs] inv_sys_write [OF inv] inv_sys_open [OF inv]
      inv_sys_close [OF inv] inv_getargs [OF inv] inv_vidmap [OF inv])+, simp add: inv)
qed

section \<open>The timer\<close>

lemma inv_scheduler_fields:
  fixes s :: "'z scheduler_scheme"
  assumes "kernel_inv s"
  shows "kernel_inv (s\<lparr>init_flag := a\<rparr>)" "kernel_inv (s\<lparr>flag := b, init_flag := a\<rparr>)" "kernel_inv (s\<lparr>flag_first_execute := c\<rparr>)"
    "kernel_inv (s\<lparr>esp := x, ebp := y\<rparr>)" "kernel_inv (s\<lparr>ebp := y, esp := x\<rparr>)" "kernel_inv (s\<lparr>tss_esp0 := x\<rparr>)"
  using kernel_invD(1) [OF assms]
  by (intro kernel_inv_same [OF assms]; simp add: same_processes_def same_tables_def keyboard_ok_def console_ok_def sound_ok_def)+

lemma inv_save_context:
  assumes inv: "kernel_inv s" and r: "save_context k s = Some s'"
  shows "kernel_inv s'" "saved s' k" "saved s x \<Longrightarrow> saved s' x" "0 \<le> k" "terminals s' = terminals s"
    "curr_running_terminal_idx s' = curr_running_terminal_idx s"
proof -
  have "upd_pcb k (\<lambda>p. Some (p\<lparr>curr_esp := esp s, curr_ebp := ebp s, curr_PDBR := cr3 s, curr_esp0 := tss_esp0 s\<rparr>)) s = Some s'"
    using r by (simp add: save_context_def)
  note u = inv_upd_pcb [OF this inv [unfolded kernel_inv_but]]
  have "inv_but {} s' \<and> same_tables s s' \<and> 0 \<le> k \<and> terminals s' = terminals s \<and> curr_running_terminal_idx s' = curr_running_terminal_idx s
    \<and> (\<forall>j. j \<noteq> nat k \<longrightarrow> pcbs s' ! j = pcbs s ! j) \<and> Some ((pcbs s ! nat k)\<lparr>curr_esp := esp s, curr_ebp := ebp s, curr_PDBR := cr3 s, curr_esp0 := tss_esp0 s\<rparr>) = Some (pcbs s' ! nat k)"
    using u kernel_invD(4) [OF inv] by (auto simp: pcb_ok_def)
  then have i: "inv_but {} s'" and ts: "same_tables s s'" and p: "curr_PDBR (pcbs s' ! nat k) = cr3 s" and o: "\<And>j. j \<noteq> nat k \<Longrightarrow> pcbs s' ! j = pcbs s ! j"
    and "0 \<le> k" "terminals s' = terminals s" "curr_running_terminal_idx s' = curr_running_terminal_idx s"
    by (auto dest: sym)
  then show "kernel_inv s'" "saved s' k" "0 \<le> k" "terminals s' = terminals s" "curr_running_terminal_idx s' = curr_running_terminal_idx s"
    using kernel_invD(4) [OF inv] by (simp_all add: kernel_inv_but saved_def same_tables_ready(2) [OF ts])
  show "saved s x \<Longrightarrow> saved s' x"
    using p o kernel_invD(4) [OF inv] by (cases "nat x = nat k") (simp_all add: saved_def same_tables_ready(2) [OF ts])
qed

lemma inv_start_shell:
  assumes inv: "kernel_inv s" and r: "start_shell s = Some (e, s')"
  shows "kernel_inv s'"
proof -
  obtain b e where f: "execute_frame s (esp s) = (b, e)" by fastforce
  obtain c t where t: "execute False (arr_get shell_command) (s\<lparr>ebp := b, esp := e\<rparr>) = Some (c, t)"
    using r by (auto simp: start_shell_def f bind_eq_Some_conv)
  have i: "kernel_inv t" by (rule inv_execute [OF inv_scheduler_fields(5) [OF inv] t])
  have "s' = t \<or> s' = t\<lparr>ebp := ebp s, esp := esp s\<rparr>" using r t by (auto simp: start_shell_def f split: control.splits)
  then show ?thesis using i inv_scheduler_fields(5) [OF i] by blast
qed

text \<open>Loading the context of a process.\<close>

lemma inv_load_context:
  fixes s :: "'z scheduler_scheme"
  assumes inv: "kernel_inv s" and k: "aget (pcbs s) k = Some p" "saved s k"
  shows "kernel_inv (s\<lparr>tss_esp0 := curr_esp0 p, cr3 := curr_PDBR p\<rparr>)"
proof -
  have "usable_directory s (curr_PDBR p)" using k by (auto simp: aget_eq_Some saved_def)
  then have "usable_directory (s\<lparr>tss_esp0 := curr_esp0 p\<rparr>) (curr_PDBR p)"
    using same_tables_ready(2) [of s "s\<lparr>tss_esp0 := curr_esp0 p\<rparr>"] by (simp add: same_tables_def)
  then show ?thesis using inv_cr3 [OF inv_scheduler_fields(6) [OF inv, unfolded kernel_inv_but]] by (simp add: kernel_inv_but)
qed

text \<open>Saving the context of the program on top of the running terminal and going on to another terminal.\<close>

lemma inv_save_and_go:
  fixes s :: "'z scheduler_scheme"
  assumes inv: "kernel_inv s" and k: "stack s (run_idx s) \<noteq> []" "k = last (stack s (run_idx s))"
    and r: "save_context k s = Some s2" and n: "n \<in> {0, 1, 2}" "first_terminal s \<Longrightarrow> k = 0"
  shows "kernel_inv (s2\<lparr>curr_running_terminal_idx := n\<rparr>)" "saved s x \<Longrightarrow> saved (s2\<lparr>curr_running_terminal_idx := n\<rparr>) x"
    "saved (s2\<lparr>curr_running_terminal_idx := n\<rparr>) 0"
proof -
  note sv = inv_save_context [OF inv r]
  have ts: "same_tables s2 (s2\<lparr>curr_running_terminal_idx := n\<rparr>)" by (simp add: same_tables_def)
  have same: "saved (s2\<lparr>curr_running_terminal_idx := n\<rparr>) = saved s2" by (simp add: fun_eq_iff saved_def same_tables_ready [OF ts])
  have first: "saved s2 0" using sv(2) sv(3) [of 0] n(2) inv by (auto simp: kernel_inv_def)
  then show "saved (s2\<lparr>curr_running_terminal_idx := n\<rparr>) 0" by (simp add: same)
  show "kernel_inv (s2\<lparr>curr_running_terminal_idx := n\<rparr>)"
    by (rule inv_next_terminal [OF sv(1) n(1) first]) (use sv(2,5,6) k in \<open>simp add: run_idx_def\<close>)
  show "saved s x \<Longrightarrow> saved (s2\<lparr>curr_running_terminal_idx := n\<rparr>) x" using sv(3) by (simp add: same)
qed

lemma inv_next_shell:
  fixes s :: "'z scheduler_scheme"
  assumes inv: "kernel_inv s" and one: "length (stack s (run_idx s)) \<le> 1" and r: "next_shell s = Some (c, s')"
  shows "kernel_inv s'"
proof -
  define s1 where "s1 = (if curr_running_terminal_idx s = 2 then s\<lparr>flag := 1, init_flag := 1\<rparr> else s)"
  have i1: "kernel_inv s1" using inv inv_scheduler_fields(2) [OF inv] by (simp add: s1_def)
  have s1: "terminals s1 = terminals s" "run_idx s1 = run_idx s" by (simp_all add: s1_def run_idx_def)
  note rt = running_process_eq(1,2) [OF kernel_invD(6) [OF i1]]
  obtain k s2 where k: "aget (phys_mem_idx (terminals s1 ! run_idx s1)) 0 = Some k" and s2: "save_context k s1 = Some s2"
    and rest: "(let s = s2\<lparr>curr_running_terminal_idx := curr_running_terminal_idx s2 + 1\<rparr> in
      if curr_running_terminal_idx s < 3 then
        do { (entered, s) \<leftarrow> start_shell (sti (send_eoi 0 s));
             Some (case entered of Some (a, b) \<Rightarrow> Entered a b | None \<Rightarrow> Iret (ebp s), s) }
      else
        do { p \<leftarrow> aget (pcbs (s\<lparr>curr_running_terminal_idx := 0\<rparr>)) 0;
             let s = sti (send_eoi 0 (s\<lparr>curr_running_terminal_idx := 0, tss_esp0 := curr_esp0 p, cr3 := curr_PDBR p, esp := curr_esp p, ebp := curr_ebp p\<rparr>));
             Some (Iret (ebp s), s) }) = Some (c, s')"
    using r rt(2) unfolding next_shell_def s1_def [symmetric] Let_def by (auto simp: bind_eq_Some_conv)
  have top: "stack s1 (run_idx s1) = [k]"
  proof -
    have "stack_ok (terminals s1 ! run_idx s1)" using kernel_invD(6) [OF i1] rt(1) by (simp add: stacks_ok_def)
    then have p: "phys_mem_idx (terminals s1 ! run_idx s1) = stack s1 (run_idx s1) @ replicate (6 - length (stack s1 (run_idx s1))) (-1)"
      by (simp add: stack_ok_def)
    show ?thesis
    proof (cases "stack s1 (run_idx s1)")
      case Nil
      then show ?thesis using k p inv_save_context(4) [OF i1 s2] by (simp add: aget_def)
    next
      case (Cons x xs)
      have "phys_mem_idx (terminals s1 ! run_idx s1) ! 0 = x" using p Cons by simp
      then show ?thesis using Cons one k s1 by (simp add: aget_def split: if_splits)
    qed
  qed
  have "first_terminal s1 \<Longrightarrow> k = 0" using top by (auto simp: first_terminal_def)
  note go = inv_save_and_go [OF i1 _ _ s2 _ this]
  have idx: "curr_running_terminal_idx s2 \<in> {0, 1, 2}" using kernel_invD(6) [OF inv_save_context(1) [OF i1 s2]] by (simp add: stacks_ok_def)
  show ?thesis
  proof (cases "curr_running_terminal_idx s2 + 1 < 3")
    case True
    then have n: "curr_running_terminal_idx s2 + 1 \<in> {0, 1, 2}" using idx by auto
    have "kernel_inv (s2\<lparr>curr_running_terminal_idx := curr_running_terminal_idx s2 + 1\<rparr>)" by (rule go(1)) (use n top in simp_all)
    note i3 = inv_sti [OF inv_eoi [OF this]]
    then show ?thesis using rest True inv_start_shell [OF i3] by (auto simp: Let_def bind_eq_Some_conv)
  next
    case False
    have i3: "kernel_inv (s2\<lparr>curr_running_terminal_idx := 0\<rparr>)" by (rule go(1)) (use top in simp_all)
    have sv: "saved (s2\<lparr>curr_running_terminal_idx := 0\<rparr>) 0" by (rule go(3)) (use top in simp_all)
    obtain p where p: "aget (pcbs (s2\<lparr>curr_running_terminal_idx := 0\<rparr>)) 0 = Some p"
      "s' = sti (send_eoi 0 (s2\<lparr>curr_running_terminal_idx := 0, tss_esp0 := curr_esp0 p, cr3 := curr_PDBR p, esp := curr_esp p, ebp := curr_ebp p\<rparr>))"
      using rest False by (auto simp: Let_def bind_eq_Some_conv)
    show ?thesis unfolding p(2) using inv_sti [OF inv_eoi [OF inv_scheduler_fields(4) [OF inv_load_context [OF i3 p(1) sv]]]] by simp
  qed
qed

lemma running_top:
  fixes s :: "'z process_scheme"
  assumes "kernel_inv s" "running_process s = Some k"
  shows "stack s (run_idx s) \<noteq> []" "k = last (stack s (run_idx s))"
  using running_process_eq(3) [OF kernel_invD(6) [OF assms(1)]] assms(2) by (simp_all split: if_splits)

lemma inv_switch_process:
  fixes s :: "'z scheduler_scheme"
  assumes inv: "kernel_inv s" and r: "switch_process s = Some (c, s')"
  shows "kernel_inv s'"
proof -
  obtain m k s2 k' p where k: "running_process (s\<lparr>phys := m\<rparr>) = Some k" and s2: "save_context k (s\<lparr>phys := m\<rparr>) = Some s2"
    and k': "running_process (s2\<lparr>curr_running_terminal_idx := (curr_running_terminal_idx s2 + 1) mod 3\<rparr>) = Some k'"
    and p: "aget (pcbs (s2\<lparr>curr_running_terminal_idx := (curr_running_terminal_idx s2 + 1) mod 3\<rparr>)) k' = Some p"
    and s': "s' = sti ((send_eoi 0 (s2\<lparr>curr_running_terminal_idx := (curr_running_terminal_idx s2 + 1) mod 3, tss_esp0 := curr_esp0 p,
      cr3 := curr_PDBR p\<rparr>))\<lparr>esp := curr_esp p, ebp := curr_ebp p\<rparr>)"
    using r that [of "phys s"] unfolding switch_process_def Let_def by (auto simp: bind_eq_Some_conv split: if_splits option.splits)
  define n where "n = (curr_running_terminal_idx s2 + 1) mod 3"
  let ?t = "s2\<lparr>curr_running_terminal_idx := n\<rparr>"
  have i1: "kernel_inv (s\<lparr>phys := m\<rparr>)" by (rule kernel_inv_same [OF inv same_processes_phys [OF kernel_invD(1) [OF inv]]])
  note sv = inv_save_context [OF i1 s2]
  have idx: "curr_running_terminal_idx s \<in> {0, 1, 2}" using kernel_invD(6) [OF inv] by (simp add: stacks_ok_def)
  then have n: "n \<in> {0, 1, 2}" "nat n \<noteq> run_idx (s\<lparr>phys := m\<rparr>)" "nat n < 3" by (auto simp: n_def sv(6) run_idx_def)
  have ne: "stack (s\<lparr>phys := m\<rparr>) (nat n) \<noteq> [] \<and> k' = last (stack (s\<lparr>phys := m\<rparr>) (nat n))"
  proof -
    have "stacks_ok ?t" using kernel_invD(6) [OF sv(1)] n(1) by (simp add: stacks_ok_def)
    from running_process_eq(3) [OF this] show ?thesis using k' sv(5) by (simp add: n_def [symmetric] run_idx_def split: if_splits)
  qed
  have first: "\<not> first_terminal (s\<lparr>phys := m\<rparr>)"
  proof
    assume f: "first_terminal (s\<lparr>phys := m\<rparr>)"
    then have "nat n = 1 \<or> nat n = 2" using n by (auto simp: first_terminal_def)
    then show False using f ne by (auto simp: first_terminal_def)
  qed
  then have f0: "first_terminal (s\<lparr>phys := m\<rparr>) \<Longrightarrow> k = 0" by simp
  note go = inv_save_and_go [OF i1 running_top [OF i1 k] s2 n(1) f0]
  have "saved (s\<lparr>phys := m\<rparr>) k'" using i1 n(2,3) ne unfolding kernel_inv_def by blast
  then have "saved ?t k'" using go(2) by blast
  moreover have "kernel_inv ?t" using go(1) by blast
  ultimately have "kernel_inv (?t\<lparr>tss_esp0 := curr_esp0 p, cr3 := curr_PDBR p\<rparr>)"
    using inv_load_context [OF _ p [folded n_def]] by blast
  then
  show ?thesis unfolding s' n_def [symmetric] by (intro inv_sti inv_scheduler_fields(4) inv_eoi) simp
qed

lemma active_program_6:
  assumes "stack_ok t" "active_program t = 6"
  shows "length (stack_of t) \<le> 1"
proof (rule ccontr)
  assume "\<not> ?thesis"
  then obtain x y ys where s: "stack_of t = x # y # ys"
    by (cases "stack_of t" rule: remdups_adj.cases) auto
  then have "phys_mem_idx t = x # y # ys @ replicate (6 - length (stack_of t)) (-1)" using assms(1) by (simp add: stack_ok_def)
  moreover have "y \<noteq> -1"
  proof -
    have "y \<in> set (stack_of t)" by (simp add: s)
    then show ?thesis unfolding stack_of_def by (auto dest: set_takeWhileD)
  qed
  ultimately show False using assms(2) by (simp add: active_program_def)
qed

lemma inv_timer:
  fixes s :: "'z scheduler_scheme"
  assumes inv: "kernel_inv s" and r: "PIT_interrupt_handler s = Some (c, s')"
  shows "kernel_inv s'"
proof -
  define s1 where "s1 = (if init_flag (cli s) \<noteq> 0 then (cli s)\<lparr>init_flag := 0\<rparr> else cli s)"
  have i1: "kernel_inv s1" using inv_cli [OF inv] inv_scheduler_fields(1) [OF inv_cli [OF inv]] by (simp add: s1_def)
  obtain e s2 where s2: "(if flag_first_execute s1 \<noteq> 0 then do { s \<leftarrow> clear (s1\<lparr>flag_first_execute := 0\<rparr>); start_shell (send_eoi 0 s) }
      else Some (None, s1)) = Some (e, s2)"
    and rest: "s' = s2 \<or> (\<exists>t. running_terminal s2 = Some t \<and> active_program t = 6) \<and> next_shell s2 = Some (c, s')
      \<or> switch_process s2 = Some (c, s')"
    using r unfolding PIT_interrupt_handler_def Let_def s1_def [symmetric]
    by (auto simp: bind_eq_Some_conv split: option.splits if_splits)
  have i2: "kernel_inv s2"
  proof (cases "flag_first_execute s1 = 0")
    case False
    note i = inv_scheduler_fields(3) [OF i1, of 0]
    obtain s3 where s3: "clear (s1\<lparr>flag_first_execute := 0\<rparr>) = Some s3" "start_shell (send_eoi 0 s3) = Some (e, s2)"
      using s2 False by (auto simp: bind_eq_Some_conv)
    have "kernel_inv s3" by (rule inv_console [OF i clear_console_step [OF kernel_invD(1) [OF i] s3(1)]])
    then show ?thesis by (rule inv_start_shell [OF inv_eoi s3(2)])
  qed (use s2 i1 in simp)
  note rt = running_process_eq(1,2) [OF kernel_invD(6) [OF i2]]
  have "stack_ok (terminals s2 ! run_idx s2)" using kernel_invD(6) [OF i2] rt(1) by (simp add: stacks_ok_def)
  then have "length (stack s2 (run_idx s2)) \<le> 1" if "\<exists>t. running_terminal s2 = Some t \<and> active_program t = 6"
    using active_program_6 that rt(2) by auto
  then show ?thesis using rest i2 inv_next_shell [OF i2] inv_switch_process [OF i2] by blast
qed

end
