(* ===== verification/System.thy ===== *)
theory System
  imports Handlers Startup
begin

text \<open>
  The kernel as a system: programs and interrupts take steps from the idle loop that \<open>entry\<close> reaches, in any order. The
  invariant of the kernel holds in every state that can be reached.
\<close>

section \<open>The steps\<close>

text \<open>A program stores a byte where its page tables let it, and changes its registers. It calls the kernel; while the call
  waits, anything may happen that can happen at any other time: each interrupt of the wait is a function that leads from a
  state to one that can be reached from it, which may include whole time slices of other programs. The devices interrupt, and the processor raises exceptions.\<close>

inductive system_run :: "'z mouse_state_scheme \<Rightarrow> 'z mouse_state_scheme \<Rightarrow> bool" where
  Start: "system_run s s"
| Store: "system_run s t \<Longrightarrow> translate True va t = Some pa \<Longrightarrow> system_run s (t\<lparr>phys := (phys t)(pa := x)\<rparr>)"
| Registers: "system_run s t \<Longrightarrow> system_run s (t\<lparr>ebp := b, esp := e\<rparr>)"
| Call: "system_run s t \<Longrightarrow> (\<And>h v. h \<in> set irqs \<Longrightarrow> system_run v (h v)) \<Longrightarrow>
    syscall_handler irqs eax ebx ecx edx t = Some (c, u) \<Longrightarrow> system_run s u"
| Exception: "system_run s t \<Longrightarrow> exception_handler h = Some f \<Longrightarrow> f t = Some (c, u) \<Longrightarrow> system_run s u"
| Timer: "system_run s t \<Longrightarrow> PIT_interrupt_handler t = Some (k, u) \<Longrightarrow> system_run s u"
| Clock: "system_run s t \<Longrightarrow> system_run s (RTC_interrupt_handler t)"
| Key: "system_run s t \<Longrightarrow> keyboard_interrupt_handler t = Some u \<Longrightarrow> system_run s u"
| Mouse: "system_run s t \<Longrightarrow> mouse_interrupt_handler t = Some u \<Longrightarrow> system_run s u"

lemma run_keeps_inv: "system_run s u \<Longrightarrow> kernel_inv s \<Longrightarrow> kernel_inv u"
proof (induction rule: system_run.induct)
  case (Store s t va pa x)
  then show ?case using kernel_inv_same same_processes_phys kernel_invD(1) by blast
next
  case (Registers s t b e)
  then show ?case using inv_scheduler_fields(5) by blast
next
  case (Call s t irqs eax ebx ecx edx c u)
  then show ?case using inv_syscall [of t irqs] by blast
next
  case (Exception s t h f c u)
  then show ?case using inv_exception by blast
next
  case (Timer s t k u)
  then show ?case using inv_timer by blast
next
  case (Clock s t)
  then show ?case using kernel_inv_same same_processes_driver [OF clock_driver_step] kernel_invD(1) by blast
next
  case (Key s t u)
  then show ?case using kernel_inv_same same_processes_driver [OF keyboard_driver_step] kernel_invD(1) by blast
next
  case (Mouse s t u)
  then show ?case using kernel_inv_same mouse_same_processes kernel_invD(1) by blast
qed simp

section \<open>The state after boot\<close>

lemma set_up_inv:
  assumes t: "set_up bb s t"
  shows "kernel_inv t"
proof -
  note u = t [unfolded set_up_def]
  have st: "stack_ok (terminals t ! i) \<and> stack t i = []" if "i < 3" for i
    using stack_ofI [of "terminals t ! i" "[]" 6] u that by (simp add: fresh_terminal_def stack_ok_def)
  then have "stacks_ok t" using u by (simp add: stacks_ok_def)
  then have "procs_ok t" using u st by (simp add: procs_ok_def)
  moreover have "keyboard_ok t" using u by (simp add: keyboard_ok_def console_ok_def fresh_terminal_def)
  moreover have "first_terminal t" using u st by (simp add: first_terminal_def run_idx_def)
  moreover have "usable_directory t (cr3 t)" using u by (simp add: usable_directory_def)
  ultimately show ?thesis using u st by (simp add: kernel_inv_def)
qed

lemma entry_inv:
  fixes s :: "'z kernel_scheme" and mbi :: u32
  assumes "static_ok s" "multiboot_ok mbi (phys s)"
      "\<not> (CHECK_FLAG (mbi_flags mbi (phys s)) 4 \<and> CHECK_FLAG (mbi_flags mbi (phys s)) 5)" "block_safe (mods_addr mbi (phys s)) 4"
    and "160 \<le> tick_count ticks"
  shows "\<exists>t. entry addr junk1 junk2 (map clock ticks) 0x2BADB002 mbi s = Some (Idle, t) \<and> kernel_inv t"
  using entry_sets_up [OF assms] set_up_inv by blast

section \<open>The kernel stays consistent\<close>

text \<open>C2. From the idle loop that \<open>entry\<close> reaches, whatever programs do in user mode, whatever system calls they make with
  whatever arguments, whatever exceptions they raise, and in whatever order the timer, the clock, the keyboard and the
  mouse interrupt (also while a call waits for one of them): every state that is reached satisfies the kernel's invariant.
  The programs on the three terminals' stacks own distinct slots, exactly the slots marked as taken; their control
  blocks have their eight descriptors, each open one with a driver, and a terminated argument; the input lines and
  cursors are in range; all page tables are the kernel's; and the directory in use, every directory that
  \<open>halt\<close> will load for a program and every directory that the scheduler will load when it comes back to a terminal map
  the kernel. An execution that C leaves undefined has no result and so no next state: an index outside its array,
  and a store through an unchecked pointer into the kernel's own 4 MB page, which would change the kernel's variables.\<close>

theorem kernel_stays_consistent:
  fixes s :: "'z kernel_scheme" and mbi :: u32
  assumes "static_ok s" "multiboot_ok mbi (phys s)"
      "\<not> (CHECK_FLAG (mbi_flags mbi (phys s)) 4 \<and> CHECK_FLAG (mbi_flags mbi (phys s)) 5)" "block_safe (mods_addr mbi (phys s)) 4"
    and "160 \<le> tick_count ticks"
  shows "\<exists>t. entry addr junk1 junk2 (map clock ticks) 0x2BADB002 mbi s = Some (Idle, t) \<and> (\<forall>u. system_run t u \<longrightarrow> kernel_inv u)"
  using entry_inv [OF assms] run_keeps_inv by blast

section \<open>Programs are confined\<close>

lemma usable_kernel:
  assumes inv: "paging_inv s" and c: "usable_directory s (cr3 s)" and va: "unat va < 8388608"
  shows "translate False va s = Some va" "translate True va s = None"
proof -
  obtain k where k: "k < 7" "cr3 s = addr_pde s k" "maps_kernel s (pdes s ! k)"
  proof -
    have "maps_kernel s (pdes s ! 0)" using inv by (simp add: paging_inv_def)
    then show ?thesis
      using c that [of 0] that [of "Suc k" for k] by (auto simp: usable_directory_def slot_ready_def slot_directory_def)
  qed
  then show "translate False va s = Some va" "translate True va s = None" using kernel_mapped [OF inv k va] by simp_all
qed

lemma kernel_directory_user:
  assumes inv: "paging_inv s" and c: "cr3 s = addr_pde s 0"
  shows "translate True va s = None"
proof (cases "unat va < 8388608")
  case True
  then show ?thesis using usable_kernel [OF inv] c by (simp add: usable_directory_def)
next
  case False
  have ok: "paging_ok s" using inv by (simp add: paging_inv_def)
  have d: "directory_at (cr3 s) s = Some (pdes s ! 0)" "length (pdes s ! 0) = 1024"
    using directory_at_loaded [OF ok, of 0] c ok by (simp_all add: paging_ok_def)
  have "2 \<le> unat va div 4194304" using False div_le_mono [of 8388608 "unat va" 4194304] by simp
  moreover have "unat va div 4194304 < 1024" by (rule dir_index_less)
  ultimately have "pdes s ! 0 ! (unat va div 4194304) = 0" using inv by (simp add: paging_inv_def)
  then show ?thesis using translate_absent [OF d] by simp
qed

lemma user_reach:
  assumes inv: "paging_inv s" and c: "usable_directory s (cr3 s)" and pa: "translate True va s = Some pa"
  shows "(\<exists>k<6. cr3 s = addr_pde s (Suc k) \<and> unat pa div 4194304 = k + 2) \<or> (\<exists>i<3. \<exists>j<4096. pa = backup i + of_nat j)"
proof -
  have "cr3 s \<noteq> addr_pde s 0" using kernel_directory_user [OF inv] pa by fastforce
  then obtain k where k: "k < 6" "cr3 s = addr_pde s (Suc k)" "slot_directory s k (pdes s ! Suc k)"
    using c by (auto simp: usable_directory_def slot_ready_def)
  note m = user_mapped [OF inv k]
  show ?thesis
  proof (cases "unat va div 4194304 = 32")
    case True
    then have "pa = program_byte k va 0" using m(1) [of va True] pa by (simp add: program_byte_def)
    then have "unat pa = (k + 2) * 4194304 + unat va mod 4194304" using unat_program_byte [OF k(1), of va 0] by simp
    then have "unat pa div 4194304 = k + 2" by simp
    then show ?thesis using k by blast
  next
    case False
    then obtain i where "i < 3" "pa = backup i + of_nat (unat va mod 4096)" using m(2) [OF pa] by blast
    moreover have "unat va mod 4096 < 4096" by simp
    ultimately show ?thesis by blast
  qed
qed

text \<open>C4. In every state that is reached from the idle loop the first 8 MB, the kernel and its data, are mapped one to one
  for the kernel, and for user code not at all; and a user access that the page tables let through goes to the 4 MB
  of the one slot whose directory is loaded (slot \<open>k\<close> has the physical addresses from \<open>(k + 2) * 4\<close> MB on) or to
  a terminal's text page.\<close>

theorem programs_confined:
  fixes s :: "'z kernel_scheme" and mbi :: u32
  assumes "static_ok s" "multiboot_ok mbi (phys s)"
      "\<not> (CHECK_FLAG (mbi_flags mbi (phys s)) 4 \<and> CHECK_FLAG (mbi_flags mbi (phys s)) 5)" "block_safe (mods_addr mbi (phys s)) 4"
    and "160 \<le> tick_count ticks" "entry addr junk1 junk2 (map clock ticks) 0x2BADB002 mbi s = Some (Idle, t)" "system_run t u"
  shows "(unat va < 8388608 \<longrightarrow> translate False va u = Some va \<and> translate True va u = None)
    \<and> (translate True va u = Some pa \<longrightarrow>
        (\<exists>k<6. cr3 u = addr_pde u (Suc k) \<and> unat pa div 4194304 = k + 2) \<or> (\<exists>i<3. \<exists>j<4096. pa = backup i + of_nat j))"
proof -
  have "kernel_inv t" using entry_inv [OF assms(1-5), of addr junk1 junk2] assms(6) by auto
  then have "kernel_inv u" using run_keeps_inv [OF assms(7)] by blast
  note inv = kernel_invD(3,4) [OF this]
  show ?thesis using usable_kernel [OF inv] user_reach [OF inv] by blast
qed

section \<open>Examples\<close>

text \<open>The example machine boots, and the first timer interrupt enters the shell.\<close>

abbreviation entry0 :: "(boot_end \<times> kernel) option" where
  "entry0 \<equiv> entry (\<lambda>_. 0x402345) desc0 desc0 (map clock (replicate 160 True)) 0x2BADB002 0x9000 kernel0"

lemma ticks0: "160 \<le> tick_count (replicate 160 True)"
  by (simp add: tick_count_def)

lemma kernel0_loader:
  "multiboot_ok 0x9000 (phys kernel0)" "\<not> (CHECK_FLAG (mbi_flags 0x9000 (phys kernel0)) 4 \<and> CHECK_FLAG (mbi_flags 0x9000 (phys kernel0)) 5)"
  "block_safe (mods_addr 0x9000 (phys kernel0)) 4" "disk_ok (load32 (phys kernel0) (mods_addr 0x9000 (phys kernel0))) kernel0"
  "load32 (phys kernel0) (mods_addr 0x9000 (phys kernel0)) = 0x10000"
  using kernel0_mbi kernel0_disk block_at [of "0x9100" 4] by (auto simp: CHECK_FLAG_def)

lemma kernel0_first_tick:
  obtains t u where "entry0 = Some (Idle, t)" "PIT_interrupt_handler t = Some (Entered 0x08048018 0x083FFFFC, u)"
proof -
  obtain t where t: "entry0 = Some (Idle, t)" "set_up 0x10000 kernel0 t"
    using entry_sets_up [OF kernel0_static kernel0_loader(1-3) ticks0] unfolding kernel0_loader(5) by blast
  obtain u where "PIT_interrupt_handler t = Some (Entered 0x08048018 0x083FFFFC, u)"
    using set_up_tick [OF t(2)] kernel0_disk by auto
  then show ?thesis using t(1) that by blast
qed

theorem kernel_stays_consistent_witness:
  "\<exists>t u. entry0 = Some (Idle, t) \<and> PIT_interrupt_handler t = Some (Entered 0x08048018 0x083FFFFC, u) \<and> kernel_inv u"
proof -
  obtain t u where tu: "entry0 = Some (Idle, t)" "PIT_interrupt_handler t = Some (Entered 0x08048018 0x083FFFFC, u)"
    by (rule kernel0_first_tick)
  have "system_run t u" by (rule Timer [OF Start tu(2)])
  then have "kernel_inv u"
    using kernel_stays_consistent [OF kernel0_static kernel0_loader(1-3) ticks0, of "\<lambda>_. 0x402345" desc0 desc0] tu(1) by auto
  then show ?thesis using tu by blast
qed

theorem programs_confined_witness:
  "\<exists>t u. entry0 = Some (Idle, t) \<and> PIT_interrupt_handler t = Some (Entered 0x08048018 0x083FFFFC, u)
    \<and> translate False 0x100000 u = Some 0x100000 \<and> translate True 0x100000 u = None"
proof -
  obtain t u where tu: "entry0 = Some (Idle, t)" "PIT_interrupt_handler t = Some (Entered 0x08048018 0x083FFFFC, u)"
    by (rule kernel0_first_tick)
  have "system_run t u" by (rule Timer [OF Start tu(2)])
  from programs_confined [OF kernel0_static kernel0_loader(1-3) ticks0 tu(1) this, where va = "0x100000"] show ?thesis using tu by auto
qed

end
