(* ===== verification/Checks.thy ===== *)
theory Checks
  imports System
begin

text \<open>
  \<open>tests.c\<close>: the programs with which the kernel was tried out, as a caller of the drivers. \<open>launch_tests\<close> runs the first of
  them. The theorems compare what the tests would see with what their comments announce.
\<close>

section \<open>State\<close>

text \<open>The array that a test has on its stack.\<close>

record checks = kernel +
  test_buf :: "u8 list"

definition buf_get :: "'z checks_scheme \<Rightarrow> cstr" where
  "buf_get s = arr_get (test_buf s)"

definition buf_put :: "'z checks_scheme \<Rightarrow> nat \<Rightarrow> u8 \<Rightarrow> 'z checks_scheme option" where
  "buf_put s i x = do { b \<leftarrow> arr_put (test_buf s) i x; Some (s\<lparr>test_buf := b\<rparr>) }"

text \<open>\<open>printf\<close> of a text without arguments, with its newline.\<close>

definition say :: "string \<Rightarrow> 'z console_scheme \<Rightarrow> 'z console_scheme option" where
  "say xs s = print (ascii xs @ [10]) [] s"

section \<open>The interrupt table\<close>

text \<open>\<open>lit\<close> is where the linker puts a string literal.\<close>

definition TEST_HEADER :: "(string \<Rightarrow> u32) \<Rightarrow> string \<Rightarrow> nat \<Rightarrow> 'z console_scheme \<Rightarrow> 'z console_scheme option" where
  "TEST_HEADER lit function line s =
     print (ascii ''[TEST %s] Running %s at %s:%d'' @ [10]) [lit function, lit function, lit ''tests.c'', of_nat line] s"

definition TEST_OUTPUT :: "(string \<Rightarrow> u32) \<Rightarrow> string \<Rightarrow> int \<Rightarrow> 'z console_scheme \<Rightarrow> 'z console_scheme option" where
  "TEST_OUTPUT lit name result s =
     print (ascii ''[TEST %s] Result = %s'' @ [10]) [lit name, lit (if result \<noteq> 0 then ''PASS'' else ''FAIL'')] s"

text \<open>\<open>int $15\<close>: a gate that is not present raises the exception for that; a present one would lead out of the program.\<close>

definition assertion_failure :: "'z cpu_tables_scheme \<Rightarrow> (control \<times> 'z cpu_tables_scheme) option" where
  "assertion_failure s = (case hardware_target (idt s) 15 of None \<Rightarrow> seg_not_present_expt s | Some a \<Rightarrow> None)"

fun check_gates :: "nat list \<Rightarrow> int \<Rightarrow> 'z cpu_tables_scheme \<Rightarrow> (control \<times> 'z cpu_tables_scheme) option" where
  "check_gates [] result s = Some (Return result, s)"
| "check_gates (i # is) result s =
     do { d \<leftarrow> aget (idt s) (int i);
          if offset_15_00 d = 0 \<and> offset_31_16 d = 0 then
            do { (c, s) \<leftarrow> assertion_failure s;
                 case c of Return _ \<Rightarrow> check_gates is 0 s | _ \<Rightarrow> Some (c, s) }
          else check_gates is result s }"

definition idt_test :: "(string \<Rightarrow> u32) \<Rightarrow> 'z cpu_tables_scheme \<Rightarrow> (control \<times> 'z cpu_tables_scheme) option" where
  "idt_test lit s = do { s \<leftarrow> TEST_HEADER lit ''idt_test'' 35 s; check_gates [0..<10] 1 s }"

definition launch_tests :: "(string \<Rightarrow> u32) \<Rightarrow> 'z cpu_tables_scheme \<Rightarrow> (control \<times> 'z cpu_tables_scheme) option" where
  "launch_tests lit s =
     do { (c, s) \<leftarrow> idt_test lit s;
          case c of
            Return result \<Rightarrow> do { s \<leftarrow> TEST_OUTPUT lit ''idt_test'' result s; Some (Return 0, s) }
          | _ \<Rightarrow> Some (c, s) }"

section \<open>Exceptions and paging\<close>

definition exception_test :: "'z process_scheme \<Rightarrow> (control \<times> 'z process_scheme) option" where
  "exception_test s = div_by_zero_error_expt s"

text \<open>\<open>a = (int)*temp;\<close> in the kernel: the value is not used.\<close>

definition load_int :: "u32 \<Rightarrow> 'z process_scheme \<Rightarrow> (control \<times> 'z process_scheme) option" where
  "load_int temp s =
     (if \<forall>i\<in>{0, 1, 2, 3}. translate False (temp + i) s \<noteq> None then Some (Return 0, s) else page_fault_expt s)"

definition page_test_0 :: "'z process_scheme \<Rightarrow> (control \<times> 'z process_scheme) option" where
  "page_test_0 s = load_int 0 s"

definition page_test_C0000 :: "'z process_scheme \<Rightarrow> (control \<times> 'z process_scheme) option" where
  "page_test_C0000 s = load_int 0xC0000 s"

definition page_test_kernel :: "'z process_scheme \<Rightarrow> (control \<times> 'z process_scheme) option" where
  "page_test_kernel s = load_int 0x500000 s"

definition page_test_outkernel :: "'z process_scheme \<Rightarrow> (control \<times> 'z process_scheme) option" where
  "page_test_outkernel s = load_int 0x900000 s"

section \<open>The clock\<close>

text \<open>The rounds of the loop that the given interrupts allow, one list for each wait; the loop itself does not end.\<close>

fun print_ones :: "('z console_scheme \<Rightarrow> 'z console_scheme) list list \<Rightarrow> 'z console_scheme \<Rightarrow> 'z console_scheme option" where
  "print_ones [] s = Some s"
| "print_ones (irqs # rest) s = do { (_, s) \<leftarrow> RTC_read irqs s; s \<leftarrow> putc 49 s; print_ones rest s }"

definition RTC_open_test :: "('z console_scheme \<Rightarrow> 'z console_scheme) list list \<Rightarrow> 'z console_scheme \<Rightarrow> 'z console_scheme option" where
  "RTC_open_test rounds s = (let (_, s) = RTC_open s in print_ones rounds s)"

text \<open>\<open>freq\<close> lies at \<open>p\<close> on the stack.\<close>

definition RTC_write_test :: "u32 \<Rightarrow> u32 \<Rightarrow> ('z console_scheme \<Rightarrow> 'z console_scheme) list list \<Rightarrow> 'z console_scheme \<Rightarrow> 'z console_scheme option" where
  "RTC_write_test p freq rounds s =
     do { (_, s) \<leftarrow> RTC_write (\<lambda>a. if unat (a - p) < 4 then word_bytes freq ! unat (a - p) else 0) p 4 s;
          print_ones rounds s }"

definition RTC_close_test :: "'z console_scheme \<Rightarrow> 'z console_scheme option" where
  "RTC_close_test s = (let (r, s) = RTC_close s in if r = 0 then say ''rtc close test success'' s else Some s)"

section \<open>The terminal\<close>

definition terminal_open_test :: "'z keyboard_scheme \<Rightarrow> 'z keyboard_scheme option" where
  "terminal_open_test s = do { (r, s) \<leftarrow> terminal_open s; if r = 0 then say ''terminal open test success'' s else Some s }"

definition terminal_close_test :: "'z keyboard_scheme \<Rightarrow> 'z keyboard_scheme option" where
  "terminal_close_test s = (let (r, s) = terminal_close s in if r = 0 then say ''terminal close test success'' s else Some s)"

text \<open>\<open>junk\<close> is what the array holds before.\<close>

definition terminal_read_write_test ::
  "u8 list \<Rightarrow> ('z checks_scheme \<Rightarrow> 'z checks_scheme) list \<Rightarrow> 'z checks_scheme \<Rightarrow> 'z checks_scheme option" where
  "terminal_read_write_test junk irqs s =
     do { let s = s\<lparr>test_buf := take 130 junk\<rparr>;
          (_, s) \<leftarrow> terminal_read buf_get buf_put False 130 irqs s;
          (_, s) \<leftarrow> terminal_write buf_get False 130 s;
          Some s }"

section \<open>The file system\<close>

text \<open>\<open>file_read\<close> takes the address of a descriptor. The tests pass 0, so it uses the 16 bytes at address 0 as one.\<close>

definition null_descriptor :: "'z console_scheme \<Rightarrow> file_descriptor_t" where
  "null_descriptor s = \<lparr>file_operation_table_ptr = None, fd_inode = load32 (phys s) 4, file_position = load32 (phys s) 8,
     fd_flags = load32 (phys s) 12\<rparr>"

definition store_position :: "u32 \<Rightarrow> 'z console_scheme \<Rightarrow> 'z console_scheme" where
  "store_position v s = s\<lparr>phys := (phys s)(8 := ucast v, 9 := ucast (drop_bit 8 v), 10 := ucast (drop_bit 16 v), 11 := ucast (drop_bit 24 v))\<rparr>"

definition put_buf :: "int \<Rightarrow> 'z checks_scheme \<Rightarrow> 'z checks_scheme option" where
  "put_buf len s = for_opt 0 (nat len) (\<lambda>i s. do { c \<leftarrow> buf_get s i; putc c s }) s"

text \<open>The four tests differ in the name and in the size of the array.\<close>

definition file_read_test :: "string \<Rightarrow> nat \<Rightarrow> u8 list \<Rightarrow> 'z checks_scheme \<Rightarrow> 'z checks_scheme option" where
  "file_read_test filename size' junk s =
     do { (r, s) \<leftarrow> file_open False (arr_get (ascii filename @ [0])) s;
          if r = -1 then say ''open failed'' s
          else
            do { let s = s\<lparr>test_buf := take size' junk\<rparr>;
                 (len, fd, s) \<leftarrow> file_read buf_put (int size') (null_descriptor s) s;
                 put_buf len (store_position (file_position fd) s) } }"

definition file_read_test_frame1 :: "u8 list \<Rightarrow> 'z checks_scheme \<Rightarrow> 'z checks_scheme option" where
  "file_read_test_frame1 junk s = file_read_test ''frame1.txt'' 200 junk s"

definition file_read_test_frame0 :: "u8 list \<Rightarrow> 'z checks_scheme \<Rightarrow> 'z checks_scheme option" where
  "file_read_test_frame0 junk s = file_read_test ''frame0.txt'' 200 junk s"

definition file_read_test_large :: "u8 list \<Rightarrow> 'z checks_scheme \<Rightarrow> 'z checks_scheme option" where
  "file_read_test_large junk s = file_read_test ''verylargetextwithverylongname.txt'' 4096 junk s"

definition file_read_test_execute :: "u8 list \<Rightarrow> 'z checks_scheme \<Rightarrow> 'z checks_scheme option" where
  "file_read_test_execute junk s = file_read_test ''cat'' 5445 junk s"

definition file_close_test :: "'z file_system_scheme \<Rightarrow> 'z file_system_scheme option" where
  "file_close_test s = (let (r, s) = file_close s in if r = 0 then say ''file close test success'' s else Some s)"

definition file_write_test :: "'z file_system_scheme \<Rightarrow> 'z file_system_scheme option" where
  "file_write_test s = (let (r, s) = file_write s in if r = -1 then say ''file write test success'' s else Some s)"

definition dir_write_test :: "'z file_system_scheme \<Rightarrow> 'z file_system_scheme option" where
  "dir_write_test s = (let (r, s) = dir_write s in if r = -1 then say ''dir write test success'' s else Some s)"

partial_function (option) dir_read_loop :: "'z checks_scheme \<Rightarrow> 'z checks_scheme option" where
  "dir_read_loop s =
     do { (len, s) \<leftarrow> dir_read buf_put s;
          if len \<noteq> -1 then
            do { (_, s) \<leftarrow> terminal_write buf_get False len s;
                 s \<leftarrow> putc 10 s;
                 dir_read_loop s }
          else Some s }"

definition dir_read_test :: "u8 list \<Rightarrow> 'z checks_scheme \<Rightarrow> 'z checks_scheme option" where
  "dir_read_test junk s = dir_read_loop (s\<lparr>test_buf := take 32 junk\<rparr>)"

definition dir_open_test :: "'z file_system_scheme \<Rightarrow> 'z file_system_scheme option" where
  "dir_open_test s =
     do { (r, s) \<leftarrow> dir_open False (arr_get (ascii ''.'' @ [0])) s;
          if r \<noteq> -1 then say ''dir open test success'' s else Some s }"

definition dir_close_test :: "'z file_system_scheme \<Rightarrow> 'z file_system_scheme option" where
  "dir_close_test s = (let (r, s) = dir_close s in if r = 0 then say ''dir close test success'' s else Some s)"

section \<open>What the tests see\<close>

text \<open>\<open>dir_read\<close> reports the end of the directory with 0, so the test never leaves its loop.\<close>

lemma dir_read_not_error: "dir_read put s = Some (n, s') \<Longrightarrow> n \<noteq> -1"
  by (auto simp: dir_read_def bind_eq_Some_conv Let_def split: if_splits)

lemma dir_read_test_endless: "dir_read_test junk s = None"
proof -
  have "False" if "dir_read_loop t = Some u" for t u :: "'a checks_scheme"
    by (rule dir_read_loop.raw_induct [where P = "\<lambda>_ _. False", OF _ that])
      (auto simp: bind_eq_Some_conv dest: dir_read_not_error split: if_splits)
  then show ?thesis by (cases "dir_read_test junk s") (auto simp: dir_read_test_def)
qed

text \<open>With the table of \<open>idt_init\<close> the first test passes, whatever the linker's addresses, if none is 0.\<close>

lemma check_gates_pass:
  assumes "\<And>i. i \<in> set is \<Longrightarrow> i < length (idt t) \<and> gate_target (idt t ! i) \<noteq> 0"
  shows "check_gates is 1 t = Some (Return 1, t)"
  using assms
proof (induction "is")
  case (Cons i "is")
  have n: "\<not> (offset_15_00 (idt t ! i) = 0 \<and> offset_31_16 (idt t ! i) = 0)"
    using Cons.prems [of i] by (auto simp: gate_target_def)
  have "aget (idt t) (int i) = Some (idt t ! i)" using Cons.prems [of i] by (simp add: aget_in)
  then have "check_gates (i # is) 1 t = check_gates is 1 t"
    by (simp only: check_gates.simps Option.bind.bind_lunit if_not_P [OF n])
  then show ?case using Cons by simp
qed simp

lemma idt_test_passes:
  assumes "length (idt s) = 256" "idt_init addr s = Some s'" "\<And>h. addr h \<noteq> 0" "idt t = idt s'"
  shows "check_gates [0..<10] 1 t = Some (Return 1, t)"
proof (rule check_gates_pass)
  fix i
  assume i: "i \<in> set [0..<10]"
  obtain ds where ds: "idt s' = ds" "length ds = 256" "\<forall>v<256. ds ! v = (if v < 32 then low_gate addr v (idt s ! v) else high_gate addr v (idt s ! v))"
    using idt_init_eq [OF assms(1), of addr] assms(2) by auto
  have "map_of exception_entries i \<noteq> None" using i by (simp add: exception_entries_def)
  then obtain h where "map_of exception_entries i = Some h" by auto
  then have "gate_target (ds ! i) = addr h" using ds(3) i by (simp add: low_gate_def Let_def)
  then show "i < length (idt t) \<and> gate_target (idt t ! i) \<noteq> 0" using assms(3,4) ds(1,2) i by simp
qed

text \<open>In every state of the running kernel the addresses 0 and 0xC0000 can be read, against the comments of the tests: the
  first 4 MB are mapped as a whole. 0x500000 can be read and 0x900000 raises a page fault, as announced.\<close>

lemma load_int_mapped:
  assumes "kernel_inv s" "unat a < 8388600"
  shows "load_int a s = Some (Return 0, s)"
proof -
  have "unat (a + i) < 8388608" if "i \<in> {0, 1, 2, 3}" for i
  proof -
    have "unat i \<le> 3" using that by auto
    then have "unat (a + i) = unat a + unat i" using assms(2) by (intro unat_add_lem [THEN iffD1]) simp
    then show ?thesis using assms(2) \<open>unat i \<le> 3\<close> by simp
  qed
  then have "translate False (a + i) s \<noteq> None" if "i \<in> {0, 1, 2, 3}" for i
    using usable_kernel(1) [OF kernel_invD(3,4) [OF assms(1)]] that by blast
  then show ?thesis by (simp add: load_int_def)
qed

lemma beyond_kernel_absent:
  assumes inv: "paging_inv s" and c: "usable_directory s (cr3 s)" and va: "unat va div 4194304 = 2"
  shows "translate user va s = None"
proof -
  have ok: "paging_ok s" using inv by (simp add: paging_inv_def)
  obtain k where k: "k < 7" "cr3 s = addr_pde s k" "pdes s ! k ! 2 = 0"
  proof -
    have "pdes s ! 0 ! 2 = 0" using inv by (simp add: paging_inv_def)
    then show ?thesis
      using c that [of 0] that [of "Suc k" for k] by (auto simp: usable_directory_def slot_ready_def slot_directory_def)
  qed
  have d: "directory_at (cr3 s) s = Some (pdes s ! k)" "length (pdes s ! k) = 1024"
    using directory_at_loaded [OF ok k(1)] k(1,2) ok by (simp_all add: paging_ok_def)
  show ?thesis using translate_absent [OF d] k(3) va by simp
qed

lemma page_tests:
  assumes "kernel_inv s"
  shows "page_test_0 s = Some (Return 0, s)" "page_test_C0000 s = Some (Return 0, s)" "page_test_kernel s = Some (Return 0, s)"
    "page_test_outkernel s = page_fault_expt s"
proof -
  show "page_test_0 s = Some (Return 0, s)" "page_test_C0000 s = Some (Return 0, s)" "page_test_kernel s = Some (Return 0, s)"
    using load_int_mapped [OF assms] by (simp_all add: page_test_0_def page_test_C0000_def page_test_kernel_def)
  have "translate False 0x900000 s = None"
    by (rule beyond_kernel_absent [OF kernel_invD(3,4) [OF assms]]) simp
  then show "page_test_outkernel s = page_fault_expt s" by (simp add: page_test_outkernel_def load_int_def)
qed

end
