(* ===== verification/Spec2Isabelle.thy ===== *)
theory Spec2Isabelle
  imports CLib CMem Pic Sound Rtc Console Screen Output Keyboard Terminal FileSystem Paging Process SystemCalls Execute
    Scheduler Idt Mouse Font TextBar Vga Picture Kernel Startup Drivers Invariant Handlers System Checks
begin

text \<open>
  A verification development for the Illinix kernel (the C files under \<open>src/\<close>): a 32-bit x86 kernel with three
  terminals, six program slots, a read-only file system, a round-robin scheduler and a handful of drivers.

  \<^bold>\<open>The program and its model.\<close> The kernel is a set of global variables, operations on them, and interrupt handlers. The
  state is one record that grows along the imports, one extension per C file, so that an operation is a function on the
  schemes of its own record and can be used unchanged on every later one:

    \<^item> \<open>Machine\<close> (the port macros and the interrupt flag of \<open>lib.h\<close>): the log of port accesses, the devices' answers as a
      function of that log, the interrupt flag;
    \<^item> \<open>Pic\<close> (\<open>i8259.c\<close>), \<open>Sound\<close> (\<open>sound.c\<close>), \<open>Rtc\<close> (\<open>RTC.c\<close>): the drivers that need only ports;
    \<^item> \<open>Buffers\<close>, \<open>CLib\<close>, \<open>CMem\<close> (\<open>lib.c\<close>): C strings and arrays, the string functions, the assembly block operations;
    \<^item> \<open>Console\<close>, \<open>Screen\<close>, \<open>Output\<close> (\<open>lib.c\<close>): physical memory and the terminal table; \<open>clear\<close>, \<open>putc\<close>, \<open>putc_background\<close>;
      \<open>puts\<close>, \<open>printf\<close>;
    \<^item> \<open>Keyboard\<close> (\<open>keyboard.c\<close>), \<open>Terminal\<close> (\<open>terminal.c\<close>): the line editor in the interrupt handler and the terminal driver;
    \<^item> \<open>FileSystem\<close> (\<open>file_system.c\<close>): the disk image in memory and its driver;
    \<^item> \<open>Paging\<close> (\<open>page.c\<close>): page directories and tables, and the processor's translation through them;
    \<^item> \<open>Process\<close>, \<open>SystemCalls\<close>, \<open>Execute\<close> (\<open>system_call_handler.c\<close>): control blocks, the descriptor calls, \<open>getargs\<close>,
      \<open>vidmap\<close>, \<open>execute\<close> and \<open>halt\<close>; \<open>Sample\<close> is a small machine for the examples;
    \<^item> \<open>Scheduler\<close> (\<open>pit.c\<close>), \<open>Idt\<close> (\<open>interrupt_desc_table.c\<close>, \<open>syscall.S\<close>), \<open>Mouse\<close> (\<open>mouse.c\<close>);
    \<^item> \<open>Font\<close>, \<open>TextBar\<close> (\<open>text.c\<close>), \<open>Vga\<close> (\<open>modex.c\<close>), \<open>Picture\<close> and \<open>Kernel\<close> (\<open>kernel.c\<close>), \<open>Startup\<close>: the start-up;
    \<^item> \<open>Drivers\<close>, \<open>Invariant\<close>, \<open>Handlers\<close>, \<open>System\<close>: all of them together as one system that programs and interrupts drive;
    \<^item> \<open>Checks\<close> (\<open>tests.c\<close>): the test programs as callers of the drivers.

  Definitions carry the names of the C functions and variables, with a suffix or prefix where a name is taken
  (\<open>sys_read\<close> for the system call \<open>read\<close>). \<open>Prelude\<close> holds what all share: the integer types, checked array accesses
  (\<open>aget\<close>, \<open>aset\<close>), counted loops (\<open>for_range\<close>, \<open>for_opt\<close>) and waiting for an interrupt.

  \<^bold>\<open>Conventions.\<close> \<open>None\<close> stands for a C execution without a defined result: an index outside its array, a null
  dereference, a loop that does not end. An error return such as \<open>-1\<close> is a value. Integers keep their width where it
  matters (\<open>u8\<close>, \<open>u16\<close>, \<open>u32\<close>); array indices and counters that stay small are \<open>int\<close> or \<open>nat\<close>. Memory is a map from 32-bit addresses
  to bytes. The kernel's own addresses are physical; a user buffer is reached through the page directory in \<open>cr3\<close>. A loop
  that waits for an interrupt takes the list of handlers that run meanwhile, and yields \<open>None\<close> if it still waits after all
  of them; the theorems about waiting say which interrupts are enough. Loops with no evident bound are \<open>partial_function\<close>s
  whose results are proved to exist. The compiler's uninitialised values (\<open>junk\<close>, \<open>stack_junk\<close>), the addresses that the
  linker chooses and the devices' answers are parameters.

  \<^bold>\<open>What the theorems show.\<close>

    \<^item> Drivers: two conforming interrupt controllers reach the documented state; the clock accepts exactly the powers of
      two up to 1024; a read of the clock returns with the next interrupt and not before; the mouse mark stays inside the
      display and leaves nothing behind.
    \<^item> Text: \<open>putc\<close> and \<open>putc_background\<close> implement operations of an abstract screen (cells and a cursor) and leave the rest
      of memory alone; \<open>printf\<close> prints the text of a reference formatter; \<open>itoa\<close> can be read back.
    \<^item> Terminals: the keyboard handler keeps every array access in bounds (with the exceptions below) and delivers a typed line
      to the reader of its terminal; switching shows the terminal's own page.
    \<^item> Files: directory search, range reads and a whole file through system calls, within a computed number of calls.
    \<^item> Processes: \<open>execute\<close> loads and enters a program in a free slot or rejects it without effect on other processes; \<open>halt\<close>
      undoes \<open>execute\<close>; the slots' pages do not overlap and the kernel's pages are out of reach of programs; an
      exception ends only the program that caused it.
    \<^item> Scheduling: the first ticks start the three shells, afterwards every third tick resumes the same program with its
      registers.
    \<^item> Start-up: from what the boot loader leaves, \<open>entry\<close> reaches the state from which the first tick enters a
      shell. It connects the invariants: \<open>static_ok\<close> is the static data, \<open>set_up\<close> the state after initialisation, which
      every later step of the start-up is shown to leave alone (\<open>quiet\<close>), and it gives \<open>booting\<close>, the
      scheduler's own starting point.
    \<^item> The system: \<open>system_run\<close> is the step relation of the running kernel (user stores and registers, system calls,
      exceptions, timer, clock, keyboard, mouse, in any order; a call that waits lets any of them happen meanwhile). The
      invariant \<open>kernel_inv\<close> holds after the start-up and in every state that is reached from there. What only moves text or
      device state is a \<open>console_step\<close>, \<open>driver_step\<close> or \<open>same_processes\<close> step (\<open>Drivers\<close>); \<open>Invariant\<close> has \<open>execute\<close>, \<open>halt\<close> and
      the exceptions, \<open>Handlers\<close> the system calls and the timer. It follows that user code never reaches the kernel's memory or
      another slot's through the page tables, and that the kernel is mapped in every directory that is ever loaded.

  The interfaces are locales: \<open>byte_store\<close> (arrays and memory blocks, used by the string functions), \<open>text_device\<close> and
  \<open>text_output\<close> (what prints characters), \<open>file_buffer\<close> and \<open>fs_destination\<close> (where a driver stores what it reads), \<open>keeping_store\<close> (stores that keep a property),
  \<open>user_buffer\<close> (where a program keeps what it writes), \<open>interrupt_lines\<close>. Each is interpreted on the model's own
  definitions: kernel arrays, kernel memory, a program's memory through its page directory, the three consoles. The
  invariants are \<open>console_ok\<close>, \<open>keyboard_ok\<close>, \<open>paging_inv\<close>, \<open>procs_ok\<close>, \<open>fs_ready\<close>, \<open>steady\<close>
  and, over all of them, \<open>kernel_inv\<close>.

  Several theorems state that the code does something that it should not: Enter on a full line and a click on a
  long word write outside their arrays, \<open>getargs\<close> copies with an inverted test, the video page outlives its program, text mode
  is cleared beyond the video memory, and a rejected boot leaves interrupts on.

  \<^bold>\<open>Bounds.\<close> The polling loops of the mouse driver are bounded by the code (100000 rounds). A file is read in as many
  calls as its length divided by the buffer size, plus two. The loading screen needs 160 clock ticks, two per column. Nothing
  else uses fuel.

  \<^bold>\<open>Not modelled.\<close> The planes, timing and picture of the video card; the privilege checks and the segment registers of the
  processor (\<open>boot.S\<close>); the stack frame that the assembly stubs save (\<open>syscall.S\<close> keeps the number check and the jump table);
  nested interrupts inside a handler; macros without effect (\<open>debug.h\<close>).
\<close>

end
